(* ===== verification/Prelude.thy ===== *)
theory Prelude
  imports Main "HOL-Library.Sublist"
begin

text \<open>
  Shared vocabulary of the development: results of code that may raise, the
  theorem collections the components fill, and the generic list lemmas they use.
  Nothing here models a function of the repository.
\<close>

named_theorems component_defs "definitions unfolded by the component proofs"
named_theorems fail_closed "facts saying that a failed check withholds the result"

section \<open>Results of code that may raise\<close>

text \<open>
  A function that may raise an exception of kind \<open>'e\<close> returns \<open>'e + 'a\<close>:
  \<open>Inl e\<close> is the raised exception and \<open>Inr v\<close> the returned value.
\<close>

definition rbind :: "'e + 'a \<Rightarrow> ('a \<Rightarrow> 'e + 'b) \<Rightarrow> 'e + 'b" where
  "rbind m k = (case m of Inl e \<Rightarrow> Inl e | Inr a \<Rightarrow> k a)"

definition guard_else :: "bool \<Rightarrow> 'e \<Rightarrow> 'e + unit" where
  "guard_else b e = (if b then Inr () else Inl e)"

fun rmap :: "('a \<Rightarrow> 'e + 'b) \<Rightarrow> 'a list \<Rightarrow> 'e + 'b list" where
  "rmap f [] = Inr []"
| "rmap f (x # xs) = rbind (f x) (\<lambda>y. rbind (rmap f xs) (\<lambda>ys. Inr (y # ys)))"

lemma rbind_simps [simp]:
  "rbind (Inl e) k = Inl e"
  "rbind (Inr a) k = k a"
  by (simp_all add: rbind_def)

lemma guard_else_simps [simp]:
  "guard_else True e = Inr ()"
  "guard_else False e = Inl e"
  by (simp_all add: guard_else_def)

lemma rbind_Inr_iff: "rbind m k = Inr b \<longleftrightarrow> (\<exists>a. m = Inr a \<and> k a = Inr b)"
  by (cases m) auto

lemma rbind_Inl_iff:
  "rbind m k = Inl e \<longleftrightarrow> m = Inl e \<or> (\<exists>a. m = Inr a \<and> k a = Inl e)"
  by (cases m) auto

lemma guard_else_Inr_iff: "guard_else b e = Inr u \<longleftrightarrow> b"
  by (cases b) auto

lemma guard_else_Inl_iff: "guard_else b e = Inl e' \<longleftrightarrow> \<not> b \<and> e' = e"
  by (cases b) auto

lemmas result_simps = rbind_Inr_iff rbind_Inl_iff guard_else_Inr_iff guard_else_Inl_iff

lemma rmap_Inr_length: "rmap f xs = Inr ys \<Longrightarrow> length ys = length xs"
  by (induction xs arbitrary: ys) (auto simp: rbind_Inr_iff)

lemma rmap_Inr_set:
  "rmap f xs = Inr ys \<Longrightarrow> y \<in> set ys \<longleftrightarrow> (\<exists>x \<in> set xs. f x = Inr y)"
  by (induction xs arbitrary: ys) (auto simp: rbind_Inr_iff)

lemma rmap_Inr_nth:
  "rmap f xs = Inr ys \<Longrightarrow> i < length xs \<Longrightarrow> f (xs ! i) = Inr (ys ! i)"
proof (induction xs arbitrary: ys i)
  case Nil
  then show ?case by simp
next
  case (Cons x xs)
  then show ?case by (cases i) (auto simp: rbind_Inr_iff)
qed

lemma rmap_total: "(\<And>x. x \<in> set xs \<Longrightarrow> f x = Inr (g x)) \<Longrightarrow> rmap f xs = Inr (map g xs)"
  by (induction xs) auto

section \<open>Lists read in order\<close>

text \<open>
  \<open>next((x for x in xs if p x), None)\<close> is the library's \<open>List.find\<close>.
\<close>

lemma find_None_filter: "List.find p xs = None \<longleftrightarrow> filter p xs = []"
  by (induction xs) auto

lemma find_hd_filter: "filter p xs \<noteq> [] \<Longrightarrow> List.find p xs = Some (hd (filter p xs))"
  by (induction xs) auto

lemma find_SomeD: "List.find p xs = Some x \<Longrightarrow> p x \<and> x \<in> set xs"
  by (induction xs) (auto split: if_splits)

lemma find_first_split:
  "List.find p xs = Some x \<Longrightarrow> \<exists>us vs. xs = us @ x # vs \<and> p x \<and> (\<forall>u \<in> set us. \<not> p u)"
proof (induction xs)
  case Nil
  then show ?case by simp
next
  case (Cons y ys)
  show ?case
  proof (cases "p y")
    case True
    with Cons.prems show ?thesis
      by (intro exI [of _ "[]"] exI [of _ ys]) simp
  next
    case False
    with Cons.prems Cons.IH obtain us vs
      where "ys = us @ x # vs" "p x" "\<forall>u \<in> set us. \<not> p u" by auto
    with False show ?thesis
      by (intro exI [of _ "y # us"] exI [of _ vs]) auto
  qed
qed

text \<open>
  Appending a value that is not there yet (\<open>if c not in acc: acc.append(c)\<close>),
  over a whole list: the distinct values in first-seen order.
\<close>

fun add_new :: "'a list \<Rightarrow> 'a \<Rightarrow> 'a list" where
  "add_new acc x = (if x \<in> set acc then acc else acc @ [x])"

lemma set_foldl_add_new: "set (foldl add_new acc xs) = set acc \<union> set xs"
  by (induction xs arbitrary: acc) auto

lemma distinct_foldl_add_new: "distinct acc \<Longrightarrow> distinct (foldl add_new acc xs)"
  by (induction xs arbitrary: acc) auto

lemma foldl_add_new_Nil_iff: "foldl add_new acc xs = [] \<longleftrightarrow> acc = [] \<and> xs = []"
proof -
  have "set (foldl add_new acc xs) = {} \<longleftrightarrow> set acc = {} \<and> set xs = {}"
    by (auto simp: set_foldl_add_new)
  then show ?thesis by simp
qed

text \<open>
  \<open>min(xs, key=f)\<close>: the first element whose key no other element undercuts.
\<close>

fun min_by :: "('a \<Rightarrow> 'k::linorder) \<Rightarrow> 'a \<Rightarrow> 'a list \<Rightarrow> 'a" where
  "min_by f best [] = best"
| "min_by f best (x # xs) = min_by f (if f x < f best then x else best) xs"

lemma min_by_in: "min_by f b xs \<in> insert b (set xs)"
  by (induction xs arbitrary: b) (auto split: if_splits)

lemma min_by_le_seed: "f (min_by f b xs) \<le> f b"
  by (induction xs arbitrary: b) (auto split: if_splits intro: order_trans less_imp_le)

lemma min_by_le: "x \<in> insert b (set xs) \<Longrightarrow> f (min_by f b xs) \<le> f x"
proof (induction xs arbitrary: b)
  case Nil
  then show ?case by simp
next
  case (Cons y ys)
  let ?b = "if f y < f b then y else b"
  have "f (min_by f ?b ys) \<le> f ?b" by (rule min_by_le_seed)
  then have "f (min_by f ?b ys) \<le> f b" "f (min_by f ?b ys) \<le> f y"
    by (auto split: if_splits)
  with Cons show ?case by auto
qed

lemma map_eq_inj_on:
  "map f xs = map f ys \<Longrightarrow>
     (\<And>x y. x \<in> set xs \<Longrightarrow> y \<in> set ys \<Longrightarrow> f x = f y \<Longrightarrow> g x = g y) \<Longrightarrow> map g xs = map g ys"
proof (induction xs arbitrary: ys)
  case Nil
  then show ?case by simp
next
  case (Cons x xs)
  then obtain y zs where "ys = y # zs" by (cases ys) auto
  with Cons show ?case by auto
qed

lemma le_foldr_max: "x \<in> set xs \<Longrightarrow> x \<le> foldr max xs (0 :: nat)"
  by (induction xs) auto

text \<open>Termination of functions that drop a prefix before they recur.\<close>

lemma length_dropWhile_less [termination_simp]:
  "length (dropWhile p xs) < Suc (length xs)"
  by (simp add: length_dropWhile_le less_Suc_eq_le)

end
