(* ===== verification/Sha256.thy ===== *)
theory Sha256
  imports PyText "HOL-Library.Word"
begin

unbundle bit_operations_syntax

text \<open>
  SHA-256 as \<open>hashlib.sha256\<close> computes it, on byte strings (characters read as
  the bytes 0 to 255). The digest is executable; the theorems about seals never
  evaluate it and never assume that it has no collisions: they say that equal
  digests mean equal inputs or two explicit inputs that collide.
\<close>

type_synonym w32 = "32 word"

definition round_constants :: "w32 list" where
  "round_constants =
    [1116352408, 1899447441, 3049323471, 3921009573, 961987163, 1508970993, 2453635748,
     2870763221, 3624381080, 310598401, 607225278, 1426881987, 1925078388, 2162078206,
     2614888103, 3248222580, 3835390401, 4022224774, 264347078, 604807628, 770255983,
     1249150122, 1555081692, 1996064986, 2554220882, 2821834349, 2952996808, 3210313671,
     3336571891, 3584528711, 113926993, 338241895, 666307205, 773529912, 1294757372,
     1396182291, 1695183700, 1986661051, 2177026350, 2456956037, 2730485921, 2820302411,
     3259730800, 3345764771, 3516065817, 3600352804, 4094571909, 275423344, 430227734,
     506948616, 659060556, 883997877, 958139571, 1322822218, 1537002063, 1747873779,
     1955562222, 2024104815, 2227730452, 2361852424, 2428436474, 2756734187, 3204031479,
     3329325298]"

definition initial_state :: "w32 list" where
  "initial_state =
    [1779033703, 3144134277, 1013904242, 2773480762, 1359893119, 2600822924, 528734635,
     1541459225]"

definition sigma0 :: "w32 \<Rightarrow> w32" where
  "sigma0 x = word_rotr 7 x XOR word_rotr 18 x XOR drop_bit 3 x"

definition sigma1 :: "w32 \<Rightarrow> w32" where
  "sigma1 x = word_rotr 17 x XOR word_rotr 19 x XOR drop_bit 10 x"

definition Sigma0 :: "w32 \<Rightarrow> w32" where
  "Sigma0 x = word_rotr 2 x XOR word_rotr 13 x XOR word_rotr 22 x"

definition Sigma1 :: "w32 \<Rightarrow> w32" where
  "Sigma1 x = word_rotr 6 x XOR word_rotr 11 x XOR word_rotr 25 x"

text \<open>The message schedule, newest word first.\<close>

fun extend_schedule :: "nat \<Rightarrow> w32 list \<Rightarrow> w32 list" where
  "extend_schedule 0 ws = ws"
| "extend_schedule (Suc n) ws =
     extend_schedule n ((sigma1 (ws ! 1) + ws ! 6 + sigma0 (ws ! 14) + ws ! 15) # ws)"

fun sha_round :: "w32 list \<Rightarrow> w32 \<times> w32 \<Rightarrow> w32 list" where
  "sha_round [a, b, c, d, e, f, g, h] (k, w) =
     (let t1 = h + Sigma1 e + ((e AND f) XOR (NOT e AND g)) + k + w;
          t2 = Sigma0 a + ((a AND b) XOR (a AND c) XOR (b AND c))
      in [t1 + t2, a, b, c, d + t1, e, f, g])"
| "sha_round st kw = st"

definition compress :: "w32 list \<Rightarrow> w32 list \<Rightarrow> w32 list" where
  "compress st block =
     map2 (+) st (foldl sha_round st (zip round_constants (rev (extend_schedule 48 (rev block)))))"

fun be_words :: "string \<Rightarrow> w32 list" where
  "be_words (a # b # c # d # r) =
     (push_bit 24 (of_char a) OR push_bit 16 (of_char b) OR push_bit 8 (of_char c) OR of_char d)
       # be_words r"
| "be_words _ = []"

fun be_bytes :: "nat \<Rightarrow> nat \<Rightarrow> string" where
  "be_bytes 0 n = []"
| "be_bytes (Suc k) n = be_bytes k (n div 256) @ [char_of (n mod 256)]"

definition sha_pad :: "string \<Rightarrow> string" where
  "sha_pad m =
     m @ [char_of (128 :: nat)] @ replicate ((119 - length m mod 64) mod 64) (char_of (0 :: nat))
       @ be_bytes 8 (8 * length m)"

fun sha_blocks :: "nat \<Rightarrow> w32 list \<Rightarrow> w32 list \<Rightarrow> w32 list" where
  "sha_blocks 0 st ws = st"
| "sha_blocks (Suc n) st ws = sha_blocks n (compress st (take 16 ws)) (drop 16 ws)"

definition sha256_words :: "string \<Rightarrow> w32 list" where
  "sha256_words m = (let ws = be_words (sha_pad m) in sha_blocks (length ws div 16) initial_state ws)"

definition hex_digit :: "nat \<Rightarrow> char" where
  "hex_digit n = (if n < 10 then char_of (48 + n) else char_of (87 + n))"

definition hex_of_word :: "w32 \<Rightarrow> string" where
  "hex_of_word w = map (\<lambda>k. hex_digit (unat (drop_bit k w AND 15))) [28, 24, 20, 16, 12, 8, 4, 0]"

definition sha256_hexdigest :: "string \<Rightarrow> string" where
  "sha256_hexdigest m = concat (map hex_of_word (sha256_words m))"

section \<open>The digest is 64 lower-case hexadecimal digits\<close>

definition is_hex :: "char \<Rightarrow> bool" where
  "is_hex c = (is_digit c \<or> 97 \<le> code c \<and> code c \<le> 102)"

lemma hex_digit_is_hex: "n < 16 \<Longrightarrow> is_hex (hex_digit n)"
  by (simp add: hex_digit_def is_hex_def is_digit_def)

lemma hex_digit_inj: "m < 16 \<Longrightarrow> n < 16 \<Longrightarrow> hex_digit m = hex_digit n \<Longrightarrow> m = n"
proof -
  assume mn: "m < 16" "n < 16" and eq: "hex_digit m = hex_digit n"
  have "code (hex_digit k) = (if k < 10 then 48 + k else 87 + k)" if "k < 16" for k
    using that by (simp add: hex_digit_def)
  with mn have "(if m < 10 then 48 + m else 87 + m) = (if n < 10 then 48 + n else 87 + n)"
    using eq by metis
  with mn show "m = n" by (auto split: if_splits)
qed

lemma length_hex_of_word [simp]: "length (hex_of_word w) = 8"
  by (simp add: hex_of_word_def)

lemma nibble_less: "unat (x AND 15 :: w32) < 16"
proof -
  have "unat (x AND 15) \<le> unat (15 :: w32)"
    by (rule word_and_le1 [THEN word_le_nat_alt [THEN iffD1]])
  then show ?thesis by simp
qed

lemma hex_of_word_is_hex: "c \<in> set (hex_of_word w) \<Longrightarrow> is_hex c"
  by (auto simp: hex_of_word_def nibble_less intro!: hex_digit_is_hex)

lemma length_sha_round [simp]: "length (sha_round st kw) = length st"
  by (induction st kw rule: sha_round.induct) (auto simp: Let_def)

lemma length_foldl_sha_round [simp]: "length (foldl sha_round st kws) = length st"
  by (induction kws arbitrary: st) auto

lemma length_compress [simp]: "length (compress st b) = length st"
  by (simp add: compress_def)

lemma length_sha_blocks [simp]: "length (sha_blocks n st ws) = length st"
  by (induction n arbitrary: st ws) auto

lemma length_sha256_words [simp]: "length (sha256_words m) = 8"
  by (simp add: sha256_words_def Let_def initial_state_def)

lemma length_sha256_hexdigest [simp]: "length (sha256_hexdigest m) = 64"
  by (simp add: sha256_hexdigest_def length_concat comp_def sum_list_triv)

lemma sha256_hexdigest_hex: "c \<in> set (sha256_hexdigest m) \<Longrightarrow> is_hex c"
  by (auto simp: sha256_hexdigest_def dest: hex_of_word_is_hex)

text \<open>Two messages with one digest: what a proof exhibits instead of assuming it away.\<close>

definition sha_collision :: "string \<Rightarrow> string \<Rightarrow> bool" where
  "sha_collision a b = (a \<noteq> b \<and> sha256_hexdigest a = sha256_hexdigest b)"

lemma sha256_eq_or_collision:
  "sha256_hexdigest a = sha256_hexdigest b \<Longrightarrow> a = b \<or> sha_collision a b"
  by (auto simp: sha_collision_def)

end
