(* ===== verification/Json.thy ===== *)
theory Json
  imports Sha256
begin

text \<open>
  The JSON values the sources serialise and \<open>json.dumps\<close> with the styles they use:
  \<open>sort_keys=True\<close>, compact separators, with and without \<open>ensure_ascii\<close>, and the
  UTF-8 encoding of the result. The main result is that the compact form is
  injective up to key order, so equal digests pin equal values or a collision.
  A Python dict is the list of its items, with distinct keys, in insertion order.
\<close>

datatype json =
    JNull
  | JBool bool
  | JInt int
  | JStr string
  | JList "json list"
  | JObj "(string \<times> json) list"

section \<open>Printing\<close>

definition esc_u :: "nat \<Rightarrow> string" where
  "esc_u n = CHR 92 # ''u00'' @ [hex_digit (n div 16), hex_digit (n mod 16)]"

definition esc_char :: "bool \<Rightarrow> char \<Rightarrow> string" where
  "esc_char ascii c =
     (let n = code c in
      if n = 34 then [CHR 92, CHR 34]
      else if n = 92 then [CHR 92, CHR 92]
      else if n = 10 then [CHR 92, CHR ''n'']
      else if n = 13 then [CHR 92, CHR ''r'']
      else if n = 9 then [CHR 92, CHR ''t'']
      else if n = 12 then [CHR 92, CHR ''f'']
      else if n = 8 then [CHR 92, CHR ''b'']
      else if n < 32 \<or> ascii \<and> 126 < n then esc_u n
      else [c])"

definition print_str :: "bool \<Rightarrow> string \<Rightarrow> string" where
  "print_str ascii s = [CHR 34] @ concat (map (esc_char ascii) s) @ [CHR 34]"

text \<open>A style is \<open>ensure_ascii\<close> with the item and key separators.\<close>

type_synonym style = "bool \<times> string \<times> string"

fun print_json :: "style \<Rightarrow> json \<Rightarrow> string" where
  "print_json st JNull = ''null''"
| "print_json st (JBool b) = (if b then ''true'' else ''false'')"
| "print_json st (JInt i) = show_int i"
| "print_json (a, isep, ksep) (JStr s) = print_str a s"
| "print_json (a, isep, ksep) (JList xs) =
     ''['' @ join isep (map (print_json (a, isep, ksep)) xs) @ '']''"
| "print_json (a, isep, ksep) (JObj kvs) =
     ''{'' @ join isep (map (\<lambda>(k, v). print_str a k @ ksep @ print_json (a, isep, ksep) v) kvs)
       @ ''}''"

fun canon :: "json \<Rightarrow> json" where
  "canon (JList xs) = JList (map canon xs)"
| "canon (JObj kvs) = JObj (sort_key fst (map (\<lambda>(k, v). (k, canon v)) kvs))"
| "canon j = j"

definition compact :: "bool \<Rightarrow> style" where
  "compact ascii = (ascii, '','', '':'')"

text \<open>\<open>json.dumps(value, sort_keys=True, separators=(",", ":"))\<close>.\<close>

definition dumps_compact :: "bool \<Rightarrow> json \<Rightarrow> string" where
  "dumps_compact ascii j = print_json (compact ascii) (canon j)"

text \<open>\<open>json.dumps(value, sort_keys=True)\<close> with the default separators.\<close>

definition dumps_sorted :: "json \<Rightarrow> string" where
  "dumps_sorted j = print_json (True, '', '', '': '') (canon j)"

definition utf8_char :: "char \<Rightarrow> string" where
  "utf8_char c =
     (let n = code c in
      if n < 128 then [c] else [char_of (192 + n div 64), char_of (128 + n mod 64)])"

definition utf8_encode :: "string \<Rightarrow> string" where
  "utf8_encode s = concat (map utf8_char s)"

section \<open>Injectivity of the pieces\<close>

lemma code_less [simp]: "code c < 256"
  by (simp add: code_def)

lemma code_inj: "code c = code d \<longleftrightarrow> c = d"
  by (simp add: code_def)

lemma code_numerals [simp]:
  "code (CHR 34) = 34" "code (CHR 92) = 92" "code (CHR ''n'') = 110" "code (CHR ''r'') = 114"
  "code (CHR ''t'') = 116" "code (CHR ''f'') = 102" "code (CHR ''b'') = 98" "code (CHR ''u'') = 117"
  by (simp_all add: code_def)

lemma utf8_char_step:
  assumes "utf8_char c @ u = utf8_char d @ v"
  shows "c = d \<and> u = v"
proof -
  have hi: "code x div 64 < 4" for x
    by (simp add: less_mult_imp_div_less)
  have lo: "(if code x < 128 then code x else 192 + code x div 64) = code (hd (utf8_char x))" for x
    using hi [of x] by (simp add: utf8_char_def Let_def)
  from assms have "hd (utf8_char c) = hd (utf8_char d)"
    by (cases "utf8_char c"; cases "utf8_char d") (auto simp: utf8_char_def Let_def split: if_splits)
  then have hd_eq: "(if code c < 128 then code c else 192 + code c div 64)
      = (if code d < 128 then code d else 192 + code d div 64)"
    by (simp add: lo)
  show ?thesis
  proof (cases "code c < 128")
    case True
    with hd_eq hi have "code d < 128" "code c = code d" by (auto split: if_splits)
    with True assms show ?thesis by (simp add: utf8_char_def code_inj)
  next
    case False
    with hd_eq hi have d: "\<not> code d < 128" "code c div 64 = code d div 64"
      by (auto split: if_splits)
    with False assms have "char_of (128 + code c mod 64) = (char_of (128 + code d mod 64) :: char)"
      and uv: "u = v" by (auto simp: utf8_char_def Let_def)
    then have "code (char_of (128 + code c mod 64)) = code (char_of (128 + code d mod 64))"
      by simp
    then have "code c mod 64 = code d mod 64" by simp
    with d have "code c = code d" by (metis div_mult_mod_eq)
    with uv show ?thesis by (simp add: code_inj)
  qed
qed

lemma utf8_char_not_Nil [simp]: "utf8_char c \<noteq> []"
  by (simp add: utf8_char_def Let_def)

lemma utf8_encode_inj: "utf8_encode s = utf8_encode t \<longleftrightarrow> s = t"
proof
  show "utf8_encode s = utf8_encode t \<Longrightarrow> s = t"
  proof (induction s arbitrary: t)
    case Nil
    then show ?case by (cases t) (auto simp: utf8_encode_def)
  next
    case (Cons c cs)
    then obtain d ds where t: "t = d # ds" by (cases t) (auto simp: utf8_encode_def)
    with Cons.prems have "utf8_char c @ utf8_encode cs = utf8_char d @ utf8_encode ds"
      by (simp add: utf8_encode_def)
    then have "c = d \<and> utf8_encode cs = utf8_encode ds" by (rule utf8_char_step)
    with Cons.IH t show ?case by auto
  qed
qed simp

text \<open>
  What an escape looks like: a plain character that is neither a quote nor a
  backslash, a backslash and a letter other than \<open>u\<close>, or a six-character escape.
\<close>

lemma esc_u_step: "m < 256 \<Longrightarrow> n < 256 \<Longrightarrow> esc_u m @ u = esc_u n @ v \<Longrightarrow> m = n \<and> u = v"
proof -
  assume mn: "m < 256" "n < 256" and eq: "esc_u m @ u = esc_u n @ v"
  from eq have d: "hex_digit (m div 16) = hex_digit (n div 16)"
    and r: "hex_digit (m mod 16) = hex_digit (n mod 16)" and uv: "u = v"
    by (auto simp: esc_u_def)
  from mn have "m div 16 < 16" "n div 16 < 16" by auto
  with d have "m div 16 = n div 16" by (metis hex_digit_inj)
  moreover from r have "m mod 16 = n mod 16" by (simp add: hex_digit_inj)
  ultimately have "m = n" by (metis div_mult_mod_eq)
  with uv show ?thesis by simp
qed

lemma esc_u_Cons: "esc_u n = CHR 92 # CHR ''u'' # ''00'' @ [hex_digit (n div 16), hex_digit (n mod 16)]"
  by (simp add: esc_u_def)

definition short_escape :: "nat \<Rightarrow> char option" where
  "short_escape n =
     (if n = 34 then Some (CHR 34) else if n = 92 then Some (CHR 92)
      else if n = 10 then Some (CHR ''n'') else if n = 13 then Some (CHR ''r'')
      else if n = 9 then Some (CHR ''t'') else if n = 12 then Some (CHR ''f'')
      else if n = 8 then Some (CHR ''b'') else None)"

lemma short_escape_inj:
  "short_escape m = Some e \<Longrightarrow> short_escape n = Some e \<Longrightarrow> m = n"
  by (auto simp: short_escape_def split: if_splits)

lemma short_escape_not_u: "short_escape n \<noteq> Some (CHR ''u'')"
  by (auto simp: short_escape_def)

lemma esc_char_cases:
  obtains (short) e where "short_escape (code c) = Some e" "esc_char a c = [CHR 92, e]"
  | (long) "short_escape (code c) = None" "esc_char a c = esc_u (code c)"
  | (plain) "code c \<noteq> 34" "code c \<noteq> 92" "esc_char a c = [c]"
  by (cases "short_escape (code c)"; cases "code c < 32 \<or> a \<and> 126 < code c")
    (auto simp: esc_char_def short_escape_def Let_def split: if_splits)

lemma esc_char_step:
  assumes "esc_char a c @ u = esc_char a d @ v"
  shows "c = d \<and> u = v"
proof (cases a c rule: esc_char_cases)
  case c: (short e)
  show ?thesis
  proof (cases a d rule: esc_char_cases)
    case d: (short e')
    with c assms have "e = e'" "u = v" by auto
    with c d short_escape_inj show ?thesis by (metis code_inj)
  next
    case long
    with c assms show ?thesis by (auto simp: esc_u_Cons short_escape_not_u)
  next
    case plain
    with c assms show ?thesis by auto
  qed
next
  case c: long
  show ?thesis
  proof (cases a d rule: esc_char_cases)
    case d: (short e')
    with c assms show ?thesis by (auto simp: esc_u_Cons short_escape_not_u)
  next
    case d: long
    with c assms have "code c = code d \<and> u = v" by (metis esc_u_step code_less)
    then show ?thesis by (simp add: code_inj)
  next
    case plain
    with c assms show ?thesis by (auto simp: esc_u_Cons)
  qed
next
  case c: plain
  show ?thesis
    by (cases a d rule: esc_char_cases) (use c assms in \<open>auto simp: esc_u_Cons\<close>)
qed

lemma esc_char_not_quote: "esc_char a c @ u \<noteq> CHR 34 # v"
  by (cases a c rule: esc_char_cases) (auto simp: esc_u_Cons)

lemma print_str_body_step:
  "concat (map (esc_char a) s) @ CHR 34 # u = concat (map (esc_char a) t) @ CHR 34 # v
    \<Longrightarrow> s = t \<and> u = v"
proof (induction s arbitrary: t)
  case Nil
  then show ?case
    by (cases t) (auto dest: esc_char_not_quote [THEN notE] esc_char_not_quote [THEN notE, OF sym])
next
  case (Cons c cs)
  show ?case
  proof (cases t)
    case Nil
    with Cons.prems show ?thesis by (auto dest: esc_char_not_quote [THEN notE])
  next
    case (Cons d ds)
    with Cons.prems have
      "c = d \<and> concat (map (esc_char a) cs) @ CHR 34 # u = concat (map (esc_char a) ds) @ CHR 34 # v"
      by (intro esc_char_step) auto
    with Cons.IH Cons show ?thesis by auto
  qed
qed

lemma print_str_step: "print_str a s @ u = print_str a t @ v \<Longrightarrow> s = t \<and> u = v"
  by (rule print_str_body_step [of a s u t v]) (simp add: print_str_def)

section \<open>Injectivity of the compact form\<close>

text \<open>
  A number ends only where something else begins: at the end of the text or before
  one of the three delimiters.
\<close>

definition delimited :: "string \<Rightarrow> bool" where
  "delimited r = (r = [] \<or> hd r \<in> {CHR '','', CHR '']'', CHR ''}''})"

lemma delimited_no_digit: "delimited r \<Longrightarrow> r \<noteq> [] \<Longrightarrow> \<not> is_digit (hd r)"
  by (auto simp: delimited_def is_digit_def code_def)

lemma span_digits_step:
  assumes "ds @ r = es @ s" "\<forall>c \<in> set ds. is_digit c" "\<forall>c \<in> set es. is_digit c"
    "delimited r" "delimited s"
  shows "ds = es \<and> r = s"
proof -
  have stop: "takeWhile is_digit t = []" if "delimited t" for t
    using that delimited_no_digit [of t] by (cases t) auto
  have tw: "takeWhile is_digit (xs @ t) = xs" if "\<forall>c \<in> set xs. is_digit c" "delimited t" for xs t
    using that stop by (simp add: takeWhile_append2)
  have "ds = takeWhile is_digit (ds @ r)" by (simp only: tw [OF assms(2,4)])
  also have "\<dots> = takeWhile is_digit (es @ s)" by (simp only: assms(1))
  also have "\<dots> = es" by (simp only: tw [OF assms(3,5)])
  finally show ?thesis using assms(1) by simp
qed

lemma show_int_step:
  assumes "show_int i @ r = show_int j @ s" "delimited r" "delimited s"
  shows "i = j \<and> r = s"
proof -
  have nat_step: "m = n \<and> r = s" if "show_nat m @ r = show_nat n @ s" for m n
    using span_digits_step [OF that _ _ assms(2,3)] by (auto simp: show_nat_digits)
  have clash: "show_nat m @ x \<noteq> CHR ''-'' # y" for m x y
    using show_nat_digits [of "hd (show_nat m)" m] minus_not_digit
    by (cases "show_nat m") auto
  consider "i < 0" "j < 0" | "\<not> i < 0" "\<not> j < 0" | "(i < 0) \<noteq> (j < 0)" by blast
  then show ?thesis
  proof cases
    case 1
    with assms(1) have "show_nat (nat (- i)) @ r = show_nat (nat (- j)) @ s"
      by (simp add: show_int_def)
    from nat_step [OF this] 1 show ?thesis by (simp add: eq_nat_nat_iff)
  next
    case 2
    with assms(1) have "show_nat (nat i) @ r = show_nat (nat j) @ s"
      by (simp add: show_int_def)
    from nat_step [OF this] 2 show ?thesis by (simp add: eq_nat_nat_iff)
  next
    case 3
    then have False
    proof (cases "i < 0")
      case True
      with 3 assms(1) have "CHR ''-'' # show_nat (nat (- i)) @ r = show_nat (nat j) @ s"
        by (simp add: show_int_def)
      from this [symmetric] show False by (simp add: clash)
    next
      case False
      with 3 assms(1) have "show_nat (nat i) @ r = CHR ''-'' # show_nat (nat (- j)) @ s"
        by (simp add: show_int_def)
      then show False by (simp add: clash)
    qed
    then show ?thesis ..
  qed
qed

definition head_kind :: "char \<Rightarrow> nat" where
  "head_kind c =
     (if c = CHR ''n'' then 1 else if c = CHR ''t'' then 2 else if c = CHR ''f'' then 3
      else if c = CHR 34 then 4 else if c = CHR ''['' then 5 else if c = CHR ''{'' then 6
      else if c = CHR ''-'' \<or> is_digit c then 7 else 0)"

lemma hd_show_int: "hd (show_int i) = CHR ''-'' \<or> is_digit (hd (show_int i))"
  using show_nat_digits [of "hd (show_nat (nat i))" "nat i"] by (simp add: show_int_def)

lemma is_digit_ne [simp]:
  "\<not> is_digit (CHR ''n'')" "\<not> is_digit (CHR ''t'')" "\<not> is_digit (CHR ''f'')"
  "\<not> is_digit (CHR 34)" "\<not> is_digit (CHR ''['')" "\<not> is_digit (CHR ''{'')"
  "\<not> is_digit (CHR '']'')" "\<not> is_digit (CHR ''}'')" "\<not> is_digit (CHR '','')" "\<not> is_digit (CHR ''-'')"
  by (simp_all add: is_digit_def code_def)

lemma head_kind_digit: "c = CHR ''-'' \<or> is_digit c \<Longrightarrow> head_kind c = 7"
  by (auto simp: head_kind_def)

fun json_kind :: "json \<Rightarrow> nat" where
  "json_kind JNull = 1"
| "json_kind (JBool b) = (if b then 2 else 3)"
| "json_kind (JInt i) = 7"
| "json_kind (JStr s) = 4"
| "json_kind (JList xs) = 5"
| "json_kind (JObj kvs) = 6"

lemma print_json_not_Nil [simp]: "print_json (compact a) j \<noteq> []"
  by (cases j) (auto simp: compact_def print_str_def show_int_def)

lemma hd_print_json: "head_kind (hd (print_json (compact a) j)) = json_kind j"
  by (cases j) (auto simp: compact_def print_str_def head_kind_digit hd_show_int, auto simp: head_kind_def)

lemma print_json_kind:
  assumes "print_json (compact a) x @ r = print_json (compact a) y @ s"
  shows "json_kind x = json_kind y"
proof -
  have "hd (print_json (compact a) x) = hd (print_json (compact a) y)"
    using arg_cong [OF assms, of hd] by simp
  then show ?thesis by (metis hd_print_json)
qed

lemma join_Cons: "join sep (x # xs) = x @ (if xs = [] then [] else sep @ join sep xs)"
  by (cases xs) auto

text \<open>
  Comma-separated sequences, for any item printer that is injective before a
  delimiter and never starts with the closing bracket.
\<close>

lemma join_step:
  assumes item: "\<And>x y u v. x \<in> set xs \<Longrightarrow> p x @ u = p y @ v \<Longrightarrow> delimited u \<Longrightarrow> delimited v
      \<Longrightarrow> x = y \<and> u = v"
    and head: "\<And>x u v. p x @ u \<noteq> close # v"
    and close: "close \<in> {CHR '']'', CHR ''}''}"
    and eq: "join '','' (map p xs) @ close # r = join '','' (map p ys) @ close # s"
  shows "xs = ys \<and> r = s"
  using item eq
proof (induction xs arbitrary: ys)
  case Nil
  then show ?case
    using head by (cases ys) (auto simp: join_Cons dest: sym)
next
  case (Cons x xs)
  let ?tail = "\<lambda>zs t. (if zs = [] then [] else '','' @ join '','' (map p zs)) @ close # t"
  show ?case
  proof (cases ys)
    case Nil
    with Cons.prems head show ?thesis by (auto simp: join_Cons)
  next
    case (Cons y ys')
    with Cons.prems(2) have "p x @ ?tail xs r = p y @ ?tail ys' s"
      by (simp add: join_Cons)
    moreover have "delimited (?tail zs t)" for zs t
      using close by (auto simp: delimited_def)
    ultimately have "x = y \<and> ?tail xs r = ?tail ys' s"
      by (intro Cons.prems(1)) simp_all
    then have xy: "x = y" and rest: "?tail xs r = ?tail ys' s" by simp_all
    have "close \<noteq> CHR '',''" using close by auto
    with rest have "xs = [] \<longleftrightarrow> ys' = []" by (auto split: if_splits)
    with rest have "join '','' (map p xs) @ close # r = join '','' (map p ys') @ close # s"
      by (cases "xs = []") auto
    moreover have "x' = y' \<and> u = v"
      if "x' \<in> set xs" "p x' @ u = p y' @ v" "delimited u" "delimited v" for x' y' u v
      using that by (intro Cons.prems(1)) simp_all
    ultimately have "xs = ys' \<and> r = s" by (intro Cons.IH) simp_all
    with xy Cons show ?thesis by simp
  qed
qed


lemma print_str_hd: "print_str a k @ u \<noteq> CHR ''}'' # v"
  by (simp add: print_str_def)

lemma print_json_not_close: "print_json (compact a) x @ u \<noteq> CHR '']'' # v"
proof
  assume "print_json (compact a) x @ u = CHR '']'' # v"
  then have "hd (print_json (compact a) x) = CHR '']''"
    by (cases "print_json (compact a) x") auto
  then have "json_kind x = head_kind (CHR '']'')" by (metis hd_print_json)
  then show False by (cases x) (auto simp: head_kind_def split: if_splits)
qed

lemma print_json_step:
  assumes "print_json (compact a) x @ r = print_json (compact a) y @ s" "delimited r" "delimited s"
  shows "x = y \<and> r = s"
  using assms
proof (induction x arbitrary: y r s)
  case JNull
  with print_json_kind [OF JNull(1)] show ?case by (cases y) (auto split: if_splits)
next
  case (JBool b)
  with print_json_kind [OF JBool(1)] show ?case by (cases y) (auto split: if_splits)
next
  case (JInt i)
  with print_json_kind [OF JInt(1)] obtain j where "y = JInt j"
    by (cases y) (auto split: if_splits)
  with JInt show ?case using show_int_step [of i r j s] by (simp add: compact_def)
next
  case (JStr t)
  with print_json_kind [OF JStr(1)] obtain t' where "y = JStr t'"
    by (cases y) (auto split: if_splits)
  with JStr show ?case using print_str_step [of a t r t' s] by (simp add: compact_def)
next
  case (JList xs)
  from print_json_kind [OF JList(2)] obtain ys where y: "y = JList ys"
    by (cases y) (auto split: if_splits)
  with JList(2) have "join '','' (map (print_json (compact a)) xs) @ CHR '']'' # r
      = join '','' (map (print_json (compact a)) ys) @ CHR '']'' # s"
    by (simp add: compact_def)
  then have "xs = ys \<and> r = s"
    by (rule join_step [rotated 3]) (use JList.IH print_json_not_close in auto)
  with y show ?case by simp
next
  case (JObj kvs)
  let ?p = "\<lambda>(k, v). print_str a k @ '':'' @ print_json (compact a) v"
  from print_json_kind [OF JObj(2)] obtain kws where y: "y = JObj kws"
    by (cases y) (auto split: if_splits)
  have item: "e = e' \<and> u = v"
    if e: "e \<in> set kvs" and eq: "?p e @ u = ?p e' @ v" and d: "delimited u" "delimited v"
    for e e' u v
  proof -
    obtain k w k' w' where ee: "e = (k, w)" "e' = (k', w')" by (cases e; cases e')
    with eq have "print_str a k @ ('':'' @ print_json (compact a) w @ u)
        = print_str a k' @ ('':'' @ print_json (compact a) w' @ v)" by simp
    then have "k = k' \<and> '':'' @ print_json (compact a) w @ u = '':'' @ print_json (compact a) w' @ v"
      by (rule print_str_step)
    then have k: "k = k'" and w: "print_json (compact a) w @ u = print_json (compact a) w' @ v"
      by simp_all
    have "w = w' \<and> u = v" by (rule JObj.IH [OF e _ w d]) (simp add: ee)
    with k ee show ?thesis by simp
  qed
  from y JObj(2) have "join '','' (map ?p kvs) @ CHR ''}'' # r = join '','' (map ?p kws) @ CHR ''}'' # s"
    by (simp add: compact_def case_prod_unfold)
  then have "kvs = kws \<and> r = s"
  proof (rule join_step [rotated 3])
    show "?p e @ u \<noteq> CHR ''}'' # v" for e u v
      using print_str_hd by (simp split: prod.split)
    show "e = e' \<and> u = v"
      if "e \<in> set kvs" "?p e @ u = ?p e' @ v" "delimited u" "delimited v" for e e' u v
      using that by (rule item)
  qed simp
  with y show ?case by simp
qed

theorem dumps_compact_inj: "dumps_compact a x = dumps_compact a y \<longleftrightarrow> canon x = canon y"
  using print_json_step [of a "canon x" "[]" "canon y" "[]"]
  by (auto simp: dumps_compact_def delimited_def)

end
