(* ===== verification/PyTime.thy ===== *)
theory PyTime
  imports PyText
begin

text \<open>
  Python's \<open>date\<close> and \<open>datetime\<close> as the sources use them. A date is its year,
  month and day, ordered as Python orders dates; a datetime is a date, the
  microseconds since midnight and the UTC offset in microseconds (\<open>None\<close> for a naive
  one), and two aware datetimes are compared by their instant. \<open>fromisoformat\<close> follows
  CPython's C parser, its separators and slack included. Date arithmetic past the
  year 9999, where Python raises \<open>OverflowError\<close>, is not modelled.
\<close>

section \<open>Dates\<close>

datatype date = Date (d_year: int) (d_month: int) (d_day: int)

instantiation date :: linorder
begin

definition less_eq_date :: "date \<Rightarrow> date \<Rightarrow> bool" where
  "less_eq_date a b \<longleftrightarrow>
     d_year a < d_year b \<or> d_year a = d_year b \<and>
       (d_month a < d_month b \<or> d_month a = d_month b \<and> d_day a \<le> d_day b)"

definition less_date :: "date \<Rightarrow> date \<Rightarrow> bool" where
  "less_date a b \<longleftrightarrow>
     d_year a < d_year b \<or> d_year a = d_year b \<and>
       (d_month a < d_month b \<or> d_month a = d_month b \<and> d_day a < d_day b)"

instance
  by standard (auto simp: less_eq_date_def less_date_def intro: date.expand)

end

lemma less_eq_Date [simp]:
  "Date y m d \<le> Date y' m' d' \<longleftrightarrow> y < y' \<or> y = y' \<and> (m < m' \<or> m = m' \<and> d \<le> d')"
  by (simp add: less_eq_date_def)

lemma less_Date [simp]:
  "Date y m d < Date y' m' d' \<longleftrightarrow> y < y' \<or> y = y' \<and> (m < m' \<or> m = m' \<and> d < d')"
  by (simp add: less_date_def)

definition is_leap :: "int \<Rightarrow> bool" where
  "is_leap y = (y mod 4 = 0 \<and> (y mod 100 \<noteq> 0 \<or> y mod 400 = 0))"

definition days_in_month :: "int \<Rightarrow> int \<Rightarrow> int" where
  "days_in_month y m =
     (if m = 2 then (if is_leap y then 29 else 28)
      else if m = 4 \<or> m = 6 \<or> m = 9 \<or> m = 11 then 30 else 31)"

fun valid_date :: "date \<Rightarrow> bool" where
  "valid_date (Date y m d) =
     (1 \<le> y \<and> y \<le> 9999 \<and> 1 \<le> m \<and> m \<le> 12 \<and> 1 \<le> d \<and> d \<le> days_in_month y m)"

definition days_before_year :: "int \<Rightarrow> int" where
  "days_before_year y = (y - 1) * 365 + (y - 1) div 4 - (y - 1) div 100 + (y - 1) div 400"

definition days_before_month :: "int \<Rightarrow> int \<Rightarrow> int" where
  "days_before_month y m =
     (if m \<le> 1 then 0 else if m = 2 then 31
      else (if is_leap y then 1 else 0) +
        (if m = 3 then 59 else if m = 4 then 90 else if m = 5 then 120 else if m = 6 then 151
         else if m = 7 then 181 else if m = 8 then 212 else if m = 9 then 243
         else if m = 10 then 273 else if m = 11 then 304 else 334))"

fun toordinal :: "date \<Rightarrow> int" where
  "toordinal (Date y m d) = days_before_year y + days_before_month y m + d"

text \<open>\<open>d + timedelta(days=1)\<close> and \<open>d - timedelta(days=1)\<close>.\<close>

fun next_day :: "date \<Rightarrow> date" where
  "next_day (Date y m d) =
     (if d < days_in_month y m then Date y m (d + 1)
      else if m < 12 then Date y (m + 1) 1 else Date (y + 1) 1 1)"

fun prev_day :: "date \<Rightarrow> date" where
  "prev_day (Date y m d) =
     (if 1 < d then Date y m (d - 1)
      else if 1 < m then Date y (m - 1) (days_in_month y (m - 1)) else Date (y - 1) 12 31)"

fun add_days :: "nat \<Rightarrow> date \<Rightarrow> date" where
  "add_days 0 d = d"
| "add_days (Suc n) d = add_days n (next_day d)"

fun sub_days :: "nat \<Rightarrow> date \<Rightarrow> date" where
  "sub_days 0 d = d"
| "sub_days (Suc n) d = sub_days n (prev_day d)"

definition shift_days :: "int \<Rightarrow> date \<Rightarrow> date" where
  "shift_days k d = (if 0 \<le> k then add_days (nat k) d else sub_days (nat (- k)) d)"

text \<open>\<open>(a - b).days\<close>.\<close>

definition days_between :: "date \<Rightarrow> date \<Rightarrow> int" where
  "days_between a b = toordinal a - toordinal b"

lemma div_pred: "0 < (k :: int) \<Longrightarrow> y div k = (y - 1) div k + (if y mod k = 0 then 1 else 0)"
proof -
  assume k: "0 < k"
  have y: "y = k * (y div k) + y mod k" by simp
  show ?thesis
  proof (cases "y mod k = 0")
    case True
    with y have "y - 1 = k * (y div k - 1) + (k - 1)" by (simp add: algebra_simps)
    with k have "(y - 1) div k = y div k - 1"
      by (intro int_div_pos_eq [where r = "k - 1"]) auto
    with True show ?thesis by simp
  next
    case False
    with k have "0 \<le> y mod k - 1" "y mod k - 1 < k"
      using pos_mod_sign [of k y] pos_mod_bound [of k y] by linarith+
    moreover from y have "y - 1 = k * (y div k) + (y mod k - 1)" by simp
    ultimately have "(y - 1) div k = y div k" by (intro int_div_pos_eq)
    with False show ?thesis by simp
  qed
qed

lemma days_before_year_Suc:
  "days_before_year (y + 1) = days_before_year y + (if is_leap y then 366 else 365)"
proof -
  have "(100 :: int) dvd 400" "(4 :: int) dvd 100" by simp_all
  then have m: "y mod 400 = 0 \<Longrightarrow> y mod 100 = 0" "y mod 100 = 0 \<Longrightarrow> y mod 4 = 0"
    by (meson dvd_trans mod_0_imp_dvd mod_eq_0_iff_dvd)+
  have d: "y div k = (y - 1) div k + (if y mod k = 0 then 1 else 0)" if "0 < k" for k
    using div_pred [OF that] .
  have shuffle: "y * 365 + (a + i) - (b + j) + (c + k) =
      (y - 1) * 365 + a - b + c + 365 + i - j + k" for a b c i j k :: int
    by simp
  have step: "days_before_year (y + 1) = days_before_year y + 365 + (if y mod 4 = 0 then 1 else 0)
      - (if y mod 100 = 0 then 1 else 0) + (if y mod 400 = 0 then 1 else 0)"
    unfolding days_before_year_def add_diff_cancel_right' d [of 4, simplified]
      d [of 100, simplified] d [of 400, simplified] by (rule shuffle)
  have leap: "D + 365 + (if p then 1 else 0) - (if q then 1 else 0) + (if r then 1 else 0) =
      D + (if p \<and> (\<not> q \<or> r) then 366 else 365)" if "r \<Longrightarrow> q" "q \<Longrightarrow> p" for D :: int and p q r
    using that by auto
  show ?thesis
    unfolding is_leap_def step by (rule leap) (erule m)+
qed

lemma month_cases:
  "1 \<le> (m :: int) \<Longrightarrow> m \<le> 12 \<Longrightarrow>
     m = 1 \<or> m = 2 \<or> m = 3 \<or> m = 4 \<or> m = 5 \<or> m = 6 \<or> m = 7 \<or> m = 8 \<or> m = 9
       \<or> m = 10 \<or> m = 11 \<or> m = 12"
  by arith

lemma days_before_month_Suc:
  assumes "1 \<le> m" "m < 12"
  shows "days_before_month y (m + 1) = days_before_month y m + days_in_month y m"
proof -
  from assms have "m = 1 \<or> m = 2 \<or> m = 3 \<or> m = 4 \<or> m = 5 \<or> m = 6 \<or> m = 7 \<or> m = 8 \<or> m = 9
      \<or> m = 10 \<or> m = 11" by arith
  then show ?thesis
    by (elim disjE) (simp_all add: days_before_month_def days_in_month_def)
qed

lemma toordinal_next_day:
  assumes "valid_date d"
  shows "toordinal (next_day d) = toordinal d + 1"
proof -
  obtain y m dd where d: "d = Date y m dd" by (cases d)
  with assms have v: "1 \<le> m" "m \<le> 12" "dd \<le> days_in_month y m" by auto
  have "days_before_month y 12 + 31 = (if is_leap y then 366 else 365)"
    "days_in_month y 12 = 31" "days_before_month (y + 1) 1 = 0"
    by (simp_all add: days_before_month_def days_in_month_def)
  with d v show ?thesis
    by (cases "m < 12") (auto simp: days_before_month_Suc days_before_year_Suc)
qed

lemma days_in_month_pos: "1 \<le> days_in_month y m"
  by (simp add: days_in_month_def)

lemma valid_next_day:
  "valid_date d \<Longrightarrow> d < Date 9999 12 31 \<Longrightarrow> valid_date (next_day d)"
  by (cases d) (auto simp: days_in_month_pos days_in_month_def split: if_splits)

lemma less_next_day: "valid_date d \<Longrightarrow> d < next_day d"
  by (cases d) auto


section \<open>ISO dates\<close>

definition date_iso :: "date \<Rightarrow> string" where
  "date_iso d =
     pad0 4 (show_nat (nat (d_year d))) @ ''-'' @ pad0 2 (show_nat (nat (d_month d))) @ ''-''
       @ pad0 2 (show_nat (nat (d_day d)))"

text \<open>A fixed number of digits from the front, as \<open>parse_digits\<close> reads them.\<close>

definition take_digits :: "nat \<Rightarrow> string \<Rightarrow> (int \<times> string) option" where
  "take_digits n s =
     (if n \<le> length s \<and> list_all is_digit (take n s)
      then Some (int (read_digits (take n s)), drop n s) else None)"

definition checked_date :: "int \<Rightarrow> int \<Rightarrow> int \<Rightarrow> date option" where
  "checked_date y m d = (if valid_date (Date y m d) then Some (Date y m d) else None)"

text \<open>Monday is 0, as in \<open>date.weekday()\<close>.\<close>

definition weekday :: "date \<Rightarrow> int" where
  "weekday d = (toordinal d + 6) mod 7"

definition week1_monday :: "int \<Rightarrow> int" where
  "week1_monday y =
     (let first = toordinal (Date y 1 1); wd = (first + 6) mod 7; monday = first - wd
      in if 3 < wd then monday + 7 else monday)"

definition date_of_isoweek :: "int \<Rightarrow> int \<Rightarrow> int \<Rightarrow> date option" where
  "date_of_isoweek y w d =
     (let first = weekday (Date y 1 1);
          last = (if first = 3 \<or> first = 2 \<and> is_leap y then 53 else 52);
          off = week1_monday y + (w - 1) * 7 + d - 1 - toordinal (Date y 1 1);
          r = shift_days off (Date y 1 1)
      in if 1 \<le> y \<and> y \<le> 9999 \<and> 1 \<le> w \<and> w \<le> last \<and> 1 \<le> d \<and> d \<le> 7 \<and> valid_date r
         then Some r else None)"

fun parse_iso_date :: "string \<Rightarrow> date option" where
  "parse_iso_date s =
     (case take_digits 4 s of
        None \<Rightarrow> None
      | Some (y, r) \<Rightarrow>
          (let sep = (r \<noteq> [] \<and> hd r = CHR ''-''); t = (if sep then tl r else r) in
           if t \<noteq> [] \<and> hd t = CHR ''W'' then
             (case take_digits 2 (tl t) of
                None \<Rightarrow> None
              | Some (w, []) \<Rightarrow> date_of_isoweek y w 1
              | Some (w, u) \<Rightarrow>
                  if sep \<and> hd u \<noteq> CHR ''-'' then None
                  else (case take_digits 1 (if sep then tl u else u) of
                          None \<Rightarrow> None
                        | Some (d, _) \<Rightarrow> date_of_isoweek y w d))
           else
             (case take_digits 2 t of
                None \<Rightarrow> None
              | Some (m, u) \<Rightarrow>
                  if sep \<and> (u = [] \<or> hd u \<noteq> CHR ''-'') then None
                  else (case take_digits 2 (if sep then tl u else u) of
                          None \<Rightarrow> None
                        | Some (d, _) \<Rightarrow> checked_date y m d))))"

text \<open>\<open>date.fromisoformat\<close>; \<open>None\<close> stands for the \<open>ValueError\<close>.\<close>

definition date_fromiso :: "string \<Rightarrow> date option" where
  "date_fromiso s =
     (if length s \<in> set [7, 8, 10] then parse_iso_date s else None)"

lemma zero_digit: "CHR ''0'' = digit_char 0"
  by code_simp

lemma show_nat_1: "n < 10 \<Longrightarrow> show_nat n = [digit_char n]"
  by (simp add: show_nat.simps)

lemma show_nat_step: "10 \<le> n \<Longrightarrow> show_nat n = show_nat (n div 10) @ [digit_char (n mod 10)]"
  by (subst show_nat.simps) simp

lemma pad0_2: "n < 100 \<Longrightarrow> pad0 2 (show_nat n) = [digit_char (n div 10), digit_char (n mod 10)]"
  by (cases "n < 10")
    (simp_all add: show_nat_1 show_nat_step pad0_def zero_digit div_less_iff_less_mult)

lemma pad0_4:
  assumes "n < 10000"
  shows "pad0 4 (show_nat n) =
    [digit_char (n div 1000), digit_char (n div 100 mod 10), digit_char (n div 10 mod 10),
     digit_char (n mod 10)]"
proof -
  have d: "n div 10 div 10 = n div 100" "n div 100 div 10 = n div 1000"
    by (simp_all add: div_mult2_eq [symmetric])
  have le: "10 \<le> n div k \<longleftrightarrow> 10 * k \<le> n" if "0 < k" for k :: nat
    using that by (simp add: less_eq_div_iff_mult_less_eq)
  have lt: "n div k < 10 \<longleftrightarrow> n < 10 * k" if "0 < k" for k :: nat
    using that by (simp add: div_less_iff_less_mult)
  have s2: "10 \<le> n \<Longrightarrow> n < 100 \<Longrightarrow> show_nat n = [digit_char (n div 10), digit_char (n mod 10)]"
    by (subst show_nat_step) (simp_all add: show_nat_1 lt)
  have s3: "100 \<le> n \<Longrightarrow> n < 1000 \<Longrightarrow> show_nat n =
      [digit_char (n div 100), digit_char (n div 10 mod 10), digit_char (n mod 10)]"
    using show_nat_step [of n] show_nat_step [of "n div 10"] show_nat_1 [of "n div 100"]
    by (simp add: le lt d)
  have s4: "1000 \<le> n \<Longrightarrow> show_nat n =
      [digit_char (n div 1000), digit_char (n div 100 mod 10), digit_char (n div 10 mod 10),
       digit_char (n mod 10)]"
    using assms show_nat_step [of n] show_nat_step [of "n div 10"] show_nat_step [of "n div 100"]
      show_nat_1 [of "n div 1000"]
    by (simp add: le lt d)
  have small: "n < k \<Longrightarrow> n div k = 0" for k by simp
  have r: "replicate 2 c = [c, c]" "replicate 3 c = [c, c, c]" for c :: char
    by (simp_all add: eval_nat_numeral)
  consider "n < 10" | "10 \<le> n" "n < 100" | "100 \<le> n" "n < 1000" | "1000 \<le> n" by linarith
  then show ?thesis
    by cases (simp_all add: show_nat_1 s2 s3 s4 pad0_def zero_digit small r)
qed

lemma read_digits_2: "n < 100 \<Longrightarrow> read_digits [digit_char (n div 10), digit_char (n mod 10)] = n"
  by (simp add: read_digits_def div_less_iff_less_mult)

lemma read_digits_4:
  assumes "n < 10000"
  shows "read_digits [digit_char (n div 1000), digit_char (n div 100 mod 10),
     digit_char (n div 10 mod 10), digit_char (n mod 10)] = n"
proof -
  have "n div 10 div 10 = n div 100" "n div 100 div 10 = n div 1000"
    by (simp_all add: div_mult2_eq [symmetric])
  then have "n = 10 * (n div 10) + n mod 10" "n div 10 = 10 * (n div 100) + n div 10 mod 10"
    "n div 100 = 10 * (n div 1000) + n div 100 mod 10"
    using mult_div_mod_eq [of 10 n] mult_div_mod_eq [of 10 "n div 10"]
      mult_div_mod_eq [of 10 "n div 100"] by simp_all
  then have "1000 * (n div 1000) + 100 * (n div 100 mod 10) + n div 10 mod 10 * 10 + n mod 10 = n"
    by linarith
  moreover from assms have "n div 1000 < 10" by (simp add: div_less_iff_less_mult)
  ultimately show ?thesis by (simp add: read_digits_def)
qed


lemma take_digits_2:
  "n < 100 \<Longrightarrow>
     take_digits 2 (digit_char (n div 10) # digit_char (n mod 10) # s) = Some (int n, s)"
  by (simp add: take_digits_def read_digits_2 div_less_iff_less_mult)

lemma take_digits_4:
  "n < 10000 \<Longrightarrow>
     take_digits 4 (digit_char (n div 1000) # digit_char (n div 100 mod 10)
       # digit_char (n div 10 mod 10) # digit_char (n mod 10) # s) = Some (int n, s)"
  by (simp add: take_digits_def read_digits_4 div_less_iff_less_mult)

lemma digit_char_not: "n < 10 \<Longrightarrow> \<not> is_digit c \<Longrightarrow> digit_char n \<noteq> c"
  by (metis is_digit_digit_char)

lemma not_digit_W: "\<not> is_digit (CHR ''W'')"
  by (simp add: is_digit_def code_def)

lemma days_in_month_le: "days_in_month y m \<le> 31"
  by (simp add: days_in_month_def)

text \<open>What \<open>isoformat\<close> prints, \<open>fromisoformat\<close> reads back.\<close>

lemma date_iso_roundtrip:
  assumes "valid_date d"
  shows "date_fromiso (date_iso d) = Some d"
proof -
  obtain y m dd where d: "d = Date y m dd" by (cases d)
  with assms have v: "1 \<le> y" "y \<le> 9999" "1 \<le> m" "m \<le> 12" "1 \<le> dd" "dd \<le> days_in_month y m"
    by auto
  with days_in_month_le [of y m]
  have n: "nat y < 10000" "nat m < 100" "nat dd < 100" by linarith+
  then have "nat m div 10 < 10" by (simp add: div_less_iff_less_mult)
  then have w: "digit_char (nat m div 10) \<noteq> CHR ''W''"
    by (rule digit_char_not) (rule not_digit_W)
  show ?thesis
    using v w n assms d
    by (simp add: date_fromiso_def date_iso_def pad0_2 pad0_4 take_digits_4 take_digits_2
        checked_date_def del: valid_date.simps)
qed

lemma date_iso_inj:
  "valid_date a \<Longrightarrow> valid_date b \<Longrightarrow> date_iso a = date_iso b \<longleftrightarrow> a = b"
  by (metis date_iso_roundtrip option.inject)

section \<open>Datetimes\<close>

datatype datetime = DateTime (dt_date: date) (dt_us: int) (dt_off: "int option")

definition day_us :: int where
  "day_us = 86400000000"

text \<open>The instant of an aware datetime, in microseconds.\<close>

definition instant :: "datetime \<Rightarrow> int" where
  "instant t =
     toordinal (dt_date t) * day_us + dt_us t - (case dt_off t of None \<Rightarrow> 0 | Some f \<Rightarrow> f)"

definition aware :: "datetime \<Rightarrow> bool" where
  "aware t = (dt_off t \<noteq> None)"

text \<open>\<open>t.astimezone(tz)\<close> for the offset \<open>off\<close> that the zone has at that instant.\<close>

definition at_offset :: "int \<Rightarrow> datetime \<Rightarrow> datetime" where
  "at_offset off t =
     (let local = dt_us t - (case dt_off t of None \<Rightarrow> 0 | Some f \<Rightarrow> f) + off
      in DateTime (shift_days (local div day_us) (dt_date t)) (local mod day_us) (Some off))"

definition as_utc :: "datetime \<Rightarrow> datetime" where
  "as_utc t = at_offset 0 t"

subsection \<open>ISO datetimes\<close>

definition hms_text :: "int \<Rightarrow> string" where
  "hms_text s =
     pad0 2 (show_nat (nat (s div 3600))) @ '':'' @ pad0 2 (show_nat (nat (s div 60 mod 60)))
       @ '':'' @ pad0 2 (show_nat (nat (s mod 60)))"

definition micro_text :: "int \<Rightarrow> string" where
  "micro_text us = (if us = 0 then [] else ''.'' @ pad0 6 (show_nat (nat us)))"

definition offset_text :: "int \<Rightarrow> string" where
  "offset_text off =
     (let a = \<bar>off\<bar>; s = a div 1000000; us = a mod 1000000 in
      (if off < 0 then ''-'' else ''+'')
        @ pad0 2 (show_nat (nat (s div 3600))) @ '':'' @ pad0 2 (show_nat (nat (s div 60 mod 60)))
        @ (if s mod 60 = 0 \<and> us = 0 then []
           else '':'' @ pad0 2 (show_nat (nat (s mod 60))) @ micro_text us))"

definition isoformat :: "datetime \<Rightarrow> string" where
  "isoformat t =
     date_iso (dt_date t) @ ''T'' @ hms_text (dt_us t div 1000000)
       @ micro_text (dt_us t mod 1000000)
       @ (case dt_off t of None \<Rightarrow> [] | Some off \<Rightarrow> offset_text off)"

text \<open>
  \<open>parse_hh_mm_ss_ff\<close>: up to three two-digit fields, then a fraction of which six
  digits count. \<open>more\<close> says that the string goes on after the part being parsed. The
  result is the field values, the microseconds and whether something was left over.
\<close>

definition parse_fraction :: "int list \<Rightarrow> string \<Rightarrow> bool \<Rightarrow> (int list \<times> int \<times> bool) option" where
  "parse_fraction vals s more =
     (let n = min 6 (length s) in
      case take_digits n s of
        None \<Rightarrow> None
      | Some (f, rest) \<Rightarrow>
          Some (vals, f * 10 ^ (6 - n), dropWhile is_digit rest \<noteq> [] \<or> more))"

fun parse_fields ::
  "nat \<Rightarrow> bool \<Rightarrow> int list \<Rightarrow> string \<Rightarrow> bool \<Rightarrow> (int list \<times> int \<times> bool) option" where
  "parse_fields 0 sep vals s more = parse_fraction vals s more"
| "parse_fields (Suc n) sep vals s more =
     (case take_digits 2 s of
        None \<Rightarrow> None
      | Some (v, []) \<Rightarrow> Some (vals @ [v], 0, more)
      | Some (v, c # rest) \<Rightarrow>
          (let sep' = (if vals = [] then c = CHR '':'' else sep) in
           if rest = [] then Some (vals @ [v], 0, True)
           else if sep' \<and> c = CHR '':'' then parse_fields n sep' (vals @ [v]) rest more
           else if c = CHR ''.'' \<or> c = CHR '','' then parse_fraction (vals @ [v]) rest more
           else if \<not> sep' then parse_fields n sep' (vals @ [v]) (c # rest) more
           else None))"

definition field :: "int list \<Rightarrow> nat \<Rightarrow> int" where
  "field vals i = (if i < length vals then vals ! i else 0)"

definition is_tz_mark :: "char \<Rightarrow> bool" where
  "is_tz_mark c = (c = CHR ''+'' \<or> c = CHR ''-'' \<or> c = CHR ''Z'')"

definition clock_us :: "int list \<Rightarrow> int \<Rightarrow> int option" where
  "clock_us vals us =
     (if field vals 0 \<le> 23 \<and> field vals 1 \<le> 59 \<and> field vals 2 \<le> 59
      then Some ((field vals 0 * 3600 + field vals 1 * 60 + field vals 2) * 1000000 + us)
      else None)"

text \<open>The time of day in microseconds and the offset; the outer \<open>None\<close> is an error.\<close>

definition parse_iso_time :: "string \<Rightarrow> (int \<times> int option) option" where
  "parse_iso_time s =
     (let tzless = takeWhile (\<lambda>c. \<not> is_tz_mark c) s; tz = dropWhile (\<lambda>c. \<not> is_tz_mark c) s in
      case parse_fields 3 True [] tzless (tz \<noteq> []) of
        None \<Rightarrow> None
      | Some (vals, us, flag) \<Rightarrow>
          (case clock_us vals us of
             None \<Rightarrow> None
           | Some clock \<Rightarrow>
               (case tz of
                  [] \<Rightarrow> if flag then None else Some (clock, None)
                | mark # rest \<Rightarrow>
                    if mark = CHR ''Z'' then (if rest = [] then Some (clock, Some 0) else None)
                    else (case parse_fields 3 True [] rest False of
                            None \<Rightarrow> None
                          | Some (zv, zus, zflag) \<Rightarrow>
                              (let secs = field zv 0 * 3600 + field zv 1 * 60 + field zv 2;
                                   off = (if secs = 0 then 0 else secs * 1000000 + zus)
                               in if zflag \<or> day_us \<le> off then None
                                  else Some (clock,
                                    Some (if mark = CHR ''-'' then - off else off)))))))"

text \<open>\<open>_find_isoformat_datetime_separator\<close>: where the time part may begin.\<close>

definition time_separator :: "string \<Rightarrow> nat option" where
  "time_separator s =
     (let n = length s in
      if n = 7 then Some 7
      else if s ! 4 = CHR ''-'' then
        (if s ! 5 = CHR ''W'' then
           (if n < 8 then None
            else if 8 < n \<and> s ! 8 = CHR ''-'' then
              (if n = 9 then None
               else if 10 < n \<and> is_digit (s ! 10) then Some 8 else Some 10)
            else Some 8)
         else Some 10)
      else if s ! 4 = CHR ''W'' then
        (let pos = 7 + length (takeWhile is_digit (drop 7 s)) in
         if pos < 9 then Some pos else if pos mod 2 = 0 then Some 7 else Some 8)
      else Some 8)"

text \<open>\<open>datetime.fromisoformat\<close>; \<open>None\<close> stands for the \<open>ValueError\<close>.\<close>

definition datetime_fromiso :: "string \<Rightarrow> datetime option" where
  "datetime_fromiso s =
     (if length s < 7 then None
      else case time_separator s of
             None \<Rightarrow> None
           | Some k \<Rightarrow>
               (case parse_iso_date (take k s) of
                  None \<Rightarrow> None
                | Some d \<Rightarrow>
                    if length s \<le> k + 1 then Some (DateTime d 0 None)
                    else (case parse_iso_time (drop (k + 1) s) of
                            None \<Rightarrow> None
                          | Some (us, off) \<Rightarrow> Some (DateTime d us off))))"

end
