(* ===== verification/PyNum.thy ===== *)
theory PyNum
  imports PyText
begin

text \<open>
  Python's \<open>decimal.Decimal\<close> as the sources use it: a signed coefficient and exponent,
  an infinity or a NaN; multiplication by an integer constant in the default context
  (28 digits, rounding half to even, adjusted exponents up to 999999), and \<open>int()\<close>.
\<close>

datatype decimal = Dec bool nat int | DInf bool | DNaN

datatype decimal_error = InvalidOperation | Overflow | TypeError | ValueError

fun dec_less_zero :: "decimal \<Rightarrow> decimal_error + bool" where
  "dec_less_zero (Dec neg c e) = Inr (neg \<and> 0 < c)"
| "dec_less_zero (DInf neg) = Inr neg"
| "dec_less_zero DNaN = Inl InvalidOperation"

text \<open>\<open>amount.as_tuple().exponent < -2\<close>: the exponent of a special value is a string.\<close>

fun dec_exponent :: "decimal \<Rightarrow> decimal_error + int" where
  "dec_exponent (Dec neg c e) = Inr e"
| "dec_exponent _ = Inl TypeError"

definition num_digits :: "nat \<Rightarrow> nat" where
  "num_digits n = length (show_nat n)"

definition half_even_div :: "nat \<Rightarrow> nat \<Rightarrow> nat" where
  "half_even_div n k =
     (let q = n div k; r = n mod k in
      if 2 * r < k \<or> 2 * r = k \<and> even q then q else q + 1)"

text \<open>A product in the default context.\<close>

definition round28 :: "bool \<Rightarrow> nat \<Rightarrow> int \<Rightarrow> decimal_error + decimal" where
  "round28 neg c e =
     (let over = num_digits c - 28;
          c' = (if over = 0 then c else half_even_div c (10 ^ over));
          e' = e + int over
      in if 0 < c' \<and> 999999 < e' + int (num_digits c') - 1 then Inl Overflow else Inr (Dec neg c' e'))"

fun dec_times :: "nat \<Rightarrow> decimal \<Rightarrow> decimal_error + decimal" where
  "dec_times k (Dec neg c e) = round28 neg (c * k) e"
| "dec_times k (DInf neg) = Inr (DInf neg)"
| "dec_times k DNaN = Inr DNaN"

text \<open>\<open>int(d)\<close> truncates; infinities raise \<open>OverflowError\<close>, a NaN \<open>ValueError\<close>.\<close>

fun dec_int :: "decimal \<Rightarrow> decimal_error + int" where
  "dec_int (Dec neg c e) =
     (let m = (if 0 \<le> e then int c * 10 ^ nat e else int (c div 10 ^ nat (- e)))
      in Inr (if neg then - m else m))"
| "dec_int (DInf neg) = Inl Overflow"
| "dec_int DNaN = Inl ValueError"

text \<open>
  \<open>Decimal(s)\<close>: surrounding whitespace and underscores dropped, an optional sign, then a
  numeral with an optional fraction and exponent, an infinity or a NaN; anything else
  raises \<open>InvalidOperation\<close>. Exponents beyond the context's range are not modelled.
\<close>

definition decimal_exponent :: "string \<Rightarrow> int option" where
  "decimal_exponent s =
     (if s = [] then Some 0
      else if hd s = CHR ''e'' then
        (let t = tl s; neg = (t \<noteq> [] \<and> hd t = CHR ''-'');
             ds = (if t \<noteq> [] \<and> (hd t = CHR ''-'' \<or> hd t = CHR ''+'') then tl t else t)
         in if ds \<noteq> [] \<and> list_all is_digit ds
            then Some (if neg then - int (read_digits ds) else int (read_digits ds)) else None)
      else None)"

definition decimal_numeral :: "bool \<Rightarrow> string \<Rightarrow> decimal option" where
  "decimal_numeral neg s =
     (let whole = takeWhile is_digit s; r = dropWhile is_digit s;
          point = (r \<noteq> [] \<and> hd r = CHR ''.'');
          frac = (if point then takeWhile is_digit (tl r) else []);
          rest = (if point then dropWhile is_digit (tl r) else r)
      in if whole @ frac = [] then None
         else map_option (\<lambda>e. Dec neg (read_digits (whole @ frac)) (e - int (length frac)))
                (decimal_exponent rest))"

definition decimal_of_string :: "string \<Rightarrow> decimal_error + decimal" where
  "decimal_of_string s =
     (let t = py_lower (filter (\<lambda>c. c \<noteq> CHR ''_'') (py_strip s));
          neg = (t \<noteq> [] \<and> hd t = CHR ''-'');
          body = (if t \<noteq> [] \<and> (hd t = CHR ''-'' \<or> hd t = CHR ''+'') then tl t else t);
          nan = remove_prefix ''nan'' (remove_prefix ''s'' body)
      in if body = ''inf'' \<or> body = ''infinity'' then Inr (DInf neg)
         else if (starts_with ''nan'' body \<or> starts_with ''snan'' body) \<and> list_all is_digit nan
         then Inr DNaN
         else (case decimal_numeral neg body of None \<Rightarrow> Inl InvalidOperation | Some d \<Rightarrow> Inr d))"

lemma num_digits_bound: "n < 10 ^ k \<Longrightarrow> 0 < k \<Longrightarrow> num_digits n \<le> k"
proof (induction n arbitrary: k rule: show_nat.induct)
  case (1 n)
  show ?case
  proof (cases "n < 10")
    case True
    with 1 show ?thesis by (simp add: num_digits_def show_nat.simps [of n])
  next
    case False
    with 1(2) obtain j where k: "k = Suc j" "0 < j" by (cases k; cases "k - 1") auto
    with 1(2) have "n div 10 < 10 ^ j" by (simp add: div_less_iff_less_mult mult.commute)
    with 1(1) False k have "num_digits (n div 10) \<le> j" by simp
    with False k show ?thesis by (simp add: num_digits_def show_nat.simps [of n])
  qed
qed

lemma round28_exact: "c < 10 ^ 28 \<Longrightarrow> e \<le> 999000 \<Longrightarrow> round28 neg c e = Inr (Dec neg c e)"
  using num_digits_bound [of c 28] by (simp add: round28_def)

end
