(* ===== verification/Digest.thy ===== *)
theory Digest
  imports Json
begin

text \<open>
  What the sources call a digest, fingerprint or hash: the SHA-256 of the compact JSON
  text of a payload. The interface \<open>digest_commitment\<close> states what a payload must
  satisfy for its digest to pin a view of the object, and what then follows: equal
  digests mean equal views, or the two texts are a SHA-256 collision.
\<close>

text \<open>
  \<open>hashlib.sha256(json.dumps(v, sort_keys=True, separators=(",", ":")).encode()).hexdigest()\<close>,
  with \<open>ensure_ascii\<close> as the first argument.
\<close>

definition json_bytes :: "bool \<Rightarrow> json \<Rightarrow> string" where
  "json_bytes ascii j = utf8_encode (dumps_compact ascii j)"

definition json_digest :: "bool \<Rightarrow> json \<Rightarrow> string" where
  "json_digest ascii j = sha256_hexdigest (json_bytes ascii j)"

definition json_collision :: "bool \<Rightarrow> json \<Rightarrow> json \<Rightarrow> bool" where
  "json_collision ascii x y = sha_collision (json_bytes ascii x) (json_bytes ascii y)"

lemma length_json_digest [simp]: "length (json_digest a j) = 64"
  by (simp add: json_digest_def)

lemma json_bytes_inj: "json_bytes a x = json_bytes a y \<longleftrightarrow> canon x = canon y"
  by (simp add: json_bytes_def utf8_encode_inj dumps_compact_inj)

lemma json_digest_pins: "json_digest a x = json_digest a y \<Longrightarrow> canon x = canon y \<or> json_collision a x y"
  unfolding json_digest_def json_collision_def
  by (auto dest: sha256_eq_or_collision simp: json_bytes_inj)

text \<open>
  \<open>src/core/receipt.py\<close>: \<open>canonical_json_bytes\<close>, \<open>sha256_hex\<close> and \<open>prefixed_sha256\<close>, the
  bytes of a text being its UTF-8 encoding. Every value printed here is JSON already, so
  \<open>default=str\<close> is not reached.
\<close>

definition canonical_json_bytes :: "json \<Rightarrow> string" where
  "canonical_json_bytes v = json_bytes False v"

definition sha256_hex :: "string \<Rightarrow> string" where
  "sha256_hex data = sha256_hexdigest data"

definition prefixed_sha256 :: "string \<Rightarrow> string" where
  "prefixed_sha256 data = ''sha256:'' @ sha256_hex data"

lemma prefixed_canonical: "prefixed_sha256 (canonical_json_bytes v) = ''sha256:'' @ json_digest False v"
  by (simp add: prefixed_sha256_def canonical_json_bytes_def sha256_hex_def json_digest_def)

lemma hex_canonical: "sha256_hex (canonical_json_bytes v) = json_digest False v"
  by (simp add: canonical_json_bytes_def sha256_hex_def json_digest_def)

text \<open>Two objects with the same distinct keys in the same order are compared value by value.\<close>

lemma canon_JObj_set:
  "canon (JObj xs) = canon (JObj ys) \<Longrightarrow>
     set (map (\<lambda>(k, v). (k, canon v)) xs) = set (map (\<lambda>(k, v). (k, canon v)) ys)"
  by (drule arg_cong [where f = "\<lambda>j. case j of JObj kvs \<Rightarrow> set kvs | _ \<Rightarrow> {}"]) simp

lemma canon_JObj_eq:
  assumes "map fst xs = map fst ys" "distinct (map fst xs)"
  shows "canon (JObj xs) = canon (JObj ys) \<longleftrightarrow> map (canon \<circ> snd) xs = map (canon \<circ> snd) ys"
proof
  let ?c = "\<lambda>(k, v). (k :: string, canon v)"
  have split: "map ?c zs = zip (map fst zs) (map (canon \<circ> snd) zs)" for zs
    by (induction zs) auto
  assume "map (canon \<circ> snd) xs = map (canon \<circ> snd) ys"
  with assms(1) have "map ?c xs = map ?c ys" by (simp only: split)
  then show "canon (JObj xs) = canon (JObj ys)" by simp
next
  let ?c = "\<lambda>(k, v). (k :: string, canon v)"
  assume "canon (JObj xs) = canon (JObj ys)"
  then have s: "set (map ?c xs) = set (map ?c ys)" by (rule canon_JObj_set)
  show "map (canon \<circ> snd) xs = map (canon \<circ> snd) ys"
  proof (rule nth_equalityI)
    show len: "length (map (canon \<circ> snd) xs) = length (map (canon \<circ> snd) ys)"
      using assms(1) by (metis length_map)
    fix i assume i: "i < length (map (canon \<circ> snd) xs)"
    then have ix: "i < length xs" by simp
    with len have iy: "i < length ys" by simp
    have "(fst (xs ! i), canon (snd (xs ! i))) \<in> set (map ?c xs)"
      using ix by (force simp: set_conv_nth split: prod.split)
    with s obtain j where j: "j < length ys" "fst (ys ! j) = fst (xs ! i)"
        "canon (snd (ys ! j)) = canon (snd (xs ! i))"
      by (auto simp: set_conv_nth split: prod.splits)
    have "fst (ys ! j) = fst (ys ! i)"
      using assms(1) ix iy j(2) by (metis nth_map)
    then have "j = i" using assms j(1) iy by (metis distinct_conv_nth length_map nth_map)
    with j ix iy show "map (canon \<circ> snd) xs ! i = map (canon \<circ> snd) ys ! i" by simp
  qed
qed

lemma canon_JObj_set_iff:
  assumes "distinct (map fst xs)" "distinct (map fst ys)"
  shows "canon (JObj xs) = canon (JObj ys) \<longleftrightarrow>
    set (map (\<lambda>(k, v). (k, canon v)) xs) = set (map (\<lambda>(k, v). (k, canon v)) ys)"
proof
  let ?c = "\<lambda>(k, v). (k :: string, canon v)"
  assume eq: "set (map ?c xs) = set (map ?c ys)"
  have keys: "map fst (map ?c zs) = map fst zs" for zs by (induction zs) auto
  have d: "distinct (map fst (sort_key fst (map ?c zs)))" if "distinct (map fst zs)" for zs
  proof -
    have "distinct (map fst (map ?c zs))" using that by (simp only: keys)
    then show ?thesis by (simp only: distinct_map distinct_sort set_sort)
  qed
  have "inj_on fst (set (sort_key fst (map ?c xs)) \<union> set (sort_key fst (map ?c ys)))"
  proof -
    have "distinct (map fst (map ?c xs))" using assms(1) by (simp only: keys)
    then show ?thesis by (simp only: distinct_map set_sort eq Un_absorb)
  qed
  then have "sort_key fst (map ?c xs) = sort_key fst (map ?c ys)"
    by (rule map_sorted_distinct_set_unique) (use assms eq in \<open>simp_all add: d\<close>)
  then show "canon (JObj xs) = canon (JObj ys)" by simp
qed (rule canon_JObj_set)

lemma canon_JObj_eqI:
  "canon (JObj xs) = canon (JObj ys) \<Longrightarrow> map fst xs = map fst ys \<Longrightarrow> distinct (map fst xs) \<Longrightarrow>
     map (\<lambda>kv. canon (snd kv)) xs = map (\<lambda>kv. canon (snd kv)) ys"
  by (simp only: canon_JObj_eq comp_def)

text \<open>\<open>None\<close> as \<open>null\<close>.\<close>

definition JOpt :: "('a \<Rightarrow> json) \<Rightarrow> 'a option \<Rightarrow> json" where
  "JOpt f v = (case v of None \<Rightarrow> JNull | Some x \<Rightarrow> f x)"

lemma canon_JOpt [simp]: "canon (JOpt f v) = JOpt (canon \<circ> f) v"
  by (simp add: JOpt_def split: option.split)

lemma JOpt_JInt_inj [simp]: "JOpt (canon \<circ> JInt) v = JOpt (canon \<circ> JInt) w \<longleftrightarrow> v = w"
  by (simp add: JOpt_def split: option.split)

lemma JOpt_JStr_inj [simp]: "JOpt (canon \<circ> JStr) v = JOpt (canon \<circ> JStr) w \<longleftrightarrow> v = w"
  by (simp add: JOpt_def split: option.split)

lemma map_canon_JStr [simp]: "map (canon \<circ> JStr) xs = map JStr xs"
  by simp

lemma map_JStr_inj [simp]: "map JStr xs = map JStr ys \<longleftrightarrow> xs = ys"
  by (simp add: inj_map_eq_map inj_def)

text \<open>The contract of a digest, and what it gives its clients.\<close>

locale digest_commitment =
  fixes ascii :: bool
    and ok :: "'a \<Rightarrow> bool"
    and payload :: "'a \<Rightarrow> json"
    and view :: "'a \<Rightarrow> 'b"
  assumes payload_view: "ok a \<Longrightarrow> ok b \<Longrightarrow> canon (payload a) = canon (payload b) \<Longrightarrow> view a = view b"
begin

lemma digest_pins_view:
  assumes "ok a" "ok b" "json_digest ascii (payload a) = json_digest ascii (payload b)"
  shows "view a = view b \<or> json_collision ascii (payload a) (payload b)"
  using assms json_digest_pins payload_view by blast

lemma changed_view_changes_digest:
  assumes "ok a" "ok b" "view a \<noteq> view b" "\<not> json_collision ascii (payload a) (payload b)"
  shows "json_digest ascii (payload a) \<noteq> json_digest ascii (payload b)"
  using assms digest_pins_view by blast

end

end
