(* ===== verification/Gate.thy ===== *)
theory Gate
  imports Prelude
begin

text \<open>
  The fail-closed gate several components implement: a fixed list of checks, evaluated
  for an input, all of which must pass; a failed one withholds the result and the first
  failed one names the refusal. The interface is \<open>fail_closed_gate\<close>; the components
  interpret it on their own validators.
\<close>

locale fail_closed_gate =
  fixes checks :: "'k list"
    and ok :: "'i \<Rightarrow> 'k \<Rightarrow> bool"
    and passes :: "'i \<Rightarrow> bool"
    and refusal :: "'i \<Rightarrow> 'c option"
    and refusal_of :: "'i \<Rightarrow> 'k \<Rightarrow> 'c"
  assumes passes_iff: "passes i \<longleftrightarrow> filter (\<lambda>k. \<not> ok i k) checks = []"
    and refusal_first: "\<not> passes i \<Longrightarrow>
      refusal i = Some (refusal_of i (hd (filter (\<lambda>k. \<not> ok i k) checks)))"
    and no_refusal: "passes i \<Longrightarrow> refusal i = None"
begin

lemma pass_all: "passes i \<longleftrightarrow> (\<forall>k \<in> set checks. ok i k)"
  by (auto simp: passes_iff filter_empty_conv)

lemma one_failure_refuses: "k \<in> set checks \<Longrightarrow> \<not> ok i k \<Longrightarrow> \<not> passes i \<and> refusal i \<noteq> None"
  using refusal_first by (auto simp: pass_all)

lemma refusal_names_first_failure:
  assumes "\<not> passes i"
  shows "\<exists>pre k post. checks = pre @ k # post \<and> (\<forall>x \<in> set pre. ok i x) \<and> \<not> ok i k
    \<and> refusal i = Some (refusal_of i k)"
proof -
  let ?f = "filter (\<lambda>k. \<not> ok i k) checks"
  have "?f \<noteq> []" using assms by (simp add: passes_iff)
  then have "List.find (\<lambda>k. \<not> ok i k) checks = Some (hd ?f)" by (rule find_hd_filter)
  from find_first_split [OF this] obtain pre post
    where "checks = pre @ hd ?f # post" "\<not> ok i (hd ?f)" "\<forall>x \<in> set pre. ok i x" by auto
  with refusal_first [OF assms] show ?thesis by blast
qed

lemma pass_cong: "(\<And>k. k \<in> set checks \<Longrightarrow> ok i k = ok j k) \<Longrightarrow> passes i = passes j"
  by (auto simp: pass_all)

end

end
