(* ===== verification/Judgment.thy ===== *)
theory Judgment
  imports Digest PyTime
begin

text \<open>
  \<open>src/core/judgment.py\<close>: one judgment per charged day in integer minor units, and one
  recommendation over all of them. The lemmas give the arithmetic of the amounts, when
  each recommendation is issued, what the reason codes say, and what the digest and
  the fingerprint commit to.
\<close>

datatype day_outcome =
    SUPPORTED
  | RATE_DISCREPANCY
  | INSUFFICIENT_EVIDENCE
  | EXCLUDED_NOT_CHARGEABLE

datatype recommendation_type = DISPUTE | APPROVE_FOR_PAYMENT | REQUEST_EVIDENCE

datatype reason_code =
    MISSING_DAY_SOURCE
  | MISSING_DAY_ACCESS_EVIDENCE
  | RULE_NOT_VERIFIED
  | SOURCE_VERSION_UNAVAILABLE
  | SOURCE_INTEGRITY_FAILED

fun outcome_value :: "day_outcome \<Rightarrow> string" where
  "outcome_value SUPPORTED = ''SUPPORTED''"
| "outcome_value RATE_DISCREPANCY = ''RATE_DISCREPANCY''"
| "outcome_value INSUFFICIENT_EVIDENCE = ''INSUFFICIENT_EVIDENCE''"
| "outcome_value EXCLUDED_NOT_CHARGEABLE = ''EXCLUDED_NOT_CHARGEABLE''"

fun recommendation_value :: "recommendation_type \<Rightarrow> string" where
  "recommendation_value DISPUTE = ''DISPUTE''"
| "recommendation_value APPROVE_FOR_PAYMENT = ''APPROVE_FOR_PAYMENT''"
| "recommendation_value REQUEST_EVIDENCE = ''REQUEST_EVIDENCE''"

fun reason_value :: "reason_code \<Rightarrow> string" where
  "reason_value MISSING_DAY_SOURCE = ''MISSING_DAY_SOURCE''"
| "reason_value MISSING_DAY_ACCESS_EVIDENCE = ''MISSING_DAY_ACCESS_EVIDENCE''"
| "reason_value RULE_NOT_VERIFIED = ''RULE_NOT_VERIFIED''"
| "reason_value SOURCE_VERSION_UNAVAILABLE = ''SOURCE_VERSION_UNAVAILABLE''"
| "reason_value SOURCE_INTEGRITY_FAILED = ''SOURCE_INTEGRITY_FAILED''"

record day_input =
  di_date :: date
  di_invoice_rate :: int
  di_applicable_rate :: "int option"
  di_currency :: string
  di_coverage_state :: string
  di_chargeable :: bool
  di_missing_requirements :: "string list"

record day_judgment =
  dj_date :: date
  dj_invoice_rate :: int
  dj_applicable_rate :: "int option"
  dj_discrepancy :: int
  dj_currency :: string
  dj_outcome :: day_outcome
  dj_explanation :: string

record recommendation =
  rec_type :: recommendation_type
  rec_disputed :: int
  rec_supported :: int
  rec_claimed :: int
  rec_currency :: string
  rec_days_total :: nat
  rec_days_covered :: nat
  rec_coverage :: string
  rec_judgments :: "day_judgment list"
  rec_reasons :: "reason_code list"
  rec_digest :: string
  rec_summary :: string

text \<open>\<open>_fmt\<close>.\<close>

definition fmt :: "int \<Rightarrow> string \<Rightarrow> string" where
  "fmt minor currency = currency @ '' '' @ show_cents minor"

definition judgment_of :: "day_input \<Rightarrow> int \<Rightarrow> day_outcome \<Rightarrow> string \<Rightarrow> day_judgment" where
  "judgment_of day disc outcome explanation =
     \<lparr>dj_date = di_date day, dj_invoice_rate = di_invoice_rate day,
      dj_applicable_rate = di_applicable_rate day, dj_discrepancy = disc,
      dj_currency = di_currency day, dj_outcome = outcome, dj_explanation = explanation\<rparr>"

definition judge_day :: "day_input \<Rightarrow> day_judgment" where
  "judge_day day =
     (if \<not> di_chargeable day then
        judgment_of day 0 EXCLUDED_NOT_CHARGEABLE
          ''Day is not chargeable under the sourced timeline.''
      else case di_applicable_rate day of
        None \<Rightarrow> judgment_of day 0 INSUFFICIENT_EVIDENCE
          ''Source coverage or applicable rate is missing for this day.''
      | Some rate \<Rightarrow>
          if di_coverage_state day \<noteq> ''PRESENT_VERIFIED'' then
            judgment_of day 0 INSUFFICIENT_EVIDENCE
              ''Source coverage or applicable rate is missing for this day.''
          else
            (let discrepancy = di_invoice_rate day - rate in
             if discrepancy = 0 then
               judgment_of day 0 SUPPORTED ''Invoice rate matches the applicable recorded tariff.''
             else
               judgment_of day discrepancy RATE_DISCREPANCY
                 (''Invoice rate exceeds the applicable tariff by ''
                    @ fmt discrepancy (di_currency day) @ '' for this day.'')))"

definition digest_payload ::
  "recommendation_type \<Rightarrow> int \<Rightarrow> int \<Rightarrow> int \<Rightarrow> string \<Rightarrow> day_judgment list \<Rightarrow> reason_code list \<Rightarrow> json"
where
  "digest_payload ty disputed supported claimed currency judgments reasons =
     JObj [(''type'', JStr (recommendation_value ty)), (''disputed'', JInt disputed),
           (''supported'', JInt supported), (''claimed'', JInt claimed),
           (''currency'', JStr currency),
           (''reasons'', JList (map (JStr \<circ> reason_value) reasons)),
           (''days'', JList (map (\<lambda>j. JObj [(''d'', JStr (date_iso (dj_date j))),
              (''o'', JStr (outcome_value (dj_outcome j))),
              (''disc'', JInt (dj_discrepancy j))]) judgments))]"

text \<open>The date-keyed dictionary \<open>by_day\<close> keeps the last input of a date.\<close>

definition by_day :: "day_input list \<Rightarrow> date \<Rightarrow> day_input option" where
  "by_day days d = List.find (\<lambda>x. di_date x = d) (rev days)"

definition insufficient_reason :: "day_input list \<Rightarrow> day_judgment \<Rightarrow> reason_code" where
  "insufficient_reason days j =
     (case by_day days (dj_date j) of
        None \<Rightarrow> RULE_NOT_VERIFIED
      | Some src \<Rightarrow>
          if di_coverage_state src \<noteq> ''PRESENT_VERIFIED'' then
            (if ''TERMINAL_ACCESS'' \<in> set (di_missing_requirements src)
             then MISSING_DAY_ACCESS_EVIDENCE else MISSING_DAY_SOURCE)
          else RULE_NOT_VERIFIED)"

datatype judgment_error = NO_CHARGED_DAYS | CURRENCY_MISMATCH

definition decide_days :: "day_input list \<Rightarrow> recommendation" where
  "decide_days days =
     (let currency = di_currency (hd days);
          judgments = map judge_day days;
          chargeable = filter (\<lambda>j. dj_outcome j \<noteq> EXCLUDED_NOT_CHARGEABLE) judgments;
          claimed = sum_list (map dj_invoice_rate chargeable);
          disputed = sum_list (map dj_discrepancy
            (filter (\<lambda>j. dj_outcome j = RATE_DISCREPANCY) judgments));
          supported = sum_list (map (\<lambda>j. the (dj_applicable_rate j))
            (filter (\<lambda>j. dj_outcome j \<in> {SUPPORTED, RATE_DISCREPANCY}
               \<and> dj_applicable_rate j \<noteq> None) judgments));
          days_total = length chargeable;
          insufficient = filter (\<lambda>j. dj_outcome j = INSUFFICIENT_EVIDENCE) chargeable;
          days_covered = length (filter (\<lambda>j. dj_outcome j \<noteq> INSUFFICIENT_EVIDENCE) chargeable);
          reasons = foldl add_new [] (map (insufficient_reason days) insufficient);
          ty = (if insufficient \<noteq> [] \<or> days_total = 0 then REQUEST_EVIDENCE
                else if 0 < disputed then DISPUTE else APPROVE_FOR_PAYMENT);
          summary =
            (if ty = REQUEST_EVIDENCE then
               ''Evidence is incomplete; requesting evidence before deciding.''
             else if ty = DISPUTE then
               ''Dispute '' @ fmt disputed currency @ '' across '' @ show_nat days_total
                 @ '' sourced days.''
             else ''Approve '' @ fmt supported currency @ '' for payment; rates match.'')
      in \<lparr>rec_type = ty, rec_disputed = disputed, rec_supported = supported,
          rec_claimed = claimed, rec_currency = currency, rec_days_total = days_total,
          rec_days_covered = days_covered,
          rec_coverage = show_nat days_covered @ '' of '' @ show_nat days_total @ '' days'',
          rec_judgments = judgments, rec_reasons = reasons,
          rec_digest = ''sha256:'' @ json_digest True
            (digest_payload ty disputed supported claimed currency judgments reasons),
          rec_summary = summary\<rparr>)"

definition resolve_recommendation :: "day_input list \<Rightarrow> judgment_error + recommendation" where
  "resolve_recommendation days =
     (if days = [] then Inl NO_CHARGED_DAYS
      else if \<exists>d \<in> set days. di_currency d \<noteq> di_currency (hd days) then Inl CURRENCY_MISMATCH
      else Inr (decide_days days))"

definition fingerprint_payload :: "day_input list \<Rightarrow> json" where
  "fingerprint_payload days =
     JList (map (\<lambda>d. JObj
       [(''d'', JStr (date_iso (di_date d))), (''inv'', JInt (di_invoice_rate d)),
        (''app'', JOpt JInt (di_applicable_rate d)), (''cur'', JStr (di_currency d)),
        (''cov'', JStr (di_coverage_state d)), (''chg'', JBool (di_chargeable d))]) days)"

definition recommendation_fingerprint :: "day_input list \<Rightarrow> string" where
  "recommendation_fingerprint days = json_digest True (fingerprint_payload days)"

section \<open>One day\<close>

lemma judgment_of_sel [simp]:
  "dj_date (judgment_of d x ou e) = di_date d"
  "dj_invoice_rate (judgment_of d x ou e) = di_invoice_rate d"
  "dj_applicable_rate (judgment_of d x ou e) = di_applicable_rate d"
  "dj_discrepancy (judgment_of d x ou e) = x"
  "dj_currency (judgment_of d x ou e) = di_currency d"
  "dj_outcome (judgment_of d x ou e) = ou"
  by (simp_all add: judgment_of_def)

text \<open>A day can be decided when its sources and its rate are both there.\<close>

definition decidable :: "day_input \<Rightarrow> bool" where
  "decidable d = (di_coverage_state d = ''PRESENT_VERIFIED'' \<and> di_applicable_rate d \<noteq> None)"

lemma judge_day_sel [simp]:
  "dj_date (judge_day d) = di_date d"
  "dj_invoice_rate (judge_day d) = di_invoice_rate d"
  "dj_applicable_rate (judge_day d) = di_applicable_rate d"
  "dj_currency (judge_day d) = di_currency d"
  by (simp_all add: judge_day_def Let_def split: option.split)

lemma judge_day_outcome:
  "dj_outcome (judge_day d) =
     (if \<not> di_chargeable d then EXCLUDED_NOT_CHARGEABLE
      else if \<not> decidable d then INSUFFICIENT_EVIDENCE
      else if di_applicable_rate d = Some (di_invoice_rate d) then SUPPORTED
      else RATE_DISCREPANCY)"
  by (auto simp: judge_day_def decidable_def Let_def split: option.split)

lemma judge_day_discrepancy:
  "dj_discrepancy (judge_day d) =
     (if di_chargeable d \<and> decidable d
      then di_invoice_rate d - the (di_applicable_rate d) else 0)"
  by (auto simp: judge_day_def decidable_def Let_def split: option.split)

lemma outcome_excluded [simp]:
  "dj_outcome (judge_day d) = EXCLUDED_NOT_CHARGEABLE \<longleftrightarrow> \<not> di_chargeable d"
  by (simp add: judge_day_outcome)

lemma outcome_insufficient [simp]:
  "dj_outcome (judge_day d) = INSUFFICIENT_EVIDENCE \<longleftrightarrow> di_chargeable d \<and> \<not> decidable d"
  by (simp add: judge_day_outcome)

section \<open>The amounts\<close>

definition undecided :: "day_input list \<Rightarrow> day_input list" where
  "undecided days = filter (\<lambda>d. di_chargeable d \<and> \<not> decidable d) days"

lemma decide_days_sel:
  "rec_claimed (decide_days days) = sum_list (map di_invoice_rate (filter di_chargeable days))"
  "rec_days_total (decide_days days) = length (filter di_chargeable days)"
  "rec_judgments (decide_days days) = map judge_day days"
  "rec_currency (decide_days days) = di_currency (hd days)"
  by (simp_all add: decide_days_def Let_def filter_map comp_def)

lemma disputed_sum:
  "rec_disputed (decide_days days) = sum_list (map (dj_discrepancy \<circ> judge_day) days)"
proof -
  have "sum_list (map dj_discrepancy (filter (\<lambda>j. dj_outcome j = RATE_DISCREPANCY)
      (map judge_day days))) = sum_list (map (dj_discrepancy \<circ> judge_day) days)"
    by (induction days) (auto simp: judge_day_outcome judge_day_discrepancy decidable_def)
  then show ?thesis by (simp add: decide_days_def Let_def)
qed

lemma supported_sum:
  "rec_supported (decide_days days) =
     sum_list (map (\<lambda>d. the (di_applicable_rate d))
       (filter (\<lambda>d. di_chargeable d \<and> decidable d) days))"
proof -
  have "sum_list (map (\<lambda>j. the (dj_applicable_rate j))
      (filter (\<lambda>j. dj_outcome j \<in> {SUPPORTED, RATE_DISCREPANCY} \<and> dj_applicable_rate j \<noteq> None)
        (map judge_day days))) =
      sum_list (map (\<lambda>d. the (di_applicable_rate d))
       (filter (\<lambda>d. di_chargeable d \<and> decidable d) days))"
    by (induction days) (auto simp: judge_day_outcome decidable_def)
  then show ?thesis by (simp add: decide_days_def Let_def)
qed

lemma amounts_add_up:
  "rec_claimed (decide_days days) =
     rec_supported (decide_days days) + rec_disputed (decide_days days)
       + sum_list (map di_invoice_rate (undecided days))"
  unfolding decide_days_sel disputed_sum supported_sum undecided_def
  by (induction days) (auto simp: judge_day_discrepancy)

section \<open>Which recommendation\<close>

lemma chargeable_map:
  "filter (\<lambda>j. dj_outcome j \<noteq> EXCLUDED_NOT_CHARGEABLE) (map judge_day days) =
     map judge_day (filter di_chargeable days)"
  by (simp add: filter_map comp_def)

lemma insufficient_map:
  "filter (\<lambda>j. dj_outcome j \<noteq> EXCLUDED_NOT_CHARGEABLE \<and> dj_outcome j = INSUFFICIENT_EVIDENCE)
     (map judge_day days) = map judge_day (undecided days)"
  by (induction days) (auto simp: undecided_def)

lemma decide_days_type:
  "rec_type (decide_days days) =
     (if undecided days \<noteq> [] \<or> filter di_chargeable days = [] then REQUEST_EVIDENCE
      else if 0 < rec_disputed (decide_days days) then DISPUTE else APPROVE_FOR_PAYMENT)"
  by (simp add: decide_days_def Let_def chargeable_map insufficient_map)

lemma decide_days_reasons:
  "rec_reasons (decide_days days) =
     foldl add_new [] (map (insufficient_reason days \<circ> judge_day) (undecided days))"
  by (simp add: decide_days_def Let_def chargeable_map insufficient_map)

lemma decide_days_covered:
  "rec_days_covered (decide_days days) + length (undecided days) =
     rec_days_total (decide_days days)"
  by (simp add: decide_days_def Let_def chargeable_map undecided_def filter_map comp_def
      conj_commute)
    (induction days, auto)


lemma undecided_Nil_iff: "undecided days = [] \<longleftrightarrow> (\<forall>d \<in> set days. di_chargeable d \<longrightarrow> decidable d)"
  by (auto simp: undecided_def filter_empty_conv)

lemma resolve_Inr_iff:
  "resolve_recommendation days = Inr r \<longleftrightarrow>
     days \<noteq> [] \<and> (\<forall>d \<in> set days. di_currency d = di_currency (hd days)) \<and> r = decide_days days"
  unfolding resolve_recommendation_def
  by (simp only: if_split [of "\<lambda>x. x = Inr r"] sum.inject sum.distinct) blast

lemma find_rev_distinct:
  "distinct (map f xs) \<Longrightarrow> x \<in> set xs \<Longrightarrow> List.find (\<lambda>y. f y = f x) (rev xs) = Some x"
proof (induction xs rule: rev_induct)
  case Nil
  then show ?case by simp
next
  case (snoc z zs)
  show ?case
  proof (cases "x = z")
    case False
    with snoc.prems have "x \<in> set zs" by simp
    moreover from this snoc.prems(1) have "f z \<noteq> f x" by force
    ultimately show ?thesis using snoc by simp
  qed simp
qed

lemma insufficient_reason_distinct:
  assumes "distinct (map di_date days)" "d \<in> set days"
  shows "insufficient_reason days (judge_day d) =
    (if di_coverage_state d = ''PRESENT_VERIFIED'' then RULE_NOT_VERIFIED
     else if ''TERMINAL_ACCESS'' \<in> set (di_missing_requirements d)
     then MISSING_DAY_ACCESS_EVIDENCE else MISSING_DAY_SOURCE)"
  using assms by (simp add: insufficient_reason_def by_day_def find_rev_distinct)

section \<open>Commitments\<close>

definition valid_days :: "day_input list \<Rightarrow> bool" where
  "valid_days days = (\<forall>d \<in> set days. valid_date (di_date d))"

text \<open>What a fingerprint reads of a day: all of it but the missing requirements.\<close>

definition fingerprint_view :: "day_input \<Rightarrow> date \<times> int \<times> int option \<times> string \<times> string \<times> bool" where
  "fingerprint_view d =
     (di_date d, di_invoice_rate d, di_applicable_rate d, di_currency d, di_coverage_state d,
      di_chargeable d)"

interpretation fingerprint: digest_commitment True valid_days fingerprint_payload
  "map fingerprint_view"
proof
  fix a b
  assume v: "valid_days a" "valid_days b"
    and eq: "canon (fingerprint_payload a) = canon (fingerprint_payload b)"
  let ?p = "\<lambda>d. JObj
       [(''d'', JStr (date_iso (di_date d))), (''inv'', JInt (di_invoice_rate d)),
        (''app'', JOpt JInt (di_applicable_rate d)), (''cur'', JStr (di_currency d)),
        (''cov'', JStr (di_coverage_state d)), (''chg'', JBool (di_chargeable d))]"
  from eq have "map (canon \<circ> ?p) a = map (canon \<circ> ?p) b"
    by (simp add: fingerprint_payload_def comp_def del: canon.simps(2))
  then show "map fingerprint_view a = map fingerprint_view b"
  proof (rule map_eq_inj_on)
    fix x y
    assume "x \<in> set a" "y \<in> set b" "(canon \<circ> ?p) x = (canon \<circ> ?p) y"
    moreover from this(3) have "map (\<lambda>kv. canon (snd kv)) (case ?p x of JObj k \<Rightarrow> k) =
        map (\<lambda>kv. canon (snd kv)) (case ?p y of JObj k \<Rightarrow> k)"
      unfolding comp_apply json.case by (rule canon_JObj_eqI) simp_all
    ultimately show "fingerprint_view x = fingerprint_view y"
      using v by (simp add: fingerprint_view_def valid_days_def date_iso_inj)
  qed
qed

lemma outcome_value_inj [simp]: "outcome_value a = outcome_value b \<longleftrightarrow> a = b"
  by (cases a; cases b) simp_all

lemma recommendation_value_inj [simp]: "recommendation_value a = recommendation_value b \<longleftrightarrow> a = b"
  by (cases a; cases b) simp_all

lemma reason_value_inj [simp]: "reason_value a = reason_value b \<longleftrightarrow> a = b"
  by (cases a; cases b) simp_all

text \<open>What the digest of a recommendation reads of it.\<close>

definition recommendation_payload :: "recommendation \<Rightarrow> json" where
  "recommendation_payload r =
     digest_payload (rec_type r) (rec_disputed r) (rec_supported r) (rec_claimed r)
       (rec_currency r) (rec_judgments r) (rec_reasons r)"

definition judgment_view :: "day_judgment \<Rightarrow> date \<times> day_outcome \<times> int" where
  "judgment_view j = (dj_date j, dj_outcome j, dj_discrepancy j)"

definition recommendation_view where
  "recommendation_view r =
     (rec_type r, rec_disputed r, rec_supported r, rec_claimed r, rec_currency r, rec_reasons r,
      map judgment_view (rec_judgments r))"

definition valid_recommendation :: "recommendation \<Rightarrow> bool" where
  "valid_recommendation r = (\<forall>j \<in> set (rec_judgments r). valid_date (dj_date j))"

interpretation frozen: digest_commitment True valid_recommendation recommendation_payload
  recommendation_view
proof
  fix a b
  assume v: "valid_recommendation a" "valid_recommendation b"
    and eq: "canon (recommendation_payload a) = canon (recommendation_payload b)"
  let ?p = "\<lambda>j. JObj [(''d'', JStr (date_iso (dj_date j))),
              (''o'', JStr (outcome_value (dj_outcome j))), (''disc'', JInt (dj_discrepancy j))]"
  let ?days = "\<lambda>r. JList (map ?p (rec_judgments r))"
  let ?top = "\<lambda>r. [(''type'', JStr (recommendation_value (rec_type r))),
    (''disputed'', JInt (rec_disputed r)), (''supported'', JInt (rec_supported r)),
    (''claimed'', JInt (rec_claimed r)), (''currency'', JStr (rec_currency r)),
    (''reasons'', JList (map (JStr \<circ> reason_value) (rec_reasons r))), (''days'', ?days r)]"
  from eq have "canon (JObj (?top a)) = canon (JObj (?top b))"
    unfolding recommendation_payload_def digest_payload_def .
  then have top: "map (\<lambda>kv. canon (snd kv)) (?top a) = map (\<lambda>kv. canon (snd kv)) (?top b)"
    by (rule canon_JObj_eqI) simp_all
  then have "map (canon \<circ> ?p) (rec_judgments a) = map (canon \<circ> ?p) (rec_judgments b)"
    by (simp add: comp_def del: canon.simps(2))
  then have "map judgment_view (rec_judgments a) = map judgment_view (rec_judgments b)"
  proof (rule map_eq_inj_on)
    fix x y
    assume "x \<in> set (rec_judgments a)" "y \<in> set (rec_judgments b)"
      "(canon \<circ> ?p) x = (canon \<circ> ?p) y"
    moreover from this(3) have "map (\<lambda>kv. canon (snd kv)) (case ?p x of JObj k \<Rightarrow> k) =
        map (\<lambda>kv. canon (snd kv)) (case ?p y of JObj k \<Rightarrow> k)"
      unfolding comp_apply json.case by (rule canon_JObj_eqI) simp_all
    ultimately show "judgment_view x = judgment_view y"
      using v by (simp add: judgment_view_def valid_recommendation_def date_iso_inj)
  qed
  moreover have "map (JStr \<circ> reason_value) (rec_reasons a) = map (JStr \<circ> reason_value) (rec_reasons b)"
    using top by (simp add: comp_def)
  then have "rec_reasons a = rec_reasons b"
    by (rule map_injective) (auto simp: inj_def)
  ultimately show "recommendation_view a = recommendation_view b"
    using top by (simp add: recommendation_view_def)
qed

lemma rec_digest_payload:
  "rec_digest (decide_days days) =
     ''sha256:'' @ json_digest True (recommendation_payload (decide_days days))"
  by (simp add: decide_days_def Let_def recommendation_payload_def)


section \<open>Properties\<close>

text \<open>Two covered days charged above the tariff, and the same with the second day uncovered.\<close>

definition covered_day :: "int \<Rightarrow> int \<Rightarrow> int \<Rightarrow> day_input" where
  "covered_day d charged tariff =
     \<lparr>di_date = Date 2026 3 d, di_invoice_rate = charged, di_applicable_rate = Some tariff,
      di_currency = ''USD'', di_coverage_state = ''PRESENT_VERIFIED'', di_chargeable = True,
      di_missing_requirements = []\<rparr>"

definition gap_day :: "int \<Rightarrow> int \<Rightarrow> day_input" where
  "gap_day d charged =
     (covered_day d charged charged)\<lparr>di_coverage_state := ''MISSING'',
        di_missing_requirements := [''TERMINAL_ACCESS'']\<rparr>"

lemma example_days [simp]:
  "di_date (covered_day d i a) = Date 2026 3 d" "di_invoice_rate (covered_day d i a) = i"
  "di_applicable_rate (covered_day d i a) = Some a" "di_currency (covered_day d i a) = ''USD''"
  "di_chargeable (covered_day d i a)" "decidable (covered_day d i a)"
  "di_date (gap_day d i) = Date 2026 3 d" "di_invoice_rate (gap_day d i) = i"
  "di_currency (gap_day d i) = ''USD''" "di_chargeable (gap_day d i)"
  "\<not> decidable (gap_day d i)" "di_coverage_state (gap_day d i) = ''MISSING''"
  "di_missing_requirements (gap_day d i) = [''TERMINAL_ACCESS'']"
  by (simp_all add: covered_day_def gap_day_def decidable_def)

text \<open>
  C2: the amounts of a recommendation add up. What the invoice claims for chargeable
  days is what the tariff supports, plus the disputed amount, plus the invoiced rates
  of the days that could not be decided; no minor unit is lost or counted twice, and
  without an undecided day claimed is exactly supported plus disputed.
\<close>

theorem recommendation_amounts_add_up:
  assumes "resolve_recommendation days = Inr r"
  shows "rec_claimed r =
      rec_supported r + rec_disputed r + sum_list (map di_invoice_rate (undecided days))
    \<and> (rec_type r \<noteq> REQUEST_EVIDENCE \<longrightarrow> rec_claimed r = rec_supported r + rec_disputed r)"
  using assms amounts_add_up [of days] decide_days_type [of days]
  by (auto simp: resolve_Inr_iff split: if_splits)

theorem recommendation_amounts_add_up_witness:
  "rec_claimed (decide_days [covered_day 1 30000 17500, gap_day 2 30000]) = 17500 + 12500 + 30000"
  using recommendation_amounts_add_up [of "[covered_day 1 30000 17500, gap_day 2 30000]"
      "decide_days [covered_day 1 30000 17500, gap_day 2 30000]"]
  by (simp add: resolve_Inr_iff supported_sum disputed_sum judge_day_discrepancy undecided_def)

text \<open>
  C1: when a recommendation is issued at all (days given, one currency), evidence is
  requested exactly when a chargeable day lacks verified coverage or an applicable rate,
  or when no day is chargeable; so a dispute or an approval is never partial. Otherwise
  a dispute is issued exactly when the charges exceed the tariff in total, and the
  disputed amount of a recommendation to dispute is that excess.
\<close>

theorem recommendation_never_partial:
  assumes "resolve_recommendation days = Inr r"
  shows "(rec_type r = REQUEST_EVIDENCE \<longleftrightarrow>
      (\<exists>d \<in> set days. di_chargeable d \<and> \<not> decidable d) \<or> (\<forall>d \<in> set days. \<not> di_chargeable d))
    \<and> (rec_type r = DISPUTE \<longleftrightarrow>
        rec_type r \<noteq> REQUEST_EVIDENCE \<and> rec_supported r < rec_claimed r)
    \<and> (rec_type r = DISPUTE \<longrightarrow> rec_disputed r = rec_claimed r - rec_supported r \<and> 0 < rec_disputed r)
    \<and> (rec_type r = APPROVE_FOR_PAYMENT \<longrightarrow> rec_days_covered r = rec_days_total r)"
proof -
  from assms have r: "r = decide_days days" by (simp add: resolve_Inr_iff)
  have und: "undecided days \<noteq> [] \<longleftrightarrow> (\<exists>d \<in> set days. di_chargeable d \<and> \<not> decidable d)"
    and charge: "filter di_chargeable days = [] \<longleftrightarrow> (\<forall>d \<in> set days. \<not> di_chargeable d)"
    by (auto simp: undecided_def filter_empty_conv)
  have sums: "undecided days = [] \<Longrightarrow> rec_claimed r = rec_supported r + rec_disputed r"
    using amounts_add_up [of days] r by simp
  have ty: "rec_type r = (if undecided days \<noteq> [] \<or> filter di_chargeable days = []
      then REQUEST_EVIDENCE else if 0 < rec_disputed r then DISPUTE else APPROVE_FOR_PAYMENT)"
    using decide_days_type [of days] r by simp
  have cov: "undecided days = [] \<Longrightarrow> rec_days_covered r = rec_days_total r"
    using decide_days_covered [of days] r by simp
  show ?thesis
    unfolding ty und [symmetric] charge [symmetric] using sums cov by auto
qed

theorem recommendation_never_partial_witness:
  "rec_type (decide_days [covered_day 1 30000 17500, gap_day 2 30000]) = REQUEST_EVIDENCE"
  using recommendation_never_partial [of "[covered_day 1 30000 17500, gap_day 2 30000]"
      "decide_days [covered_day 1 30000 17500, gap_day 2 30000]"]
  by (simp add: resolve_Inr_iff)

text \<open>
  The reason codes explain a withheld decision. For days with distinct dates they are,
  without repetition, exactly the codes of the undecided chargeable days: a day whose
  source coverage is verified has no applicable rate, an uncovered day that misses its
  terminal access is named as such, any other uncovered day misses a source. A decided
  recommendation carries no reason.
\<close>

theorem reasons_explain_the_gap:
  assumes "resolve_recommendation days = Inr r" "distinct (map di_date days)"
  shows "set (rec_reasons r) =
      (\<lambda>d. if di_coverage_state d = ''PRESENT_VERIFIED'' then RULE_NOT_VERIFIED
           else if ''TERMINAL_ACCESS'' \<in> set (di_missing_requirements d)
           then MISSING_DAY_ACCESS_EVIDENCE else MISSING_DAY_SOURCE)
        ` {d \<in> set days. di_chargeable d \<and> \<not> decidable d}
    \<and> distinct (rec_reasons r)
    \<and> (rec_type r \<noteq> REQUEST_EVIDENCE \<longrightarrow> rec_reasons r = [])"
proof -
  from assms have r: "r = decide_days days" by (simp add: resolve_Inr_iff)
  have sub: "set (undecided days) = {d \<in> set days. di_chargeable d \<and> \<not> decidable d}"
    by (auto simp: undecided_def)
  have "set (rec_reasons r) = (insufficient_reason days \<circ> judge_day) ` set (undecided days)"
    by (simp add: r decide_days_reasons set_foldl_add_new)
  also have "\<dots> = (\<lambda>d. if di_coverage_state d = ''PRESENT_VERIFIED'' then RULE_NOT_VERIFIED
           else if ''TERMINAL_ACCESS'' \<in> set (di_missing_requirements d)
           then MISSING_DAY_ACCESS_EVIDENCE else MISSING_DAY_SOURCE) ` set (undecided days)"
    using assms(2) sub by (intro image_cong) (simp_all add: insufficient_reason_distinct)
  finally show ?thesis
    using decide_days_type [of days]
    by (auto simp: r sub decide_days_reasons distinct_foldl_add_new split: if_splits)
qed

theorem reasons_explain_the_gap_witness:
  "set (rec_reasons (decide_days [covered_day 1 30000 17500, gap_day 2 30000])) =
     {MISSING_DAY_ACCESS_EVIDENCE}"
proof -
  let ?days = "[covered_day 1 30000 17500, gap_day 2 30000]"
  have "{d \<in> set ?days. di_chargeable d \<and> \<not> decidable d} = {gap_day 2 30000}" by auto
  with reasons_explain_the_gap [of ?days "decide_days ?days"] show ?thesis
    by (simp add: resolve_Inr_iff)
qed

text \<open>
  A recommendation's frozen digest commits to its type, its amounts, its currency,
  its reasons and every day's date, outcome and discrepancy: two issued recommendations that
  differ in any of these have different digests, or their two payload texts are a SHA-256
  collision.
\<close>

theorem recommendation_digest_commits:
  assumes "resolve_recommendation xs = Inr r" "resolve_recommendation ys = Inr s"
    and "valid_days xs" "valid_days ys" "recommendation_view r \<noteq> recommendation_view s"
  shows "rec_digest r \<noteq> rec_digest s
    \<or> json_collision True (recommendation_payload r) (recommendation_payload s)"
proof -
  have "valid_recommendation r" "valid_recommendation s"
    using assms by (auto simp: resolve_Inr_iff valid_recommendation_def valid_days_def decide_days_sel)
  moreover have "rec_digest r = ''sha256:'' @ json_digest True (recommendation_payload r)"
    "rec_digest s = ''sha256:'' @ json_digest True (recommendation_payload s)"
    using assms(1,2) unfolding resolve_Inr_iff by (blast intro: rec_digest_payload)+
  ultimately show ?thesis
    using frozen.changed_view_changes_digest [of r s] assms(5) by auto
qed

theorem recommendation_digest_commits_witness:
  "let r = decide_days [covered_day 1 30000 17500]; s = decide_days [covered_day 1 30000 20000] in
     rec_digest r \<noteq> rec_digest s
       \<or> json_collision True (recommendation_payload r) (recommendation_payload s)"
proof -
  let ?x = "[covered_day 1 30000 17500]" and ?y = "[covered_day 1 30000 20000]"
  have "recommendation_view (decide_days ?x) \<noteq> recommendation_view (decide_days ?y)"
    by (simp add: recommendation_view_def disputed_sum judge_day_discrepancy)
  then show ?thesis
    using recommendation_digest_commits [of ?x "decide_days ?x" ?y "decide_days ?y"]
    by (simp add: resolve_Inr_iff valid_days_def days_in_month_def Let_def)
qed

text \<open>
  Opposite discrepancies cancel: a day charged above the tariff and one below it by as
  much are approved together, although the first is judged \<open>RATE_DISCREPANCY\<close>.
\<close>

lemma cancelling_discrepancies_approved:
  "rec_type (decide_days [covered_day 1 30000 17500, covered_day 2 5000 17500]) = APPROVE_FOR_PAYMENT
    \<and> dj_outcome (judge_day (covered_day 1 30000 17500)) = RATE_DISCREPANCY"
  by (simp add: decide_days_type disputed_sum judge_day_discrepancy judge_day_outcome undecided_def)

end
