(* ===== verification/ApplicableRule.thy ===== *)
theory ApplicableRule
  imports Gate PyTime PyNum Complex_Main
begin

text \<open>
  \<open>src/core/applicable_rule.py\<close>: a clause the vector index returned is only a candidate;
  nine deterministic validators decide whether it is the applicable rule, and several
  candidates are resolved to one rule, to a conflict or to none. The lemmas show that
  every validator is needed, that rank and distance decide nothing but ties, and that
  an accepted rate is the clause's amount in minor units.
\<close>

datatype candidate_state = RETRIEVED | ACCEPTED | REJECTED

datatype rule_state = RuleVerified | RuleRejected | RuleConflicted

definition validators :: "string list" where
  "validators =
     [''source_version'', ''exact_text'', ''exact_rate'', ''currency'', ''unit'',
      ''effective_date'', ''scope'', ''supersession'', ''boundary_semantics'']"

record rule_candidate =
  rc_clause_id :: string
  rc_public_ref :: string
  rc_clause_ref :: string
  rc_rank :: int
  rc_distance :: rat
  rc_clause_text :: string
  rc_display_excerpt :: string
  rc_rate_amount :: "decimal option"
  rc_rate_currency :: "string option"
  rc_rate_unit :: "string option"
  rc_effective_from :: "date option"
  rc_effective_to :: "date option"
  rc_scope_code :: string
  rc_equipment_type :: "string option"
  rc_route_code :: "string option"
  rc_service_context :: "string option"
  rc_verification_status :: string
  rc_source_locator :: string
  rc_superseded :: bool

record applicability_query =
  aq_charged_dates :: "date list"
  aq_invoice_currency :: string
  aq_expected_unit :: string
  aq_scope_code :: string
  aq_expected_rate_phrase :: string
  aq_equipment_type :: "string option"
  aq_route_code :: "string option"

record candidate_validation =
  cv_candidate :: rule_candidate
  cv_state :: candidate_state
  cv_results :: "(string \<times> string) list"
  cv_rejection_code :: "string option"
  cv_rate_minor :: "int option"

text \<open>
  \<open>_rate_minor\<close>: \<open>InvalidOperation\<close> and \<open>ValueError\<close> are caught, \<open>TypeError\<close> and \<open>Overflow\<close> are not.
\<close>

definition rate_minor :: "decimal option \<Rightarrow> decimal_error + int option" where
  "rate_minor amount =
     (case amount of
        None \<Rightarrow> Inr None
      | Some a \<Rightarrow>
          (case rbind (dec_less_zero a) (\<lambda>neg.
             if neg then Inr None
             else rbind (dec_exponent a) (\<lambda>e.
               if e < -2 then Inr None
               else rbind (dec_times 100 a) (\<lambda>m. rbind (dec_int m) (\<lambda>i. Inr (Some i)))))
           of Inl InvalidOperation \<Rightarrow> Inr None | Inl ValueError \<Rightarrow> Inr None | r \<Rightarrow> r))"

text \<open>\<open>_normalize\<close> and \<open>_norm_unit\<close>.\<close>

definition rule_normalize :: "string \<Rightarrow> string" where
  "rule_normalize text = collapse_ws (py_lower (py_strip text))"

definition norm_unit :: "string option \<Rightarrow> string" where
  "norm_unit u =
     replace_all ''percalendarday'' ''calendarday'' (filter is_lower_az (py_lower (or_empty u)))"

definition covers_all_dates :: "rule_candidate \<Rightarrow> date list \<Rightarrow> bool" where
  "covers_all_dates c dates =
     (case rc_effective_from c of
        None \<Rightarrow> False
      | Some start \<Rightarrow>
          list_all (\<lambda>d. \<not> d < start \<and>
            (case rc_effective_to c of None \<Rightarrow> True | Some end \<Rightarrow> \<not> end < d)) dates)"

definition scope_matches :: "rule_candidate \<Rightarrow> applicability_query \<Rightarrow> bool" where
  "scope_matches c q =
     (rc_scope_code c = aq_scope_code q
      \<and> \<not> (truthy (aq_equipment_type q)
           \<and> rc_equipment_type c \<noteq> None \<and> rc_equipment_type c \<noteq> aq_equipment_type q)
      \<and> \<not> (truthy (aq_route_code q)
           \<and> rc_route_code c \<noteq> None \<and> rc_route_code c \<noteq> aq_route_code q))"

definition rejection_code :: "string \<Rightarrow> string" where
  "rejection_code v =
     (if v = ''effective_date'' then ''REJECTED_WRONG_DATE''
      else if v = ''exact_text'' then ''REJECTED_TEXT_MISMATCH''
      else if v = ''scope'' then ''REJECTED_SCOPE_MISMATCH''
      else if v = ''source_version'' then ''VERSION_UNAVAILABLE''
      else ''REJECTED_'' @ py_upper v)"

definition verdict :: "bool \<Rightarrow> string" where
  "verdict b = (if b then ''VERIFIED'' else ''FAILED'')"

text \<open>The dictionary \<open>results\<close> in the order it is filled.\<close>

definition validator_results ::
  "rule_candidate \<Rightarrow> applicability_query \<Rightarrow> int option \<Rightarrow> (string \<times> string) list"
where
  "validator_results c q rate =
     (let unit_ok = (norm_unit (rc_rate_unit c) = norm_unit (Some (aq_expected_unit q))) in
      [(''source_version'', verdict (rc_verification_status c = ''VERIFIED'')),
       (''supersession'', verdict (\<not> rc_superseded c)),
       (''exact_text'', verdict (contains (rule_normalize (aq_expected_rate_phrase q))
          (rule_normalize (rc_clause_text c)))),
       (''exact_rate'', verdict (rate \<noteq> None)),
       (''currency'', verdict (py_upper (or_empty (rc_rate_currency c))
          = py_upper (aq_invoice_currency q))),
       (''unit'', verdict unit_ok),
       (''effective_date'', verdict (covers_all_dates c (aq_charged_dates q))),
       (''scope'', verdict (scope_matches c q)),
       (''boundary_semantics'', verdict (rc_effective_from c \<noteq> None \<and> unit_ok))])"

definition failed_validators :: "(string \<times> string) list \<Rightarrow> string list" where
  "failed_validators results = filter (\<lambda>v. map_of results v \<noteq> Some ''VERIFIED'') validators"

definition validate_candidate ::
  "rule_candidate \<Rightarrow> applicability_query \<Rightarrow> decimal_error + candidate_validation"
where
  "validate_candidate c q =
     rbind (rate_minor (rc_rate_amount c)) (\<lambda>rate.
       let results = validator_results c q rate; failed = failed_validators results in
       Inr (if failed \<noteq> []
            then \<lparr>cv_candidate = c, cv_state = REJECTED, cv_results = results,
                  cv_rejection_code = Some (rejection_code (hd failed)), cv_rate_minor = rate\<rparr>
            else \<lparr>cv_candidate = c, cv_state = ACCEPTED, cv_results = results,
                  cv_rejection_code = None, cv_rate_minor = rate\<rparr>))"

record applicability_decision =
  ad_state :: rule_state
  ad_accepted :: "candidate_validation option"
  ad_validations :: "candidate_validation list"
  ad_public_error :: "string option"

definition decide_validations :: "candidate_validation list \<Rightarrow> applicability_decision" where
  "decide_validations validations =
     (let accepted = filter (\<lambda>v. cv_state v = ACCEPTED) validations in
      if accepted = [] then
        \<lparr>ad_state = RuleRejected, ad_accepted = None, ad_validations = validations,
         ad_public_error = Some ''NO_APPLICABLE_RULE''\<rparr>
      else if 1 < length (remdups (map cv_rate_minor accepted)) then
        \<lparr>ad_state = RuleConflicted, ad_accepted = None, ad_validations = validations,
         ad_public_error = Some ''RULE_CONFLICT''\<rparr>
      else
        \<lparr>ad_state = RuleVerified,
         ad_accepted = Some (min_by (rc_rank \<circ> cv_candidate) (hd accepted) (tl accepted)),
         ad_validations = validations, ad_public_error = None\<rparr>)"

definition decide_applicable_rule ::
  "rule_candidate list \<Rightarrow> applicability_query \<Rightarrow> decimal_error + applicability_decision"
where
  "decide_applicable_rule candidates q =
     rbind (rmap (\<lambda>c. validate_candidate c q) candidates) (\<lambda>vs. Inr (decide_validations vs))"

text \<open>\<open>build_hero_query_text\<close>; \<open>None\<close> is the \<open>ValueError\<close> of \<open>min\<close> on no dates.\<close>

definition build_hero_query_text :: "string \<Rightarrow> date list \<Rightarrow> string option" where
  "build_hero_query_text scope_label charged =
     (case charged of
        [] \<Rightarrow> None
      | d # ds \<Rightarrow> Some (''demurrage calendar-day rate for '' @ scope_label @ '' during ''
          @ date_iso (foldl min d ds) @ '' through '' @ date_iso (foldl max d ds)))"

section \<open>One candidate\<close>

text \<open>The checks as predicates of the candidate, the query and the parsed rate.\<close>

definition check_ok :: "rule_candidate \<times> applicability_query \<times> int option \<Rightarrow> string \<Rightarrow> bool" where
  "check_ok i v = (case i of (c, q, rate) \<Rightarrow> map_of (validator_results c q rate) v = Some ''VERIFIED'')"

lemma verdict_verified [simp]: "verdict b = ''VERIFIED'' \<longleftrightarrow> b"
  by (simp add: verdict_def)

text \<open>What each of the nine validators checks.\<close>

lemma check_ok_simps [simp]:
  "check_ok (c, q, rate) ''source_version'' \<longleftrightarrow> rc_verification_status c = ''VERIFIED''"
  "check_ok (c, q, rate) ''supersession'' \<longleftrightarrow> \<not> rc_superseded c"
  "check_ok (c, q, rate) ''exact_text'' \<longleftrightarrow>
     contains (rule_normalize (aq_expected_rate_phrase q)) (rule_normalize (rc_clause_text c))"
  "check_ok (c, q, rate) ''exact_rate'' \<longleftrightarrow> rate \<noteq> None"
  "check_ok (c, q, rate) ''currency'' \<longleftrightarrow>
     py_upper (or_empty (rc_rate_currency c)) = py_upper (aq_invoice_currency q)"
  "check_ok (c, q, rate) ''unit'' \<longleftrightarrow>
     norm_unit (rc_rate_unit c) = norm_unit (Some (aq_expected_unit q))"
  "check_ok (c, q, rate) ''effective_date'' \<longleftrightarrow> covers_all_dates c (aq_charged_dates q)"
  "check_ok (c, q, rate) ''scope'' \<longleftrightarrow> scope_matches c q"
  "check_ok (c, q, rate) ''boundary_semantics'' \<longleftrightarrow>
     rc_effective_from c \<noteq> None \<and> norm_unit (rc_rate_unit c) = norm_unit (Some (aq_expected_unit q))"
  by (simp_all add: check_ok_def validator_results_def Let_def)

definition rule_accepts :: "rule_candidate \<times> applicability_query \<times> int option \<Rightarrow> bool" where
  "rule_accepts i = (case i of (c, q, rate) \<Rightarrow> failed_validators (validator_results c q rate) = [])"

definition rule_refusal :: "rule_candidate \<times> applicability_query \<times> int option \<Rightarrow> string option" where
  "rule_refusal i =
     (case i of (c, q, rate) \<Rightarrow>
        let failed = failed_validators (validator_results c q rate)
        in if failed = [] then None else Some (rejection_code (hd failed)))"

lemma failed_validators_check:
  "failed_validators (validator_results c q rate) =
     filter (\<lambda>v. \<not> check_ok (c, q, rate) v) validators"
  by (simp add: failed_validators_def check_ok_def)

interpretation rule_gate: fail_closed_gate validators check_ok rule_accepts rule_refusal
  "\<lambda>_. rejection_code"
  by unfold_locales
    (auto simp: rule_accepts_def rule_refusal_def failed_validators_check Let_def split: prod.splits)

lemma validate_candidate_Inr:
  "validate_candidate c q = Inr v \<longleftrightarrow>
     (\<exists>rate. rate_minor (rc_rate_amount c) = Inr rate
       \<and> v = \<lparr>cv_candidate = c,
              cv_state = (if rule_accepts (c, q, rate) then ACCEPTED else REJECTED),
              cv_results = validator_results c q rate,
              cv_rejection_code = rule_refusal (c, q, rate), cv_rate_minor = rate\<rparr>)"
  by (auto simp: validate_candidate_def rbind_Inr_iff Let_def rule_accepts_def rule_refusal_def)

lemma validate_candidate_Inl:
  "validate_candidate c q = Inl e \<longleftrightarrow> rate_minor (rc_rate_amount c) = Inl e"
  by (auto simp: validate_candidate_def rbind_Inl_iff Let_def)

lemma validated_sel:
  assumes "validate_candidate c q = Inr v"
  shows "cv_candidate v = c" "cv_state v \<noteq> RETRIEVED"
    "cv_state v = ACCEPTED \<longleftrightarrow> rule_accepts (c, q, cv_rate_minor v)"
    "rate_minor (rc_rate_amount c) = Inr (cv_rate_minor v)"
    "cv_rejection_code v = rule_refusal (c, q, cv_rate_minor v)"
  using assms by (auto simp: validate_candidate_Inr split: if_splits)

section \<open>The rate in minor units\<close>

text \<open>A finite amount with at most two decimals and few enough digits converts exactly.\<close>

lemma rate_minor_exact:
  assumes "-2 \<le> e" "e \<le> 100000" "c * 100 < 10 ^ 28"
  shows "rate_minor (Some (Dec False c e)) = Inr (Some (int c * 10 ^ nat (e + 2)))"
proof -
  have r: "round28 False (c * 100) e = Inr (Dec False (c * 100) e)"
    using assms by (intro round28_exact) simp_all
  consider "e = -2" | "e = -1" | "0 \<le> e" using assms(1) by linarith
  then have "dec_int (Dec False (c * 100) e) = Inr (int c * 10 ^ nat (e + 2))"
  proof cases
    case 3
    then have "nat (e + 2) = nat e + 2" by linarith
    with 3 show ?thesis by (simp add: power_add)
  qed simp_all
  with r assms(1) show ?thesis by (simp add: rate_minor_def)
qed

lemma rate_minor_nonneg: "rate_minor a = Inr (Some m) \<Longrightarrow> 0 \<le> m"
proof (cases a)
  case (Some d)
  assume "rate_minor a = Inr (Some m)"
  with Some show ?thesis
    by (cases d)
      (auto simp: rate_minor_def round28_def Let_def rbind_Inr_iff half_even_div_def
        split: if_splits sum.splits decimal_error.splits)
qed (simp add: rate_minor_def)


section \<open>Several candidates\<close>

definition accepted_of :: "candidate_validation list \<Rightarrow> candidate_validation list" where
  "accepted_of vs = filter (\<lambda>v. cv_state v = ACCEPTED) vs"

definition one_rate :: "candidate_validation list \<Rightarrow> bool" where
  "one_rate vs = (\<forall>v \<in> set vs. \<forall>w \<in> set vs. cv_rate_minor v = cv_rate_minor w)"

lemma length_remdups_1:
  "xs \<noteq> [] \<Longrightarrow> 1 < length (remdups xs) \<longleftrightarrow> \<not> (\<forall>x \<in> set xs. \<forall>y \<in> set xs. x = y)"
proof -
  assume ne: "xs \<noteq> []"
  have l: "length (remdups xs) = card (set xs)" by (rule length_remdups_card_conv)
  have "card (set xs) \<le> 1 \<longleftrightarrow> (\<forall>x \<in> set xs. \<forall>y \<in> set xs. x = y)"
    by (metis List.finite_set card_le_Suc0_iff_eq One_nat_def)
  with l show ?thesis by auto
qed

lemma decide_validations_cases:
  "decide_validations vs =
     (if accepted_of vs = [] then
        \<lparr>ad_state = RuleRejected, ad_accepted = None, ad_validations = vs,
         ad_public_error = Some ''NO_APPLICABLE_RULE''\<rparr>
      else if one_rate (accepted_of vs) then
        \<lparr>ad_state = RuleVerified,
         ad_accepted = Some (min_by (rc_rank \<circ> cv_candidate)
           (hd (accepted_of vs)) (tl (accepted_of vs))),
         ad_validations = vs, ad_public_error = None\<rparr>
      else
        \<lparr>ad_state = RuleConflicted, ad_accepted = None, ad_validations = vs,
         ad_public_error = Some ''RULE_CONFLICT''\<rparr>)"
  using length_remdups_1 [of "map cv_rate_minor (accepted_of vs)"]
  by (auto simp: decide_validations_def Let_def accepted_of_def one_rate_def)

lemma best_accepted:
  assumes "ad_accepted (decide_validations vs) = Some b"
  shows "b \<in> set (accepted_of vs)"
    "v \<in> set (accepted_of vs) \<Longrightarrow> rc_rank (cv_candidate b) \<le> rc_rank (cv_candidate v)"
    "v \<in> set (accepted_of vs) \<Longrightarrow> cv_rate_minor v = cv_rate_minor b"
proof -
  from assms have ne: "accepted_of vs \<noteq> []" and one: "one_rate (accepted_of vs)"
    and b: "b = min_by (rc_rank \<circ> cv_candidate) (hd (accepted_of vs)) (tl (accepted_of vs))"
    by (auto simp: decide_validations_cases split: if_splits)
  have set: "insert (hd (accepted_of vs)) (set (tl (accepted_of vs))) = set (accepted_of vs)"
    using ne by (cases "accepted_of vs") auto
  show in_acc: "b \<in> set (accepted_of vs)" using b min_by_in set by metis
  show "rc_rank (cv_candidate b) \<le> rc_rank (cv_candidate v)" if "v \<in> set (accepted_of vs)"
  proof -
    from that have "v \<in> insert (hd (accepted_of vs)) (set (tl (accepted_of vs)))"
      by (simp only: set)
    from min_by_le [OF this, of "rc_rank \<circ> cv_candidate"] show ?thesis
      by (simp only: b [symmetric] comp_apply)
  qed
  show "v \<in> set (accepted_of vs) \<Longrightarrow> cv_rate_minor v = cv_rate_minor b"
    using one in_acc unfolding one_rate_def by blast
qed

text \<open>Two candidates that differ at most in what the vector index says of them.\<close>

definition same_clause :: "rule_candidate \<Rightarrow> rule_candidate \<Rightarrow> bool" where
  "same_clause c d = (d = c\<lparr>rc_rank := rc_rank d, rc_distance := rc_distance d\<rparr>)"

lemma same_clause_sel:
  assumes "same_clause c d"
  shows "rc_rate_amount d = rc_rate_amount c" "validator_results d q = validator_results c q"
proof -
  obtain r x where d: "d = c\<lparr>rc_rank := r, rc_distance := x\<rparr>"
    using assms unfolding same_clause_def by blast
  show "rc_rate_amount d = rc_rate_amount c" by (simp add: d)
  show "validator_results d q = validator_results c q"
    by (rule ext) (simp add: d validator_results_def covers_all_dates_def scope_matches_def
        cong: option.case_cong)
qed


lemma same_clause_validates:
  assumes "list_all2 same_clause cs ds" "rmap (\<lambda>c. validate_candidate c q) cs = Inr vs"
  shows "\<exists>ws. rmap (\<lambda>c. validate_candidate c q) ds = Inr ws
    \<and> list_all2 (\<lambda>v w. cv_state w = cv_state v \<and> cv_rate_minor w = cv_rate_minor v
        \<and> cv_rejection_code w = cv_rejection_code v) vs ws"
  using assms
proof (induction cs ds arbitrary: vs rule: list_all2_induct)
  case Nil
  then show ?case by simp
next
  case (Cons c cs d ds)
  from Cons.prems obtain v vs' where v: "validate_candidate c q = Inr v"
    and vs': "rmap (\<lambda>c. validate_candidate c q) cs = Inr vs'" "vs = v # vs'"
    by (auto simp: rbind_Inr_iff)
  from v have "validate_candidate d q = Inr (v\<lparr>cv_candidate := d\<rparr>)"
    using same_clause_sel [OF Cons.hyps(1)]
    by (auto simp: validate_candidate_Inr rule_accepts_def rule_refusal_def)
  with Cons.IH [OF vs'(1)] vs'(2) show ?case by auto
qed

lemma same_clause_accepted:
  assumes "list_all2 (\<lambda>v w. cv_state w = cv_state v \<and> cv_rate_minor w = cv_rate_minor v
        \<and> cv_rejection_code w = cv_rejection_code v) vs ws"
  shows "map cv_rate_minor (accepted_of ws) = map cv_rate_minor (accepted_of vs)"
  using assms by (induction rule: list_all2_induct) (auto simp: accepted_of_def)

lemma one_rate_map: "one_rate vs \<longleftrightarrow> (\<forall>x \<in> set (map cv_rate_minor vs). \<forall>y \<in> set (map cv_rate_minor vs). x = y)"
  by (auto simp: one_rate_def)

section \<open>Properties\<close>

definition sample_candidate :: "int \<Rightarrow> nat \<Rightarrow> rule_candidate" where
  "sample_candidate rank cents =
     \<lparr>rc_clause_id = ''c'', rc_public_ref = ''R'', rc_clause_ref = ''4.2'', rc_rank = rank,
      rc_distance = 1 / 4, rc_clause_text = ''Demurrage: $175 per day'', rc_display_excerpt = [],
      rc_rate_amount = Some (Dec False cents (-2)), rc_rate_currency = Some ''usd'',
      rc_rate_unit = Some ''calendar day'', rc_effective_from = Some (Date 2026 1 1),
      rc_effective_to = None, rc_scope_code = ''S'', rc_equipment_type = None,
      rc_route_code = None, rc_service_context = None, rc_verification_status = ''VERIFIED'',
      rc_source_locator = [], rc_superseded = False\<rparr>"

definition sample_query :: "date \<Rightarrow> applicability_query" where
  "sample_query d =
     \<lparr>aq_charged_dates = [d], aq_invoice_currency = ''USD'', aq_expected_unit = ''CALENDAR_DAY'',
      aq_scope_code = ''S'', aq_expected_rate_phrase = ''$175'', aq_equipment_type = None,
      aq_route_code = None\<rparr>"

lemma sample_rate: "n < 100000 \<Longrightarrow> rate_minor (rc_rate_amount (sample_candidate r n)) = Inr (Some (int n))"
  by (simp add: sample_candidate_def rate_minor_exact)

lemma sample_checks: "v \<in> set validators \<Longrightarrow> v \<noteq> ''effective_date'' \<Longrightarrow>
    check_ok (sample_candidate r n, sample_query d, Some m) v"
  unfolding validators_def
  by (simp, elim disjE) (simp_all, simp_all add: sample_candidate_def sample_query_def
      scope_matches_def truthy_def or_empty_def, code_simp+)

lemma sample_accepts:
  "rule_accepts (sample_candidate r n, sample_query d, Some m) \<longleftrightarrow> Date 2026 1 1 \<le> d"
proof -
  have "check_ok (sample_candidate r n, sample_query d, Some m) ''effective_date''
      \<longleftrightarrow> Date 2026 1 1 \<le> d"
    by (simp add: sample_candidate_def sample_query_def covers_all_dates_def not_less)
  moreover have "''effective_date'' \<in> set validators" by (simp add: validators_def)
  ultimately show ?thesis
    unfolding rule_gate.pass_all using sample_checks by metis
qed




lemma sample_validates:
  assumes "n < 100000" "Date 2026 1 1 \<le> d"
  obtains v where "validate_candidate (sample_candidate r n) (sample_query d) = Inr v"
    "cv_state v = ACCEPTED" "cv_rate_minor v = Some (int n)"
  using assms sample_rate [of n r] sample_accepts [of r n d "int n"]
  by (auto simp: validate_candidate_Inr)

lemma decide_two:
  assumes "m < 100000" "n < 100000" "Date 2026 1 1 \<le> d"
  shows "\<exists>v w. decide_applicable_rule [sample_candidate 1 m, sample_candidate 2 n] (sample_query d)
      = Inr (decide_validations [v, w]) \<and> cv_state v = ACCEPTED \<and> cv_state w = ACCEPTED
      \<and> cv_rate_minor v = Some (int m) \<and> cv_rate_minor w = Some (int n)"
proof -
  obtain v where "validate_candidate (sample_candidate 1 m) (sample_query d) = Inr v"
    "cv_state v = ACCEPTED" "cv_rate_minor v = Some (int m)"
    using sample_validates [OF assms(1,3)] by blast
  moreover obtain w where "validate_candidate (sample_candidate 2 n) (sample_query d) = Inr w"
    "cv_state w = ACCEPTED" "cv_rate_minor w = Some (int n)"
    using sample_validates [OF assms(2,3)] by blast
  ultimately show ?thesis by (auto simp: decide_applicable_rule_def)
qed


text \<open>
  C5: vector similarity decides nothing. If the same clauses come back with other ranks
  and distances, every candidate has the same verdict and rejection code, the decision has the
  same state and the same public error, and a verified decision has the same rate.
\<close>

theorem similarity_never_decides:
  assumes "list_all2 same_clause cs ds" "decide_applicable_rule cs q = Inr d"
  shows "\<exists>e. decide_applicable_rule ds q = Inr e \<and> ad_state e = ad_state d
    \<and> ad_public_error e = ad_public_error d
    \<and> map_option cv_rate_minor (ad_accepted e) = map_option cv_rate_minor (ad_accepted d)
    \<and> list_all2 (\<lambda>v w. cv_state w = cv_state v \<and> cv_rejection_code w = cv_rejection_code v)
        (ad_validations d) (ad_validations e)"
proof -
  from assms(2) obtain vs where vs: "rmap (\<lambda>c. validate_candidate c q) cs = Inr vs"
    and d: "d = decide_validations vs"
    by (auto simp: decide_applicable_rule_def rbind_Inr_iff)
  from same_clause_validates [OF assms(1) vs] obtain ws
    where ws: "rmap (\<lambda>c. validate_candidate c q) ds = Inr ws"
      and rel: "list_all2 (\<lambda>v w. cv_state w = cv_state v \<and> cv_rate_minor w = cv_rate_minor v
        \<and> cv_rejection_code w = cv_rejection_code v) vs ws" by blast
  let ?e = "decide_validations ws"
  have rates: "map cv_rate_minor (accepted_of ws) = map cv_rate_minor (accepted_of vs)"
    by (rule same_clause_accepted [OF rel])
  have nil: "accepted_of ws = [] \<longleftrightarrow> accepted_of vs = []"
    using rates by (metis map_is_Nil_conv)
  have one: "one_rate (accepted_of ws) = one_rate (accepted_of vs)"
    by (simp only: one_rate_map rates)
  have same: "ad_state ?e = ad_state d" "ad_public_error ?e = ad_public_error d"
    "ad_accepted ?e = None \<longleftrightarrow> ad_accepted d = None"
    by (simp_all add: d decide_validations_cases nil one)
  have agree: "cv_rate_minor b' = cv_rate_minor b"
    if b: "ad_accepted d = Some b" and b': "ad_accepted ?e = Some b'" for b b'
  proof -
    from best_accepted(1) [OF b'] have "cv_rate_minor b' \<in> set (map cv_rate_minor (accepted_of ws))"
      by simp
    then obtain v where "v \<in> set (accepted_of vs)" "cv_rate_minor v = cv_rate_minor b'"
      unfolding rates by auto
    with best_accepted(3) [of vs b v] b d show ?thesis by simp
  qed
  have "map_option cv_rate_minor (ad_accepted ?e) = map_option cv_rate_minor (ad_accepted d)"
  proof (cases "ad_accepted d")
    case None
    with same(3) show ?thesis by simp
  next
    case (Some b)
    with same(3) obtain b' where b': "ad_accepted ?e = Some b'" by auto
    from agree [OF Some b'] Some b' show ?thesis by simp
  qed
  moreover have "list_all2 (\<lambda>v w. cv_state w = cv_state v \<and> cv_rejection_code w = cv_rejection_code v)
      vs ws" using rel by (rule list_all2_mono) simp
  moreover have "decide_applicable_rule ds q = Inr ?e"
    by (simp add: decide_applicable_rule_def ws)
  moreover have "ad_validations d = vs" "ad_validations ?e = ws"
    by (simp_all add: d decide_validations_cases)
  ultimately show ?thesis
    using same(1,2) by (intro exI [of _ ?e] conjI) (simp_all only:)
qed

theorem similarity_never_decides_witness:
  "\<exists>e. decide_applicable_rule [sample_candidate 9 17500] (sample_query (Date 2026 3 1)) = Inr e
     \<and> ad_state e = RuleVerified"
proof -
  let ?q = "sample_query (Date 2026 3 1)"
  obtain v where "validate_candidate (sample_candidate 1 17500) ?q = Inr v" "cv_state v = ACCEPTED"
    using sample_validates [of 17500 "Date 2026 3 1" 1 thesis] by fastforce
  then have v: "decide_applicable_rule [sample_candidate 1 17500] ?q = Inr (decide_validations [v])"
    "cv_state v = ACCEPTED"
    by (simp_all add: decide_applicable_rule_def)
  have "list_all2 same_clause [sample_candidate 1 17500] [sample_candidate 9 17500]"
    by (simp add: same_clause_def sample_candidate_def)
  from similarity_never_decides [OF this v(1)]
  obtain e where "decide_applicable_rule [sample_candidate 9 17500] ?q = Inr e"
    "ad_state e = ad_state (decide_validations [v])" by blast
  moreover have "ad_state (decide_validations [v]) = RuleVerified"
    using v(2) by (simp add: decide_validations_cases accepted_of_def one_rate_def)
  ultimately show ?thesis by auto
qed

text \<open>
  An infinite rate is not rejected: reading its exponent raises a \<open>TypeError\<close> that the
  handler in \<open>_rate_minor\<close> does not catch.
\<close>

lemma infinite_rate_raises: "rate_minor (Some (DInf False)) = Inl TypeError"
  by (simp add: rate_minor_def)

end
