(* ===== verification/Reconstruction.thy ===== *)
theory Reconstruction
  imports Gate Json PyTime "HOL-Library.Product_Lexorder"
begin

text \<open>
  \<open>src/core/reconstruction.py\<close>: rows read back from memory become events only after
  every check, the free-time and gate-out events bound the chargeable days, and each
  billed date gets its coverage state. The time zone database is a parameter
  \<open>tz :: string \<Rightarrow> int \<Rightarrow> int\<close>: the UTC offset, in microseconds, of a named zone at an
  instant. The knowledge cutoff is an aware datetime, as the timestamp column gives it.
\<close>

datatype reconstruction_state =
    RQueued
  | RetrievingMemory
  | AssemblingEvents
  | AdjudicatingDays
  | Complete
  | Partial
  | NeedsEvidence
  | BlockedMemoryUnavailable
  | BlockedSourceGap
  | RFailed

datatype shipment_event_type =
    DISCHARGED
  | AVAILABLE
  | FREE_TIME_START
  | FREE_TIME_END
  | GATE_OUT
  | TERMINAL_ACCESS_SNAPSHOT

fun event_type_value :: "shipment_event_type \<Rightarrow> string" where
  "event_type_value DISCHARGED = ''DISCHARGED''"
| "event_type_value AVAILABLE = ''AVAILABLE''"
| "event_type_value FREE_TIME_START = ''FREE_TIME_START''"
| "event_type_value FREE_TIME_END = ''FREE_TIME_END''"
| "event_type_value GATE_OUT = ''GATE_OUT''"
| "event_type_value TERMINAL_ACCESS_SNAPSHOT = ''TERMINAL_ACCESS_SNAPSHOT''"

definition all_event_types :: "shipment_event_type list" where
  "all_event_types =
     [DISCHARGED, AVAILABLE, FREE_TIME_START, FREE_TIME_END, GATE_OUT, TERMINAL_ACCESS_SNAPSHOT]"

text \<open>Membership in \<open>ALLOWED_EVENT_TYPES\<close> and the enum value it names.\<close>

definition event_type_of :: "string \<Rightarrow> shipment_event_type option" where
  "event_type_of s = List.find (\<lambda>t. event_type_value t = s) all_event_types"

datatype charged_day_state =
    DayUnresolved
  | DaySourcing
  | DaySourceComplete
  | DaySupported
  | DayRateDiscrepancy
  | DayOperationalException
  | DayInsufficientEvidence
  | DayExcludedNotChargeable

datatype coverage_state =
    PRESENT_VERIFIED
  | MISSING
  | UNAVAILABLE
  | CONFLICTED
  | NOT_APPLICABLE

record normalized_event =
  ev_public_ref :: string
  ev_type :: shipment_event_type
  ev_shipment_ref :: string
  ev_container_ref :: string
  ev_source_ref :: string
  ev_display_anchor :: string
  ev_provenance :: string
  ev_occurred_at :: datetime
  ev_recorded_at :: datetime
  ev_observed_at :: "datetime option"
  ev_effective_from :: "date option"
  ev_effective_to :: "date option"
  ev_facts :: "(string \<times> json) list"

record raw_event_row =
  rw_public_ref :: string
  rw_type :: string
  rw_shipment_ref :: string
  rw_container_ref :: string
  rw_source_ref :: string
  rw_verification_state :: string
  rw_display_anchor :: string
  rw_provenance :: string
  rw_occurred_at :: string
  rw_recorded_at :: string
  rw_observed_at :: "string option"
  rw_effective_from :: "string option"
  rw_effective_to :: "string option"
  rw_facts :: "(string \<times> json) list"

text \<open>\<open>_parse_dt\<close> and \<open>_parse_date\<close>; \<open>None\<close> stands for the \<open>ValueError\<close>.\<close>

definition parse_dt :: "string \<Rightarrow> datetime option" where
  "parse_dt v =
     (case datetime_fromiso (replace_char (CHR ''Z'') ''+00:00'' v) of
        None \<Rightarrow> None
      | Some t \<Rightarrow> if aware t then Some t else None)"

definition parse_date :: "string option \<Rightarrow> date option option" where
  "parse_date v = (case v of None \<Rightarrow> Some None | Some s \<Rightarrow> map_option Some (date_fromiso s))"

text \<open>The five fields parsed inside one \<open>try\<close>.\<close>

definition parse_times ::
  "raw_event_row \<Rightarrow> (datetime \<times> datetime \<times> datetime option \<times> date option \<times> date option) option"
where
  "parse_times row =
     (case (parse_dt (rw_occurred_at row), parse_dt (rw_recorded_at row),
            if truthy (rw_observed_at row)
            then map_option Some (parse_dt (the (rw_observed_at row))) else Some None,
            parse_date (rw_effective_from row), parse_date (rw_effective_to row)) of
        (Some occurred, Some recorded, Some observed, Some from, Some to) \<Rightarrow>
          Some (occurred, recorded, observed, from, to)
      | _ \<Rightarrow> None)"

text \<open>The checks of one row before deduplication: an issue code or the event.\<close>

definition check_row ::
  "datetime \<Rightarrow> string \<Rightarrow> string \<Rightarrow> raw_event_row \<Rightarrow> string + normalized_event"
where
  "check_row cutoff shipment container row =
     (if rw_verification_state row \<noteq> ''VERIFIED'' then Inl ''EVENT_SOURCE_MISSING''
      else case event_type_of (rw_type row) of
        None \<Rightarrow> Inl ''EVENT_TYPE_NOT_ALLOWED''
      | Some ty \<Rightarrow>
          if rw_shipment_ref row \<noteq> shipment \<or> rw_container_ref row \<noteq> container
          then Inl ''EVENT_OWNERSHIP_MISMATCH''
          else case parse_times row of
            None \<Rightarrow> Inl ''EVENT_TIME_INVALID''
          | Some (occurred, recorded, observed, from, to) \<Rightarrow>
              if instant cutoff < instant recorded then Inl ''EVENT_AFTER_KNOWLEDGE_CUTOFF''
              else Inr
                \<lparr>ev_public_ref = rw_public_ref row, ev_type = ty,
                 ev_shipment_ref = rw_shipment_ref row, ev_container_ref = rw_container_ref row,
                 ev_source_ref = rw_source_ref row, ev_display_anchor = rw_display_anchor row,
                 ev_provenance = rw_provenance row, ev_occurred_at = occurred,
                 ev_recorded_at = recorded, ev_observed_at = observed,
                 ev_effective_from = from, ev_effective_to = to, ev_facts = rw_facts row\<rparr>)"

definition dedupe_key :: "normalized_event \<Rightarrow> string \<times> string" where
  "dedupe_key e = (event_type_value (ev_type e), isoformat (ev_occurred_at e))"

record event_validation =
  va_accepted :: "normalized_event list"
  va_rejected :: "(string \<times> string) list"

definition validate_step ::
  "datetime \<Rightarrow> string \<Rightarrow> string \<Rightarrow> raw_event_row
    \<Rightarrow> event_validation \<times> (string \<times> string) list \<Rightarrow> event_validation \<times> (string \<times> string) list"
where
  "validate_step cutoff shipment container row st =
     (case st of (v, seen) \<Rightarrow>
        (case check_row cutoff shipment container row of
           Inl issue \<Rightarrow>
             (v\<lparr>va_rejected := va_rejected v @ [(rw_public_ref row, issue)]\<rparr>, seen)
         | Inr e \<Rightarrow>
             if dedupe_key e \<in> set seen then
               (v\<lparr>va_rejected := va_rejected v @ [(rw_public_ref row, ''EVENT_DUPLICATE'')]\<rparr>, seen)
             else (v\<lparr>va_accepted := va_accepted v @ [e]\<rparr>, dedupe_key e # seen)))"

definition event_order :: "normalized_event \<Rightarrow> int \<times> string" where
  "event_order e = (instant (ev_occurred_at e), ev_public_ref e)"

definition validate_events ::
  "raw_event_row list \<Rightarrow> datetime \<Rightarrow> string \<Rightarrow> string \<Rightarrow> event_validation"
where
  "validate_events rows cutoff shipment container =
     (let v = fst (fold (validate_step cutoff shipment container) rows
                (\<lparr>va_accepted = [], va_rejected = []\<rparr>, []))
      in v\<lparr>va_accepted := sort_key event_order (va_accepted v)\<rparr>)"

definition issue_codes :: "event_validation \<Rightarrow> string list" where
  "issue_codes v = map snd (va_rejected v)"

section \<open>Boundaries and days\<close>

datatype charge_boundary = ChargeBoundary (first_chargeable: date) (last_chargeable: date)

definition effective_timezone :: string where
  "effective_timezone = ''America/Los_Angeles''"

definition local_date :: "(string \<Rightarrow> int \<Rightarrow> int) \<Rightarrow> string \<Rightarrow> datetime \<Rightarrow> date" where
  "local_date tz name t = dt_date (at_offset (tz name (instant t)) t)"

definition resolve_charge_boundary ::
  "(string \<Rightarrow> int \<Rightarrow> int) \<Rightarrow> string \<Rightarrow> normalized_event list \<Rightarrow> charge_boundary option"
where
  "resolve_charge_boundary tz name events =
     (case (List.find (\<lambda>e. ev_type e = FREE_TIME_END) events,
            List.find (\<lambda>e. ev_type e = GATE_OUT) events) of
        (Some free_time_end, Some gate_out) \<Rightarrow>
          (let first = next_day (local_date tz name (ev_occurred_at free_time_end));
               last = local_date tz name (ev_occurred_at gate_out)
           in if last < first then None else Some (ChargeBoundary first last))
      | _ \<Rightarrow> None)"

record charged_day_result =
  cd_date :: date
  cd_state :: charged_day_state
  cd_chargeability :: string
  cd_coverage :: coverage_state
  cd_invoice_rate :: int
  cd_currency :: string
  cd_event_refs :: "string list"
  cd_missing :: "string list"

definition boundary_refs :: "normalized_event list list \<Rightarrow> string list" where
  "boundary_refs groups = concat (map (map ev_public_ref) groups)"

definition snapshot_date :: "normalized_event \<Rightarrow> date" where
  "snapshot_date e =
     (case ev_effective_from e of Some d \<Rightarrow> d | None \<Rightarrow> dt_date (ev_occurred_at e))"

text \<open>\<open>access_by_date\<close>: the first snapshot of a date stays (\<open>setdefault\<close>).\<close>

definition access_by_date :: "normalized_event list \<Rightarrow> date \<Rightarrow> normalized_event option" where
  "access_by_date events d =
     List.find (\<lambda>e. ev_type e = TERMINAL_ACCESS_SNAPSHOT \<and> snapshot_date e = d) events"

definition of_type :: "shipment_event_type \<Rightarrow> normalized_event list \<Rightarrow> normalized_event list" where
  "of_type ty events = filter (\<lambda>e. ev_type e = ty) events"

definition missing_requirements :: "normalized_event list \<Rightarrow> date \<Rightarrow> string list" where
  "missing_requirements events d =
     (if of_type AVAILABLE events = [] then [''AVAILABILITY''] else [])
     @ (if of_type FREE_TIME_END events = [] then [''FREE_TIME_END''] else [])
     @ (if of_type GATE_OUT events = [] then [''GATE_OUT''] else [])
     @ (if of_type TERMINAL_ACCESS_SNAPSHOT events \<noteq> [] \<and> access_by_date events d = None
        then [''TERMINAL_ACCESS''] else [])"

definition in_window :: "charge_boundary option \<Rightarrow> date \<Rightarrow> bool" where
  "in_window boundary d =
     (case boundary of
        None \<Rightarrow> False
      | Some b \<Rightarrow> first_chargeable b \<le> d \<and> d \<le> last_chargeable b)"

definition adjudicate_day ::
  "int \<Rightarrow> string \<Rightarrow> normalized_event list \<Rightarrow> charge_boundary option \<Rightarrow> date \<Rightarrow> charged_day_result"
where
  "adjudicate_day rate currency events boundary d =
     (let groups = [of_type AVAILABLE events, of_type FREE_TIME_END events, of_type GATE_OUT events];
          missing = missing_requirements events d
      in if missing = [] \<and> boundary \<noteq> None \<and> \<not> in_window boundary d then
           \<lparr>cd_date = d, cd_state = DayExcludedNotChargeable, cd_chargeability = ''NOT_CHARGEABLE'',
            cd_coverage = PRESENT_VERIFIED, cd_invoice_rate = rate, cd_currency = currency,
            cd_event_refs = boundary_refs groups, cd_missing = []\<rparr>
         else if missing \<noteq> [] \<or> boundary = None then
           \<lparr>cd_date = d, cd_state = DayInsufficientEvidence, cd_chargeability = ''UNRESOLVED'',
            cd_coverage = MISSING, cd_invoice_rate = rate, cd_currency = currency,
            cd_event_refs = boundary_refs groups,
            cd_missing = (if missing = [] then [''CHARGE_BOUNDARY''] else missing)\<rparr>
         else
           \<lparr>cd_date = d, cd_state = DaySourceComplete, cd_chargeability = ''CHARGEABLE'',
            cd_coverage = PRESENT_VERIFIED, cd_invoice_rate = rate, cd_currency = currency,
            cd_event_refs = boundary_refs (groups @
              [case access_by_date events d of None \<Rightarrow> [] | Some e \<Rightarrow> [e]]),
            cd_missing = []\<rparr>)"

definition adjudicate_charged_days ::
  "date list \<Rightarrow> int \<Rightarrow> string \<Rightarrow> normalized_event list \<Rightarrow> charge_boundary option
    \<Rightarrow> charged_day_result list"
where
  "adjudicate_charged_days dates rate currency events boundary =
     map (adjudicate_day rate currency events boundary) dates"

section \<open>Snapshots, coverage, terminal state\<close>

record access_snapshot_facts =
  as_public_ref :: string
  as_container_ref :: string
  as_snapshot_date :: date
  as_exact_source_verified :: bool
  as_access_status :: string
  as_gate_status :: string
  as_blocking_hold :: string

text \<open>\<open>AccessVerification\<close>: whether it passed, and the reason code if not.\<close>

definition verify_access_snapshot ::
  "access_snapshot_facts \<Rightarrow> string \<Rightarrow> date \<Rightarrow> bool \<times> string option"
where
  "verify_access_snapshot facts expected_container expected_date =
     (if as_container_ref facts \<noteq> expected_container then (False, Some ''CONTAINER_MISMATCH'')
      else if as_snapshot_date facts \<noteq> expected_date then (False, Some ''DATE_MISMATCH'')
      else if \<not> as_exact_source_verified facts then (False, Some ''SOURCE_VERSION_UNAVAILABLE'')
      else if as_access_status facts \<noteq> ''AVAILABLE'' \<or> as_gate_status facts \<noteq> ''OPEN''
              \<or> as_blocking_hold facts \<noteq> ''NONE'' then (False, Some ''SOURCE_INTEGRITY_FAILED'')
      else (True, None))"

definition present :: "bool \<Rightarrow> coverage_state" where
  "present flag = (if flag then PRESENT_VERIFIED else MISSING)"

definition requirement_event_type :: "(string \<times> shipment_event_type) list" where
  "requirement_event_type =
     [(''AVAILABILITY'', AVAILABLE), (''FREE_TIME_START'', FREE_TIME_START),
      (''FREE_TIME_END'', FREE_TIME_END), (''GATE_OUT'', GATE_OUT)]"

definition classify_coverage ::
  "normalized_event list \<Rightarrow> bool \<Rightarrow> bool \<Rightarrow> bool \<Rightarrow> bool \<Rightarrow> (string \<times> coverage_state) list"
where
  "classify_coverage events have_invoice_source have_container have_dates have_rate =
     [(''INVOICE_SOURCE'', present have_invoice_source),
      (''CONTAINER_IDENTITY'', present have_container),
      (''CHARGED_DATES'', present have_dates), (''INVOICE_RATE'', present have_rate)]
     @ map (\<lambda>(r, ty). (r, present (ty \<in> ev_type ` set events))) requirement_event_type"

definition resolve_terminal_state :: "charged_day_result list \<Rightarrow> reconstruction_state" where
  "resolve_terminal_state days =
     (if days = [] then NeedsEvidence
      else if list_all (\<lambda>d. cd_state d = DaySourceComplete) days then Complete
      else NeedsEvidence)"


section \<open>Event validation\<close>

lemma event_type_of_Some: "event_type_of s = Some ty \<longleftrightarrow> s = event_type_value ty"
  by (cases ty) (auto simp: event_type_of_def all_event_types_def)

lemma event_type_value_inj [simp]: "event_type_value a = event_type_value b \<longleftrightarrow> a = b"
  by (metis event_type_of_Some option.inject)

lemma parse_dt_aware: "parse_dt v = Some t \<Longrightarrow> aware t"
  by (auto simp: parse_dt_def split: option.splits if_splits)

lemma parse_times_SomeD:
  "parse_times row = Some (oc, re, ob, fr, to) \<Longrightarrow>
     parse_dt (rw_occurred_at row) = Some oc \<and> parse_dt (rw_recorded_at row) = Some re
     \<and> parse_date (rw_effective_from row) = Some fr \<and> parse_date (rw_effective_to row) = Some to"
  by (auto simp: parse_times_def split: option.splits)

text \<open>What a row that passes the checks is.\<close>

lemma check_row_Inr:
  assumes "check_row cutoff shipment container row = Inr e"
  shows "rw_verification_state row = ''VERIFIED''" "rw_type row = event_type_value (ev_type e)"
    "rw_shipment_ref row = shipment" "rw_container_ref row = container"
    "ev_shipment_ref e = shipment" "ev_container_ref e = container"
    "ev_public_ref e = rw_public_ref row" "ev_source_ref e = rw_source_ref row"
    "parse_dt (rw_occurred_at row) = Some (ev_occurred_at e)"
    "parse_dt (rw_recorded_at row) = Some (ev_recorded_at e)"
    "instant (ev_recorded_at e) \<le> instant cutoff"
  using assms
  by (auto simp: check_row_def event_type_of_Some not_less dest!: parse_times_SomeD
      split: if_splits option.splits)

text \<open>A row leaves its trace: its issue among the rejected ones, or its key among the accepted.\<close>

definition row_settled ::
  "string + normalized_event \<Rightarrow> string \<Rightarrow> (string \<times> string) set \<Rightarrow> (string \<times> string) set \<Rightarrow> bool"
where
  "row_settled c ref R K =
     (case c of Inl issue \<Rightarrow> (ref, issue) \<in> R | Inr e \<Rightarrow> dedupe_key e \<in> K)"

lemma row_settled_simps [simp]:
  "row_settled (Inl issue) ref R K \<longleftrightarrow> (ref, issue) \<in> R"
  "row_settled (Inr e) ref R K \<longleftrightarrow> dedupe_key e \<in> K"
  by (simp_all add: row_settled_def)

lemma row_settled_mono:
  "row_settled c ref R K \<Longrightarrow> R \<subseteq> R' \<Longrightarrow> K \<subseteq> K' \<Longrightarrow> row_settled c ref R' K'"
  by (cases c) auto

text \<open>The invariant of the loop, over the rows seen so far.\<close>

definition validation_inv ::
  "datetime \<Rightarrow> string \<Rightarrow> string \<Rightarrow> raw_event_row list
    \<Rightarrow> event_validation \<times> (string \<times> string) list \<Rightarrow> bool"
where
  "validation_inv cutoff shipment container rows st =
     (case st of (v, seen) \<Rightarrow>
        length (va_accepted v) + length (va_rejected v) = length rows
        \<and> set seen = dedupe_key ` set (va_accepted v)
        \<and> distinct (map dedupe_key (va_accepted v))
        \<and> (\<forall>e \<in> set (va_accepted v). \<exists>row \<in> set rows. check_row cutoff shipment container row = Inr e)
        \<and> (\<forall>row \<in> set rows. row_settled (check_row cutoff shipment container row)
             (rw_public_ref row) (set (va_rejected v)) (dedupe_key ` set (va_accepted v))))"

lemma validation_inv_step:
  assumes "validation_inv cutoff shipment container rows (v, seen)"
  shows "validation_inv cutoff shipment container (rows @ [row])
    (validate_step cutoff shipment container row (v, seen))"
proof -
  let ?check = "check_row cutoff shipment container"
  have old: "length (va_accepted v) + length (va_rejected v) = length rows"
    "set seen = dedupe_key ` set (va_accepted v)" "distinct (map dedupe_key (va_accepted v))"
    "\<forall>e \<in> set (va_accepted v). \<exists>row \<in> set rows. ?check row = Inr e"
    "\<forall>row \<in> set rows. row_settled (?check row) (rw_public_ref row) (set (va_rejected v))
       (dedupe_key ` set (va_accepted v))"
    using assms by (simp_all add: validation_inv_def)
  let ?R = "set (va_rejected v)" and ?K = "dedupe_key ` set (va_accepted v)"
  have keep: "r \<in> set rows \<Longrightarrow> row_settled (?check r) (rw_public_ref r) (insert x ?R) ?K"
    "r \<in> set rows \<Longrightarrow> row_settled (?check r) (rw_public_ref r) ?R (insert k ?K)" for r x k
    using old(5) by (blast intro: row_settled_mono)+
  show ?thesis
  proof (cases "?check row")
    case (Inl issue)
    with old keep show ?thesis
      by (auto simp: validation_inv_def validate_step_def)
  next
    case (Inr e)
    show ?thesis
    proof (cases "dedupe_key e \<in> set seen")
      case True
      with Inr old keep show ?thesis
        by (auto simp: validation_inv_def validate_step_def)
    next
      case False
      then have "dedupe_key e \<notin> dedupe_key ` set (va_accepted v)" using old(2) by simp
      with False Inr old keep show ?thesis
        by (auto simp: validation_inv_def validate_step_def)
    qed
  qed
qed

lemma validation_inv_fold:
  "validation_inv cutoff shipment container rows
     (fold (validate_step cutoff shipment container) rows (\<lparr>va_accepted = [], va_rejected = []\<rparr>, []))"
proof (induction rows rule: rev_induct)
  case Nil
  then show ?case by (simp add: validation_inv_def)
next
  case (snoc row rows)
  obtain v seen where st: "fold (validate_step cutoff shipment container) rows
      (\<lparr>va_accepted = [], va_rejected = []\<rparr>, []) = (v, seen)" by fastforce
  from validation_inv_step [OF snoc.IH [unfolded st]] st show ?case by simp
qed

lemma validate_events_inv:
  fixes rows cutoff shipment container
  defines "v \<equiv> validate_events rows cutoff shipment container"
  shows "length (va_accepted v) + length (va_rejected v) = length rows"
    "distinct (map dedupe_key (va_accepted v))"
    "sorted (map event_order (va_accepted v))"
    "e \<in> set (va_accepted v) \<Longrightarrow> \<exists>row \<in> set rows. check_row cutoff shipment container row = Inr e"
    "row \<in> set rows \<Longrightarrow> check_row cutoff shipment container row = Inl issue \<Longrightarrow>
       (rw_public_ref row, issue) \<in> set (va_rejected v)"
    "row \<in> set rows \<Longrightarrow> check_row cutoff shipment container row = Inr e \<Longrightarrow>
       dedupe_key e \<in> dedupe_key ` set (va_accepted v)"
proof -
  obtain w seen where st: "fold (validate_step cutoff shipment container) rows
      (\<lparr>va_accepted = [], va_rejected = []\<rparr>, []) = (w, seen)" by fastforce
  have inv: "validation_inv cutoff shipment container rows (w, seen)"
    using validation_inv_fold [of cutoff shipment container rows] by (simp only: st)
  have v: "v = w\<lparr>va_accepted := sort_key event_order (va_accepted w)\<rparr>"
    by (simp add: v_def validate_events_def st)
  show "length (va_accepted v) + length (va_rejected v) = length rows"
    using inv by (simp add: v validation_inv_def)
  show "distinct (map dedupe_key (va_accepted v))"
    using inv by (simp add: v validation_inv_def distinct_map)
  show "sorted (map event_order (va_accepted v))" by (simp add: v)
  show "e \<in> set (va_accepted v) \<Longrightarrow> \<exists>row \<in> set rows. check_row cutoff shipment container row = Inr e"
    using inv by (simp add: v validation_inv_def)
  show "row \<in> set rows \<Longrightarrow> check_row cutoff shipment container row = Inl issue \<Longrightarrow>
      (rw_public_ref row, issue) \<in> set (va_rejected v)"
    using inv by (force simp: v validation_inv_def)
  show "row \<in> set rows \<Longrightarrow> check_row cutoff shipment container row = Inr e \<Longrightarrow>
      dedupe_key e \<in> dedupe_key ` set (va_accepted v)"
    using inv by (force simp: v validation_inv_def)
qed

section \<open>Adjudication\<close>

lemma of_type_Nil: "of_type ty events = [] \<longleftrightarrow> \<not> (\<exists>e \<in> set events. ev_type e = ty)"
  by (auto simp: of_type_def filter_empty_conv)

lemma access_None:
  "access_by_date events d = None \<longleftrightarrow>
     \<not> (\<exists>e \<in> set events. ev_type e = TERMINAL_ACCESS_SNAPSHOT \<and> snapshot_date e = d)"
  by (auto simp: access_by_date_def find_None_iff)

text \<open>The events a day needs before it can be sourced.\<close>

definition day_sourced :: "normalized_event list \<Rightarrow> date \<Rightarrow> bool" where
  "day_sourced events d =
     ((\<exists>e \<in> set events. ev_type e = AVAILABLE) \<and> (\<exists>e \<in> set events. ev_type e = FREE_TIME_END)
      \<and> (\<exists>e \<in> set events. ev_type e = GATE_OUT)
      \<and> ((\<exists>e \<in> set events. ev_type e = TERMINAL_ACCESS_SNAPSHOT) \<longrightarrow>
          (\<exists>e \<in> set events. ev_type e = TERMINAL_ACCESS_SNAPSHOT \<and> snapshot_date e = d)))"

lemma missing_Nil: "missing_requirements events d = [] \<longleftrightarrow> day_sourced events d"
  unfolding missing_requirements_def day_sourced_def
  by (simp only: of_type_Nil access_None) simp

lemma day_state:
  "cd_state (adjudicate_day rate currency events boundary d) =
     (if \<not> day_sourced events d \<or> boundary = None then DayInsufficientEvidence
      else if in_window boundary d then DaySourceComplete else DayExcludedNotChargeable)"
  by (auto simp: adjudicate_day_def Let_def missing_Nil)

lemma day_sel [simp]:
  "cd_date (adjudicate_day rate currency events boundary d) = d"
  "cd_invoice_rate (adjudicate_day rate currency events boundary d) = rate"
  "cd_currency (adjudicate_day rate currency events boundary d) = currency"
  by (simp_all add: adjudicate_day_def Let_def)

lemma day_missing:
  "cd_missing (adjudicate_day rate currency events boundary d) =
     (if \<not> day_sourced events d then missing_requirements events d
      else if boundary = None then [''CHARGE_BOUNDARY''] else [])"
  by (auto simp: adjudicate_day_def Let_def missing_Nil [symmetric])

lemma terminal_Complete:
  "resolve_terminal_state days = Complete \<longleftrightarrow>
     days \<noteq> [] \<and> (\<forall>d \<in> set days. cd_state d = DaySourceComplete)"
  by (simp add: resolve_terminal_state_def list_all_iff)


section \<open>The snapshot verifier as a gate\<close>

definition snapshot_checks :: "string list" where
  "snapshot_checks =
     [''CONTAINER_MISMATCH'', ''DATE_MISMATCH'', ''SOURCE_VERSION_UNAVAILABLE'',
      ''SOURCE_INTEGRITY_FAILED'']"

definition snapshot_ok :: "access_snapshot_facts \<times> string \<times> date \<Rightarrow> string \<Rightarrow> bool" where
  "snapshot_ok i k =
     (case i of (facts, container, d) \<Rightarrow>
        if k = ''CONTAINER_MISMATCH'' then as_container_ref facts = container
        else if k = ''DATE_MISMATCH'' then as_snapshot_date facts = d
        else if k = ''SOURCE_VERSION_UNAVAILABLE'' then as_exact_source_verified facts
        else as_access_status facts = ''AVAILABLE'' \<and> as_gate_status facts = ''OPEN''
          \<and> as_blocking_hold facts = ''NONE'')"

interpretation snapshot_gate: fail_closed_gate snapshot_checks snapshot_ok
  "\<lambda>(f, c, d). fst (verify_access_snapshot f c d)" "\<lambda>(f, c, d). snd (verify_access_snapshot f c d)"
  "\<lambda>_ k. k"
  by unfold_locales
    (auto simp: snapshot_checks_def snapshot_ok_def verify_access_snapshot_def split: if_splits)

section \<open>Calendar facts\<close>

lemma next_day_le_iff:
  assumes "valid_date x" "valid_date d"
  shows "next_day x \<le> d \<longleftrightarrow> x < d"
proof -
  obtain y m k where x: "x = Date y m k" by (cases x)
  obtain y' m' k' where d: "d = Date y' m' k'" by (cases d)
  have "k' \<le> days_in_month y m" if "y' = y" "m' = m" using assms d that by simp
  moreover have "1 \<le> k'" "1 \<le> m'" "m' \<le> 12" "m \<le> 12" "k \<le> days_in_month y m"
    using assms d x by simp_all
  ultimately show ?thesis by (auto simp: x d)
qed

section \<open>Properties\<close>

definition sample_row :: "string \<Rightarrow> string \<Rightarrow> string \<Rightarrow> raw_event_row" where
  "sample_row ref ty occurred =
     \<lparr>rw_public_ref = ref, rw_type = ty, rw_shipment_ref = ''SHP'', rw_container_ref = ''CNT'',
      rw_source_ref = ''SRC'', rw_verification_state = ''VERIFIED'', rw_display_anchor = [],
      rw_provenance = [], rw_occurred_at = occurred, rw_recorded_at = ''2026-06-08T10:00:00Z'',
      rw_observed_at = None, rw_effective_from = None, rw_effective_to = None, rw_facts = []\<rparr>"

text \<open>
  C6: event validation drops nothing and admits nothing unchecked. Accepted and rejected
  rows add up to the rows read; the accepted events are in order of their instants, no
  two with the same type and printed time; each accepted event comes from a row whose source
  is verified, whose type is on the allowlist, that belongs to the shipment and container,
  and that was recorded, with a time zone, no later than the knowledge cutoff; and a row
  that passes every check is accepted or repeats the key of an accepted event.
\<close>

theorem events_validated:
  fixes rows cutoff shipment container
  defines "v \<equiv> validate_events rows cutoff shipment container"
  shows "length (va_accepted v) + length (va_rejected v) = length rows
    \<and> sorted (map event_order (va_accepted v)) \<and> distinct (map dedupe_key (va_accepted v))
    \<and> (\<forall>e \<in> set (va_accepted v). \<exists>row \<in> set rows.
         rw_verification_state row = ''VERIFIED'' \<and> rw_type row = event_type_value (ev_type e)
         \<and> rw_shipment_ref row = shipment \<and> rw_container_ref row = container
         \<and> ev_public_ref e = rw_public_ref row \<and> ev_source_ref e = rw_source_ref row
         \<and> aware (ev_occurred_at e) \<and> aware (ev_recorded_at e)
         \<and> instant (ev_recorded_at e) \<le> instant cutoff)
    \<and> (\<forall>row \<in> set rows. case check_row cutoff shipment container row of
         Inl issue \<Rightarrow> (rw_public_ref row, issue) \<in> set (va_rejected v)
       | Inr e \<Rightarrow> \<exists>e' \<in> set (va_accepted v). dedupe_key e' = dedupe_key e)"
proof (intro conjI ballI)
  note inv = validate_events_inv [where rows = rows and cutoff = cutoff and
      shipment = shipment and container = container, folded v_def]
  show "length (va_accepted v) + length (va_rejected v) = length rows"
    "sorted (map event_order (va_accepted v))" "distinct (map dedupe_key (va_accepted v))"
    by (rule inv)+
next
  note inv = validate_events_inv [where rows = rows and cutoff = cutoff and
      shipment = shipment and container = container, folded v_def]
  fix e
  assume "e \<in> set (va_accepted v)"
  with inv(4) obtain row where "row \<in> set rows" "check_row cutoff shipment container row = Inr e"
    by blast
  then show "\<exists>row \<in> set rows.
         rw_verification_state row = ''VERIFIED'' \<and> rw_type row = event_type_value (ev_type e)
         \<and> rw_shipment_ref row = shipment \<and> rw_container_ref row = container
         \<and> ev_public_ref e = rw_public_ref row \<and> ev_source_ref e = rw_source_ref row
         \<and> aware (ev_occurred_at e) \<and> aware (ev_recorded_at e)
         \<and> instant (ev_recorded_at e) \<le> instant cutoff"
    by (intro bexI [of _ row]) (auto dest: check_row_Inr parse_dt_aware)
next
  note inv = validate_events_inv [where rows = rows and cutoff = cutoff and
      shipment = shipment and container = container, folded v_def]
  fix row
  assume row: "row \<in> set rows"
  show "case check_row cutoff shipment container row of
         Inl issue \<Rightarrow> (rw_public_ref row, issue) \<in> set (va_rejected v)
       | Inr e \<Rightarrow> \<exists>e' \<in> set (va_accepted v). dedupe_key e' = dedupe_key e"
    using inv(5) [OF row] inv(6) [OF row] by (cases "check_row cutoff shipment container row") force+
qed

theorem events_validated_witness:
  "let v = validate_events [sample_row ''E1'' ''GATE_OUT'' ''2026-06-07T10:00:00Z'',
        sample_row ''E2'' ''GATE_OUT'' ''yesterday'', sample_row ''E3'' ''BERTHED'' ''2026-06-07'']
      (DateTime (Date 2026 6 9) 0 (Some 0)) ''SHP'' ''CNT''
   in length (va_accepted v) + length (va_rejected v) = 3
     \<and> (''E3'', ''EVENT_TYPE_NOT_ALLOWED'') \<in> set (va_rejected v)"
proof -
  let ?row = "sample_row ''E3'' ''BERTHED'' ''2026-06-07''"
  let ?rows = "[sample_row ''E1'' ''GATE_OUT'' ''2026-06-07T10:00:00Z'',
        sample_row ''E2'' ''GATE_OUT'' ''yesterday'', ?row]"
  let ?cut = "DateTime (Date 2026 6 9) 0 (Some 0)"
  have "check_row ?cut ''SHP'' ''CNT'' ?row = Inl ''EVENT_TYPE_NOT_ALLOWED''"
    by (simp add: check_row_def sample_row_def event_type_of_def all_event_types_def)
  moreover have "rw_public_ref ?row = ''E3''" by (simp add: sample_row_def)
  moreover have "?row \<in> set ?rows" by simp
  ultimately show ?thesis
    using events_validated [of ?rows ?cut "''SHP''" "''CNT''"] by (simp add: Let_def)
qed

text \<open>
  The chargeable window is calendar days of the scenario's time zone: with the first
  free-time-end and gate-out events of the timeline, a billed date is sourced as
  chargeable exactly when its required events are there and it lies strictly after the local
  date of the free-time end and not after the local date of the gate-out.
\<close>

theorem chargeable_window:
  assumes "List.find (\<lambda>e. ev_type e = FREE_TIME_END) events = Some f"
    and "List.find (\<lambda>e. ev_type e = GATE_OUT) events = Some g"
    and "valid_date (local_date tz zone (ev_occurred_at f))" "valid_date d"
    and "valid_date (local_date tz zone (ev_occurred_at g))"
  shows "cd_state (adjudicate_day rate currency events
        (resolve_charge_boundary tz zone events) d) = DaySourceComplete \<longleftrightarrow>
      day_sourced events d \<and> local_date tz zone (ev_occurred_at f) < d
        \<and> d \<le> local_date tz zone (ev_occurred_at g)"
proof -
  let ?f = "local_date tz zone (ev_occurred_at f)" and ?g = "local_date tz zone (ev_occurred_at g)"
  have b: "resolve_charge_boundary tz zone events =
      (if ?g < next_day ?f then None else Some (ChargeBoundary (next_day ?f) ?g))"
    using assms(1,2) by (simp add: resolve_charge_boundary_def Let_def)
  have le: "next_day ?f \<le> x \<longleftrightarrow> ?f < x" if "valid_date x" for x
    using assms(3) that by (rule next_day_le_iff)
  show ?thesis
  proof (cases "?g < next_day ?f")
    case True
    then have "\<not> ?f < ?g" using le [OF assms(5)] by (simp add: not_le [symmetric])
    then have "\<not> (?f < d \<and> d \<le> ?g)" using order_less_le_trans by blast
    with True show ?thesis by (simp add: b day_state)
  next
    case False
    then show ?thesis using le [OF assms(4)] by (auto simp: b day_state in_window_def)
  qed
qed

definition sample_event :: "shipment_event_type \<Rightarrow> datetime \<Rightarrow> normalized_event" where
  "sample_event ty t =
     \<lparr>ev_public_ref = event_type_value ty, ev_type = ty, ev_shipment_ref = ''SHP'',
      ev_container_ref = ''CNT'', ev_source_ref = ''SRC'', ev_display_anchor = [],
      ev_provenance = [], ev_occurred_at = t, ev_recorded_at = t, ev_observed_at = None,
      ev_effective_from = None, ev_effective_to = None, ev_facts = []\<rparr>"

text \<open>Free time ends on 7 June at 23:59 in Los Angeles, stored as 8 June, 06:59 UTC.\<close>

definition sample_timeline :: "normalized_event list" where
  "sample_timeline =
     [sample_event AVAILABLE (DateTime (Date 2026 6 1) 0 (Some 0)),
      sample_event FREE_TIME_END (DateTime (Date 2026 6 8) 25140000000 (Some 0)),
      sample_event GATE_OUT (DateTime (Date 2026 6 11) 72000000000 (Some 0))]"

definition pacific :: "string \<Rightarrow> int \<Rightarrow> int" where
  "pacific zone t = -25200000000"

theorem chargeable_window_witness:
  "cd_state (adjudicate_day 30000 ''USD'' sample_timeline
     (resolve_charge_boundary pacific effective_timezone sample_timeline) (Date 2026 6 8))
   = DaySourceComplete"
proof -
  let ?f = "sample_event FREE_TIME_END (DateTime (Date 2026 6 8) 25140000000 (Some 0))"
  let ?g = "sample_event GATE_OUT (DateTime (Date 2026 6 11) 72000000000 (Some 0))"
  have "List.find (\<lambda>e. ev_type e = FREE_TIME_END) sample_timeline = Some ?f"
    "List.find (\<lambda>e. ev_type e = GATE_OUT) sample_timeline = Some ?g"
    by (simp_all add: sample_timeline_def sample_event_def)
  moreover have "local_date pacific effective_timezone (ev_occurred_at ?f) = Date 2026 6 7"
    "local_date pacific effective_timezone (ev_occurred_at ?g) = Date 2026 6 11"
    by (simp_all add: local_date_def at_offset_def Let_def pacific_def sample_event_def day_us_def
        shift_days_def)
  moreover have "day_sourced sample_timeline (Date 2026 6 8)"
    by (simp add: day_sourced_def sample_timeline_def sample_event_def)
  ultimately show ?thesis
    using chargeable_window [of sample_timeline ?f ?g pacific effective_timezone "Date 2026 6 8"
        30000 "''USD''"]
    by (simp add: days_in_month_def)
qed

text \<open>
  C7: adjudication is fail-closed. Every billed date gets one result, in order; a date is
  SOURCE_COMPLETE exactly when all required events are bound (its own terminal-access
  snapshot included, once the timeline uses them) and it lies in the window; it lacks
  evidence exactly when requirements are named as missing, and then its coverage is MISSING;
  no financial outcome is set here; and the reconstruction is COMPLETE exactly when
  there are dates and every one is sourced and in the window.
\<close>

theorem adjudication_fail_closed:
  fixes dates rate currency events boundary
  defines "days \<equiv> adjudicate_charged_days dates rate currency events boundary"
  shows "map cd_date days = dates
    \<and> (\<forall>x \<in> set days.
         cd_state x \<in> {DaySourceComplete, DayExcludedNotChargeable, DayInsufficientEvidence}
         \<and> (cd_state x = DaySourceComplete \<longleftrightarrow>
              day_sourced events (cd_date x) \<and> in_window boundary (cd_date x))
         \<and> (cd_state x = DayInsufficientEvidence \<longleftrightarrow> cd_missing x \<noteq> [])
         \<and> (cd_state x = DayInsufficientEvidence \<longleftrightarrow> cd_coverage x = MISSING))
    \<and> (resolve_terminal_state days = Complete \<longleftrightarrow>
         dates \<noteq> [] \<and> (\<forall>d \<in> set dates. day_sourced events d \<and> in_window boundary d))"
proof -
  let ?a = "adjudicate_day rate currency events boundary"
  have win: "boundary \<noteq> None" if "in_window boundary d" for d
    using that by (auto simp: in_window_def split: option.splits)
  have state: "cd_state (?a d) \<in> {DaySourceComplete, DayExcludedNotChargeable, DayInsufficientEvidence}"
    "cd_state (?a d) = DaySourceComplete \<longleftrightarrow> day_sourced events d \<and> in_window boundary d" for d
    using win [of d] by (auto simp: day_state)
  have missing: "cd_state (?a d) = DayInsufficientEvidence \<longleftrightarrow> cd_missing (?a d) \<noteq> []" for d
    using missing_Nil [of events d] by (auto simp: day_state day_missing)
  have coverage: "cd_state (?a d) = DayInsufficientEvidence \<longleftrightarrow> cd_coverage (?a d) = MISSING" for d
    by (auto simp: adjudicate_day_def Let_def)
  have "\<forall>x \<in> set days.
         cd_state x \<in> {DaySourceComplete, DayExcludedNotChargeable, DayInsufficientEvidence}
         \<and> (cd_state x = DaySourceComplete \<longleftrightarrow>
              day_sourced events (cd_date x) \<and> in_window boundary (cd_date x))
         \<and> (cd_state x = DayInsufficientEvidence \<longleftrightarrow> cd_missing x \<noteq> [])
         \<and> (cd_state x = DayInsufficientEvidence \<longleftrightarrow> cd_coverage x = MISSING)"
    unfolding days_def adjudicate_charged_days_def set_map
    using state missing coverage by (intro ballI) (elim imageE, simp only: day_sel simp_thms)
  moreover have "map cd_date days = dates"
    by (simp add: days_def adjudicate_charged_days_def comp_def)
  moreover have "resolve_terminal_state days = Complete \<longleftrightarrow>
      dates \<noteq> [] \<and> (\<forall>d \<in> set dates. day_sourced events d \<and> in_window boundary d)"
    by (simp add: terminal_Complete days_def adjudicate_charged_days_def state(2))
  ultimately show ?thesis by blast
qed

theorem adjudication_fail_closed_witness:
  "resolve_terminal_state (adjudicate_charged_days [Date 2026 6 8, Date 2026 6 12] 30000 ''USD''
     sample_timeline (Some (ChargeBoundary (Date 2026 6 8) (Date 2026 6 11)))) \<noteq> Complete"
  using adjudication_fail_closed [of "[Date 2026 6 8, Date 2026 6 12]" 30000 "''USD''"
      sample_timeline "Some (ChargeBoundary (Date 2026 6 8) (Date 2026 6 11))"]
  by (simp add: in_window_def)

text \<open>
  One instant written with two offsets is not recognised as a duplicate: the key holds the
  printed time.
\<close>

lemma same_instant_not_collapsed:
  "length (va_accepted (validate_events
      [sample_row ''E1'' ''GATE_OUT'' ''2026-06-07T23:59:00-07:00'',
       sample_row ''E2'' ''GATE_OUT'' ''2026-06-08T06:59:00Z'']
      (DateTime (Date 2026 6 9) 0 (Some 0)) ''SHP'' ''CNT'')) = 2"
  by code_simp

end
