(* ===== verification/SealManifest.thy ===== *)
theory SealManifest
  imports Digest
begin

text \<open>
  \<open>src/core/seal_manifest.py\<close>: the manifest bound when a decision is sealed, its digest,
  and the hash of an approval request. The lemmas show what two equal digests, or
  two equal request hashes, say of their inputs.
\<close>

record seal_inputs =
  si_invoice_id :: string
  si_reconstruction_id :: string
  si_reconstruction_version :: int
  si_recommendation_id :: string
  si_recommendation_version :: int
  si_recommendation_type :: string
  si_recommendation_digest :: string
  si_disputed :: int
  si_supported :: int
  si_claimed :: int
  si_currency :: string
  si_rule_id :: "string option"
  si_rule_digest :: "string option"
  si_claim_set_version :: int
  si_invoice_source_ref :: string
  si_day_digests :: "string list"
  si_approver_display :: string
  si_approver_kind :: string

text \<open>\<open>_sha\<close>.\<close>

definition source_binding :: "string \<Rightarrow> string" where
  "source_binding ref = sha256_hex (utf8_encode ref)"

definition build_seal_manifest :: "seal_inputs \<Rightarrow> int \<Rightarrow> json" where
  "build_seal_manifest i revision =
     JObj
       [(''schema_version'', JInt 1),
        (''revision'', JInt revision),
        (''invoice_id'', JStr (si_invoice_id i)),
        (''reconstruction'', JObj
           [(''id'', JStr (si_reconstruction_id i)),
            (''version'', JInt (si_reconstruction_version i))]),
        (''recommendation'', JObj
           [(''id'', JStr (si_recommendation_id i)),
            (''version'', JInt (si_recommendation_version i)),
            (''type'', JStr (si_recommendation_type i)),
            (''digest'', JStr (si_recommendation_digest i)),
            (''disputed_amount_minor'', JInt (si_disputed i)),
            (''supported_amount_minor'', JInt (si_supported i)),
            (''claimed_amount_minor'', JInt (si_claimed i)),
            (''currency'', JStr (si_currency i))]),
        (''applicable_rule'', JObj
           [(''id'', JOpt JStr (si_rule_id i)),
            (''digest'', JOpt JStr (si_rule_digest i))]),
        (''claim_set_version'', JInt (si_claim_set_version i)),
        (''invoice_source_binding_sha256'', JStr (source_binding (si_invoice_source_ref i))),
        (''day_judgments'', JList (map JStr (si_day_digests i))),
        (''approver'', JObj
           [(''display'', JStr (si_approver_display i)),
            (''kind'', JStr (si_approver_kind i))])]"

definition seal_digest :: "json \<Rightarrow> string" where
  "seal_digest manifest = prefixed_sha256 (canonical_json_bytes manifest)"

definition approval_payload :: "string \<Rightarrow> int \<Rightarrow> string \<Rightarrow> string \<Rightarrow> json" where
  "approval_payload rec_id version digest decision =
     JObj [(''rec'', JStr rec_id), (''v'', JInt version), (''digest'', JStr digest),
           (''decision'', JStr decision)]"

definition approval_request_hash :: "string \<Rightarrow> int \<Rightarrow> string \<Rightarrow> string \<Rightarrow> string" where
  "approval_request_hash rec_id version digest decision =
     sha256_hex (canonical_json_bytes (approval_payload rec_id version digest decision))"

definition is_stale :: "int \<Rightarrow> int \<Rightarrow> string \<Rightarrow> string \<Rightarrow> bool" where
  "is_stale expected_version current_version expected_digest current_digest =
     (expected_version \<noteq> current_version \<or> expected_digest \<noteq> current_digest)"

section \<open>What the digests commit to\<close>

text \<open>All inputs, the source reference through its own hash.\<close>

definition seal_view :: "seal_inputs \<times> int \<Rightarrow> seal_inputs \<times> int" where
  "seal_view x =
     (case x of (i, revision) \<Rightarrow>
        (i\<lparr>si_invoice_source_ref := source_binding (si_invoice_source_ref i)\<rparr>, revision))"

interpretation seal: digest_commitment False "\<lambda>_. True" "\<lambda>(i, r). build_seal_manifest i r" seal_view
proof
  fix a b :: "seal_inputs \<times> int"
  assume eq: "canon (case a of (i, r) \<Rightarrow> build_seal_manifest i r) =
      canon (case b of (i, r) \<Rightarrow> build_seal_manifest i r)"
  obtain i r where a: "a = (i, r)" by (cases a)
  obtain j s where b: "b = (j, s)" by (cases b)
  have top: "map (\<lambda>kv. canon (snd kv)) (case build_seal_manifest i r of JObj k \<Rightarrow> k) =
      map (\<lambda>kv. canon (snd kv)) (case build_seal_manifest j s of JObj k \<Rightarrow> k)"
    using eq unfolding a b prod.case build_seal_manifest_def json.case
    by (rule canon_JObj_eqI) simp_all
  note parts = top [unfolded build_seal_manifest_def json.case list.map snd_conv list.inject]
  have rcn: "si_reconstruction_id i = si_reconstruction_id j
      \<and> si_reconstruction_version i = si_reconstruction_version j"
    using canon_JObj_eqI [OF parts [THEN conjunct2, THEN conjunct2, THEN conjunct2, THEN conjunct1]]
    by simp
  have rcm: "si_recommendation_id i = si_recommendation_id j
      \<and> si_recommendation_version i = si_recommendation_version j
      \<and> si_recommendation_type i = si_recommendation_type j
      \<and> si_recommendation_digest i = si_recommendation_digest j
      \<and> si_disputed i = si_disputed j \<and> si_supported i = si_supported j
      \<and> si_claimed i = si_claimed j \<and> si_currency i = si_currency j"
    using canon_JObj_eqI [OF parts [THEN conjunct2, THEN conjunct2, THEN conjunct2, THEN conjunct2,
        THEN conjunct1]]
    by simp
  have rule: "si_rule_id i = si_rule_id j \<and> si_rule_digest i = si_rule_digest j"
    using canon_JObj_eqI [OF parts [THEN conjunct2, THEN conjunct2, THEN conjunct2, THEN conjunct2,
        THEN conjunct2, THEN conjunct1]]
    by simp
  have appr: "si_approver_display i = si_approver_display j \<and> si_approver_kind i = si_approver_kind j"
    using canon_JObj_eqI [OF parts [THEN conjunct2, THEN conjunct2, THEN conjunct2, THEN conjunct2,
        THEN conjunct2, THEN conjunct2, THEN conjunct2, THEN conjunct2, THEN conjunct2, THEN conjunct1]]
    by simp
  from parts have rest: "r = s" "si_invoice_id i = si_invoice_id j"
    "si_claim_set_version i = si_claim_set_version j"
    "source_binding (si_invoice_source_ref i) = source_binding (si_invoice_source_ref j)"
    "si_day_digests i = si_day_digests j"
    by (simp_all del: canon.simps(2) add: comp_def)
  show "seal_view a = seal_view b"
    unfolding a b seal_view_def prod.case using rcn rcm rule appr rest
    by (simp add: seal_inputs.equality)
qed

interpretation approval: digest_commitment False "\<lambda>_. True"
  "\<lambda>(rid, v, d, dec). approval_payload rid v d dec" "\<lambda>x. x"
proof
  fix a b :: "string \<times> int \<times> string \<times> string"
  assume eq: "canon (case a of (rid, v, d, dec) \<Rightarrow> approval_payload rid v d dec) =
      canon (case b of (rid, v, d, dec) \<Rightarrow> approval_payload rid v d dec)"
  obtain p q r s where a: "a = (p, q, r, s)" by (cases a)
  obtain p' q' r' s' where b: "b = (p', q', r', s')" by (cases b)
  have "map (\<lambda>kv. canon (snd kv)) (case approval_payload p q r s of JObj k \<Rightarrow> k) =
      map (\<lambda>kv. canon (snd kv)) (case approval_payload p' q' r' s' of JObj k \<Rightarrow> k)"
    using eq unfolding a b prod.case approval_payload_def json.case
    by (rule canon_JObj_eqI) simp_all
  then show "a = b" by (simp add: a b approval_payload_def)
qed

lemma seal_digest_eq: "seal_digest m = ''sha256:'' @ json_digest False m"
  by (simp add: seal_digest_def prefixed_canonical)

text \<open>
  C8: the seal digest pins the decision. If two seals differ in their revision or in any
  input (invoice, reconstruction, recommendation with its amounts and digest, rule, claim set,
  invoice source reference, ordered day judgments, approver), their digests differ; otherwise
  their canonical texts, or the two source references, are a SHA-256 collision.
\<close>

theorem seal_digest_pins_inputs:
  assumes "(i, r) \<noteq> (j, s)"
  shows "seal_digest (build_seal_manifest i r) \<noteq> seal_digest (build_seal_manifest j s)
    \<or> json_collision False (build_seal_manifest i r) (build_seal_manifest j s)
    \<or> sha_collision (utf8_encode (si_invoice_source_ref i)) (utf8_encode (si_invoice_source_ref j))"
proof -
  have "seal_view (i, r) = seal_view (j, s)
      \<or> json_collision False (build_seal_manifest i r) (build_seal_manifest j s)"
    if "seal_digest (build_seal_manifest i r) = seal_digest (build_seal_manifest j s)"
    using seal.digest_pins_view [of "(i, r)" "(j, s)"] that by (simp add: seal_digest_eq)
  moreover have "i = j \<and> r = s \<or> sha_collision (utf8_encode (si_invoice_source_ref i))
      (utf8_encode (si_invoice_source_ref j))" if view: "seal_view (i, r) = seal_view (j, s)"
  proof -
    let ?u = "\<lambda>i. i\<lparr>si_invoice_source_ref := source_binding (si_invoice_source_ref i)\<rparr>"
    from view have eq: "?u i = ?u j" and rs: "r = s" by (simp_all only: seal_view_def prod.case prod.inject)
    from arg_cong [OF eq, of si_invoice_source_ref]
    have bind: "source_binding (si_invoice_source_ref i) = source_binding (si_invoice_source_ref j)"
      by simp
    have "utf8_encode (si_invoice_source_ref i) = utf8_encode (si_invoice_source_ref j)
        \<or> sha_collision (utf8_encode (si_invoice_source_ref i)) (utf8_encode (si_invoice_source_ref j))"
      using bind by (intro sha256_eq_or_collision) (simp add: source_binding_def sha256_hex_def)
    moreover have "i = j" if "si_invoice_source_ref i = si_invoice_source_ref j"
      using eq that by (cases i; cases j) simp
    ultimately show ?thesis using rs by (auto simp: utf8_encode_inj)
  qed
  ultimately show ?thesis using assms by blast
qed

definition sample_seal :: "int \<Rightarrow> seal_inputs" where
  "sample_seal disputed =
     \<lparr>si_invoice_id = ''i'', si_reconstruction_id = ''r'', si_reconstruction_version = 1,
      si_recommendation_id = ''c'', si_recommendation_version = 1,
      si_recommendation_type = ''DISPUTE'', si_recommendation_digest = ''d'',
      si_disputed = disputed, si_supported = 70000, si_claimed = 70000 + disputed,
      si_currency = ''USD'', si_rule_id = None, si_rule_digest = None, si_claim_set_version = 1,
      si_invoice_source_ref = ''s3'', si_day_digests = [''a'', ''b''],
      si_approver_display = ''A'', si_approver_kind = ''AUTHENTICATED''\<rparr>"

theorem seal_digest_pins_inputs_witness:
  "let m = build_seal_manifest (sample_seal 50000) 1; n = build_seal_manifest (sample_seal 60000) 1;
       ref = utf8_encode (si_invoice_source_ref (sample_seal 50000))
   in seal_digest m \<noteq> seal_digest n \<or> json_collision False m n \<or> sha_collision ref ref"
  using seal_digest_pins_inputs [of "sample_seal 50000" 1 "sample_seal 60000" 1]
  by (simp add: sample_seal_def Let_def)

end
