(* ===== verification/Correspondence.thy ===== *)
theory Correspondence
  imports Digest Gate
begin

text \<open>
  \<open>src/core/correspondence.py\<close>: the fact pack copied from the sealed decision, the check
  that a draft reproduces its locked fields, the check that the prose introduces no number
  and no mangled identifier, and the all-or-nothing send gates.
\<close>

datatype gate_state = GVerified | GFailed | GNotRun

definition send_gates :: "string list" where
  "send_gates =
     [''SECOND_AUTHORIZATION'', ''LOCKED_FIELDS'', ''APPROVED_MEMORY_MCP'',
      ''VECTOR_CLAUSE_BINDING'', ''EXACT_S3_SOURCE'', ''NO_FALLBACK'']"

record sealed_fact_pack =
  fp_invoice_id :: string
  fp_decision_seal_id :: string
  fp_seal_digest :: string
  fp_recommendation_type :: string
  fp_disputed :: int
  fp_supported :: int
  fp_currency :: string
  fp_period_start :: string
  fp_period_end :: string
  fp_container_ref :: string
  fp_invoice_no :: string
  fp_rule_ref :: string

definition locked_fields :: "sealed_fact_pack \<Rightarrow> (string \<times> json) list" where
  "locked_fields p =
     [(''recommendation_type'', JStr (fp_recommendation_type p)),
      (''disputed_amount_minor'', JInt (fp_disputed p)),
      (''supported_amount_minor'', JInt (fp_supported p)),
      (''currency'', JStr (fp_currency p)),
      (''charged_period_start'', JStr (fp_period_start p)),
      (''charged_period_end'', JStr (fp_period_end p)),
      (''container_ref'', JStr (fp_container_ref p)),
      (''invoice_no'', JStr (fp_invoice_no p)),
      (''rule_ref'', JStr (fp_rule_ref p))]"

definition locked_fields_digest :: "sealed_fact_pack \<Rightarrow> string" where
  "locked_fields_digest p = prefixed_sha256 (canonical_json_bytes (JObj (locked_fields p)))"

datatype draft_validation = DraftValidation (dv_ok: bool) (dv_issues: "string list")

text \<open>Python's \<open>==\<close> of a string or integer with a value: \<open>True\<close> equals 1 and \<open>False\<close> 0.\<close>

fun scalar_eq :: "json \<Rightarrow> json \<Rightarrow> bool" where
  "scalar_eq (JInt i) (JBool b) = (i = (if b then 1 else 0))"
| "scalar_eq x y = (x = y)"

definition dict_get :: "(string \<times> json) list \<Rightarrow> string \<Rightarrow> json" where
  "dict_get d k = (case map_of d k of None \<Rightarrow> JNull | Some v \<Rightarrow> v)"

definition validate_draft_locked_fields ::
  "sealed_fact_pack \<Rightarrow> (string \<times> json) list \<Rightarrow> draft_validation"
where
  "validate_draft_locked_fields p draft =
     (let expected = locked_fields p in
      if canonical_json_bytes (JObj expected) \<noteq> canonical_json_bytes (JObj draft) then
        (let issues = map (\<lambda>k. ''LOCKED_FIELD_DRIFT:'' @ k)
               (filter (\<lambda>k. \<not> scalar_eq (dict_get expected k) (dict_get draft k))
                 (sort (map fst expected)))
         in DraftValidation False
              (if issues = [] then [''LOCKED_FIELD_SET_MISMATCH''] else issues))
      else DraftValidation True [])"

section \<open>Numbers in prose\<close>

text \<open>\<open>f"{n:,}"\<close>: groups of three digits from the right.\<close>

fun group3 :: "string \<Rightarrow> string" where
  "group3 (a # b # c # d # ds) = a # b # c # CHR '','' # group3 (d # ds)"
| "group3 ds = ds"

definition show_grouped :: "int \<Rightarrow> string" where
  "show_grouped i =
     (if i < 0 then ''-'' else []) @ rev (group3 (rev (show_nat (nat \<bar>i\<bar>))))"

definition money_shapes :: "int \<Rightarrow> string list" where
  "money_shapes minor =
     (let whole = minor div 100; cents = pad0 2 (show_nat (nat (minor mod 100))) in
      [show_int minor, show_int whole, show_grouped whole, show_int whole @ ''.'' @ cents,
       show_grouped whole @ ''.'' @ cents])"

definition strip_zeros :: "string \<Rightarrow> string" where
  "strip_zeros s =
     (let t = dropWhile (\<lambda>c. c = CHR ''0'') s in if t = [] then ''0'' else t)"

text \<open>The optional groups \<open>(?:\\.\\d+)*\<close> of a dotted run, at the head of the text.\<close>

fun dotted_tail :: "string \<Rightarrow> string \<times> string" where
  "dotted_tail (c # d # cs) =
     (if c = CHR ''.'' \<and> is_digit d then
        (let run = takeWhile is_digit cs; (t, r) = dotted_tail (dropWhile is_digit cs)
         in (c # d # run @ t, r))
      else ([], c # d # cs))"
| "dotted_tail s = ([], s)"

lemma length_dotted_tail: "length (snd (dotted_tail s)) \<le> length s"
proof (induction s rule: dotted_tail.induct)
  case (1 c d cs)
  then show ?case
    using length_dropWhile_le [of is_digit cs]
    by (cases "dotted_tail (dropWhile is_digit cs)") (auto simp: Let_def)
qed simp_all

text \<open>\<open>re.findall(r"\\d+(?:\\.\\d+)*", s)\<close>.\<close>

function dotted_runs :: "string \<Rightarrow> string list" where
  "dotted_runs [] = []"
| "dotted_runs (c # cs) =
     (if is_digit c then
        (let run = takeWhile is_digit cs; tail = dotted_tail (dropWhile is_digit cs)
         in (c # run @ fst tail) # dotted_runs (snd tail))
      else dotted_runs cs)"
  by pat_completeness auto

termination
proof (relation "measure length", goal_cases)
  case (2 c cs run tail)
  then show ?case
    using length_dotted_tail [of "dropWhile is_digit cs"] length_dropWhile_le [of is_digit cs] by simp
qed simp_all

definition money_char :: "char \<Rightarrow> bool" where
  "money_char c = (is_digit c \<or> c = CHR '','')"

text \<open>The optional decimal part \<open>(?:\\.\\d+)?\<close> at the head of the text.\<close>

fun decimal_tail :: "string \<Rightarrow> string \<times> string" where
  "decimal_tail (c # d # cs) =
     (if c = CHR ''.'' \<and> is_digit d
      then (c # d # takeWhile is_digit cs, dropWhile is_digit cs) else ([], c # d # cs))"
| "decimal_tail s = ([], s)"

lemma length_decimal_tail: "length (snd (decimal_tail s)) \<le> length s"
  by (induction s rule: decimal_tail.induct) (auto simp: le_SucI length_dropWhile_le)

text \<open>\<open>re.findall(r"\\$?\\d[\\d,]*(?:\\.\\d+)?", s)\<close>: the token starting at a digit, and the scan.\<close>

definition money_token :: "string \<Rightarrow> string \<times> string" where
  "money_token cs =
     (let tail = decimal_tail (dropWhile money_char cs)
      in (takeWhile money_char cs @ fst tail, snd tail))"

lemma length_money_token: "length (snd (money_token cs)) \<le> length cs"
  using length_decimal_tail [of "dropWhile money_char cs"] length_dropWhile_le [of money_char cs]
  by (simp add: money_token_def Let_def)

function number_tokens :: "string \<Rightarrow> string list" where
  "number_tokens [] = []"
| "number_tokens (c # cs) =
     (if is_digit c then (c # fst (money_token cs)) # number_tokens (snd (money_token cs))
      else if c = CHR ''$'' \<and> cs \<noteq> [] \<and> is_digit (hd cs) then
        (c # hd cs # fst (money_token (tl cs))) # number_tokens (snd (money_token (tl cs)))
      else number_tokens cs)"
  by pat_completeness auto

termination
proof (relation "measure length", goal_cases)
  case (2 c cs)
  then show ?case using length_money_token [of cs] by simp
next
  case (3 c cs)
  then show ?case using length_money_token [of "tl cs"] by (cases cs) auto
qed simp_all

definition supported_number_tokens :: "sealed_fact_pack \<Rightarrow> string list" where
  "supported_number_tokens p =
     concat (map money_shapes [fp_disputed p, fp_supported p])
     @ concat (map (\<lambda>text. text # concat (map (\<lambda>part. [part, strip_zeros part])
           (py_split (replace_char (CHR ''/'') '' '' (replace_char (CHR ''-'') '' '' text)))))
         [fp_period_start p, fp_period_end p])
     @ concat (map (\<lambda>ident. concat (map (\<lambda>run. [run, strip_zeros run]) (dotted_runs ident)))
         [fp_container_ref p, fp_invoice_no p, fp_rule_ref p])
     @ money_shapes (fp_supported p + fp_disputed p)"

definition number_supported :: "string list \<Rightarrow> string \<Rightarrow> bool" where
  "number_supported allowed token =
     (let bare = dropWhile (\<lambda>c. c = CHR ''$'') token
      in bare \<in> set allowed \<or> filter (\<lambda>c. c \<noteq> CHR '','') bare \<in> set allowed)"

definition ident_stem :: "string \<Rightarrow> string" where
  "ident_stem ident =
     takeWhile (\<lambda>c. \<not> is_space c \<and> c \<noteq> CHR '','' \<and> c \<noteq> CHR '';'') (py_strip ident)"

definition mangled :: "string \<Rightarrow> string \<Rightarrow> bool" where
  "mangled prose ident =
     (let stem = py_lower (ident_stem ident); lowered = py_lower prose
      in stem \<noteq> [] \<and> contains (take 4 stem) lowered \<and> \<not> contains stem lowered)"

definition prose_issues :: "sealed_fact_pack \<Rightarrow> string \<Rightarrow> string list" where
  "prose_issues p prose =
     map (\<lambda>t. ''UNSUPPORTED_NUMBER:'' @ t)
       (filter (\<lambda>t. \<not> number_supported (supported_number_tokens p) t) (number_tokens prose))
     @ map (\<lambda>(name, ident). ''MANGLED_IDENTIFIER:'' @ name)
         (filter (\<lambda>(name, ident). mangled prose ident)
           [(''container_ref'', fp_container_ref p), (''invoice_no'', fp_invoice_no p)])"

definition validate_draft_prose :: "sealed_fact_pack \<Rightarrow> string option \<Rightarrow> draft_validation" where
  "validate_draft_prose p prose =
     (let issues = prose_issues p (or_empty prose)
      in if issues \<noteq> [] then DraftValidation False (sort (remdups issues))
         else DraftValidation True [])"

section \<open>The send gates\<close>

datatype gate_result =
  GateResult (gr_gate_code: string) (gr_state: gate_state) (gr_detail: "string option")

datatype send_decision =
  SendDecision (sd_permitted: bool) (sd_gate_results: "gate_result list")
    (sd_blocked_reason: "string option")

definition blocked_code :: "string \<Rightarrow> gate_state \<Rightarrow> string" where
  "blocked_code gate state =
     (if state = GNotRun then ''GATE_NOT_RUN:'' @ gate
      else if gate = ''SECOND_AUTHORIZATION'' then ''SEND_BLOCKED_AUTHORIZATION''
      else if gate = ''LOCKED_FIELDS'' then ''SEND_BLOCKED_LOCKED_FIELDS''
      else if gate = ''APPROVED_MEMORY_MCP'' then ''SEND_BLOCKED_MEMORY''
      else if gate = ''VECTOR_CLAUSE_BINDING'' then ''SEND_BLOCKED_VECTOR''
      else if gate = ''EXACT_S3_SOURCE'' then ''SEND_BLOCKED_SOURCE''
      else if gate = ''NO_FALLBACK'' then ''SEND_BLOCKED_FALLBACK''
      else ''SEND_BLOCKED:'' @ gate)"

definition gate_lookup :: "(string \<rightharpoonup> gate_result) \<Rightarrow> string \<Rightarrow> gate_result" where
  "gate_lookup results gate =
     (case results gate of
        None \<Rightarrow> GateResult gate GNotRun (Some ''gate not run'') | Some r \<Rightarrow> r)"

definition evaluate_step ::
  "(string \<rightharpoonup> gate_result) \<Rightarrow> string \<Rightarrow> gate_result list \<times> string option
    \<Rightarrow> gate_result list \<times> string option"
where
  "evaluate_step results gate st =
     (case st of (ordered, blocked) \<Rightarrow>
        let result = gate_lookup results gate in
        (ordered @ [result],
         if gr_state result \<noteq> GVerified \<and> blocked = None
         then Some (blocked_code gate (gr_state result)) else blocked))"

definition evaluate_send_gates :: "(string \<rightharpoonup> gate_result) \<Rightarrow> send_decision" where
  "evaluate_send_gates results =
     (case fold (evaluate_step results) send_gates ([], None) of
        (ordered, blocked) \<Rightarrow> SendDecision (blocked = None) ordered blocked)"

text \<open>\<open>build_subject\<close>; character 183 is the middle dot.\<close>

definition build_subject :: "sealed_fact_pack \<Rightarrow> string" where
  "build_subject p =
     ''Adjustment request '' @ [char_of (183 :: nat)] @ '' '' @ fp_invoice_no p @ '' ''
       @ [char_of (183 :: nat)] @ '' '' @ fp_container_ref p"


section \<open>The gates as a gate\<close>

definition gate_ok :: "(string \<rightharpoonup> gate_result) \<Rightarrow> string \<Rightarrow> bool" where
  "gate_ok results gate = (gr_state (gate_lookup results gate) = GVerified)"

definition gate_refusal :: "(string \<rightharpoonup> gate_result) \<Rightarrow> string \<Rightarrow> string" where
  "gate_refusal results gate = blocked_code gate (gr_state (gate_lookup results gate))"

lemma fold_evaluate:
  "fold (evaluate_step results) gs (ordered, blocked) =
     (ordered @ map (gate_lookup results) gs,
      if blocked \<noteq> None then blocked
      else map_option (gate_refusal results) (List.find (\<lambda>g. \<not> gate_ok results g) gs))"
  by (induction gs arbitrary: ordered blocked)
    (auto simp: evaluate_step_def Let_def gate_ok_def gate_refusal_def)

lemma evaluate_send_gates_eq:
  "evaluate_send_gates results =
     (let blocked = map_option (gate_refusal results) (List.find (\<lambda>g. \<not> gate_ok results g) send_gates)
      in SendDecision (blocked = None) (map (gate_lookup results) send_gates) blocked)"
  by (simp add: evaluate_send_gates_def fold_evaluate Let_def)

interpretation send_gate: fail_closed_gate send_gates gate_ok
  "\<lambda>r. sd_permitted (evaluate_send_gates r)" "\<lambda>r. sd_blocked_reason (evaluate_send_gates r)"
  gate_refusal
proof
  fix r
  show "sd_permitted (evaluate_send_gates r) \<longleftrightarrow> filter (\<lambda>k. \<not> gate_ok r k) send_gates = []"
    by (simp add: evaluate_send_gates_eq Let_def find_None_filter)
  show "sd_permitted (evaluate_send_gates r) \<Longrightarrow> sd_blocked_reason (evaluate_send_gates r) = None"
    by (simp add: evaluate_send_gates_eq Let_def)
  assume "\<not> sd_permitted (evaluate_send_gates r)"
  then have "filter (\<lambda>k. \<not> gate_ok r k) send_gates \<noteq> []"
    by (simp add: evaluate_send_gates_eq Let_def find_None_filter)
  then show "sd_blocked_reason (evaluate_send_gates r) =
      Some (gate_refusal r (hd (filter (\<lambda>k. \<not> gate_ok r k) send_gates)))"
    by (simp add: evaluate_send_gates_eq Let_def find_hd_filter)
qed

section \<open>The scanner misses no digit\<close>

lemma decimal_tail_append: "fst (decimal_tail s) @ snd (decimal_tail s) = s"
  by (induction s rule: decimal_tail.induct) auto

lemma money_token_append: "fst (money_token cs) @ snd (money_token cs) = cs"
  by (simp add: money_token_def Let_def decimal_tail_append)

lemma dollar_not_digit [simp]: "\<not> is_digit (CHR ''$'')"
  by code_simp

lemma number_tokens_digits: "filter is_digit (concat (number_tokens s)) = filter is_digit s"
proof (induction s rule: number_tokens.induct)
  case (2 c cs)
  have split: "filter is_digit zs = filter is_digit (fst (money_token zs)) @ filter is_digit (snd (money_token zs))"
    for zs using money_token_append [of zs] filter_append by metis
  consider "is_digit c" | "\<not> is_digit c" "c = CHR ''$'' \<and> cs \<noteq> [] \<and> is_digit (hd cs)"
    | "\<not> is_digit c" "\<not> (c = CHR ''$'' \<and> cs \<noteq> [] \<and> is_digit (hd cs))" by blast
  then show ?case
  proof cases
    case 1
    with 2(1) show ?thesis using split [of cs] by simp
  next
    case 2
    then obtain d ds where cs: "cs = d # ds" by (cases cs) auto
    have "filter is_digit (concat (number_tokens (snd (money_token ds)))) =
        filter is_digit (snd (money_token ds))"
      using \<open>\<lbrakk>\<not> is_digit c; c = CHR ''$'' \<and> cs \<noteq> [] \<and> is_digit (hd cs)\<rbrakk> \<Longrightarrow> _\<close> 2 by (simp add: cs)
    with 2 show ?thesis using split [of ds] by (simp add: cs)
  next
    case 3
    then have "number_tokens (c # cs) = number_tokens cs" by auto
    with 2(3) 3 show ?thesis by simp
  qed
qed simp

lemma validate_draft_prose_ok:
  "dv_ok (validate_draft_prose p prose) \<longleftrightarrow>
     (\<forall>t \<in> set (number_tokens (or_empty prose)). number_supported (supported_number_tokens p) t)
     \<and> \<not> mangled (or_empty prose) (fp_container_ref p) \<and> \<not> mangled (or_empty prose) (fp_invoice_no p)"
  by (auto simp: validate_draft_prose_def prose_issues_def Let_def filter_empty_conv)

section \<open>Locked fields\<close>

lemma canon_leaf: "canon v = JStr s \<longleftrightarrow> v = JStr s" "canon v = JInt i \<longleftrightarrow> v = JInt i"
  by (cases v; simp)+

lemma locked_fields_canon:
  "(k, canon v) \<in> set (locked_fields p) \<longleftrightarrow> (k, v) \<in> set (locked_fields p)"
  by (simp add: locked_fields_def canon_leaf)

lemma locked_fields_keys [simp]: "distinct (map fst (locked_fields p))"
  by (simp add: locked_fields_def)

lemma locked_fields_match:
  assumes "distinct (map fst draft)"
  shows "canon (JObj (locked_fields p)) = canon (JObj draft) \<longleftrightarrow> set draft = set (locked_fields p)"
proof -
  let ?c = "\<lambda>(k, v). (k :: string, canon v)"
  have self: "set (map ?c (locked_fields p)) = set (locked_fields p)"
    by (simp add: locked_fields_def)
  have "set (map ?c draft) = set (locked_fields p) \<longleftrightarrow> set draft = set (locked_fields p)"
  proof
    assume eq: "set (map ?c draft) = set (locked_fields p)"
    have "?c x = x" if "x \<in> set draft" for x
    proof -
      obtain k v where x: "x = (k, v)" by (cases x)
      with that eq have "(k, canon v) \<in> set (locked_fields p)" by force
      then have "(k, v) \<in> set (locked_fields p)" by (simp only: locked_fields_canon)
      then have "canon v = v" by (auto simp: locked_fields_def)
      with x show ?thesis by simp
    qed
    then have "set (map ?c draft) = set draft" by (simp add: image_def)
    with eq show "set draft = set (locked_fields p)" by simp
  next
    assume "set draft = set (locked_fields p)"
    then have "set (map ?c draft) = set (map ?c (locked_fields p))" by simp
    with self show "set (map ?c draft) = set (locked_fields p)" by simp
  qed
  with self show ?thesis
    using canon_JObj_set_iff [OF locked_fields_keys assms, of p] by auto
qed

lemma validate_locked_ok:
  "dv_ok (validate_draft_locked_fields p draft) \<longleftrightarrow>
     canon (JObj (locked_fields p)) = canon (JObj draft)"
  by (simp add: validate_draft_locked_fields_def Let_def canonical_json_bytes_def json_bytes_inj
      del: canon.simps)

interpretation locked: digest_commitment False "\<lambda>_. True" "\<lambda>p. JObj (locked_fields p)" locked_fields
proof
  fix p q
  assume "canon (JObj (locked_fields p)) = canon (JObj (locked_fields q))"
  then have "map (\<lambda>kv. canon (snd kv)) (locked_fields p) = map (\<lambda>kv. canon (snd kv)) (locked_fields q)"
    by (rule canon_JObj_eqI) (simp_all add: locked_fields_def)
  then show "locked_fields p = locked_fields q" by (simp add: locked_fields_def)
qed


section \<open>Properties\<close>

text \<open>
  C9: a send is permitted exactly when each of the six gates was run and verified. A gate that
  is missing or not verified blocks it, and the blocked reason is that of the first such
  gate in the declared order; the decision reports a result for every gate.
\<close>

theorem send_needs_every_gate:
  "(sd_permitted (evaluate_send_gates results) \<longleftrightarrow>
      (\<forall>g \<in> set send_gates. \<exists>r. results g = Some r \<and> gr_state r = GVerified))
    \<and> (\<not> sd_permitted (evaluate_send_gates results) \<longrightarrow>
        (\<exists>pre g post. send_gates = pre @ g # post \<and> (\<forall>x \<in> set pre. gate_ok results x)
          \<and> \<not> gate_ok results g
          \<and> sd_blocked_reason (evaluate_send_gates results) =
              Some (blocked_code g (gr_state (gate_lookup results g)))))
    \<and> length (sd_gate_results (evaluate_send_gates results)) = 6"
proof (intro conjI)
  have "gate_ok results g \<longleftrightarrow> (\<exists>r. results g = Some r \<and> gr_state r = GVerified)" for g
    by (simp add: gate_ok_def gate_lookup_def split: option.split)
  then show "sd_permitted (evaluate_send_gates results) \<longleftrightarrow>
      (\<forall>g \<in> set send_gates. \<exists>r. results g = Some r \<and> gr_state r = GVerified)"
    by (simp only: send_gate.pass_all)
  show "\<not> sd_permitted (evaluate_send_gates results) \<longrightarrow>
        (\<exists>pre g post. send_gates = pre @ g # post \<and> (\<forall>x \<in> set pre. gate_ok results x)
          \<and> \<not> gate_ok results g
          \<and> sd_blocked_reason (evaluate_send_gates results) =
              Some (blocked_code g (gr_state (gate_lookup results g))))"
    using send_gate.refusal_names_first_failure [of results] by (simp only: gate_refusal_def) blast
  show "length (sd_gate_results (evaluate_send_gates results)) = 6"
    by (simp add: evaluate_send_gates_eq Let_def send_gates_def)
qed

theorem send_needs_every_gate_witness:
  "\<not> sd_permitted (evaluate_send_gates
     [''SECOND_AUTHORIZATION'' \<mapsto> GateResult ''SECOND_AUTHORIZATION'' GVerified None])"
  using send_needs_every_gate
    [of "[''SECOND_AUTHORIZATION'' \<mapsto> GateResult ''SECOND_AUTHORIZATION'' GVerified None]"]
  by (simp add: send_gates_def)


definition sample_pack :: sealed_fact_pack where
  "sample_pack =
     \<lparr>fp_invoice_id = ''i'', fp_decision_seal_id = ''s'', fp_seal_digest = ''d'',
      fp_recommendation_type = ''DISPUTE'', fp_disputed = 70, fp_supported = 105,
      fp_currency = ''USD'', fp_period_start = ''06-08'', fp_period_end = ''06-14'',
      fp_container_ref = ''TLLU-482931-7'', fp_invoice_no = ''INV-1048'',
      fp_rule_ref = ''Clause 4.2''\<rparr>"


text \<open>
  Locked fields cannot drift. A draft, as a mapping, is accepted exactly when it has the
  nine sealed fields with the sealed values and no other; otherwise it is refused with at
  least one issue, and every sealed field whose value differs is named.
\<close>

theorem locked_fields_cannot_drift:
  assumes "distinct (map fst draft)"
  shows "(dv_ok (validate_draft_locked_fields p draft) \<longleftrightarrow> set draft = set (locked_fields p))
    \<and> (dv_ok (validate_draft_locked_fields p draft) \<longleftrightarrow>
        dv_issues (validate_draft_locked_fields p draft) = [])
    \<and> (\<not> dv_ok (validate_draft_locked_fields p draft) \<longrightarrow>
        (\<forall>k \<in> set (map fst (locked_fields p)).
          \<not> scalar_eq (dict_get (locked_fields p) k) (dict_get draft k) \<longrightarrow>
            ''LOCKED_FIELD_DRIFT:'' @ k \<in> set (dv_issues (validate_draft_locked_fields p draft))))"
proof (intro conjI)
  show "dv_ok (validate_draft_locked_fields p draft) \<longleftrightarrow> set draft = set (locked_fields p)"
    by (simp only: validate_locked_ok locked_fields_match [OF assms])
qed (auto simp: validate_draft_locked_fields_def Let_def filter_empty_conv)

theorem locked_fields_cannot_drift_witness:
  "\<not> dv_ok (validate_draft_locked_fields sample_pack
      (locked_fields (sample_pack\<lparr>fp_disputed := 71\<rparr>)))"
proof -
  let ?d = "locked_fields (sample_pack\<lparr>fp_disputed := 71\<rparr>)"
  have "distinct (map fst ?d)" by simp
  moreover have "set ?d \<noteq> set (locked_fields sample_pack)"
  proof
    assume "set ?d = set (locked_fields sample_pack)"
    then have "(''disputed_amount_minor'', JInt 71) \<in> set (locked_fields sample_pack)"
      by (simp add: locked_fields_def [of "sample_pack\<lparr>fp_disputed := 71\<rparr>"] set_eq_iff)
        (metis (full_types))
    then show False by (simp add: locked_fields_def sample_pack_def)
  qed
  ultimately show ?thesis
    using locked_fields_cannot_drift [of ?d sample_pack] by simp
qed

end
