(* ===== verification/Intake.thy ===== *)
theory Intake
  imports Digest
begin

text \<open>
  \<open>src/core/intake.py\<close>: the intake state machine, the PDF envelope, the fingerprint of a
  task's inputs and the validation of public events. The lemmas show which states an
  invoice can reach and that every run of transitions ends, what a display filename can
  contain, and that a validated event carries none of the private names anywhere.
\<close>

section \<open>States\<close>

datatype intake_state =
    Received
  | InitialProcessing
  | ClaimsExtracted
  | ReadyForReconstruction
  | UnsupportedFile
  | Unreadable
  | ExtractionFailed
  | RequiredFieldMissing
  | BlockedSourceVersionUnavailable

fun intake_value :: "intake_state \<Rightarrow> string" where
  "intake_value Received = ''RECEIVED''"
| "intake_value InitialProcessing = ''INITIAL_PROCESSING''"
| "intake_value ClaimsExtracted = ''CLAIMS_EXTRACTED''"
| "intake_value ReadyForReconstruction = ''READY_FOR_RECONSTRUCTION''"
| "intake_value UnsupportedFile = ''UNSUPPORTED_FILE''"
| "intake_value Unreadable = ''UNREADABLE''"
| "intake_value ExtractionFailed = ''EXTRACTION_FAILED''"
| "intake_value RequiredFieldMissing = ''REQUIRED_FIELD_MISSING''"
| "intake_value BlockedSourceVersionUnavailable = ''BLOCKED_SOURCE_VERSION_UNAVAILABLE''"

datatype aggregate_status =
    AggReceived
  | AggInitialProcessing
  | AggReconstructing
  | AggNeedsEvidence
  | AggBlocked

datatype task_state =
    StatePending
  | StateLeased
  | StateRunning
  | StateCompleted
  | StateRetryWait
  | StateBlocked
  | StateFailed

datatype task_type =
    PreserveInvoiceSource
  | ExtractInvoiceClaims
  | ValidateInvoiceClaims
  | StartReconstruction
  | FindApplicableRule
  | JudgeDays
  | BindAccessEvidence

fun task_type_value :: "task_type \<Rightarrow> string" where
  "task_type_value PreserveInvoiceSource = ''PRESERVE_INVOICE_SOURCE''"
| "task_type_value ExtractInvoiceClaims = ''EXTRACT_INVOICE_CLAIMS''"
| "task_type_value ValidateInvoiceClaims = ''VALIDATE_INVOICE_CLAIMS''"
| "task_type_value StartReconstruction = ''START_RECONSTRUCTION''"
| "task_type_value FindApplicableRule = ''FIND_APPLICABLE_RULE''"
| "task_type_value JudgeDays = ''JUDGE_DAYS''"
| "task_type_value BindAccessEvidence = ''BIND_ACCESS_EVIDENCE''"

fun allowed_transitions :: "intake_state \<Rightarrow> intake_state list" where
  "allowed_transitions Received =
     [InitialProcessing, UnsupportedFile, BlockedSourceVersionUnavailable]"
| "allowed_transitions InitialProcessing =
     [ClaimsExtracted, Unreadable, ExtractionFailed, BlockedSourceVersionUnavailable]"
| "allowed_transitions ClaimsExtracted =
     [ReadyForReconstruction, RequiredFieldMissing, BlockedSourceVersionUnavailable]"
| "allowed_transitions ReadyForReconstruction = [BlockedSourceVersionUnavailable]"
| "allowed_transitions _ = []"

text \<open>A raised \<open>ValueError\<close> is its message.\<close>

definition require_transition :: "intake_state \<Rightarrow> intake_state \<Rightarrow> string + unit" where
  "require_transition current target =
     guard_else (target \<in> set (allowed_transitions current))
       (''INVALID_INTAKE_TRANSITION:'' @ intake_value current @ '':'' @ intake_value target)"

definition project_aggregate_status :: "intake_state \<Rightarrow> bool \<Rightarrow> aggregate_status" where
  "project_aggregate_status s reconstruction_active =
     (if reconstruction_active \<or> s = ReadyForReconstruction then AggReconstructing
      else if s = Received then AggReceived
      else if s \<in> set [InitialProcessing, ClaimsExtracted] then AggInitialProcessing
      else if s = RequiredFieldMissing then AggNeedsEvidence
      else AggBlocked)"

section \<open>Envelopes and fingerprints\<close>

definition max_pdf_bytes :: nat where
  "max_pdf_bytes = 15 * 1024 * 1024"

text \<open>\<open>Money\<close>: an integer amount and a three-letter code, upper-cased.\<close>

datatype money = Money (money_amount: int) (money_currency: string)

definition make_money :: "int \<Rightarrow> string \<Rightarrow> string + money" where
  "make_money amount letters =
     (let normalized = py_upper letters in
      if length normalized = 3 \<and> list_all is_upper_az normalized
      then Inr (Money amount normalized)
      else Inl ''currency must be a three-letter ISO code'')"

text \<open>
  \<open>PurePath(s).name\<close> on POSIX: the last component, the empty and the \<open>.\<close> ones dropped.
\<close>

fun split_on :: "char \<Rightarrow> string \<Rightarrow> string list" where
  "split_on d [] = [[]]"
| "split_on d (c # cs) =
     (if c = d then [] # split_on d cs
      else (c # hd (split_on d cs)) # tl (split_on d cs))"

definition path_name :: "string \<Rightarrow> string" where
  "path_name s =
     (let parts = filter (\<lambda>p. p \<noteq> [] \<and> p \<noteq> ''.'') (split_on (CHR ''/'') s)
      in if parts = [] then [] else last parts)"

definition is_control :: "char \<Rightarrow> bool" where
  "is_control c = (code c < 32 \<or> code c = 127)"

definition normalize_display_filename :: "string option \<Rightarrow> string" where
  "normalize_display_filename filename =
     (let raw = (if truthy filename then the filename else ''invoice.pdf'');
          named = py_strip (path_name (replace_char (CHR 92) ''/'' raw));
          clean = filter (\<lambda>c. \<not> is_control c) named;
          given = (if clean = [] then ''invoice.pdf'' else clean);
          full = (if ends_with ''.pdf'' (py_lower given) then given else given @ ''.pdf'')
      in take 255 full)"

datatype pdf_envelope =
  PdfEnvelope (pe_display_filename: string) (pe_byte_length: nat) (pe_sha256: string)

definition validate_pdf_envelope :: "string \<Rightarrow> string option \<Rightarrow> nat \<Rightarrow> string + pdf_envelope" where
  "validate_pdf_envelope body filename maximum_bytes =
     (if body = [] then Inl ''EMPTY_FILE''
      else if maximum_bytes < length body then Inl ''FILE_TOO_LARGE''
      else if \<not> starts_with ''%PDF-'' body then Inl ''UNSUPPORTED_FILE''
      else Inr (PdfEnvelope (normalize_display_filename filename) (length body)
             (sha256_hexdigest body)))"

definition fingerprint_inputs :: "task_type \<times> json list \<Rightarrow> json" where
  "fingerprint_inputs x =
     (case x of (ty, refs) \<Rightarrow>
        JObj [(''task_type'', JStr (task_type_value ty)), (''input_refs'', JList refs)])"

definition task_input_fingerprint :: "task_type \<Rightarrow> json list \<Rightarrow> string" where
  "task_input_fingerprint ty refs = json_digest True (fingerprint_inputs (ty, refs))"

section \<open>Public events\<close>

definition required_event_fields :: "string list" where
  "required_event_fields =
     [''event_id'', ''event_type'', ''schema_version'', ''invoice_id'', ''sequence'',
      ''occurred_at'', ''role'', ''task'', ''tool'', ''state'', ''status'', ''summary'',
      ''produced_object_refs'', ''public_error'']"

definition forbidden_event_names :: "string list" where
  "forbidden_event_names =
     [''s3_bucket'', ''s3_object_key'', ''s3_version_id'', ''sql_text'', ''model_response'',
      ''prompt_text'', ''private_error'']"

text \<open>\<open>[a-z][a-z0-9_]*\\.[a-z][a-z0-9_]*\<close> as a full match.\<close>

definition event_name_part :: "string \<Rightarrow> bool" where
  "event_name_part s =
     (s \<noteq> [] \<and> is_lower_az (hd s)
      \<and> list_all (\<lambda>c. is_lower_az c \<or> is_digit c \<or> c = CHR ''_'') (tl s))"

definition event_type_ok :: "string \<Rightarrow> bool" where
  "event_type_ok s =
     (let pre = takeWhile (\<lambda>c. c \<noteq> CHR ''.'') s; post = dropWhile (\<lambda>c. c \<noteq> CHR ''.'') s
      in post \<noteq> [] \<and> event_name_part pre \<and> event_name_part (tl post))"

text \<open>
  \<open>int(event["sequence"])\<close>: an integer, a numeral in a string, else \<open>TypeError\<close> or
  \<open>ValueError\<close>; a boolean is refused before. Floats are outside this JSON type.
\<close>

fun sequence_positive :: "json \<Rightarrow> string + bool" where
  "sequence_positive (JBool b) = Inr False"
| "sequence_positive (JInt i) = Inr (0 < i)"
| "sequence_positive (JStr s) =
     (case py_int_of_string s of None \<Rightarrow> Inl ''ValueError'' | Some i \<Rightarrow> Inr (0 < i))"
| "sequence_positive _ = Inl ''TypeError''"

fun versioned_ref :: "json \<Rightarrow> bool" where
  "versioned_ref (JObj kvs) = (set [''type'', ''id'', ''version''] \<subseteq> set (map fst kvs))"
| "versioned_ref _ = False"

fun refs_ok :: "json \<Rightarrow> bool" where
  "refs_ok (JList refs) = list_all versioned_ref refs"
| "refs_ok _ = False"

text \<open>
  A value that is no string prints as \<open>None\<close>, \<open>True\<close>, \<open>False\<close>, a numeral or a bracketed
  text, none of which matches the pattern of an event type.
\<close>

fun event_type_valid :: "json \<Rightarrow> bool" where
  "event_type_valid (JStr s) = event_type_ok s"
| "event_type_valid _ = False"

definition event_get :: "(string \<times> json) list \<Rightarrow> string \<Rightarrow> json" where
  "event_get event k = the (map_of event k)"

definition validate_public_event :: "(string \<times> json) list \<Rightarrow> string + unit" where
  "validate_public_event event =
     (let missing = sort (filter (\<lambda>k. k \<notin> set (map fst event)) required_event_fields) in
      if missing \<noteq> [] then Inl (''missing public event fields: '' @ join '', '' missing)
      else if \<not> event_type_valid (event_get event ''event_type'')
        then Inl ''event_type must be a lowercase namespaced string''
      else rbind (sequence_positive (event_get event ''sequence'')) (\<lambda>positive.
        if \<not> positive then Inl ''sequence must be positive''
        else if \<not> refs_ok (event_get event ''produced_object_refs'')
          then Inl ''produced_object_refs must be typed and versioned''
        else (let serialized = py_lower (dumps_sorted (JObj event)) in
          case List.find (\<lambda>f. contains f serialized) forbidden_event_names of
            Some f \<Rightarrow> Inl (''private field in public event: '' @ f)
          | None \<Rightarrow> Inr ())))"

section \<open>The state machine\<close>

inductive intake_step :: "intake_state \<Rightarrow> intake_state \<Rightarrow> bool" where
  step: "require_transition s t = Inr () \<Longrightarrow> intake_step s t"

inductive_cases intake_stepE: "intake_step s t"

lemma intake_step_iff: "intake_step s t \<longleftrightarrow> t \<in> set (allowed_transitions s)"
  by (auto simp: require_transition_def guard_else_Inr_iff elim!: intake_stepE intro!: intake_step.step)

fun intake_rank :: "intake_state \<Rightarrow> nat" where
  "intake_rank Received = 0"
| "intake_rank InitialProcessing = 1"
| "intake_rank ClaimsExtracted = 2"
| "intake_rank ReadyForReconstruction = 3"
| "intake_rank _ = 4"

lemma intake_step_rank: "intake_step s t \<Longrightarrow> intake_rank s < intake_rank t"
  by (cases s) (auto simp: intake_step_iff)

lemma intake_rank_le: "intake_rank s \<le> 4"
  by (cases s) simp_all

text \<open>The states an invoice must have passed to be ready.\<close>

lemma ready_only_from_claims: "intake_step s ReadyForReconstruction \<longleftrightarrow> s = ClaimsExtracted"
  by (cases s) (simp_all add: intake_step_iff)

lemma claims_only_from_processing: "intake_step s ClaimsExtracted \<longleftrightarrow> s = InitialProcessing"
  by (cases s) (simp_all add: intake_step_iff)

lemma processing_only_from_received: "intake_step s InitialProcessing \<longleftrightarrow> s = Received"
  by (cases s) (simp_all add: intake_step_iff)

lemma blocked_is_final: "\<not> intake_step BlockedSourceVersionUnavailable t"
  by (simp add: intake_step_iff)

text \<open>A run of the machine: each state follows the one before.\<close>

fun intake_run :: "intake_state list \<Rightarrow> bool" where
  "intake_run [] = False"
| "intake_run [s] = True"
| "intake_run (s # t # ss) = (intake_step s t \<and> intake_run (t # ss))"

lemma intake_run_length: "intake_run (s # ss) \<Longrightarrow> length ss + intake_rank s \<le> 4"
proof (induction ss arbitrary: s)
  case Nil
  then show ?case by (simp add: intake_rank_le)
next
  case (Cons t ss)
  then have "intake_rank s < intake_rank t" "length ss + intake_rank t \<le> 4"
    by (auto dest: intake_step_rank)
  then show ?case by simp
qed

lemma no_step_to_received: "\<not> intake_step s Received"
  by (cases s) (simp_all add: intake_step_iff)

definition ready_path :: "intake_state list" where
  "ready_path = [Received, InitialProcessing, ClaimsExtracted, ReadyForReconstruction]"

lemma suffix_ready_path:
  "suffix xs ready_path \<longleftrightarrow> xs \<in> set [ready_path, tl ready_path, tl (tl ready_path),
     [ReadyForReconstruction], []]"
  by (simp add: ready_path_def suffix_Cons)

lemma ready_run:
  "intake_run xs \<Longrightarrow> last xs = ReadyForReconstruction \<Longrightarrow> suffix xs ready_path"
proof (induction xs rule: intake_run.induct)
  case (3 s t ss)
  then have "intake_step s t" "suffix (t # ss) ready_path" by auto
  then show ?case
    by (simp only: suffix_ready_path, auto simp: ready_path_def ready_only_from_claims claims_only_from_processing
        processing_only_from_received no_step_to_received)
qed (simp_all add: suffix_ready_path)

lemma blocked_only_last:
  "intake_run xs \<Longrightarrow> BlockedSourceVersionUnavailable \<notin> set (butlast xs)"
  by (induction xs rule: intake_run.induct) (auto simp: blocked_is_final split: if_splits)

text \<open>
  C11: intake is a bounded state machine. Every run of allowed transitions has at most five
  states; a run from RECEIVED that ends ready for reconstruction is exactly received, initial
  processing, claims extracted, ready, so no check can be skipped; and an invoice blocked on an
  unavailable source version never leaves that state.
\<close>

theorem intake_runs_bounded:
  assumes "intake_run (s # ss)"
  shows "length (s # ss) \<le> 5
    \<and> (s = Received \<and> last (s # ss) = ReadyForReconstruction \<longrightarrow>
        s # ss = [Received, InitialProcessing, ClaimsExtracted, ReadyForReconstruction])
    \<and> BlockedSourceVersionUnavailable \<notin> set (butlast (s # ss))"
  using intake_run_length [OF assms] ready_run [OF assms] blocked_only_last [OF assms]
  by (simp only: suffix_ready_path, auto simp: ready_path_def)

theorem intake_runs_bounded_witness:
  "length [Received, InitialProcessing, ClaimsExtracted, ReadyForReconstruction] \<le> (5 :: nat)"
  using intake_runs_bounded [of Received "[InitialProcessing, ClaimsExtracted, ReadyForReconstruction]"]
  by (simp add: intake_step_iff)


section \<open>Filenames\<close>

lemma normalize_display_filename_facts:
  "normalize_display_filename f \<noteq> []" "length (normalize_display_filename f) \<le> 255"
  "c \<in> set (normalize_display_filename f) \<Longrightarrow> \<not> is_control c"
proof -
  let ?clean = "filter (\<lambda>c. \<not> is_control c) (py_strip (path_name
      (replace_char (CHR 92) ''/'' (if truthy f then the f else ''invoice.pdf''))))"
  define given where "given = (if ?clean = [] then ''invoice.pdf'' else ?clean)"
  define full where "full = (if ends_with ''.pdf'' (py_lower given) then given else given @ ''.pdf'')"
  have n: "normalize_display_filename f = take 255 full"
    by (simp add: normalize_display_filename_def Let_def given_def full_def)
  have "given \<noteq> []" by (simp add: given_def)
  then have ne: "full \<noteq> []" by (simp add: full_def)
  have lits: "\<forall>c \<in> set ''invoice.pdf''. \<not> is_control c" "\<forall>c \<in> set ''.pdf''. \<not> is_control c"
    by code_simp+
  then have "\<forall>c \<in> set given. \<not> is_control c" by (auto simp: given_def)
  with lits have ctl: "\<forall>c \<in> set full. \<not> is_control c" by (auto simp: full_def)
  show "normalize_display_filename f \<noteq> []" using ne by (simp add: n)
  show "length (normalize_display_filename f) \<le> 255" by (simp add: n)
  show "c \<in> set (normalize_display_filename f) \<Longrightarrow> \<not> is_control c"
    using ctl by (auto simp: n dest: in_set_takeD)
qed

section \<open>Private names in public events\<close>

text \<open>Every key and string of a JSON value, at any depth.\<close>

fun json_texts :: "json \<Rightarrow> string set" where
  "json_texts (JStr s) = {s}"
| "json_texts (JList xs) = \<Union> (json_texts ` set xs)"
| "json_texts (JObj kvs) = fst ` set kvs \<union> \<Union> ((\<lambda>kv. json_texts (snd kv)) ` set kvs)"
| "json_texts _ = {}"

lemma json_texts_canon: "json_texts (canon j) = json_texts j"
proof (induction j)
  case (JObj kvs)
  then have "json_texts (canon (snd kv)) = json_texts (snd kv)" if "kv \<in> set kvs" for kv
    using that by (cases kv) auto
  then show ?case by (force simp: image_image split_beta)
qed simp_all

definition plain :: "char \<Rightarrow> bool" where
  "plain c = (32 \<le> code c \<and> code c < 127 \<and> code c \<noteq> 34 \<and> code c \<noteq> 92)"

lemma esc_plain: "plain c \<Longrightarrow> esc_char a c = [c]"
  by (simp add: esc_char_def plain_def Let_def)

lemma esc_plain_string: "list_all plain s \<Longrightarrow> concat (map (esc_char a) s) = s"
  by (induction s) (simp_all add: esc_plain)

lemma contains_print_str:
  assumes "list_all plain m" "contains m s"
  shows "contains m (print_str a s)"
proof -
  from assms(2) obtain us vs where "s = us @ m @ vs" by (auto simp: contains_iff)
  then have "print_str a s = ([CHR 34] @ concat (map (esc_char a) us)) @ m
      @ (concat (map (esc_char a) vs) @ [CHR 34])"
    by (simp add: print_str_def esc_plain_string [OF assms(1)])
  then show ?thesis by (rule containsI)
qed

lemma contains_join: "x \<in> set xs \<Longrightarrow> contains x (join sep xs)"
proof (induction xs)
  case (Cons y ys)
  show ?case
  proof (cases "x = y")
    case True
    then show ?thesis using containsI [of "join sep (y # ys)" "[]" y] by (cases ys) (auto simp: join_Cons)
  next
    case False
    with Cons have "contains x (join sep ys)" "ys \<noteq> []" by auto
    moreover have "contains (join sep ys) (join sep (y # ys))"
      using \<open>ys \<noteq> []\<close> containsI [of "join sep (y # ys)" "y @ sep" "join sep ys" "[]"]
      by (simp add: join_Cons)
    ultimately show ?thesis using contains_trans by blast
  qed
qed simp


lemma print_json_contains:
  assumes "list_all plain m" "t \<in> json_texts j" "contains m t"
  shows "contains m (print_json (a, isep, ksep) j)"
  using assms(2,3)
proof (induction j)
  case (JStr s)
  then show ?case using contains_print_str [OF assms(1)] by simp
next
  case (JList xs)
  then obtain x where x: "x \<in> set xs" "contains m (print_json (a, isep, ksep) x)" by auto
  let ?body = "join isep (map (print_json (a, isep, ksep)) xs)"
  have "contains (print_json (a, isep, ksep) x) ?body" using x(1) by (intro contains_join) simp
  moreover have "contains ?body (print_json (a, isep, ksep) (JList xs))"
    by (rule containsI [of _ "''[''" _ "'']''"]) simp
  ultimately show ?case using x(2) contains_trans by blast
next
  case (JObj kvs)
  let ?p = "\<lambda>(k, v). print_str a k @ ksep @ print_json (a, isep, ksep) v"
  let ?body = "join isep (map ?p kvs)"
  obtain k v where kv: "(k, v) \<in> set kvs" "t = k \<or> t \<in> json_texts v"
    using JObj.prems(1) by (auto simp: image_iff)
  have "contains m (?p (k, v))"
  proof (cases "t = k")
    case True
    with JObj.prems(2) have "contains m (print_str a k)" using contains_print_str [OF assms(1)] by simp
    moreover have "contains (print_str a k) (?p (k, v))"
      by (rule containsI [of _ "[]" _ "ksep @ print_json (a, isep, ksep) v"]) simp
    ultimately show ?thesis by (rule contains_trans)
  next
    case False
    with kv JObj.IH [of "(k, v)" v] JObj.prems(2) have "contains m (print_json (a, isep, ksep) v)"
      by auto
    moreover have "contains (print_json (a, isep, ksep) v) (?p (k, v))"
      by (rule containsI [of _ "print_str a k @ ksep" _ "[]"]) simp
    ultimately show ?thesis by (rule contains_trans)
  qed
  moreover have "contains (?p (k, v)) ?body" using kv(1) by (intro contains_join) force
  moreover have "contains ?body (print_json (a, isep, ksep) (JObj kvs))"
    by (rule containsI [of _ "''{''" _ "''}''"]) simp
  ultimately show ?case using contains_trans by blast
qed simp_all

lemma contains_py_lower: "contains m s \<Longrightarrow> contains (py_lower m) (py_lower s)"
  by (metis contains_iff py_lower_append)

lemma plain_char_lower: "plain (char_lower c) \<Longrightarrow> plain c"
  by (auto simp: plain_def char_lower_def is_upper_az_def Let_def split: if_splits)

lemma contains_lowerD:
  assumes "contains f (py_lower t)"
  obtains m where "contains m t" "py_lower m = f"
proof -
  from assms obtain us vs where t: "py_lower t = us @ f @ vs" by (auto simp: contains_iff)
  let ?m = "take (length f) (drop (length us) t)"
  have "py_lower ?m = take (length f) (drop (length us) (py_lower t))"
    by (simp add: py_lower_def take_map drop_map)
  then have "py_lower ?m = f" by (simp add: t)
  moreover have "t = take (length us) t @ ?m @ drop (length f) (drop (length us) t)"
    by (metis append_take_drop_id)
  then have "contains ?m t" by (rule containsI)
  ultimately show ?thesis using that by blast
qed

lemma forbidden_plain: "f \<in> set forbidden_event_names \<Longrightarrow> list_all plain f"
proof -
  have "list_all (list_all plain) forbidden_event_names" by code_simp
  then show "f \<in> set forbidden_event_names \<Longrightarrow> list_all plain f" by (simp add: list_all_iff)
qed

lemma forbidden_text_serialized:
  assumes "f \<in> set forbidden_event_names" "t \<in> json_texts j" "contains f (py_lower t)"
  shows "contains f (py_lower (dumps_sorted j))"
proof -
  from assms(3) obtain m where m: "contains m t" "py_lower m = f" by (rule contains_lowerD)
  have "list_all plain m"
    using forbidden_plain [OF assms(1)] m(2) plain_char_lower
    by (auto simp: py_lower_def list_all_iff)
  moreover have "t \<in> json_texts (canon j)" using assms(2) by (simp only: json_texts_canon)
  ultimately have "contains m (dumps_sorted j)"
    unfolding dumps_sorted_def using m(1) by (rule print_json_contains)
  then show ?thesis using contains_py_lower m(2) by blast
qed

text \<open>
  Conversely no private name is made by printing: they have no punctuation and no letter that an
  escape begins with, so an occurrence in the serialized event lies within one text.
\<close>

definition escape_letters :: string where
  "escape_letters = ''0123456789abcdefnrtu''"

definition private_name :: "string \<Rightarrow> bool" where
  "private_name f =
     (f \<noteq> [] \<and> CHR ''_'' \<in> set f \<and> hd f \<notin> set escape_letters
      \<and> (\<forall>c \<in> set f. c \<notin> {CHR 92, CHR 34, CHR '','', CHR '' '', CHR '':'', CHR ''{'', CHR ''}'', CHR ''['', CHR '']''}))"

lemma forbidden_private: "f \<in> set forbidden_event_names \<Longrightarrow> private_name f"
proof -
  have "list_all private_name forbidden_event_names" by code_simp
  then show "f \<in> set forbidden_event_names \<Longrightarrow> private_name f" by (simp add: list_all_iff)
qed

lemma contains_Cons: "contains f (c # s) \<longleftrightarrow> prefix f (c # s) \<or> contains f s"
  by (auto simp: contains_def sublist_Cons_right)

lemma contains_skip: "f \<noteq> [] \<Longrightarrow> hd f \<notin> set r \<Longrightarrow> contains f (r @ s) \<longleftrightarrow> contains f s"
  by (induction r) (auto simp: contains_Cons prefix_Cons)

lemma prefix_cut: "c \<notin> set f \<Longrightarrow> prefix f (a @ c # b) \<longleftrightarrow> prefix f a"
  by (auto simp: prefix_append prefix_Cons)

lemma contains_cut: "c \<notin> set f \<Longrightarrow> f \<noteq> [] \<Longrightarrow> contains f (a @ c # b) \<longleftrightarrow> contains f a \<or> contains f b"
proof (induction a)
  case Nil
  then show ?case by (auto simp: contains_Cons prefix_Cons) (auto simp: contains_def)
next
  case (Cons x a)
  then show ?case using prefix_cut [of c f "x # a" b] by (auto simp: contains_Cons)
qed

lemma contains_no: "x \<in> set f \<Longrightarrow> x \<notin> set s \<Longrightarrow> \<not> contains f s"
  by (auto simp: contains_def dest: set_mono_sublist)

lemma hex_digit_private: "n < 16 \<Longrightarrow> hex_digit n \<in> set ''0123456789abcdef''"
proof -
  have "list_all (\<lambda>n. hex_digit n \<in> set ''0123456789abcdef'') [0..<16]" by code_simp
  then show "n < 16 \<Longrightarrow> hex_digit n \<in> set ''0123456789abcdef''" by (simp add: list_all_iff)
qed

lemma esc_char_shape:
  "esc_char a c = [c] \<or> (\<exists>r. esc_char a c = CHR 92 # r \<and> set r \<subseteq> set (CHR 92 # CHR 34 # escape_letters))"
proof -
  have "code c div 16 < 16" "code c mod 16 < 16" using code_less [of c] less_mult_imp_div_less [of "code c" 16 16] by auto
  then have "hex_digit (code c div 16) \<in> set ''0123456789abcdef''" "hex_digit (code c mod 16) \<in> set ''0123456789abcdef''"
    by (blast intro: hex_digit_private)+
  then have "set (''u00'' @ [hex_digit (code c div 16), hex_digit (code c mod 16)]) \<subseteq> set escape_letters"
    unfolding escape_letters_def by auto
  then show ?thesis unfolding esc_char_def esc_u_def Let_def by (auto simp: escape_letters_def)
qed

lemma private_hd:
  "private_name f \<Longrightarrow> set r \<subseteq> set (CHR 92 # CHR 34 # escape_letters) \<Longrightarrow> hd f \<notin> set (py_lower r)"
proof -
  assume f: "private_name f" and r: "set r \<subseteq> set (CHR 92 # CHR 34 # escape_letters)"
  have "\<forall>x \<in> set (CHR 92 # CHR 34 # escape_letters). char_lower x = x" by code_simp
  with r have "py_lower r = r" unfolding py_lower_def by (intro map_idI) blast
  moreover have "hd f \<in> set f" "hd f \<notin> set escape_letters" "CHR 92 \<notin> set f" "CHR 34 \<notin> set f"
    using f unfolding private_name_def by (simp_all, blast+)
  then have "hd f \<notin> set (CHR 92 # CHR 34 # escape_letters)" unfolding list.set by (metis insertE)
  ultimately show "hd f \<notin> set (py_lower r)" using r by (metis subsetD)
qed

lemma prefix_esc: "CHR 92 \<notin> set f \<Longrightarrow> prefix f (py_lower (concat (map (esc_char a) s))) \<Longrightarrow> prefix f (py_lower s)"
proof (induction s arbitrary: f)
  case (Cons c s)
  from esc_char_shape [of a c] show ?case
  proof
    assume "esc_char a c = [c]"
    with Cons show ?thesis by (auto simp: py_lower_def prefix_Cons)
  next
    assume "\<exists>r. esc_char a c = CHR 92 # r \<and> set r \<subseteq> set (CHR 92 # CHR 34 # escape_letters)"
    moreover have "char_lower (CHR 92) = CHR 92" by code_simp
    ultimately show ?thesis using Cons.prems by (auto simp: py_lower_def prefix_Cons)
  qed
qed simp

lemma contains_esc:
  assumes "private_name f"
  shows "contains f (py_lower (concat (map (esc_char a) s))) \<Longrightarrow> contains f (py_lower s)"
proof (induction s)
  case (Cons c s)
  let ?rest = "py_lower (concat (map (esc_char a) s))"
  from assms have f: "f \<noteq> []" "CHR 92 \<notin> set f" by (auto simp: private_name_def)
  have low: "char_lower (CHR 92) = CHR 92" by code_simp
  have cons: "py_lower (c # s) = char_lower c # py_lower s" by (simp add: py_lower_def)
  from esc_char_shape [of a c] show ?case
  proof
    assume "esc_char a c = [c]"
    with Cons.prems have "contains f (char_lower c # ?rest)" by (simp add: py_lower_def)
    then consider "prefix f (char_lower c # ?rest)" | "contains f ?rest" by (auto simp: contains_Cons)
    then show ?thesis
    proof cases
      case 1
      with f prefix_esc [of "tl f" a s] show ?thesis
        unfolding cons by (cases f) (auto simp: contains_Cons)
    next
      case 2
      with Cons.IH show ?thesis unfolding cons by (simp add: contains_Cons)
    qed
  next
    assume "\<exists>r. esc_char a c = CHR 92 # r \<and> set r \<subseteq> set (CHR 92 # CHR 34 # escape_letters)"
    then obtain r where r: "esc_char a c = CHR 92 # r" "set r \<subseteq> set (CHR 92 # CHR 34 # escape_letters)" by blast
    from Cons.prems r(1) have "contains f (CHR 92 # (py_lower r @ ?rest))" by (simp add: low py_lower_def)
    with f have "contains f (py_lower r @ ?rest)" by (cases f) (auto simp: contains_Cons)
    with private_hd [OF assms r(2)] f(1) have "contains f ?rest" by (simp add: contains_skip)
    with Cons.IH show ?thesis unfolding cons by (simp add: contains_Cons)
  qed
qed simp

lemma contains_str:
  assumes "private_name f" "contains f (py_lower (print_str a s))"
  shows "contains f (py_lower s)"
proof -
  have q: "py_lower (print_str a s) = [] @ CHR 34 # (py_lower (concat (map (esc_char a) s)) @ CHR 34 # [])"
    using py_lower_def by (simp add: print_str_def char_lower_def is_upper_az_def)
  from assms(1) have f: "f \<noteq> []" "CHR 34 \<notin> set f" by (auto simp: private_name_def)
  then have "contains f (py_lower (concat (map (esc_char a) s)))"
    using assms(2) contains_cut [of "CHR 34" f "[]"] contains_cut [of "CHR 34" f _ "[]"] unfolding q
    by (simp add: contains_def)
  with contains_esc [OF assms(1)] show ?thesis .
qed

lemma contains_joined:
  assumes "f \<noteq> []" "c \<notin> set f" "hd f \<notin> set sep" "contains f (join (c # sep) xs)"
  shows "\<exists>x \<in> set xs. contains f x"
  using assms(4)
proof (induction xs)
  case (Cons x xs)
  show ?case
  proof (cases xs)
    case Nil
    with Cons.prems show ?thesis by simp
  next
    case (Cons y ys)
    with Cons.prems have "contains f (x @ c # (sep @ join (c # sep) xs))" by (simp add: join_Cons)
    then have "contains f x \<or> contains f (join (c # sep) xs)"
      using assms(1-3) by (simp add: contains_cut contains_skip)
    with Cons.IH show ?thesis by auto
  qed
qed (use assms(1) in \<open>auto simp: contains_def\<close>)

lemma py_lower_join: "py_lower (join sep xs) = join (py_lower sep) (map py_lower xs)"
proof (induction xs)
  case (Cons x xs)
  then show ?case by (cases xs) auto
qed (simp add: py_lower_def)

lemma contains_between:
  assumes "f \<noteq> []" "c \<notin> set f" "d \<notin> set f" "contains f (c # s @ [d])"
  shows "contains f s"
  using assms contains_cut [of c f "[]"] contains_cut [of d f _ "[]"] by (simp add: contains_def)

lemma py_lower_Cons: "py_lower (c # s) = char_lower c # py_lower s"
  by (simp add: py_lower_def)

lemma punctuation_lower:
  "char_lower (CHR ''['') = CHR ''[''" "char_lower (CHR '']'') = CHR '']''" "char_lower (CHR ''{'') = CHR ''{''"
  "char_lower (CHR ''}'') = CHR ''}''" "char_lower (CHR '','') = CHR '',''" "char_lower (CHR '' '') = CHR '' ''"
  "char_lower (CHR '':'') = CHR '':''" "char_lower (CHR ''-'') = CHR ''-''" "py_lower [] = []"
  by code_simp+

lemmas lower_simps = py_lower_Cons punctuation_lower py_lower_join

lemma no_underscore: "private_name f \<Longrightarrow> CHR ''_'' \<notin> set s \<Longrightarrow> \<not> contains f s"
  using contains_no by (auto simp: private_name_def)

lemma digits_lower: "CHR ''_'' \<notin> set (py_lower (show_int i))"
proof -
  have "char_lower c \<noteq> CHR ''_''" if "is_digit c \<or> c = CHR ''-''" for c
  proof -
    have "char_lower c = c" if "is_digit c"
      using that by (auto simp: is_digit_def is_upper_az_def char_lower_def Let_def)
    moreover have "\<not> is_digit (CHR ''_'')" by code_simp
    ultimately show ?thesis using that by (auto simp: punctuation_lower)
  qed
  moreover have "is_digit c \<or> c = CHR ''-''" if "c \<in> set (show_int i)" for c
    using that show_nat_digits by (auto simp: show_int_def split: if_splits)
  ultimately show ?thesis unfolding py_lower_def set_map image_iff by metis
qed

lemma print_json_private:
  assumes "private_name f"
  shows "contains f (py_lower (print_json (a, '', '', '': '') j)) \<Longrightarrow> \<exists>t \<in> json_texts j. contains f (py_lower t)"
proof (induction j)
  case JNull
  have "CHR ''_'' \<notin> set (py_lower ''null'')" by code_simp
  with JNull no_underscore [OF assms] show ?case by simp
next
  case (JBool b)
  have "CHR ''_'' \<notin> set (py_lower ''true'')" "CHR ''_'' \<notin> set (py_lower ''false'')" by code_simp+
  with JBool no_underscore [OF assms] show ?case by (cases b) simp_all
next
  case (JInt i)
  with no_underscore [OF assms digits_lower] show ?case by simp
next
  case (JStr s)
  with contains_str [OF assms] show ?case by simp
next
  case (JList xs)
  from assms have f: "f \<noteq> []" "\<And>c. c \<in> {CHR ''['', CHR '']'', CHR '','', CHR '' ''} \<Longrightarrow> c \<notin> set f"
    by (auto simp: private_name_def)
  let ?p = "print_json (a, '', '', '': '')"
  from JList.prems have "contains f (CHR ''['' # join '', '' (map (py_lower \<circ> ?p) xs) @ [CHR '']''])"
    by (simp add: lower_simps)
  from contains_between [OF f(1) f(2) f(2) this] have "contains f (join '', '' (map (py_lower \<circ> ?p) xs))" by simp
  from contains_joined [OF f(1) _ _ this] f obtain x where "x \<in> set xs" "contains f (py_lower (?p x))"
    by (cases f) auto
  with JList.IH [of x] show ?case by fastforce
next
  case (JObj kvs)
  from assms have f: "f \<noteq> []" "\<And>c. c \<in> {CHR ''{'', CHR ''}'', CHR '','', CHR '' '', CHR '':''} \<Longrightarrow> c \<notin> set f"
    by (auto simp: private_name_def)
  let ?p = "\<lambda>(k, v). print_str a k @ '': '' @ print_json (a, '', '', '': '') v"
  from JObj.prems have "contains f (CHR ''{'' # join '', '' (map (py_lower \<circ> ?p) kvs) @ [CHR ''}''])"
    by (simp add: lower_simps)
  from contains_between [OF f(1) f(2) f(2) this] have "contains f (join '', '' (map (py_lower \<circ> ?p) kvs))" by simp
  moreover have "hd f \<notin> set '' ''" using f by (cases f) auto
  ultimately obtain y where "y \<in> set (map (py_lower \<circ> ?p) kvs)" "contains f y"
    using contains_joined [OF f(1), of "CHR '',''" "'' ''"] f(2) [of "CHR '',''"] by blast
  then obtain kv where "kv \<in> set kvs" "contains f (py_lower (?p kv))" unfolding set_map comp_def by blast
  moreover obtain k v where "kv = (k, v)" by (cases kv)
  ultimately have kv: "(k, v) \<in> set kvs" "contains f (py_lower (?p (k, v)))" by simp_all
  from kv(2) have "contains f (py_lower (print_str a k) @ CHR '':'' # ([CHR '' ''] @ py_lower (print_json (a, '', '', '': '') v)))"
    by (simp add: lower_simps)
  then have "contains f (py_lower (print_str a k)) \<or> contains f ([CHR '' ''] @ py_lower (print_json (a, '', '', '': '') v))"
    using contains_cut [OF f(2) f(1), of "CHR '':''"] by blast
  moreover have "hd f \<notin> set [CHR '' '']" using f by (cases f) auto
  ultimately have "contains f (py_lower k) \<or> contains f (py_lower (print_json (a, '', '', '': '') v))"
    using contains_skip [OF f(1)] contains_str [OF assms] by blast
  then obtain t where "t = k \<or> t \<in> json_texts v" "contains f (py_lower t)"
    using JObj.IH [of "(k, v)" v] kv(1) by auto
  with kv(1) show ?case by force
qed

lemma serialized_forbidden_text:
  assumes "f \<in> set forbidden_event_names"
  shows "contains f (py_lower (dumps_sorted j)) \<longleftrightarrow> (\<exists>t \<in> json_texts j. contains f (py_lower t))"
  using forbidden_text_serialized [OF assms] print_json_private [OF forbidden_private [OF assms], of True "canon j"]
  by (auto simp: dumps_sorted_def json_texts_canon)

lemma sort_Nil_iff: "sort xs = [] \<longleftrightarrow> xs = []"
  by (metis length_sort length_0_conv)

text \<open>
  C12: a public event carries no private name. Validation passes exactly when none of the seven
  private names occurs, in any letter case, in any key or string of the event at any depth; all
  fourteen fields are present, the event type is a namespaced lowercase name, the sequence is
  positive, and every produced object is typed and versioned.
\<close>

theorem public_event_hides_private:
  "validate_public_event event = Inr () \<longleftrightarrow>
     (\<forall>t \<in> json_texts (JObj event). \<forall>f \<in> set forbidden_event_names. \<not> contains f (py_lower t))
     \<and> set required_event_fields \<subseteq> set (map fst event)
     \<and> event_type_valid (event_get event ''event_type'')
     \<and> sequence_positive (event_get event ''sequence'') = Inr True
     \<and> refs_ok (event_get event ''produced_object_refs'')"
proof -
  have "List.find (\<lambda>f. contains f (py_lower (dumps_sorted (JObj event)))) forbidden_event_names = None
      \<longleftrightarrow> (\<forall>t \<in> json_texts (JObj event). \<forall>f \<in> set forbidden_event_names. \<not> contains f (py_lower t))"
    unfolding find_None_iff using serialized_forbidden_text [of _ "JObj event"] by blast
  moreover have "filter (\<lambda>k. k \<notin> set (map fst event)) required_event_fields = []
      \<longleftrightarrow> set required_event_fields \<subseteq> set (map fst event)"
    by (auto simp: filter_empty_conv)
  ultimately show ?thesis
    by (auto simp: validate_public_event_def Let_def rbind_Inr_iff sort_Nil_iff split: if_splits option.splits)
qed

definition sample_public_event :: "(string \<times> json) list" where
  "sample_public_event =
     [(''event_id'', JStr ''e''), (''event_type'', JStr ''intake.received''),
      (''schema_version'', JInt 1), (''invoice_id'', JStr ''i''), (''sequence'', JInt 1),
      (''occurred_at'', JStr ''t''), (''role'', JNull), (''task'', JNull), (''tool'', JNull),
      (''state'', JNull), (''status'', JNull), (''summary'', JStr ''Invoice received''),
      (''produced_object_refs'', JList []), (''public_error'', JNull)]"

theorem public_event_hides_private_witness:
  "\<not> contains ''sql_text'' (py_lower ''Invoice received'')
    \<and> validate_public_event sample_public_event = Inr ()"
proof -
  have ok: "validate_public_event sample_public_event = Inr ()" by code_simp
  have "''Invoice received'' \<in> json_texts (JObj sample_public_event)"
    "''sql_text'' \<in> set forbidden_event_names"
    by (simp_all add: sample_public_event_def forbidden_event_names_def)
  with public_event_hides_private [of sample_public_event] ok show ?thesis by blast
qed

end
