(* ===== verification/IntakeClaims.thy ===== *)
theory IntakeClaims
  imports Intake PyNum PyTime Complex_Main
begin

text \<open>
  \<open>src/core/intake_claims.py\<close>: every required claim must be anchored to words of the PDF,
  must normalise, and must be arithmetically consistent. \<open>dateutil\<close>'s parser is a parameter
  \<open>parse :: string \<Rightarrow> date option\<close>: the calendar date of a text, \<open>None\<close> for its
  \<open>ParserError\<close> (a \<open>ValueError\<close>). Coordinates are exact fractions; a page's size is not zero.
\<close>

section \<open>Values the model returned\<close>

text \<open>
  A value as the code reads it: a float is its \<open>str\<close> and, if it is finite, its
  truncation; a list or a dictionary only its \<open>str\<close>.
\<close>

datatype claim_value =
    VNone
  | VBool bool
  | VInt int
  | VFloat string "int option"
  | VStr string
  | VOther string

fun v_str :: "claim_value \<Rightarrow> string" where
  "v_str VNone = ''None''"
| "v_str (VBool b) = (if b then ''True'' else ''False'')"
| "v_str (VInt i) = show_int i"
| "v_str (VFloat s i) = s"
| "v_str (VStr s) = s"
| "v_str (VOther s) = s"

text \<open>\<open>int(value)\<close>; a float that is not finite raises \<open>ValueError\<close> or \<open>OverflowError\<close>.\<close>

fun v_int :: "claim_value \<Rightarrow> decimal_error + int" where
  "v_int (VBool b) = Inr (if b then 1 else 0)"
| "v_int (VInt i) = Inr i"
| "v_int (VFloat s (Some i)) = Inr i"
| "v_int (VFloat s None) = Inl (if s = ''nan'' then ValueError else Overflow)"
| "v_int (VStr s) = (case py_int_of_string s of None \<Rightarrow> Inl ValueError | Some i \<Rightarrow> Inr i)"
| "v_int _ = Inl TypeError"

section \<open>Anchors\<close>

record pdf_word =
  pw_text :: string
  pw_x0 :: rat
  pw_top :: rat
  pw_x1 :: rat
  pw_bottom :: rat

record pdf_page =
  pg_words :: "pdf_word list"
  pg_width :: rat
  pg_height :: rat

record pdf_anchor =
  an_page :: int
  an_x0 :: rat
  an_top :: rat
  an_x1 :: rat
  an_bottom :: rat
  an_excerpt :: string
  an_excerpt_sha256 :: string

text \<open>\<open>_token\<close> and \<open>_tokens\<close>.\<close>

definition token_char :: "char \<Rightarrow> bool" where
  "token_char c = (is_upper_az c \<or> is_digit c \<or> c \<in> set ''$.,-'')"

definition pdf_token :: "string \<Rightarrow> string" where
  "pdf_token value = filter token_char (py_upper value)"

definition pdf_tokens :: "string \<Rightarrow> string list" where
  "pdf_tokens value = filter (\<lambda>t. t \<noteq> []) (map pdf_token (py_split value))"

definition min_over :: "('a \<Rightarrow> rat) \<Rightarrow> 'a list \<Rightarrow> rat" where
  "min_over f xs = fold min (map f (tl xs)) (f (hd xs))"

definition max_over :: "('a \<Rightarrow> rat) \<Rightarrow> 'a list \<Rightarrow> rat" where
  "max_over f xs = fold max (map f (tl xs)) (f (hd xs))"

definition anchor_of :: "int \<Rightarrow> pdf_page \<Rightarrow> pdf_word list \<Rightarrow> pdf_anchor" where
  "anchor_of n page matched =
     (let excerpt = join '' '' (map pw_text matched) in
      \<lparr>an_page = n, an_x0 = min_over pw_x0 matched / pg_width page,
       an_top = min_over pw_top matched / pg_height page,
       an_x1 = max_over pw_x1 matched / pg_width page,
       an_bottom = max_over pw_bottom matched / pg_height page,
       an_excerpt = excerpt, an_excerpt_sha256 = sha256_hexdigest (utf8_encode excerpt)\<rparr>)"

text \<open>The first start at which the words' tokens are the excerpt's.\<close>

fun find_window :: "string list \<Rightarrow> pdf_word list \<Rightarrow> pdf_word list option" where
  "find_window toks [] = None"
| "find_window toks (w # ws) =
     (if map (pdf_token \<circ> pw_text) (take (length toks) (w # ws)) = toks
      then Some (take (length toks) (w # ws)) else find_window toks ws)"

definition locate_pdf_anchor :: "pdf_page list \<Rightarrow> claim_value \<Rightarrow> string \<Rightarrow> pdf_anchor option" where
  "locate_pdf_anchor pages page_number text_excerpt =
     (case page_number of
        VInt n \<Rightarrow>
          if n < 1 \<or> int (length pages) < n then None
          else
            (let page = pages ! nat (n - 1); toks = pdf_tokens text_excerpt in
             if toks = [] then None
             else map_option (anchor_of n page) (find_window toks (pg_words page)))
      | _ \<Rightarrow> None)"

section \<open>Normalisation\<close>

datatype claim_normal =
    NText string
  | NCount int
  | NMoney int string

text \<open>\<open>_parse_usd_minor\<close>.\<close>

definition parse_usd_minor :: "claim_value \<Rightarrow> decimal_error + int" where
  "parse_usd_minor v =
     (case v of
        VBool b \<Rightarrow> Inl TypeError
      | _ \<Rightarrow>
          rbind (decimal_of_string
              (filter (\<lambda>c. is_digit c \<or> c = CHR ''.'' \<or> c = CHR ''-'') (v_str v))) (\<lambda>d.
            rbind (dec_less_zero d) (\<lambda>neg.
              if neg then Inl ValueError
              else rbind (dec_exponent d) (\<lambda>e.
                if e < -2 then Inl ValueError
                else rbind (dec_times 100 d) dec_int))))"

definition container_ok :: "string \<Rightarrow> bool" where
  "container_ok s =
     (length s = 11 \<and> list_all is_upper_az (take 4 s) \<and> list_all is_digit (drop 4 s))"

definition bill_ok :: "string \<Rightarrow> bool" where
  "bill_ok s =
     (4 \<le> length s \<and> length s \<le> 31 \<and> (is_upper_az (hd s) \<or> is_digit (hd s))
      \<and> list_all (\<lambda>c. is_upper_az c \<or> is_digit c \<or> c = CHR ''-'') (tl s))"

text \<open>
  \<open>_normalize_claim\<close>: the value type, the normalised value, and for money the amount and
  the currency.
\<close>

definition normalize_claim ::
  "(string \<Rightarrow> date option) \<Rightarrow> string \<Rightarrow> claim_value
    \<Rightarrow> decimal_error + string \<times> claim_normal \<times> int option \<times> string option"
where
  "normalize_claim parse fld v =
     (if fld = ''container_number'' then
        (let n = filter (\<lambda>c. is_upper_az c \<or> is_digit c) (py_upper (v_str v)) in
         if container_ok n then Inr (''IDENTIFIER'', NText n, None, None) else Inl ValueError)
      else if fld = ''bill_of_lading'' then
        (let n = py_upper (py_strip (v_str v)) in
         if bill_ok n then Inr (''IDENTIFIER'', NText n, None, None) else Inl ValueError)
      else if fld = ''charge_type'' then
        (let n = py_upper (py_strip (v_str v)) in
         if n = ''DEMURRAGE'' then Inr (''ENUM'', NText n, None, None) else Inl ValueError)
      else if fld \<in> set [''period_start'', ''period_end'', ''issued_date''] then
        (case parse (v_str v) of
           None \<Rightarrow> Inl ValueError
         | Some d \<Rightarrow> Inr (''DATE'', NText (date_iso d), None, None))
      else if fld = ''charged_days'' then
        (case v of
           VBool b \<Rightarrow> Inl TypeError
         | _ \<Rightarrow> rbind (v_int v) (\<lambda>n.
             if n \<le> 0 \<or> 90 < n then Inl ValueError else Inr (''INTEGER'', NCount n, None, None)))
      else if fld \<in> set [''daily_rate'', ''total''] then
        rbind (parse_usd_minor v) (\<lambda>m.
          Inr (''MONEY'', NMoney m ''USD'', Some m, Some ''USD''))
      else
        (let n = py_strip (v_str v) in
         if n = [] then Inl ValueError else Inr (''STRING'', NText n, None, None)))"

section \<open>Validation\<close>

definition required_claim_fields :: "string list" where
  "required_claim_fields =
     [''invoice_number'', ''container_number'', ''bill_of_lading'', ''charge_type'',
      ''period_start'', ''period_end'', ''charged_days'', ''daily_rate'', ''total'',
      ''issued_date'']"

record claim_entry =
  ce_value :: claim_value
  ce_excerpt :: claim_value
  ce_page :: claim_value

record validated_claim =
  vc_field :: string
  vc_type :: string
  vc_raw :: string
  vc_normal :: claim_normal
  vc_amount :: "int option"
  vc_currency :: "string option"
  vc_anchor :: pdf_anchor

text \<open>
  One field: an issue, a claim, or an error that the handler does not catch
  (\<open>OverflowError\<close>). \<open>None\<close> is an entry that is absent or no dictionary.
\<close>

definition validate_field ::
  "(string \<Rightarrow> date option) \<Rightarrow> pdf_page list \<Rightarrow> string \<Rightarrow> claim_entry option
    \<Rightarrow> decimal_error + string + validated_claim"
where
  "validate_field parse pages fld entry =
     (case entry of
        None \<Rightarrow> Inr (Inl (''MISSING_'' @ py_upper fld))
      | Some e \<Rightarrow>
          (case ce_excerpt e of
             VStr excerpt \<Rightarrow>
               if ce_value e = VNone \<or> py_strip excerpt = []
               then Inr (Inl (''MISSING_'' @ py_upper fld))
               else (case locate_pdf_anchor pages (ce_page e) excerpt of
                  None \<Rightarrow> Inr (Inl (''UNANCHORED_'' @ py_upper fld))
                | Some anchor \<Rightarrow>
                    (case normalize_claim parse fld (ce_value e) of
                       Inl Overflow \<Rightarrow> Inl Overflow
                     | Inl _ \<Rightarrow> Inr (Inl (''INVALID_'' @ py_upper fld))
                     | Inr (ty, n, amount, currency) \<Rightarrow>
                         Inr (Inr \<lparr>vc_field = fld, vc_type = ty, vc_raw = v_str (ce_value e),
                           vc_normal = n, vc_amount = amount, vc_currency = currency,
                           vc_anchor = anchor\<rparr>)))
           | _ \<Rightarrow> Inr (Inl (''MISSING_'' @ py_upper fld))))"

definition claim_named :: "validated_claim list \<Rightarrow> string \<Rightarrow> validated_claim option" where
  "claim_named claims name = List.find (\<lambda>c. vc_field c = name) (rev claims)"

definition normal_text :: "validated_claim \<Rightarrow> string" where
  "normal_text c = (case vc_normal c of NText s \<Rightarrow> s | _ \<Rightarrow> [])"

definition normal_count :: "validated_claim \<Rightarrow> int" where
  "normal_count c = (case vc_normal c of NCount n \<Rightarrow> n | _ \<Rightarrow> 0)"

text \<open>
  The two consistency checks. The dates were printed by \<open>isoformat\<close> and are read back.
\<close>

definition period_issue :: "validated_claim list \<Rightarrow> string list" where
  "period_issue claims =
     (case (claim_named claims ''period_start'', claim_named claims ''period_end'',
            claim_named claims ''charged_days'') of
        (Some s, Some e, Some d) \<Rightarrow>
          (let start = the (date_fromiso (normal_text s)); end = the (date_fromiso (normal_text e)) in
           if end < start \<or> days_between end start + 1 \<noteq> normal_count d
           then [''CHARGE_PERIOD_DAY_COUNT_MISMATCH''] else [])
      | _ \<Rightarrow> [])"

definition total_issue :: "validated_claim list \<Rightarrow> string list" where
  "total_issue claims =
     (case (claim_named claims ''daily_rate'', claim_named claims ''charged_days'',
            claim_named claims ''total'') of
        (Some r, Some d, Some t) \<Rightarrow>
          (let rate = (case vc_amount r of None \<Rightarrow> 0 | Some m \<Rightarrow> m) in
           if Some (rate * normal_count d) \<noteq> vc_amount t
           then [''CLAIMED_TOTAL_ARITHMETIC_MISMATCH''] else [])
      | _ \<Rightarrow> [])"

datatype claim_validation =
  ClaimValidation (cl_claims: "validated_claim list") (cl_issues: "string list")

definition claims_passed :: "claim_validation \<Rightarrow> bool" where
  "claims_passed v = (cl_issues v = [])"

text \<open>The claims among the outcomes, and the issues.\<close>

definition outcome_claims :: "(string + validated_claim) list \<Rightarrow> validated_claim list" where
  "outcome_claims os = concat (map (\<lambda>x. case x of Inl i \<Rightarrow> [] | Inr c \<Rightarrow> [c]) os)"

definition outcome_issues :: "(string + validated_claim) list \<Rightarrow> string list" where
  "outcome_issues os = concat (map (\<lambda>x. case x of Inl i \<Rightarrow> [i] | Inr c \<Rightarrow> []) os)"

definition validate_extracted_claims ::
  "(string \<Rightarrow> date option) \<Rightarrow> (string \<rightharpoonup> claim_entry) option \<Rightarrow> pdf_page list
    \<Rightarrow> decimal_error + claim_validation"
where
  "validate_extracted_claims parse raw_claims pages =
     (case raw_claims of
        None \<Rightarrow> Inr (ClaimValidation [] [''INVALID_MODEL_SCHEMA''])
      | Some raw \<Rightarrow>
          rbind (rmap (\<lambda>f. validate_field parse pages f (raw f)) required_claim_fields) (\<lambda>os.
            let claims = outcome_claims os in
            Inr (ClaimValidation claims (sort (remdups
              (outcome_issues os @ period_issue claims @ total_issue claims))))))"


section \<open>Anchored windows\<close>

lemma find_window_Some:
  "find_window toks ws = Some m \<Longrightarrow> sublist m ws \<and> map (pdf_token \<circ> pw_text) m = toks"
proof (induction ws)
  case (Cons w ws)
  show ?case
  proof (cases "map (pdf_token \<circ> pw_text) (take (length toks) (w # ws)) = toks")
    case True
    moreover from this Cons.prems have "m = take (length toks) (w # ws)" by simp
    ultimately show ?thesis using sublist_take by metis
  next
    case False
    with Cons.prems have "find_window toks ws = Some m" by simp
    note IH = Cons.IH [OF this]
    from IH [THEN conjunct1] have "sublist m (w # ws)" by (simp add: sublist_Cons_right)
    then show ?thesis using IH [THEN conjunct2] by (rule conjI)
  qed
qed simp

text \<open>What an anchor is: a run of words of an existing page with the excerpt's tokens.\<close>

definition anchored :: "pdf_page list \<Rightarrow> string \<Rightarrow> pdf_anchor \<Rightarrow> bool" where
  "anchored pages excerpt a =
     (1 \<le> an_page a \<and> an_page a \<le> int (length pages) \<and> pdf_tokens excerpt \<noteq> []
      \<and> (\<exists>ws. sublist ws (pg_words (pages ! nat (an_page a - 1)))
           \<and> map (pdf_token \<circ> pw_text) ws = pdf_tokens excerpt
           \<and> a = anchor_of (an_page a) (pages ! nat (an_page a - 1)) ws))"

lemma an_page_anchor_of [simp]: "an_page (anchor_of n page ws) = n"
  by (simp add: anchor_of_def Let_def)

lemma locate_anchored: "locate_pdf_anchor pages pn excerpt = Some a \<Longrightarrow> anchored pages excerpt a"
  by (auto simp: locate_pdf_anchor_def anchored_def Let_def not_less
      split: claim_value.splits if_splits dest!: find_window_Some)

section \<open>One field\<close>

lemma validate_field_claim:
  assumes "validate_field parse pages f entry = Inr (Inr c)"
  shows "vc_field c = f"
    "\<exists>e excerpt. entry = Some e \<and> ce_excerpt e = VStr excerpt \<and> anchored pages excerpt (vc_anchor c)
      \<and> normalize_claim parse f (ce_value e) = Inr (vc_type c, vc_normal c, vc_amount c, vc_currency c)"
proof -
  from assms obtain e where e: "entry = Some e" by (cases entry) (auto simp: validate_field_def)
  with assms obtain excerpt where x: "ce_excerpt e = VStr excerpt"
    by (cases "ce_excerpt e") (auto simp: validate_field_def)
  from assms e x obtain a where a: "locate_pdf_anchor pages (ce_page e) excerpt = Some a"
    by (auto simp: validate_field_def split: if_splits option.splits)
  with assms e x obtain ty n am cu
    where n: "normalize_claim parse f (ce_value e) = Inr (ty, n, am, cu)"
    by (auto simp: validate_field_def split: if_splits sum.splits decimal_error.splits)
  with assms e x a have c: "c = \<lparr>vc_field = f, vc_type = ty, vc_raw = v_str (ce_value e),
      vc_normal = n, vc_amount = am, vc_currency = cu, vc_anchor = a\<rparr>"
    by (simp add: validate_field_def split: if_splits)
  show "vc_field c = f" by (simp add: c)
  show "\<exists>e excerpt. entry = Some e \<and> ce_excerpt e = VStr excerpt \<and> anchored pages excerpt (vc_anchor c)
      \<and> normalize_claim parse f (ce_value e) = Inr (vc_type c, vc_normal c, vc_amount c, vc_currency c)"
    using e x n locate_anchored [OF a] by (simp add: c)
qed

lemma normalize_date:
  "f \<in> {''period_start'', ''period_end'', ''issued_date''} \<Longrightarrow>
     normalize_claim parse f v = Inr (ty, n, am, cu) \<Longrightarrow> \<exists>d. parse (v_str v) = Some d \<and> n = NText (date_iso d)"
  by (auto simp: normalize_claim_def split: option.splits)

lemma normalize_days:
  "normalize_claim parse ''charged_days'' v = Inr (ty, n, am, cu) \<Longrightarrow>
     \<exists>k. n = NCount k \<and> 1 \<le> k \<and> k \<le> 90"
  by (cases v) (auto simp: normalize_claim_def rbind_Inr_iff split: if_splits)

lemma normalize_money:
  "f \<in> {''daily_rate'', ''total''} \<Longrightarrow> normalize_claim parse f v = Inr (ty, n, am, cu) \<Longrightarrow>
     \<exists>m. am = Some m \<and> n = NMoney m ''USD'' \<and> cu = Some ''USD'' \<and> parse_usd_minor v = Inr m"
  by (auto simp: normalize_claim_def rbind_Inr_iff)

section \<open>All fields\<close>

lemma outcome_no_issues: "outcome_issues os = [] \<Longrightarrow> os = map Inr (outcome_claims os)"
  by (induction os) (auto simp: outcome_issues_def outcome_claims_def split: sum.splits)

lemma claim_named_in:
  assumes "map vc_field claims = names" "distinct names" "f \<in> set names"
  shows "\<exists>c \<in> set claims. claim_named claims f = Some c \<and> vc_field c = f"
proof -
  from assms(1,3) have "\<exists>c \<in> set (rev claims). vc_field c = f" by auto
  then obtain c where "List.find (\<lambda>c. vc_field c = f) (rev claims) = Some c"
    by (cases "List.find (\<lambda>c. vc_field c = f) (rev claims)") (auto simp: find_None_iff)
  with find_SomeD [OF this] show ?thesis by (auto simp: claim_named_def)
qed

lemma required_fields_distinct: "distinct required_claim_fields"
  by (simp add: required_claim_fields_def)

lemma sort_remdups_Nil: "sort (remdups xs) = [] \<longleftrightarrow> xs = []"
  by (metis length_sort length_0_conv remdups_eq_nil_iff)

lemma passed_outcomes:
  assumes "validate_extracted_claims parse raw pages = Inr v" "claims_passed v"
  obtains r where "raw = Some r"
    "rmap (\<lambda>f. validate_field parse pages f (r f)) required_claim_fields = Inr (map Inr (cl_claims v))"
    "period_issue (cl_claims v) = []" "total_issue (cl_claims v) = []"
proof (cases raw)
  case None
  with assms show ?thesis by (auto simp: validate_extracted_claims_def claims_passed_def)
next
  case (Some r)
  with assms(1) obtain os where os: "rmap (\<lambda>f. validate_field parse pages f (r f))
      required_claim_fields = Inr os"
    and v: "v = ClaimValidation (outcome_claims os) (sort (remdups
        (outcome_issues os @ period_issue (outcome_claims os) @ total_issue (outcome_claims os))))"
    by (auto simp: validate_extracted_claims_def rbind_Inr_iff Let_def)
  from assms(2) v have "outcome_issues os = []" "period_issue (cl_claims v) = []"
    "total_issue (cl_claims v) = []"
    by (auto simp: claims_passed_def sort_remdups_Nil)
  moreover from this(1) have "os = map Inr (cl_claims v)" using outcome_no_issues v by simp
  ultimately show ?thesis using that Some os by simp
qed

lemma passed_fields:
  assumes "rmap (\<lambda>f. validate_field parse pages f (r f)) fs = Inr (map Inr cs)"
  shows "map vc_field cs = fs"
  using assms
proof (induction fs arbitrary: cs)
  case (Cons f fs)
  then obtain c cs' where "cs = c # cs'" "validate_field parse pages f (r f) = Inr (Inr c)"
    "rmap (\<lambda>f. validate_field parse pages f (r f)) fs = Inr (map Inr cs')"
    by (cases cs) (auto simp: rbind_Inr_iff)
  with Cons.IH show ?case by (auto dest: validate_field_claim(1))
qed simp

lemma passed_claim:
  assumes "rmap (\<lambda>f. validate_field parse pages f (r f)) fs = Inr (map Inr cs)" "c \<in> set cs"
  shows "\<exists>e excerpt. r (vc_field c) = Some e \<and> ce_excerpt e = VStr excerpt
    \<and> anchored pages excerpt (vc_anchor c)
    \<and> normalize_claim parse (vc_field c) (ce_value e) =
        Inr (vc_type c, vc_normal c, vc_amount c, vc_currency c)"
proof -
  have "Inr c \<in> set (map Inr cs)" using assms(2) by simp
  then obtain f where "validate_field parse pages f (r f) = Inr (Inr c)"
    using rmap_Inr_set [OF assms(1)] by blast
  from validate_field_claim [OF this] show ?thesis by auto
qed

section \<open>Claims that passed\<close>

lemma passed_names:
  "validate_extracted_claims parse raw pages = Inr v \<Longrightarrow> claims_passed v \<Longrightarrow>
     map vc_field (cl_claims v) = required_claim_fields"
  by (auto elim: passed_outcomes intro: passed_fields)

lemma passed_anchors:
  assumes "validate_extracted_claims parse raw pages = Inr v" "claims_passed v"
  shows "\<forall>c \<in> set (cl_claims v). \<exists>r e excerpt. raw = Some r \<and> r (vc_field c) = Some e
        \<and> ce_excerpt e = VStr excerpt \<and> anchored pages excerpt (vc_anchor c)"
  using passed_outcomes [OF assms] passed_claim by metis

lemma passed_named:
  assumes "validate_extracted_claims parse raw pages = Inr v" "claims_passed v" "f \<in> set required_claim_fields"
  obtains c x where "claim_named (cl_claims v) f = Some c"
    "normalize_claim parse f x = Inr (vc_type c, vc_normal c, vc_amount c, vc_currency c)"
proof -
  from assms(1,2) obtain r where
    os: "rmap (\<lambda>f. validate_field parse pages f (r f)) required_claim_fields = Inr (map Inr (cl_claims v))"
    by (rule passed_outcomes)
  obtain c where c: "c \<in> set (cl_claims v)" "claim_named (cl_claims v) f = Some c" "vc_field c = f"
    using claim_named_in [OF passed_names [OF assms(1,2)] required_fields_distinct assms(3)] by blast
  with passed_claim [OF os c(1)] that show ?thesis by blast
qed

lemma required_names:
  "''period_start'' \<in> set required_claim_fields" "''period_end'' \<in> set required_claim_fields"
  "''charged_days'' \<in> set required_claim_fields" "''daily_rate'' \<in> set required_claim_fields"
  "''total'' \<in> set required_claim_fields" "''container_number'' \<in> set required_claim_fields"
  by (simp_all add: required_claim_fields_def)

lemma passed_container:
  assumes "validate_extracted_claims parse raw pages = Inr v" "claims_passed v"
  obtains c n where "claim_named (cl_claims v) ''container_number'' = Some c" "vc_normal c = NText n" "container_ok n"
proof -
  from assms obtain c x where c: "claim_named (cl_claims v) ''container_number'' = Some c"
    "normalize_claim parse ''container_number'' x = Inr (vc_type c, vc_normal c, vc_amount c, vc_currency c)"
    by (rule passed_named [OF _ _ required_names(6)])
  from c(2) have "\<exists>n. vc_normal c = NText n \<and> container_ok n"
    by (cases "vc_normal c") (auto simp: normalize_claim_def Let_def split: if_splits)
  with that c(1) show ?thesis by blast
qed

lemma passed_values:
  assumes "\<And>s d. parse s = Some d \<Longrightarrow> valid_date d"
    and v: "validate_extracted_claims parse raw pages = Inr v" "claims_passed v"
  obtains s e d r t start stop k rate where
    "claim_named (cl_claims v) ''period_start'' = Some s" "vc_normal s = NText (date_iso start)" "valid_date start"
    "claim_named (cl_claims v) ''period_end'' = Some e" "vc_normal e = NText (date_iso stop)" "valid_date stop"
    "claim_named (cl_claims v) ''charged_days'' = Some d" "vc_normal d = NCount k" "1 \<le> k" "k \<le> 90"
    "claim_named (cl_claims v) ''daily_rate'' = Some r" "vc_amount r = Some rate" "vc_currency r = Some ''USD''"
    "claim_named (cl_claims v) ''total'' = Some t" "vc_amount t = Some (rate * k)"
    "start \<le> stop" "days_between stop start + 1 = k"
proof -
  let ?cs = "cl_claims v"
  note named = passed_named [OF v]
  obtain s start where s: "claim_named ?cs ''period_start'' = Some s"
    "vc_normal s = NText (date_iso start)" "valid_date start"
    by (rule named [OF required_names(1)]) (use normalize_date [of "''period_start''"] assms(1) in blast)
  obtain e stop where e: "claim_named ?cs ''period_end'' = Some e"
    "vc_normal e = NText (date_iso stop)" "valid_date stop"
    by (rule named [OF required_names(2)]) (use normalize_date [of "''period_end''"] assms(1) in blast)
  obtain d k where d: "claim_named ?cs ''charged_days'' = Some d" "vc_normal d = NCount k" "1 \<le> k" "k \<le> 90"
    by (rule named [OF required_names(3)]) (use normalize_days in blast)
  obtain r rate where r: "claim_named ?cs ''daily_rate'' = Some r" "vc_amount r = Some rate" "vc_currency r = Some ''USD''"
    by (rule named [OF required_names(4)]) (use normalize_money [of "''daily_rate''"] in blast)
  obtain t total where t: "claim_named ?cs ''total'' = Some t" "vc_amount t = Some total"
    by (rule named [OF required_names(5)]) (use normalize_money [of "''total''"] in blast)
  obtain raw' where "period_issue ?cs = []" "total_issue ?cs = []" using v by (rule passed_outcomes)
  then have "start \<le> stop" "days_between stop start + 1 = k" "rate * k = total"
    using s e d r t
    by (auto simp: period_issue_def total_issue_def normal_text_def normal_count_def date_iso_roundtrip Let_def
        not_less split: if_splits)
  with that s e d r t show ?thesis by blast
qed

section \<open>Properties\<close>

text \<open>
  C13: claims pass only when they are complete, anchored and consistent. If extraction passes,
  the claims are exactly the ten required fields in order; each was quoted from a text
  whose tokens are those of consecutive words on an existing page; the charged days are between
  1 and 90 and are the days from period start to period end; and the total is the daily rate
  times the charged days, to the minor unit.
\<close>

theorem passed_claims_consistent:
  assumes "\<And>s d. parse s = Some d \<Longrightarrow> valid_date d"
    and "validate_extracted_claims parse raw pages = Inr v" "claims_passed v"
  shows "map vc_field (cl_claims v) = required_claim_fields
    \<and> (\<forall>c \<in> set (cl_claims v). \<exists>r e excerpt. raw = Some r \<and> r (vc_field c) = Some e
        \<and> ce_excerpt e = VStr excerpt \<and> anchored pages excerpt (vc_anchor c))
    \<and> (\<exists>s e d r t start end rate.
        claim_named (cl_claims v) ''period_start'' = Some s
        \<and> claim_named (cl_claims v) ''period_end'' = Some e
        \<and> claim_named (cl_claims v) ''charged_days'' = Some d
        \<and> claim_named (cl_claims v) ''daily_rate'' = Some r
        \<and> claim_named (cl_claims v) ''total'' = Some t
        \<and> vc_normal s = NText (date_iso start) \<and> vc_normal e = NText (date_iso end) \<and> start \<le> end
        \<and> vc_normal d = NCount (days_between end start + 1)
        \<and> days_between end start + 1 \<in> {1..90}
        \<and> vc_amount r = Some rate \<and> vc_amount t = Some (rate * (days_between end start + 1)))"
proof -
  from assms obtain s e d r t start stop k rate where vals:
    "claim_named (cl_claims v) ''period_start'' = Some s" "vc_normal s = NText (date_iso start)"
    "claim_named (cl_claims v) ''period_end'' = Some e" "vc_normal e = NText (date_iso stop)"
    "claim_named (cl_claims v) ''charged_days'' = Some d" "vc_normal d = NCount k" "1 \<le> k" "k \<le> 90"
    "claim_named (cl_claims v) ''daily_rate'' = Some r" "vc_amount r = Some rate"
    "claim_named (cl_claims v) ''total'' = Some t" "vc_amount t = Some (rate * k)"
    "start \<le> stop" "days_between stop start + 1 = k"
    by (rule passed_values)
  show ?thesis
  proof (intro conjI passed_names [OF assms(2,3)] passed_anchors [OF assms(2,3)])
    show "\<exists>s e d r t start end rate.
        claim_named (cl_claims v) ''period_start'' = Some s
        \<and> claim_named (cl_claims v) ''period_end'' = Some e
        \<and> claim_named (cl_claims v) ''charged_days'' = Some d
        \<and> claim_named (cl_claims v) ''daily_rate'' = Some r
        \<and> claim_named (cl_claims v) ''total'' = Some t
        \<and> vc_normal s = NText (date_iso start) \<and> vc_normal e = NText (date_iso end) \<and> start \<le> end
        \<and> vc_normal d = NCount (days_between end start + 1)
        \<and> days_between end start + 1 \<in> {1..90}
        \<and> vc_amount r = Some rate \<and> vc_amount t = Some (rate * (days_between end start + 1))"
      by (rule exI [of _ s], rule exI [of _ e], rule exI [of _ d], rule exI [of _ r], rule exI [of _ t],
        rule exI [of _ start], rule exI [of _ stop], rule exI [of _ rate]) (simp add: vals)
  qed
qed


lemma date_fromiso_valid: "date_fromiso s = Some d \<Longrightarrow> valid_date d"
  by (auto simp: date_fromiso_def checked_date_def date_of_isoweek_def Let_def
      split: if_splits option.splits list.splits prod.splits)

text \<open>A page of ten words, one per field.\<close>

definition sample_text :: "string \<Rightarrow> string" where
  "sample_text f = the (map_of
     [(''invoice_number'', ''INV1''), (''container_number'', ''MSKU1234567''),
      (''bill_of_lading'', ''BOL1''), (''charge_type'', ''Demurrage''),
      (''period_start'', ''0026-06-08''), (''period_end'', ''0026-06-09''),
      (''charged_days'', ''2''), (''daily_rate'', ''$1''), (''total'', ''$2''),
      (''issued_date'', ''0026-06-20'')] f)"

definition sample_entry :: "string \<Rightarrow> claim_entry" where
  "sample_entry f =
     \<lparr>ce_value = VStr (sample_text f), ce_excerpt = VStr (sample_text f), ce_page = VInt 1\<rparr>"

definition sample_page :: pdf_page where
  "sample_page =
     \<lparr>pg_words = map (\<lambda>f. \<lparr>pw_text = sample_text f, pw_x0 = 0, pw_top = 0, pw_x1 = 1, pw_bottom = 1\<rparr>)
        required_claim_fields, pg_width = 1, pg_height = 1\<rparr>"

lemma sample_located:
  "f \<in> set required_claim_fields \<Longrightarrow>
     py_strip (sample_text f) \<noteq> [] \<and> locate_pdf_anchor [sample_page] (VInt 1) (sample_text f) \<noteq> None"
proof -
  have "list_all (\<lambda>f. py_strip (sample_text f) \<noteq> [] \<and> pdf_tokens (sample_text f) \<noteq> []
      \<and> find_window (pdf_tokens (sample_text f)) (pg_words sample_page) \<noteq> None) required_claim_fields"
    by code_simp
  then show "f \<in> set required_claim_fields \<Longrightarrow> ?thesis"
    by (auto simp: list_all_iff locate_pdf_anchor_def Let_def)
qed

lemma sample_normal:
  "map (\<lambda>f. normalize_claim date_fromiso f (VStr (sample_text f))) required_claim_fields =
     [Inr (''STRING'', NText ''INV1'', None, None),
      Inr (''IDENTIFIER'', NText ''MSKU1234567'', None, None),
      Inr (''IDENTIFIER'', NText ''BOL1'', None, None), Inr (''ENUM'', NText ''DEMURRAGE'', None, None),
      Inr (''DATE'', NText ''0026-06-08'', None, None), Inr (''DATE'', NText ''0026-06-09'', None, None),
      Inr (''INTEGER'', NCount 2, None, None), Inr (''MONEY'', NMoney 100 ''USD'', Some 100, Some ''USD''),
      Inr (''MONEY'', NMoney 200 ''USD'', Some 200, Some ''USD''),
      Inr (''DATE'', NText ''0026-06-20'', None, None)]"
  by code_simp


definition sample_claim :: "string \<Rightarrow> validated_claim" where
  "sample_claim f =
     (case projr (normalize_claim date_fromiso f (VStr (sample_text f))) of
        (ty, n, amount, cur) \<Rightarrow>
          \<lparr>vc_field = f, vc_type = ty, vc_raw = sample_text f, vc_normal = n, vc_amount = amount,
           vc_currency = cur,
           vc_anchor = the (locate_pdf_anchor [sample_page] (VInt 1) (sample_text f))\<rparr>)"

lemma sample_claims_validate:
  assumes "f \<in> set required_claim_fields"
  shows "validate_field date_fromiso [sample_page] f (Some (sample_entry f)) = Inr (Inr (sample_claim f))"
proof -
  have "list_all (\<lambda>x. isl x = False)
      (map (\<lambda>f. normalize_claim date_fromiso f (VStr (sample_text f))) required_claim_fields)"
    unfolding sample_normal by simp
  with assms obtain ty n am cu where n: "normalize_claim date_fromiso f (VStr (sample_text f)) =
      Inr (ty, n, am, cu)"
    by (cases "normalize_claim date_fromiso f (VStr (sample_text f))") (auto simp: list_all_iff)
  obtain a where "locate_pdf_anchor [sample_page] (VInt 1) (sample_text f) = Some a"
    using sample_located [OF assms] by blast
  then show ?thesis
    using sample_located [OF assms] n by (simp add: validate_field_def sample_entry_def sample_claim_def)
qed

lemma sample_passes:
  "\<exists>v. validate_extracted_claims date_fromiso (Some (\<lambda>f. Some (sample_entry f))) [sample_page] = Inr v
     \<and> claims_passed v"
proof -
  let ?cs = "map sample_claim required_claim_fields"
  let ?v = "ClaimValidation ?cs (sort (remdups (period_issue ?cs @ total_issue ?cs)))"
  have "rmap (\<lambda>f. validate_field date_fromiso [sample_page] f (Some (sample_entry f)))
      required_claim_fields = Inr (map (\<lambda>f. Inr (sample_claim f)) required_claim_fields)"
    by (rule rmap_total) (rule sample_claims_validate)
  then have v: "validate_extracted_claims date_fromiso (Some (\<lambda>f. Some (sample_entry f))) [sample_page]
      = Inr ?v"
    by (simp add: validate_extracted_claims_def outcome_claims_def outcome_issues_def comp_def
        Let_def map_replicate_const concat_replicate_trivial)
  have norm: "vc_normal (sample_claim ''period_start'') = NText ''0026-06-08''"
    "vc_normal (sample_claim ''period_end'') = NText ''0026-06-09''"
    "vc_normal (sample_claim ''charged_days'') = NCount 2"
    "vc_amount (sample_claim ''daily_rate'') = Some 100"
    "vc_amount (sample_claim ''total'') = Some 200"
    using sample_normal by (simp_all add: sample_claim_def required_claim_fields_def)
  have named: "claim_named ?cs f = Some (sample_claim f)" if "f \<in> set required_claim_fields" for f
  proof -
    have sel: "vc_field (sample_claim f) = f" for f by (simp add: sample_claim_def split: prod.split)
    have "map vc_field ?cs = required_claim_fields" by (simp add: sel comp_def)
    from claim_named_in [OF this required_fields_distinct that] show ?thesis by (auto simp: sel)
  qed
  have dates: "date_fromiso ''0026-06-08'' = Some (Date 26 6 8)"
    "date_fromiso ''0026-06-09'' = Some (Date 26 6 9)" by code_simp+
  have "toordinal (Date 26 6 9) = toordinal (Date 26 6 8) + 1"
    by (simp add: days_before_month_def)
  then have "period_issue ?cs = []" "total_issue ?cs = []"
    by (simp_all add: period_issue_def total_issue_def named [OF required_names(1)] named [OF required_names(2)]
        named [OF required_names(3)] named [OF required_names(4)] named [OF required_names(5)] norm normal_text_def
        normal_count_def dates Let_def days_between_def)
  then have "claims_passed ?v" by (simp add: claims_passed_def)
  with v show ?thesis by blast
qed

theorem passed_claims_consistent_witness:
  "\<exists>v. validate_extracted_claims date_fromiso (Some (\<lambda>f. Some (sample_entry f))) [sample_page] = Inr v
     \<and> claims_passed v \<and> map vc_field (cl_claims v) = required_claim_fields"
proof -
  from sample_passes obtain v where
    v: "validate_extracted_claims date_fromiso (Some (\<lambda>f. Some (sample_entry f))) [sample_page] = Inr v"
      "claims_passed v" by blast
  have "map vc_field (cl_claims v) = required_claim_fields"
    by (rule conjunct1 [OF passed_claims_consistent [of date_fromiso, OF _ v]]) (rule date_fromiso_valid)
  with v show ?thesis by blast
qed

end
