(* ===== verification/Clerk.thy ===== *)
theory Clerk
  imports PyTime Complex_Main
begin

text \<open>
  \<open>src/core/fields.py\<close>, \<open>extraction.py\<close>, \<open>clerk_steps.py\<close> and \<open>verdict.py\<close>: the thirteen
  required fields, the gate that drops what the model cannot quote, presence and timing,
  and the verdict. \<open>dateutil\<close>'s parser is a parameter
  \<open>du :: bool option \<Rightarrow> string \<Rightarrow> date option\<close>, its first argument \<open>dayfirst\<close>; \<open>None\<close> as
  a result is its \<open>ValueError\<close> or \<open>OverflowError\<close>.
\<close>

section \<open>The thirteen fields\<close>

datatype field_spec =
  FieldSpec (fs_key: string) (fs_requirement: string) (fs_cite: "string option")

text \<open>Character 8212 (an em dash) in one requirement text is written as two hyphens.\<close>

definition fields_541_6 :: "field_spec list" where
  "fields_541_6 =
     [FieldSpec ''date_container_available'' ''Date container was made available'' None,
      FieldSpec ''port_of_discharge'' ''Port of discharge'' None,
      FieldSpec ''container_numbers'' ''Container number(s)'' None,
      FieldSpec ''earliest_return_date''
        ''Earliest return date (export) -- N/A allowed for import demurrage'' None,
      FieldSpec ''free_time_days'' ''Allowed free time in days'' None,
      FieldSpec ''free_time_start'' ''Free time start date'' None,
      FieldSpec ''proper_party_basis'' ''Basis that charged party is the proper party''
        (Some ''541.6(a)(7)''),
      FieldSpec ''free_time_end'' ''Free time end date'' None,
      FieldSpec ''applicable_rule'' ''Tariff rule the daily rate is based on'' None,
      FieldSpec ''applicable_rate'' ''Rate(s) per that rule'' None,
      FieldSpec ''total_amount_due'' ''Total amount due'' None,
      FieldSpec ''contact_for_disputes'' ''Contact for questions / mitigation requests'' None,
      FieldSpec ''certifications''
        ''Statements: charges consistent with FMC rules; carrier performance did not cause or contribute''
        None]"

definition field_keys :: "string list" where
  "field_keys = map fs_key fields_541_6"

section \<open>The anti-hallucination gate\<close>

record extracted_field =
  ef_value :: "string option"
  ef_verbatim :: "string option"
  ef_page :: "int option"
  ef_confidence :: rat

definition unverified :: extracted_field where
  "unverified = \<lparr>ef_value = None, ef_verbatim = None, ef_page = None, ef_confidence = 0\<rparr>"

text \<open>\<open>_normalize_whitespace\<close>.\<close>

definition normalize_whitespace :: "string \<Rightarrow> string" where
  "normalize_whitespace text = py_strip (collapse_ws text)"

definition gate_entry :: "string \<Rightarrow> extracted_field option \<Rightarrow> extracted_field" where
  "gate_entry normalized_source entry =
     (case entry of
        None \<Rightarrow> unverified
      | Some e \<Rightarrow>
          if truthy (ef_verbatim e)
             \<and> contains (normalize_whitespace (the (ef_verbatim e))) normalized_source
          then e else unverified)"

record extraction_result =
  er_fields :: "(string \<times> extracted_field) list"
  er_invoice_no :: "string option"
  er_currency :: string
  er_notes :: "string list"
  er_is_image_only :: bool

record raw_extraction =
  rx_fields :: "string \<rightharpoonup> extracted_field"
  rx_invoice_no :: "string option"
  rx_currency :: "string option"
  rx_notes :: "string list"

definition apply_anti_hallucination_gate :: "raw_extraction \<Rightarrow> string \<Rightarrow> extraction_result" where
  "apply_anti_hallucination_gate raw source_text =
     (let normalized_source = normalize_whitespace source_text in
      \<lparr>er_fields = map (\<lambda>k. (k, gate_entry normalized_source (rx_fields raw k))) field_keys,
       er_invoice_no = rx_invoice_no raw,
       er_currency = (case rx_currency raw of None \<Rightarrow> ''USD'' | Some c \<Rightarrow> c),
       er_notes = rx_notes raw, er_is_image_only = False\<rparr>)"

section \<open>Presence\<close>

datatype field_result = FieldResult (fr_key: string) (fr_present: bool) (fr_how: string)

definition proper_party_basis_field :: string where
  "proper_party_basis_field = ''proper_party_basis''"

definition billed_party_labels :: "string list" where
  "billed_party_labels = [''Consignee:'', ''Shipper:'', ''Contract party:'']"

definition is_alnum_ascii :: "char \<Rightarrow> bool" where
  "is_alnum_ascii c = (is_digit c \<or> is_upper_az c \<or> is_lower_az c)"

text \<open>
  The pattern of \<open>_billed_party_name_appears_standalone\<close> at one position, given the
  character before it, and the search over all positions.
\<close>

definition standalone_here :: "string \<Rightarrow> char option \<Rightarrow> string \<Rightarrow> bool" where
  "standalone_here name before s =
     (let after = drop (length name) s; rest = dropWhile is_space after in
      starts_with name s
      \<and> (case before of None \<Rightarrow> True | Some c \<Rightarrow> \<not> is_alnum_ascii c)
      \<and> (after = [] \<or> \<not> is_alnum_ascii (hd after))
      \<and> (rest = [] \<or> hd rest \<noteq> CHR ''&''))"

fun appears_standalone :: "string \<Rightarrow> char option \<Rightarrow> string \<Rightarrow> bool" where
  "appears_standalone name before [] = standalone_here name before []"
| "appears_standalone name before (c # cs) =
     (standalone_here name before (c # cs) \<or> appears_standalone name (Some c) cs)"

type_synonym extracted = "(string \<times> extracted_field option) list"

definition entry_verbatim :: "extracted_field option \<Rightarrow> string" where
  "entry_verbatim entry = (case entry of None \<Rightarrow> [] | Some e \<Rightarrow> or_empty (ef_verbatim e))"

definition check_proper_party_implicit :: "extracted \<Rightarrow> string option \<Rightarrow> field_result" where
  "check_proper_party_implicit extracted billed =
     (if \<not> truthy billed then FieldResult proper_party_basis_field False ''missing''
      else
        (let labelled = filter (\<lambda>v. \<exists>label \<in> set billed_party_labels. contains label v)
               (map (entry_verbatim \<circ> snd) extracted)
         in if \<exists>v \<in> set labelled. appears_standalone (the billed) None v
            then FieldResult proper_party_basis_field True ''implicit:consignee_label''
            else if labelled \<noteq> []
            then FieldResult proper_party_basis_field False ''label_mismatch''
            else FieldResult proper_party_basis_field False ''missing''))"

definition has_verbatim :: "extracted \<Rightarrow> string \<Rightarrow> bool" where
  "has_verbatim extracted key =
     (case map_of extracted key of Some (Some e) \<Rightarrow> truthy (ef_verbatim e) | _ \<Rightarrow> False)"

definition check_field :: "extracted \<Rightarrow> string option \<Rightarrow> string \<Rightarrow> field_result" where
  "check_field extracted billed key =
     (if key = proper_party_basis_field \<and> \<not> has_verbatim extracted key
      then check_proper_party_implicit extracted billed
      else if has_verbatim extracted key then FieldResult key True ''verbatim''
      else FieldResult key False ''missing'')"

definition check_presence :: "extracted \<Rightarrow> string option \<Rightarrow> field_result list" where
  "check_presence extracted billed = map (check_field extracted billed \<circ> fs_key) fields_541_6"

section \<open>Timing\<close>

definition window_days :: int where
  "window_days = 30"

record window_result =
  wr_invoice_date :: "date option"
  wr_last_charge_date :: "date option"
  wr_days :: "int option"
  wr_within_30 :: "bool option"
  wr_ambiguous :: bool

text \<open>\<open>^\\d{1,2}[/\\-]\\d{1,2}[/\\-]\\d{2,4}$\<close>.\<close>

definition date_mark :: "char \<Rightarrow> bool" where
  "date_mark c = (c = CHR ''/'' \<or> c = CHR ''-'')"

definition looks_like_ambiguous_numeric_date :: "string \<Rightarrow> bool" where
  "looks_like_ambiguous_numeric_date raw =
     (let a = takeWhile is_digit raw; r = dropWhile is_digit raw;
          b = takeWhile is_digit (tl r); s = dropWhile is_digit (tl r);
          c = takeWhile is_digit (tl s); t = dropWhile is_digit (tl s)
      in 1 \<le> length a \<and> length a \<le> 2 \<and> r \<noteq> [] \<and> date_mark (hd r)
         \<and> 1 \<le> length b \<and> length b \<le> 2 \<and> s \<noteq> [] \<and> date_mark (hd s)
         \<and> 2 \<le> length c \<and> length c \<le> 4 \<and> t = [])"

definition parse_clerk_date ::
  "(bool option \<Rightarrow> string \<Rightarrow> date option) \<Rightarrow> string option \<Rightarrow> string \<Rightarrow> date option"
where
  "parse_clerk_date du hint raw0 =
     (let raw = py_strip raw0 in
      case date_fromiso raw of
        Some d \<Rightarrow> Some d
      | None \<Rightarrow>
          if hint = Some ''DMY'' then du (Some True) raw
          else if hint = Some ''MDY'' then du (Some False) raw
          else if hint = Some ''ISO'' then None
          else if looks_like_ambiguous_numeric_date raw then None
          else du None raw)"

definition check_timing ::
  "(bool option \<Rightarrow> string \<Rightarrow> date option) \<Rightarrow> string option \<Rightarrow> string option \<Rightarrow> string option
    \<Rightarrow> window_result"
where
  "check_timing du invoice_raw last_raw hint =
     (if \<not> truthy invoice_raw \<or> \<not> truthy last_raw then
        \<lparr>wr_invoice_date = None, wr_last_charge_date = None, wr_days = None,
         wr_within_30 = None, wr_ambiguous = True\<rparr>
      else
        (let i = parse_clerk_date du hint (the invoice_raw);
             l = parse_clerk_date du hint (the last_raw)
         in case (i, l) of
              (Some di, Some dl) \<Rightarrow>
                (let days = days_between di dl in
                 if days < 0 then
                   \<lparr>wr_invoice_date = i, wr_last_charge_date = l, wr_days = Some days,
                    wr_within_30 = None, wr_ambiguous = True\<rparr>
                 else
                   \<lparr>wr_invoice_date = i, wr_last_charge_date = l, wr_days = Some days,
                    wr_within_30 = Some (days \<le> window_days), wr_ambiguous = False\<rparr>)
            | _ \<Rightarrow> \<lparr>wr_invoice_date = i, wr_last_charge_date = l, wr_days = None,
                wr_within_30 = None, wr_ambiguous = True\<rparr>))"

section \<open>Verdict\<close>

definition cite_for_field :: "string \<Rightarrow> string option" where
  "cite_for_field key =
     (case List.find (\<lambda>f. fs_key f = key) fields_541_6 of None \<Rightarrow> None | Some f \<Rightarrow> fs_cite f)"

definition compute_verdict :: "field_result list \<Rightarrow> window_result \<Rightarrow> string \<times> string option" where
  "compute_verdict results w =
     (let missing = filter (\<lambda>r. \<not> fr_present r) results in
      if missing \<noteq> [] then (''DEFECTIVE'', cite_for_field (fr_key (hd missing)))
      else if wr_ambiguous w then (''NEEDS_REVIEW'', None)
      else if wr_within_30 w = Some False then (''DEFECTIVE'', Some ''30-day window'')
      else (''VALID'', None))"

definition build_summary :: "string \<Rightarrow> field_result list \<Rightarrow> string" where
  "build_summary verdict results =
     (let missing_keys = map fr_key (filter (\<lambda>r. \<not> fr_present r) results) in
      if verdict = ''VALID'' then ''All 13 required fields present; charge within the 30-day window.''
      else if missing_keys \<noteq> [] then ''Missing required field(s): '' @ join '', '' missing_keys @ ''.''
      else ''Timing window could not be confidently determined.'')"

section \<open>Facts\<close>

lemma check_field_key [simp]: "fr_key (check_field ex b k) = k"
  by (auto simp: check_field_def check_proper_party_implicit_def Let_def)

lemma check_presence_keys: "map fr_key (check_presence ex b) = field_keys"
  by (simp add: check_presence_def field_keys_def comp_def)

lemma check_field_present:
  "fr_present (check_field ex b k) \<longleftrightarrow>
     has_verbatim ex k \<or> k = proper_party_basis_field \<and> fr_present (check_proper_party_implicit ex b)"
  by (auto simp: check_field_def)

lemma implicit_present:
  "fr_present (check_proper_party_implicit ex b) \<longleftrightarrow>
     truthy b \<and> (\<exists>v \<in> (entry_verbatim \<circ> snd) ` set ex.
       (\<exists>label \<in> set billed_party_labels. contains label v) \<and> appears_standalone (the b) None v)"
  by (auto simp: check_proper_party_implicit_def Let_def)

lemma check_presence_all:
  "filter (\<lambda>r. \<not> fr_present r) (check_presence ex b) = [] \<longleftrightarrow>
     (\<forall>k \<in> set field_keys. fr_present (check_field ex b k))"
  by (auto simp: check_presence_def field_keys_def filter_empty_conv)

lemma check_timing_within:
  "wr_within_30 (check_timing du i l hint) = Some b \<longleftrightarrow>
     (\<exists>di dl. parse_clerk_date du hint (the i) = Some di \<and> parse_clerk_date du hint (the l) = Some dl
        \<and> truthy i \<and> truthy l \<and> 0 \<le> days_between di dl \<and> b = (days_between di dl \<le> 30))"
  by (auto simp: check_timing_def Let_def window_days_def split: option.splits)

lemma check_timing_ambiguous:
  "wr_ambiguous (check_timing du i l hint) \<longleftrightarrow> wr_within_30 (check_timing du i l hint) = None"
  by (auto simp: check_timing_def Let_def split: option.splits)

section \<open>Properties\<close>

text \<open>
  The model may not assert what it cannot quote. After the gate exactly the thirteen
  fields are there; each is either empty with confidence 0, or is the model's entry with a
  quote that, spacing aside, occurs in the source text.
\<close>

theorem gate_keeps_only_quotes:
  "map fst (er_fields (apply_anti_hallucination_gate raw source)) = field_keys
    \<and> length field_keys = 13
    \<and> (\<forall>(k, e) \<in> set (er_fields (apply_anti_hallucination_gate raw source)).
        e = unverified
        \<or> (\<exists>q. rx_fields raw k = Some e \<and> ef_verbatim e = Some q \<and> q \<noteq> []
            \<and> contains (normalize_whitespace q) (normalize_whitespace source)))"
proof (intro conjI)
  show "map fst (er_fields (apply_anti_hallucination_gate raw source)) = field_keys"
    by (simp add: apply_anti_hallucination_gate_def Let_def comp_def)
  show "length field_keys = 13" by (simp add: field_keys_def fields_541_6_def)
  show "\<forall>(k, e) \<in> set (er_fields (apply_anti_hallucination_gate raw source)).
        e = unverified
        \<or> (\<exists>q. rx_fields raw k = Some e \<and> ef_verbatim e = Some q \<and> q \<noteq> []
            \<and> contains (normalize_whitespace q) (normalize_whitespace source))"
    by (auto simp: apply_anti_hallucination_gate_def Let_def gate_entry_def truthy_def
        split: option.splits)
qed

definition sample_raw :: "string \<Rightarrow> raw_extraction" where
  "sample_raw quote =
     \<lparr>rx_fields = [''port_of_discharge'' \<mapsto>
        \<lparr>ef_value = Some ''LAX'', ef_verbatim = Some quote, ef_page = None, ef_confidence = 1\<rparr>],
      rx_invoice_no = None, rx_currency = None, rx_notes = []\<rparr>"

theorem gate_keeps_only_quotes_witness:
  "gate_entry (normalize_whitespace ''Port: LGB'') (rx_fields (sample_raw ''Port: LAX'') ''port_of_discharge'')
     = unverified"
proof -
  let ?e = "gate_entry (normalize_whitespace ''Port: LGB'')
      (rx_fields (sample_raw ''Port: LAX'') ''port_of_discharge'')"
  have "(''port_of_discharge'', ?e) \<in>
      set (er_fields (apply_anti_hallucination_gate (sample_raw ''Port: LAX'') ''Port: LGB''))"
    by (auto simp: apply_anti_hallucination_gate_def Let_def field_keys_def fields_541_6_def)
  moreover have "\<not> contains (normalize_whitespace ''Port: LAX'') (normalize_whitespace ''Port: LGB'')"
    by code_simp
  ultimately show ?thesis
    using gate_keeps_only_quotes [of "sample_raw ''Port: LAX''" "''Port: LGB''"]
    by (fastforce simp: sample_raw_def)
qed

text \<open>A quote of blanks passes the gate with any value: normalised it is empty.\<close>

lemma blank_quote_passes:
  "ef_value (gate_entry (normalize_whitespace ''Port: LGB'')
     (rx_fields (sample_raw '' '') ''port_of_discharge'')) = Some ''LAX''"
proof -
  have "normalize_whitespace '' '' = []" by code_simp
  then show ?thesis by (simp add: gate_entry_def sample_raw_def truthy_def)
qed

text \<open>
  The verdict follows its precedence. An invoice is VALID exactly when each of the thirteen
  fields is quoted, or, for the proper-party basis, a quoted party label stands with the
  billed party's own name, and both dates are determined with the invoice issued 0 to 30 days
  after the last charge. With all fields present, undetermined dates give NEEDS_REVIEW and a
  later invoice DEFECTIVE; a missing field gives DEFECTIVE with the citation of the first one.
\<close>

theorem verdict_precedence:
  fixes ex billed du i l hint
  defines "w \<equiv> check_timing du i l hint"
  defines "v \<equiv> compute_verdict (check_presence ex billed) w"
  shows "(fst v = ''VALID'' \<longleftrightarrow>
      (\<forall>k \<in> set field_keys. has_verbatim ex k \<or> k = proper_party_basis_field
        \<and> fr_present (check_proper_party_implicit ex billed))
      \<and> (\<exists>di dl. parse_clerk_date du hint (the i) = Some di \<and> parse_clerk_date du hint (the l) = Some dl
          \<and> truthy i \<and> truthy l \<and> 0 \<le> days_between di dl \<and> days_between di dl \<le> 30))
    \<and> (fst v = ''NEEDS_REVIEW'' \<longleftrightarrow>
        (\<forall>k \<in> set field_keys. fr_present (check_field ex billed k)) \<and> wr_ambiguous w)
    \<and> (\<forall>k ks. filter (\<lambda>k. \<not> fr_present (check_field ex billed k)) field_keys = k # ks \<longrightarrow>
        v = (''DEFECTIVE'', cite_for_field k))"
proof -
  let ?missing = "filter (\<lambda>r. \<not> fr_present r) (check_presence ex billed)"
  have all: "?missing = [] \<longleftrightarrow> (\<forall>k \<in> set field_keys. fr_present (check_field ex billed k))"
    by (rule check_presence_all)
  have v: "v = (if ?missing \<noteq> [] then (''DEFECTIVE'', cite_for_field (fr_key (hd ?missing)))
      else if wr_ambiguous w then (''NEEDS_REVIEW'', None)
      else if wr_within_30 w = Some False then (''DEFECTIVE'', Some ''30-day window'')
      else (''VALID'', None))"
    by (simp add: v_def compute_verdict_def Let_def)
  have miss: "?missing = map (check_field ex billed) (filter (\<lambda>k. \<not> fr_present (check_field ex billed k)) field_keys)"
    by (simp add: check_presence_def field_keys_def filter_map comp_def)
  have "\<not> wr_ambiguous w \<and> wr_within_30 w \<noteq> Some False \<longleftrightarrow> wr_within_30 w = Some True"
    unfolding w_def check_timing_ambiguous by (cases "wr_within_30 (check_timing du i l hint)") auto
  then have "\<not> wr_ambiguous w \<and> wr_within_30 w \<noteq> Some False \<longleftrightarrow>
      (\<exists>di dl. parse_clerk_date du hint (the i) = Some di \<and> parse_clerk_date du hint (the l) = Some dl
          \<and> truthy i \<and> truthy l \<and> 0 \<le> days_between di dl \<and> days_between di dl \<le> 30)"
    unfolding w_def check_timing_within by simp
  then have valid: "fst v = ''VALID'' \<longleftrightarrow> ?missing = [] \<and>
      (\<exists>di dl. parse_clerk_date du hint (the i) = Some di \<and> parse_clerk_date du hint (the l) = Some dl
          \<and> truthy i \<and> truthy l \<and> 0 \<le> days_between di dl \<and> days_between di dl \<le> 30)"
    by (auto simp: v)
  have review: "fst v = ''NEEDS_REVIEW'' \<longleftrightarrow> ?missing = [] \<and> wr_ambiguous w" by (simp add: v)
  have first: "v = (''DEFECTIVE'', cite_for_field k)"
    if "filter (\<lambda>k. \<not> fr_present (check_field ex billed k)) field_keys = k # ks" for k ks
    using that by (simp add: v miss)
  show ?thesis
    using first by (simp only: valid review all check_field_present) blast
qed

theorem verdict_precedence_witness:
  "compute_verdict (check_presence [] None) (check_timing (\<lambda>_ _. None) None None None)
     = (''DEFECTIVE'', None)"
proof -
  have "check_field [] None k = FieldResult k False ''missing''" for k
    by (simp add: check_field_def has_verbatim_def check_proper_party_implicit_def truthy_def)
  then have "filter (\<lambda>k. \<not> fr_present (check_field [] None k)) field_keys
      = ''date_container_available'' # tl field_keys"
    by (simp add: field_keys_def fields_541_6_def)
  then have "compute_verdict (check_presence [] None) (check_timing (\<lambda>_ _. None) None None None)
     = (''DEFECTIVE'', cite_for_field ''date_container_available'')"
    using verdict_precedence [where ex = "[]" and billed = None and
      du = "\<lambda>_ _. None" and i = None and l = None and hint = None] by blast
  then show ?thesis by (simp add: cite_for_field_def fields_541_6_def)
qed

text \<open>
  A late invoice with every field present is summarised as one whose window could not be
  determined.
\<close>

lemma late_summary_misstates:
  "filter (\<lambda>r. \<not> fr_present r) results = [] \<Longrightarrow>
     build_summary ''DEFECTIVE'' results = ''Timing window could not be confidently determined.''"
  by (simp add: build_summary_def)

end
