(* ===== verification/Db.thy ===== *)
theory Db
  imports IntakeClaims Judgment
begin

text \<open>
  The CockroachDB tables the platform repositories share, as lists of rows in insertion
  order, the unique indexes the migrations declare, and the transaction runner of
  \<open>src/external/db.py\<close>. Transactions are serializable: one that commits sees one state and
  leaves one state, one that raises leaves the state it found. Timestamps are integers
  (microseconds), \<open>now()\<close> is a parameter of a transaction, and \<open>uuid4()\<close> reads a stream of
  identifiers that is a parameter too. Identifier columns drawn by the database itself are
  left out.
\<close>

section \<open>Rows\<close>

text \<open>The text column of task states; \<open>HELD\<close> is not a member of \<open>TaskState\<close>.\<close>

datatype row_state =
    TaskPending
  | TaskLeased
  | TaskRunning
  | TaskCompleted
  | TaskRetryWait
  | TaskBlocked
  | TaskFailed
  | TaskHeld

record invoice_row =
  in_tenant :: string
  in_id :: string
  in_carrier :: string
  in_sha256 :: string
  in_display :: string
  in_received :: int
  in_no :: "string option"
  in_intake_state :: string
  in_aggregate :: string
  in_status :: string
  in_sequence :: nat
  in_row_version :: nat
  in_claim_set :: "nat option"
  in_updated :: int

record stored_source =
  ss_bucket :: string
  ss_key :: string
  ss_version :: string
  ss_sha256 :: string
  ss_bytes :: nat

record source_row =
  so_tenant :: string
  so_id :: string
  so_invoice :: string
  so_type :: string
  so_preservation :: string
  so_bucket :: string
  so_key :: string
  so_version :: string
  so_sha256 :: string
  so_bytes :: nat
  so_filename :: string
  so_mime :: string
  so_provenance :: string
  so_disclosure :: string
  so_received :: int

record task_row =
  tk_tenant :: string
  tk_id :: string
  tk_invoice :: string
  tk_type :: task_type
  tk_version :: nat
  tk_state :: row_state
  tk_initiated :: "string option"
  tk_actor :: string
  tk_cutoff :: int
  tk_fingerprint :: string
  tk_inputs :: "json list"
  tk_attempt :: nat
  tk_owner :: "string option"
  tk_expires :: "int option"
  tk_not_before :: "int option"
  tk_started :: "int option"
  tk_completed :: "int option"
  tk_summary :: "string option"
  tk_error :: "string option"
  tk_created :: int
  tk_updated :: int

record attempt_row =
  at_tenant :: string
  at_task :: string
  at_number :: nat
  at_state :: row_state
  at_owner :: "string option"
  at_expires :: "int option"
  at_started :: "int option"
  at_completed :: "int option"
  at_error :: "string option"

record event_row =
  lg_tenant :: string
  lg_id :: string
  lg_invoice :: string
  lg_sequence :: nat
  lg_type :: string
  lg_occurred :: int
  lg_role :: string
  lg_task :: string
  lg_tool :: "string option"
  lg_state :: string
  lg_aggregate :: string
  lg_summary :: string
  lg_initiated :: "string option"
  lg_actor :: string
  lg_inputs :: "json list"
  lg_produced :: "json list"
  lg_output_count :: "nat option"
  lg_error :: "json option"

record outbox_row =
  ob_tenant :: string
  ob_invoice :: string
  ob_event :: string
  ob_state :: string
  ob_available :: int
  ob_count :: nat
  ob_delivered :: "int option"

record run_row =
  xr_tenant :: string
  xr_id :: string
  xr_invoice :: string
  xr_source :: string
  xr_source_sha256 :: string
  xr_source_version :: string
  xr_attempt :: nat
  xr_requested :: "int option"
  xr_responded :: int
  xr_provider_ref :: "string option"
  xr_response_sha256 :: string
  xr_validation :: string
  xr_issues :: "string list"

record claim_set_row =
  cs_tenant :: string
  cs_id :: string
  cs_invoice :: string
  cs_version :: nat
  cs_run :: string
  cs_validation :: string
  cs_issues :: "string list"

record retry_row =
  rr_tenant :: string
  rr_key :: string
  rr_invoice :: string
  rr_hash :: string
  rr_state :: string
  rr_snapshot :: "(string \<times> nat \<times> nat) option"
  rr_initiated :: "string option"
  rr_actor :: string

record recommendation_row =
  re_tenant :: string
  re_id :: string
  re_invoice :: string
  re_reconstruction :: string
  re_rule :: "string option"
  re_version :: int
  re_digest :: string
  re_state :: string
  re_type :: string
  re_disputed :: int
  re_supported :: int
  re_claimed :: int
  re_currency :: string
  re_fingerprint :: string
  re_days_total :: nat
  re_days_covered :: nat
  re_coverage :: string
  re_summary :: string
  re_reasons :: "string list"

record judgment_row =
  jr_tenant :: string
  jr_recommendation :: string
  jr_date :: date
  jr_invoice_rate :: int
  jr_applicable_rate :: "int option"
  jr_discrepancy :: int
  jr_outcome :: string
  jr_invoice :: string
  jr_reconstruction :: string
  jr_day :: string
  jr_currency :: string
  jr_coverage :: string
  jr_rule :: "string option"
  jr_explanation :: string

record rule_row =
  ru_tenant :: string
  ru_id :: string
  ru_invoice :: string
  ru_public_ref :: string
  ru_clause_ref :: "string option"
  ru_rate :: int
  ru_currency :: string
  ru_from :: date
  ru_to :: "date option"
  ru_validation :: string
  ru_reconstruction :: string
  ru_run :: string
  ru_clause :: string
  ru_excerpt :: string
  ru_unit :: string
  ru_scope :: string
  ru_locator :: string
  ru_results :: "(string \<times> string) list"
  ru_validated :: int

record reconstruction_row =
  rn_tenant :: string
  rn_id :: string
  rn_invoice :: string
  rn_version :: int
  rn_state :: string
  rn_task :: string
  rn_fingerprint :: string
  rn_claim_set :: nat
  rn_cutoff :: int
  rn_event_count :: nat
  rn_days_total :: nat
  rn_days_complete :: nat
  rn_correlation :: string
  rn_query :: string
  rn_summary :: string
  rn_issues :: "string list"
  rn_completed :: int

record approval_row =
  ap_tenant :: string
  ap_id :: string
  ap_invoice :: string
  ap_reconstruction :: string
  ap_recommendation :: string
  ap_version :: int
  ap_digest :: string
  ap_key :: string
  ap_hash :: string
  ap_user :: "string option"
  ap_display :: string
  ap_kind :: string
  ap_decision :: string
  ap_state :: string
  ap_snap_seal :: string
  ap_snap_revision :: nat
  ap_snap_digest :: string
  ap_snap_type :: string

record seal_row =
  sl_tenant :: string
  sl_id :: string
  sl_invoice :: string
  sl_reconstruction :: string
  sl_recommendation :: string
  sl_version :: int
  sl_rule :: "string option"
  sl_claim_set :: nat
  sl_approval :: string
  sl_display :: string
  sl_revision :: nat
  sl_digest :: string
  sl_refs :: "json list"
  sl_source_ref :: string
  sl_summary :: string

record draft_row =
  dr_tenant :: string
  dr_id :: string
  dr_invoice :: string
  dr_seal :: string
  dr_seal_digest :: string
  dr_recipient :: string
  dr_subject :: string
  dr_body :: string
  dr_fields :: "(string \<times> json) list"
  dr_fields_digest :: string
  dr_validation :: string
  dr_state :: string
  dr_generator :: string
  dr_generator_model :: "string option"
  dr_prose_validation :: string
  dr_prose_issues :: "string list"

record send_row =
  sd_tenant :: string
  sd_id :: string
  sd_invoice :: string
  sd_draft :: string
  sd_seal :: string
  sd_key :: string
  sd_hash :: string
  sd_approver :: string
  sd_gate_state :: string
  sd_send_state :: string
  sd_provider_key :: string
  sd_message_id :: "string option"
  sd_recipient :: string
  sd_blocked :: "string option"
  sd_acknowledged :: "int option"

record gate_run_row =
  gn_tenant :: string
  gn_attempt :: string
  gn_code :: string
  gn_state :: string
  gn_detail :: "string option"

record audit_row =
  au_tenant :: string
  au_tag :: string
  au_text :: string
  au_actor :: string

record claim_row =
  cl_tenant :: string
  cl_set :: string
  cl_claim :: validated_claim

record artifact_row =
  ar_tenant :: string
  ar_id :: string
  ar_public_ref :: string
  ar_version :: string
  ar_verification :: string

record event_version_row =
  rv_tenant :: string
  rv_id :: string
  rv_reconstruction :: string
  rv_invoice :: string
  rv_public_ref :: string
  rv_type :: string
  rv_shipment :: string
  rv_container :: string
  rv_artifact :: string
  rv_version :: string
  rv_anchor :: string
  rv_provenance :: string
  rv_occurred :: int
  rv_from :: "date option"
  rv_to :: "date option"
  rv_observed :: "int option"
  rv_recorded :: int
  rv_received :: int
  rv_before_cutoff :: bool
  rv_facts :: "(string \<times> json) list"
  rv_sequence :: nat

record day_row =
  dy_tenant :: string
  dy_id :: string
  dy_reconstruction :: string
  dy_invoice :: string
  dy_date :: date
  dy_chargeability :: string
  dy_coverage :: string
  dy_state :: string
  dy_invoice_rate :: int
  dy_applicable_rate :: "int option"
  dy_currency :: string
  dy_missing :: "string list"

record day_event_row =
  de_tenant :: string
  de_day :: string
  de_event :: string
  de_role :: string

record coverage_row =
  cg_tenant :: string
  cg_reconstruction :: string
  cg_invoice :: string
  cg_requirement :: string
  cg_state :: string

record memory_row =
  mm_tenant :: string
  mm_public_ref :: string
  mm_container :: string
  mm_type :: string
  mm_source :: string
  mm_state :: string
  mm_from :: "date option"
  mm_facts :: "(string \<times> json) list"

record verification_row =
  vf_tenant :: string
  vf_id :: string
  vf_invoice :: string
  vf_task :: string
  vf_snapshot :: string
  vf_container :: string
  vf_date :: date
  vf_outcome :: string
  vf_reason :: "string option"

record search_row =
  rq_tenant :: string
  rq_id :: string
  rq_invoice :: string
  rq_reconstruction :: string
  rq_fingerprint :: string
  rq_query :: string
  rq_index :: string
  rq_model :: string
  rq_input_sha256 :: string
  rq_state :: string
  rq_count :: nat
  rq_completed :: int

record candidate_row =
  cw_tenant :: string
  cw_run :: string
  cw_clause :: string
  cw_public_ref :: string
  cw_rank :: int
  cw_distance :: rat
  cw_state :: string
  cw_rejection :: "string option"

record day_rule_row =
  dl_tenant :: string
  dl_day :: string
  dl_rule :: string

record ingestion_row =
  ig_tenant :: string
  ig_key :: string
  ig_hash :: string
  ig_state :: string
  ig_initiated :: "string option"
  ig_actor :: string
  ig_invoice :: string
  ig_source :: string
  ig_stored :: "stored_source option"
  ig_snapshot :: "json option"
  ig_duplicate :: "(string \<times> string) option"

record db =
  db_invoices :: "invoice_row list"
  db_sources :: "source_row list"
  db_tasks :: "task_row list"
  db_attempts :: "attempt_row list"
  db_events :: "event_row list"
  db_outbox :: "outbox_row list"
  db_runs :: "run_row list"
  db_claim_sets :: "claim_set_row list"
  db_claims :: "claim_row list"
  db_retries :: "retry_row list"
  db_recs :: "recommendation_row list"
  db_judgments :: "judgment_row list"
  db_rules :: "rule_row list"
  db_recons :: "reconstruction_row list"
  db_approvals :: "approval_row list"
  db_seals :: "seal_row list"
  db_drafts :: "draft_row list"
  db_sends :: "send_row list"
  db_gate_runs :: "gate_run_row list"
  db_audit :: "audit_row list"
  db_artifacts :: "artifact_row list"
  db_event_versions :: "event_version_row list"
  db_days :: "day_row list"
  db_day_events :: "day_event_row list"
  db_coverage :: "coverage_row list"
  db_memory :: "memory_row list"
  db_verifications :: "verification_row list"
  db_searches :: "search_row list"
  db_candidates :: "candidate_row list"
  db_day_rules :: "day_rule_row list"
  db_ingestions :: "ingestion_row list"

definition empty_db :: db where
  "empty_db =
     \<lparr>db_invoices = [],
      db_sources = [],
      db_tasks = [],
      db_attempts = [],
      db_events = [],
      db_outbox = [],
      db_runs = [],
      db_claim_sets = [],
      db_claims = [],
      db_retries = [],
      db_recs = [],
      db_judgments = [],
      db_rules = [],
      db_recons = [],
      db_approvals = [],
      db_seals = [],
      db_drafts = [],
      db_sends = [],
      db_gate_runs = [],
      db_audit = [],
      db_artifacts = [],
      db_event_versions = [],
      db_days = [],
      db_day_events = [],
      db_coverage = [],
      db_memory = [],
      db_verifications = [],
      db_searches = [],
      db_candidates = [],
      db_day_rules = [],
      db_ingestions = []\<rparr>"

lemma empty_db_tables [simp]:
  "db_invoices empty_db = []"
  "db_sources empty_db = []"
  "db_tasks empty_db = []"
  "db_attempts empty_db = []"
  "db_events empty_db = []"
  "db_outbox empty_db = []"
  "db_runs empty_db = []"
  "db_claim_sets empty_db = []"
  "db_claims empty_db = []"
  "db_retries empty_db = []"
  "db_recs empty_db = []"
  "db_judgments empty_db = []"
  "db_rules empty_db = []"
  "db_recons empty_db = []"
  "db_approvals empty_db = []"
  "db_seals empty_db = []"
  "db_drafts empty_db = []"
  "db_sends empty_db = []"
  "db_gate_runs empty_db = []"
  "db_audit empty_db = []"
  "db_artifacts empty_db = []"
  "db_event_versions empty_db = []"
  "db_days empty_db = []"
  "db_day_events empty_db = []"
  "db_coverage empty_db = []"
  "db_memory empty_db = []"
  "db_verifications empty_db = []"
  "db_searches empty_db = []"
  "db_candidates empty_db = []"
  "db_day_rules empty_db = []"
  "db_ingestions empty_db = []"
  by (simp_all add: empty_db_def)

text \<open>Rows the witnesses start from: one invoice of a tenant, its source and its decision.\<close>

definition sample_invoice :: invoice_row where
  "sample_invoice =
     \<lparr>in_tenant = ''t'', in_id = ''i'', in_carrier = ''c'', in_sha256 = ''h'', in_display = ''f'',
      in_received = 0, in_no = None, in_intake_state = ''RECEIVED'', in_aggregate = ''RECEIVED'',
      in_status = ''RECEIVED'', in_sequence = 0, in_row_version = 1, in_claim_set = None, in_updated = 0\<rparr>"

definition sample_source :: source_row where
  "sample_source =
     \<lparr>so_tenant = ''t'', so_id = ''s'', so_invoice = ''i'', so_type = ''INVOICE_PDF'',
      so_preservation = ''VERSION_VERIFIED'', so_bucket = ''b'', so_key = ''o'', so_version = ''v'',
      so_sha256 = ''h'', so_bytes = 9, so_filename = ''f'', so_mime = ''application/pdf'',
      so_provenance = ''SYNTHETIC'', so_disclosure = [], so_received = 0\<rparr>"

definition sample_recommendation :: recommendation_row where
  "sample_recommendation =
     \<lparr>re_tenant = ''t'', re_id = ''r'', re_invoice = ''i'', re_reconstruction = ''c'', re_rule = None,
      re_version = 1, re_digest = ''d'', re_state = ''FROZEN'', re_type = ''DISPUTE'', re_disputed = 700,
      re_supported = 0, re_claimed = 700, re_currency = ''USD'', re_fingerprint = ''p'',
      re_days_total = 1, re_days_covered = 1, re_coverage = ''1 of 1 days'', re_summary = [], re_reasons = []\<rparr>"

definition sample_rule_row :: rule_row where
  "sample_rule_row =
     \<lparr>ru_tenant = ''t'', ru_id = ''u'', ru_invoice = ''i'', ru_public_ref = ''p'', ru_clause_ref = None,
      ru_rate = 10, ru_currency = ''USD'', ru_from = Date 2026 1 1, ru_to = None,
      ru_validation = ''VERIFIED'', ru_reconstruction = ''c'', ru_run = ''q'', ru_clause = ''k'',
      ru_excerpt = [], ru_unit = ''CALENDAR_DAY'', ru_scope = ''S'', ru_locator = ''L'', ru_results = [],
      ru_validated = 0\<rparr>"

definition sample_reconstruction :: reconstruction_row where
  "sample_reconstruction =
     \<lparr>rn_tenant = ''t'', rn_id = ''c'', rn_invoice = ''i'', rn_version = 1, rn_state = ''COMPLETE'',
      rn_task = ''w'', rn_fingerprint = ''p'', rn_claim_set = 1, rn_cutoff = 0, rn_event_count = 0,
      rn_days_total = 1, rn_days_complete = 1, rn_correlation = [], rn_query = [], rn_summary = [],
      rn_issues = [], rn_completed = 0\<rparr>"

lemmas sample_row_defs = sample_invoice_def sample_source_def sample_recommendation_def
  sample_rule_row_def sample_reconstruction_def

section \<open>Transactions\<close>

text \<open>
  A raised exception is its code; a violated unique index is named. A body of type
  \<open>'a tx\<close> either raises or returns a value and the new state.
\<close>

datatype tx_error = Raised string | UniqueViolation string | SerializationFailure

type_synonym 'a tx = "db \<Rightarrow> tx_error + 'a \<times> db"

definition default_max_retries :: nat where
  "default_max_retries = 5"

text \<open>
  \<open>run_with_retry\<close>: the body runs in a transaction; after a serialization failure, which
  rolled back, it runs again from the start, at most \<open>max_retries\<close> times more. The list says
  for each run whether the database restarts it. The body takes the number of the run,
  since the identifiers it draws differ from run to run.
\<close>

fun run_with_retry :: "nat \<Rightarrow> bool list \<Rightarrow> nat \<Rightarrow> (nat \<Rightarrow> 'a tx) \<Rightarrow> db \<Rightarrow> (tx_error + 'a) \<times> db" where
  "run_with_retry max_retries [] attempt body db =
     (case body attempt db of Inl e \<Rightarrow> (Inl e, db) | Inr (a, db') \<Rightarrow> (Inr a, db'))"
| "run_with_retry max_retries (restart # rs) attempt body db =
     (if restart then
        (if max_retries < attempt + 1 then (Inl SerializationFailure, db)
         else run_with_retry max_retries rs (attempt + 1) body db)
      else (case body attempt db of Inl e \<Rightarrow> (Inl e, db) | Inr (a, db') \<Rightarrow> (Inr a, db')))"

text \<open>A failed transaction changes nothing; a successful one is one run of the body.\<close>

lemma run_with_retry_Inl: "run_with_retry m rs n body db = (Inl e, db') \<Longrightarrow> db' = db"
  by (induction rs arbitrary: n) (auto split: if_splits sum.splits)

lemma run_with_retry_Inr:
  "run_with_retry m rs n body db = (Inr a, db') \<Longrightarrow> \<exists>k. n \<le> k \<and> body k db = Inr (a, db')"
proof (induction rs arbitrary: n)
  case Nil
  then show ?case by (auto split: sum.splits)
next
  case (Cons r rs)
  show ?case
  proof (cases r)
    case True
    with Cons.prems have "run_with_retry m rs (n + 1) body db = (Inr a, db')"
      by (auto split: if_splits)
    with Cons.IH obtain k where "n + 1 \<le> k" "body k db = Inr (a, db')" by blast
    then show ?thesis by (intro exI [of _ k]) simp
  next
    case False
    with Cons.prems show ?thesis by (auto split: sum.splits)
  qed
qed

section \<open>Rows in tables\<close>

definition update_rows :: "('r \<Rightarrow> bool) \<Rightarrow> ('r \<Rightarrow> 'r) \<Rightarrow> 'r list \<Rightarrow> 'r list" where
  "update_rows p f rows = map (\<lambda>r. if p r then f r else r) rows"

definition insert_row :: "string \<Rightarrow> ('r \<Rightarrow> 'k) \<Rightarrow> 'r \<Rightarrow> 'r list \<Rightarrow> tx_error + 'r list" where
  "insert_row index key row rows =
     (if key row \<in> key ` set rows then Inl (UniqueViolation index) else Inr (rows @ [row]))"

lemma insert_row_Inr:
  "insert_row index key row rows = Inr rows' \<longleftrightarrow> key row \<notin> key ` set rows \<and> rows' = rows @ [row]"
  by (auto simp: insert_row_def)

lemma insert_row_distinct:
  "insert_row index key row rows = Inr rows' \<Longrightarrow> distinct (map key rows) \<Longrightarrow> distinct (map key rows')"
  by (auto simp: insert_row_Inr)

lemma length_update_rows [simp]: "length (update_rows p f rows) = length rows"
  by (simp add: update_rows_def)

lemma map_update_rows:
  "(\<And>r. p r \<Longrightarrow> key (f r) = key r) \<Longrightarrow> map key (update_rows p f rows) = map key rows"
  by (simp add: update_rows_def)

lemma filter_update_rows:
  "(\<And>r. p r \<Longrightarrow> q (f r) = q r) \<Longrightarrow> (\<And>r. q r \<Longrightarrow> \<not> p r) \<Longrightarrow>
     filter q (update_rows p f rows) = filter q rows"
  by (induction rows) (auto simp: update_rows_def)

lemma find_update_rows:
  "(\<And>r. p r \<Longrightarrow> q (f r) = q r) \<Longrightarrow>
     List.find q (update_rows p f rows) =
       map_option (\<lambda>r. if p r then f r else r) (List.find q rows)"
  by (induction rows) (auto simp: update_rows_def)

lemma find_append: "List.find q (xs @ ys) = (case List.find q xs of Some x \<Rightarrow> Some x | None \<Rightarrow> List.find q ys)"
  by (induction xs) auto

lemma find_key_unique:
  "distinct (map key rows) \<Longrightarrow> r \<in> set rows \<Longrightarrow> List.find (\<lambda>x. key x = key r) rows = Some r"
proof (induction rows)
  case (Cons x xs)
  show ?case
  proof (cases "x = r")
    case False
    with Cons.prems have "r \<in> set xs" by simp
    moreover from this Cons.prems(1) have "key x \<noteq> key r" by force
    ultimately show ?thesis using Cons by simp
  qed simp
qed simp

section \<open>Invoices and their events\<close>

definition invoice_key :: "invoice_row \<Rightarrow> string \<times> string" where
  "invoice_key r = (in_tenant r, in_id r)"

definition find_invoice :: "string \<Rightarrow> string \<Rightarrow> db \<Rightarrow> invoice_row option" where
  "find_invoice tenant invoice db = List.find (\<lambda>r. invoice_key r = (tenant, invoice)) (db_invoices db)"

text \<open>
  \<open>_lock_invoice_and_advance\<close>: the first new sequence number, the counters advanced.
\<close>

definition lock_invoice_and_advance ::
  "string \<Rightarrow> string \<Rightarrow> string \<Rightarrow> string \<Rightarrow> string \<Rightarrow> nat \<Rightarrow> int \<Rightarrow> nat option \<Rightarrow> nat tx"
where
  "lock_invoice_and_advance tenant invoice intake aggregate status increment now claim_set db =
     (case find_invoice tenant invoice db of
        None \<Rightarrow> Inl (Raised ''INVOICE_NOT_FOUND'')
      | Some row \<Rightarrow>
          Inr (in_sequence row + 1,
            db\<lparr>db_invoices := update_rows (\<lambda>r. invoice_key r = (tenant, invoice))
              (\<lambda>r. r\<lparr>in_intake_state := intake, in_aggregate := aggregate, in_status := status,
                 in_sequence := in_sequence r + increment, in_row_version := in_row_version r + 1,
                 in_claim_set := (case claim_set of None \<Rightarrow> in_claim_set r | Some v \<Rightarrow> Some v),
                 in_updated := now\<rparr>) (db_invoices db)\<rparr>))"

definition event_key :: "event_row \<Rightarrow> string \<times> string \<times> nat" where
  "event_key e = (lg_tenant e, lg_invoice e, lg_sequence e)"

text \<open>\<open>_insert_event\<close>: the event, under its unique sequence number, and its outbox row.\<close>

definition insert_event :: "event_row \<Rightarrow> unit tx" where
  "insert_event e db =
     rbind (insert_row ''invoice_events_sequence_idx'' event_key e (db_events db)) (\<lambda>events.
       Inr ((), db\<lparr>db_events := events,
         db_outbox := db_outbox db @
           [\<lparr>ob_tenant = lg_tenant e, ob_invoice = lg_invoice e, ob_event = lg_id e,
             ob_state = ''PENDING'', ob_available = lg_occurred e,
             ob_count = 0, ob_delivered = None\<rparr>]\<rparr>))"

text \<open>The event sequence of an invoice, in the order of insertion.\<close>

definition event_sequence :: "event_row list \<Rightarrow> string \<times> string \<Rightarrow> nat list" where
  "event_sequence events k = map lg_sequence (filter (\<lambda>e. (lg_tenant e, lg_invoice e) = k) events)"

text \<open>
  The invariant of the log: invoices are unique, every event belongs to one of them (a foreign
  key of the schema), and the events of each are numbered \<open>1, 2, \<dots>\<close> up to its counter, in this
  order and without a gap.
\<close>

definition events_dense :: "db \<Rightarrow> bool" where
  "events_dense db =
     (distinct (map invoice_key (db_invoices db))
      \<and> (\<forall>e \<in> set (db_events db). (lg_tenant e, lg_invoice e) \<in> invoice_key ` set (db_invoices db))
      \<and> (\<forall>r \<in> set (db_invoices db).
           event_sequence (db_events db) (invoice_key r) = [1..<Suc (in_sequence r)]))"

lemma find_invoice_Some:
  "find_invoice t i db = Some r \<Longrightarrow> r \<in> set (db_invoices db) \<and> invoice_key r = (t, i)"
  by (auto simp: find_invoice_def dest: find_SomeD)

lemma lock_Inr:
  "lock_invoice_and_advance t i st ag su k now cs db = Inr (s, db') \<longleftrightarrow>
     (\<exists>r. find_invoice t i db = Some r \<and> s = in_sequence r + 1
       \<and> db' = db\<lparr>db_invoices := update_rows (\<lambda>r. invoice_key r = (t, i))
              (\<lambda>r. r\<lparr>in_intake_state := st, in_aggregate := ag, in_status := su,
                 in_sequence := in_sequence r + k, in_row_version := in_row_version r + 1,
                 in_claim_set := (case cs of None \<Rightarrow> in_claim_set r | Some v \<Rightarrow> Some v),
                 in_updated := now\<rparr>) (db_invoices db)\<rparr>)"
  by (auto simp: lock_invoice_and_advance_def split: option.splits)

lemma insert_event_Inr:
  "insert_event e db = Inr (u, db') \<longleftrightarrow>
     event_key e \<notin> event_key ` set (db_events db)
     \<and> db' = db\<lparr>db_events := db_events db @ [e], db_outbox := db_outbox db @
           [\<lparr>ob_tenant = lg_tenant e, ob_invoice = lg_invoice e, ob_event = lg_id e,
             ob_state = ''PENDING'', ob_available = lg_occurred e,
             ob_count = 0, ob_delivered = None\<rparr>]\<rparr>"
  by (auto simp: insert_event_def rbind_Inr_iff insert_row_Inr)

text \<open>Advancing by the number of events then inserted, in order, keeps the invariant.\<close>

lemma dense_advance:
  assumes "events_dense db" "lock_invoice_and_advance t i st ag su (length es) now cs db = Inr (s, db1)"
    and "\<forall>e \<in> set es. (lg_tenant e, lg_invoice e) = (t, i)"
    and "map lg_sequence es = [s..<s + length es]"
    and "db_invoices db2 = db_invoices db1" "db_events db2 = db_events db @ es"
  shows "events_dense db2"
proof -
  from assms(2) obtain r0 where r0: "find_invoice t i db = Some r0" and s: "s = in_sequence r0 + 1"
    and db1: "db1 = db\<lparr>db_invoices := update_rows (\<lambda>r. invoice_key r = (t, i))
              (\<lambda>r. r\<lparr>in_intake_state := st, in_aggregate := ag, in_status := su,
                 in_sequence := in_sequence r + length es, in_row_version := in_row_version r + 1,
                 in_claim_set := (case cs of None \<Rightarrow> in_claim_set r | Some v \<Rightarrow> Some v),
                 in_updated := now\<rparr>) (db_invoices db)\<rparr>"
    by (auto simp: lock_Inr)
  have key: "map invoice_key (db_invoices db2) = map invoice_key (db_invoices db)"
    unfolding assms(5) db1 by (simp add: map_update_rows invoice_key_def)
  have es: "event_sequence es k = (if k = (t, i) then [s..<s + length es] else [])" for k
    using assms(3,4) by (auto simp: event_sequence_def filter_empty_conv)
  have split: "event_sequence (db_events db2) k = event_sequence (db_events db) k @ event_sequence es k" for k
    by (simp add: assms(6) event_sequence_def)
  have "event_sequence (db_events db2) (invoice_key r) = [1..<Suc (in_sequence r)]"
    if "r \<in> set (db_invoices db2)" for r
  proof -
    from that obtain q where q: "q \<in> set (db_invoices db)" and r: "invoice_key r = invoice_key q"
      and seq: "in_sequence r = in_sequence q + (if invoice_key q = (t, i) then length es else 0)"
      unfolding assms(5) db1 update_rows_def by (auto simp: invoice_key_def)
    have old: "event_sequence (db_events db) (invoice_key q) = [1..<Suc (in_sequence q)]"
      using assms(1) q by (simp add: events_dense_def)
    show ?thesis
    proof (cases "invoice_key q = (t, i)")
      case True
      have "distinct (map invoice_key (db_invoices db))" using assms(1) by (simp add: events_dense_def)
      from find_key_unique [OF this q] True have "find_invoice t i db = Some q"
        by (simp add: find_invoice_def)
      with r0 have "q = r0" by simp
      with True s have "[1..<Suc (in_sequence q)] @ [s..<s + length es] =
          [1..<Suc (in_sequence q + length es)]"
        using upt_add_eq_append [of 1 s "length es"] by simp
      moreover have "event_sequence (db_events db2) (invoice_key r) =
          [1..<Suc (in_sequence q)] @ [s..<s + length es]"
        unfolding split es r old using True by (simp only: if_True simp_thms)
      moreover have "in_sequence r = in_sequence q + length es" using True seq by simp
      ultimately show ?thesis by simp
    next
      case False
      then show ?thesis by (simp add: split es r seq old)
    qed
  qed
  moreover have "(lg_tenant e, lg_invoice e) \<in> invoice_key ` set (db_invoices db2)"
    if e: "e \<in> set (db_events db2)" for e
  proof -
    have "(t, i) \<in> invoice_key ` set (db_invoices db)"
      using find_invoice_Some [OF r0] by (metis imageI)
    with e assms(1,3,6) have "(lg_tenant e, lg_invoice e) \<in> set (map invoice_key (db_invoices db))"
      by (auto simp: events_dense_def)
    then show ?thesis unfolding key [symmetric] by simp
  qed
  ultimately show ?thesis using assms(1) key by (simp add: events_dense_def)
qed

text \<open>With a dense log the next number is free, so an event is never refused.\<close>

lemma dense_fresh_sequence:
  assumes "events_dense db" "find_invoice t i db = Some r" "in_sequence r < n"
  shows "(t, i, n) \<notin> event_key ` set (db_events db)"
proof
  assume "(t, i, n) \<in> event_key ` set (db_events db)"
  then have "n \<in> set (event_sequence (db_events db) (t, i))"
    by (auto simp: event_key_def event_sequence_def)
  with assms show False
    using find_invoice_Some [OF assms(2)] by (auto simp: events_dense_def)
qed

section \<open>Tenants\<close>

text \<open>What belongs to the other tenants, in every table.\<close>

definition foreign :: "string \<Rightarrow> db \<Rightarrow> db" where
  "foreign t db =
     \<lparr>db_invoices = filter (\<lambda>r. in_tenant r \<noteq> t) (db_invoices db),
      db_sources = filter (\<lambda>r. so_tenant r \<noteq> t) (db_sources db),
      db_tasks = filter (\<lambda>r. tk_tenant r \<noteq> t) (db_tasks db),
      db_attempts = filter (\<lambda>r. at_tenant r \<noteq> t) (db_attempts db),
      db_events = filter (\<lambda>r. lg_tenant r \<noteq> t) (db_events db),
      db_outbox = filter (\<lambda>r. ob_tenant r \<noteq> t) (db_outbox db),
      db_runs = filter (\<lambda>r. xr_tenant r \<noteq> t) (db_runs db),
      db_claim_sets = filter (\<lambda>r. cs_tenant r \<noteq> t) (db_claim_sets db),
      db_claims = filter (\<lambda>r. cl_tenant r \<noteq> t) (db_claims db),
      db_retries = filter (\<lambda>r. rr_tenant r \<noteq> t) (db_retries db),
      db_recs = filter (\<lambda>r. re_tenant r \<noteq> t) (db_recs db),
      db_judgments = filter (\<lambda>r. jr_tenant r \<noteq> t) (db_judgments db),
      db_rules = filter (\<lambda>r. ru_tenant r \<noteq> t) (db_rules db),
      db_recons = filter (\<lambda>r. rn_tenant r \<noteq> t) (db_recons db),
      db_approvals = filter (\<lambda>r. ap_tenant r \<noteq> t) (db_approvals db),
      db_seals = filter (\<lambda>r. sl_tenant r \<noteq> t) (db_seals db),
      db_drafts = filter (\<lambda>r. dr_tenant r \<noteq> t) (db_drafts db),
      db_sends = filter (\<lambda>r. sd_tenant r \<noteq> t) (db_sends db),
      db_gate_runs = filter (\<lambda>r. gn_tenant r \<noteq> t) (db_gate_runs db),
      db_audit = filter (\<lambda>r. au_tenant r \<noteq> t) (db_audit db),
      db_artifacts = filter (\<lambda>r. ar_tenant r \<noteq> t) (db_artifacts db),
      db_event_versions = filter (\<lambda>r. rv_tenant r \<noteq> t) (db_event_versions db),
      db_days = filter (\<lambda>r. dy_tenant r \<noteq> t) (db_days db),
      db_day_events = filter (\<lambda>r. de_tenant r \<noteq> t) (db_day_events db),
      db_coverage = filter (\<lambda>r. cg_tenant r \<noteq> t) (db_coverage db),
      db_memory = filter (\<lambda>r. mm_tenant r \<noteq> t) (db_memory db),
      db_verifications = filter (\<lambda>r. vf_tenant r \<noteq> t) (db_verifications db),
      db_searches = filter (\<lambda>r. rq_tenant r \<noteq> t) (db_searches db),
      db_candidates = filter (\<lambda>r. cw_tenant r \<noteq> t) (db_candidates db),
      db_day_rules = filter (\<lambda>r. dl_tenant r \<noteq> t) (db_day_rules db),
      db_ingestions = filter (\<lambda>r. ig_tenant r \<noteq> t) (db_ingestions db)\<rparr>"

lemma foreign_lock:
  "lock_invoice_and_advance t i st ag su k now cs db = Inr (s, db') \<Longrightarrow> foreign t db' = foreign t db"
  by (auto simp: lock_Inr foreign_def invoice_key_def intro!: filter_update_rows)

lemma foreign_event:
  "insert_event e db = Inr (u, db') \<Longrightarrow> lg_tenant e = t \<Longrightarrow> foreign t db' = foreign t db"
  by (auto simp: insert_event_Inr foreign_def)

end
