(* ===== verification/Tx.thy ===== *)
theory Tx
  imports Db
begin

text \<open>
  How the repositories write a transaction body: statements in sequence, each of which
  reads, checks, inserts under a unique index or updates rows. The interface \<open>tx_frame\<close>
  carries a reflexive and transitive relation between the state found and the state left
  through a whole body; it is interpreted on tenant isolation, on the append-only history
  and on the preservation of an invariant.
\<close>

section \<open>Statements\<close>

definition tx_return :: "'a \<Rightarrow> 'a tx" where
  "tx_return a db = Inr (a, db)"

definition tx_raise :: "tx_error \<Rightarrow> 'a tx" where
  "tx_raise e db = Inl e"

definition tx_bind :: "'a tx \<Rightarrow> ('a \<Rightarrow> 'b tx) \<Rightarrow> 'b tx" where
  "tx_bind m k db = (case m db of Inl e \<Rightarrow> Inl e | Inr (a, db') \<Rightarrow> k a db')"

definition tx_then :: "unit tx \<Rightarrow> 'b tx \<Rightarrow> 'b tx" where
  "tx_then m k = tx_bind m (\<lambda>_. k)"

definition tx_read :: "(db \<Rightarrow> 'a) \<Rightarrow> 'a tx" where
  "tx_read f db = Inr (f db, db)"

definition tx_require :: "bool \<Rightarrow> string \<Rightarrow> unit tx" where
  "tx_require b e db = (if b then Inr ((), db) else Inl (Raised e))"

fun tx_for :: "'b list \<Rightarrow> ('b \<Rightarrow> unit tx) \<Rightarrow> unit tx" where
  "tx_for [] f = tx_return ()"
| "tx_for (x # xs) f = tx_then (f x) (tx_for xs f)"

text \<open>
  A table is given by its selector and its update. \<open>tx_unique\<close> checks an index,
  \<open>tx_insert\<close> checks one and appends, \<open>tx_insert_absent\<close> is \<open>ON CONFLICT DO NOTHING\<close>.
\<close>

definition tx_unique :: "string \<Rightarrow> (db \<Rightarrow> 'r list) \<Rightarrow> ('r \<Rightarrow> 'k) \<Rightarrow> 'r \<Rightarrow> unit tx" where
  "tx_unique index get key row db =
     (if key row \<in> key ` set (get db) then Inl (UniqueViolation index) else Inr ((), db))"

definition tx_append :: "(('r list \<Rightarrow> 'r list) \<Rightarrow> db \<Rightarrow> db) \<Rightarrow> 'r \<Rightarrow> unit tx" where
  "tx_append upd row db = Inr ((), upd (\<lambda>rows. rows @ [row]) db)"

definition tx_insert ::
  "string \<Rightarrow> (db \<Rightarrow> 'r list) \<Rightarrow> (('r list \<Rightarrow> 'r list) \<Rightarrow> db \<Rightarrow> db) \<Rightarrow> ('r \<Rightarrow> 'k) \<Rightarrow> 'r \<Rightarrow> unit tx"
where
  "tx_insert index get upd key row = tx_then (tx_unique index get key row) (tx_append upd row)"

definition tx_insert_absent ::
  "(db \<Rightarrow> 'r list) \<Rightarrow> (('r list \<Rightarrow> 'r list) \<Rightarrow> db \<Rightarrow> db) \<Rightarrow> ('r \<Rightarrow> 'k) \<Rightarrow> 'r \<Rightarrow> unit tx"
where
  "tx_insert_absent get upd key row db =
     Inr ((), if key row \<in> key ` set (get db) then db else upd (\<lambda>rows. rows @ [row]) db)"

definition tx_update ::
  "(('r list \<Rightarrow> 'r list) \<Rightarrow> db \<Rightarrow> db) \<Rightarrow> ('r \<Rightarrow> bool) \<Rightarrow> ('r \<Rightarrow> 'r) \<Rightarrow> unit tx" where
  "tx_update upd p f db = Inr ((), upd (update_rows p f) db)"

named_theorems tx_simps "what a statement or a sequence of them returns"

lemma tx_return_Inr [tx_simps]: "tx_return a db = Inr (b, db') \<longleftrightarrow> b = a \<and> db' = db"
  by (auto simp: tx_return_def)

lemma tx_raise_Inr [tx_simps]: "tx_raise e db \<noteq> Inr r"
  by (simp add: tx_raise_def)

lemma tx_bind_Inr [tx_simps]:
  "tx_bind m k db = Inr (b, db'') \<longleftrightarrow> (\<exists>a db'. m db = Inr (a, db') \<and> k a db' = Inr (b, db''))"
  by (auto simp: tx_bind_def split: sum.splits)

lemma tx_then_Inr [tx_simps]:
  "tx_then m k db = Inr (b, db'') \<longleftrightarrow> (\<exists>db'. m db = Inr ((), db') \<and> k db' = Inr (b, db''))"
  by (simp add: tx_then_def tx_bind_Inr)

lemma tx_read_Inr [tx_simps]: "tx_read f db = Inr (a, db') \<longleftrightarrow> a = f db \<and> db' = db"
  by (auto simp: tx_read_def)

lemma tx_require_Inr [tx_simps]: "tx_require b e db = Inr (u, db') \<longleftrightarrow> b \<and> db' = db"
  by (auto simp: tx_require_def)

lemma tx_unique_Inr [tx_simps]:
  "tx_unique index get key row db = Inr (u, db') \<longleftrightarrow> key row \<notin> key ` set (get db) \<and> db' = db"
  by (auto simp: tx_unique_def)

lemma tx_append_Inr [tx_simps]:
  "tx_append upd row db = Inr (u, db') \<longleftrightarrow> db' = upd (\<lambda>rows. rows @ [row]) db"
  by (auto simp: tx_append_def)

lemma tx_insert_Inr [tx_simps]:
  "tx_insert index get upd key row db = Inr (u, db') \<longleftrightarrow>
     key row \<notin> key ` set (get db) \<and> db' = upd (\<lambda>rows. rows @ [row]) db"
  by (simp add: tx_insert_def tx_then_Inr tx_unique_Inr tx_append_Inr)

lemma tx_insert_absent_Inr [tx_simps]:
  "tx_insert_absent get upd key row db = Inr (u, db') \<longleftrightarrow>
     db' = (if key row \<in> key ` set (get db) then db else upd (\<lambda>rows. rows @ [row]) db)"
  by (auto simp: tx_insert_absent_def)

lemma tx_update_Inr [tx_simps]:
  "tx_update upd p f db = Inr (u, db') \<longleftrightarrow> db' = upd (update_rows p f) db"
  by (auto simp: tx_update_def)

text \<open>Statements unfolded, to run a body on a concrete state.\<close>

lemmas tx_run = tx_return_def tx_raise_def tx_bind_def tx_then_def tx_read_def tx_require_def
  tx_unique_def tx_append_def tx_insert_def tx_insert_absent_def tx_update_def

section \<open>Relations kept by a body\<close>

definition keeps :: "(db \<Rightarrow> db \<Rightarrow> bool) \<Rightarrow> 'a tx \<Rightarrow> bool" where
  "keeps R m = (\<forall>db a db'. m db = Inr (a, db') \<longrightarrow> R db db')"

named_theorems frame_intros "how a relation is carried through a body"

locale tx_frame =
  fixes R :: "db \<Rightarrow> db \<Rightarrow> bool"
  assumes frame_refl: "R db db"
    and frame_trans: "R db db' \<Longrightarrow> R db' db'' \<Longrightarrow> R db db''"
begin

lemma keepsD: "keeps R m \<Longrightarrow> m db = Inr (a, db') \<Longrightarrow> R db db'"
  by (auto simp: keeps_def)

lemma keeps_return: "keeps R (tx_return a)"
  by (simp add: keeps_def tx_simps frame_refl)

lemma keeps_raise: "keeps R (tx_raise e)"
  by (simp add: keeps_def tx_simps)

lemma keeps_read: "keeps R (tx_read f)"
  by (simp add: keeps_def tx_simps frame_refl)

lemma keeps_require: "keeps R (tx_require b e)"
  by (simp add: keeps_def tx_simps frame_refl)

lemma keeps_unique: "keeps R (tx_unique index get key row)"
  by (simp add: keeps_def tx_simps frame_refl)

lemma keeps_bind: "keeps R m \<Longrightarrow> (\<And>a. keeps R (k a)) \<Longrightarrow> keeps R (tx_bind m k)"
  using frame_trans unfolding keeps_def tx_bind_Inr by blast

lemma keeps_then: "keeps R m \<Longrightarrow> keeps R k \<Longrightarrow> keeps R (tx_then m k)"
  unfolding tx_then_def by (rule keeps_bind)

lemma keeps_for: "(\<And>x. x \<in> set xs \<Longrightarrow> keeps R (f x)) \<Longrightarrow> keeps R (tx_for xs f)"
  by (induction xs) (auto intro: keeps_return keeps_then)

lemma keeps_insert: "keeps R (tx_append upd row) \<Longrightarrow> keeps R (tx_insert index get upd key row)"
  unfolding tx_insert_def by (rule keeps_then [OF keeps_unique])

lemma keeps_insert_absent:
  "keeps R (tx_append upd row) \<Longrightarrow> keeps R (tx_insert_absent get upd key row)"
  by (auto simp: keeps_def tx_simps frame_refl)

lemma keeps_if: "keeps R m \<Longrightarrow> keeps R k \<Longrightarrow> keeps R (if b then m else k)"
  by simp

lemma keeps_option:
  "keeps R m \<Longrightarrow> (\<And>a. keeps R (k a)) \<Longrightarrow> keeps R (case x of None \<Rightarrow> m | Some a \<Rightarrow> k a)"
  by (cases x) auto

lemma keeps_list:
  "keeps R m \<Longrightarrow> (\<And>x xs. keeps R (k x xs)) \<Longrightarrow>
     keeps R (case ys of [] \<Rightarrow> m | x # xs \<Rightarrow> k x xs)"
  by (cases ys) auto

lemma keeps_sum:
  "(\<And>e. keeps R (m e)) \<Longrightarrow> (\<And>a. keeps R (k a)) \<Longrightarrow>
     keeps R (case x of Inl e \<Rightarrow> m e | Inr a \<Rightarrow> k a)"
  by (cases x) auto

lemma keeps_retry:
  "(\<And>n. keeps R (body n)) \<Longrightarrow> run_with_retry m rs n body db = (res, db') \<Longrightarrow> R db db'"
proof (cases res)
  case (Inl e)
  then show "run_with_retry m rs n body db = (res, db') \<Longrightarrow> R db db'"
    using run_with_retry_Inl frame_refl by metis
next
  case (Inr a)
  assume k: "\<And>n. keeps R (body n)" and r: "run_with_retry m rs n body db = (res, db')"
  from run_with_retry_Inr [OF r [unfolded Inr]] obtain j where "body j db = Inr (a, db')" by blast
  with k show "R db db'" by (rule keepsD)
qed

lemmas keeps_intros = keeps_return keeps_raise keeps_read keeps_require keeps_unique keeps_bind
  keeps_then keeps_for keeps_insert keeps_insert_absent keeps_if keeps_option keeps_list keeps_sum

end

section \<open>Tenant isolation\<close>

definition isolated :: "string \<Rightarrow> db \<Rightarrow> db \<Rightarrow> bool" where
  "isolated t db db' = (foreign t db' = foreign t db)"

interpretation tenant: tx_frame "isolated t" for t
  by unfold_locales (simp_all add: isolated_def)

section \<open>Append-only history\<close>

text \<open>What a transaction may only append to: the log, its outbox, and every immutable version: claim
  sets, reconstructions, rules, recommendations, judgments, seals.\<close>

definition appended :: "db \<Rightarrow> db \<Rightarrow> bool" where
  "appended db db' =
     (prefix (db_events db) (db_events db') \<and> prefix (db_outbox db) (db_outbox db')
      \<and> prefix (db_runs db) (db_runs db') \<and> prefix (db_claim_sets db) (db_claim_sets db')
      \<and> prefix (db_claims db) (db_claims db') \<and> prefix (db_seals db) (db_seals db')
      \<and> prefix (db_audit db) (db_audit db') \<and> prefix (db_gate_runs db) (db_gate_runs db')
      \<and> prefix (db_event_versions db) (db_event_versions db') \<and> prefix (db_day_events db) (db_day_events db')
      \<and> prefix (db_coverage db) (db_coverage db') \<and> prefix (db_verifications db) (db_verifications db')
      \<and> prefix (db_searches db) (db_searches db') \<and> prefix (db_candidates db) (db_candidates db')
      \<and> prefix (db_recons db) (db_recons db') \<and> prefix (db_recs db) (db_recs db')
      \<and> prefix (db_judgments db) (db_judgments db') \<and> prefix (db_rules db) (db_rules db'))"

interpretation history: tx_frame appended
  by unfold_locales (auto simp: appended_def intro: prefix_order.trans)

section \<open>Invariants\<close>

definition maintains :: "(db \<Rightarrow> bool) \<Rightarrow> db \<Rightarrow> db \<Rightarrow> bool" where
  "maintains I db db' = (I db \<longrightarrow> I db')"

interpretation inv_frame: tx_frame "maintains I" for I
  by unfold_locales (auto simp: maintains_def)

section \<open>The invoice and its log, as statements\<close>

lemma tenant_lock: "keeps (isolated t) (lock_invoice_and_advance t i st ag su k now cs)"
  by (auto simp: keeps_def isolated_def intro: foreign_lock)

lemma tenant_event: "lg_tenant e = t \<Longrightarrow> keeps (isolated t) (insert_event e)"
  by (auto simp: keeps_def isolated_def intro: foreign_event)

lemma history_lock: "keeps appended (lock_invoice_and_advance t i st ag su k now cs)"
  by (auto simp: keeps_def lock_Inr appended_def)

lemma history_event: "keeps appended (insert_event e)"
  by (auto simp: keeps_def insert_event_Inr appended_def)

text \<open>The invoice moves its counter by as many events as are then inserted.\<close>

lemma dense_one:
  assumes "\<And>s. (lg_tenant (e s), lg_invoice (e s), lg_sequence (e s)) = (t, i, s)"
  shows "keeps (maintains events_dense)
    (tx_bind (lock_invoice_and_advance t i st ag su 1 now cs) (\<lambda>s. insert_event (e s)))"
proof -
  have "events_dense db2"
    if "events_dense db" "lock_invoice_and_advance t i st ag su 1 now cs db = Inr (s, db1)"
      "insert_event (e s) db1 = Inr (u, db2)" for db s db1 u db2
  proof -
    from that(3) have "db_invoices db2 = db_invoices db1" "db_events db2 = db_events db1 @ [e s]"
      by (auto simp: insert_event_Inr)
    moreover from that(2) have "db_events db1 = db_events db" by (auto simp: lock_Inr)
    ultimately show ?thesis
      using dense_advance [of db t i st ag su "[e s]" now cs s db1 db2] that(1,2) assms [of s]
      by simp
  qed
  then show ?thesis by (auto simp: keeps_def maintains_def tx_bind_Inr)
qed

lemma dense_two:
  assumes "\<And>s. (lg_tenant (e s), lg_invoice (e s), lg_sequence (e s)) = (t, i, s)"
    and "\<And>s. (lg_tenant (f s), lg_invoice (f s), lg_sequence (f s)) = (t, i, s + 1)"
  shows "keeps (maintains events_dense)
    (tx_bind (lock_invoice_and_advance t i st ag su 2 now cs)
      (\<lambda>s. tx_then (insert_event (e s)) (insert_event (f s))))"
proof -
  have "events_dense db3"
    if "events_dense db" "lock_invoice_and_advance t i st ag su 2 now cs db = Inr (s, db1)"
      "insert_event (e s) db1 = Inr (u, db2)" "insert_event (f s) db2 = Inr (v, db3)"
    for db s db1 u db2 v db3
  proof -
    from that(3,4) have "db_invoices db3 = db_invoices db1"
      "db_events db3 = db_events db1 @ [e s, f s]" by (auto simp: insert_event_Inr)
    moreover from that(2) have "db_events db1 = db_events db" by (auto simp: lock_Inr)
    moreover have "map lg_sequence [e s, f s] = [s..<s + 2]"
      using assms(1) [of s] assms(2) [of s] by (simp add: numeral_2_eq_2)
    ultimately show ?thesis
      using dense_advance [of db t i st ag su "[e s, f s]" now cs s db1 db3] that(1,2)
        assms(1) [of s] assms(2) [of s]
      by (simp add: numeral_2_eq_2)
  qed
  then show ?thesis by (auto simp: keeps_def maintains_def tx_bind_Inr tx_then_Inr)
qed

section \<open>Safe statements\<close>

text \<open>
  The three together: the other tenants' rows stay as they are, the history only grows,
  and the log stays dense. A body is safe when its statements are.
\<close>

definition safe :: "string \<Rightarrow> db \<Rightarrow> db \<Rightarrow> bool" where
  "safe t db db' = (isolated t db db' \<and> appended db db' \<and> maintains events_dense db db')"

interpretation safe: tx_frame "safe t" for t
  by unfold_locales
    (use tenant.frame_refl history.frame_refl inv_frame.frame_refl tenant.frame_trans
      history.frame_trans inv_frame.frame_trans in \<open>unfold safe_def, blast+\<close>)

lemma keeps_safe:
  "keeps (safe t) m \<longleftrightarrow>
     keeps (isolated t) m \<and> keeps appended m \<and> keeps (maintains events_dense) m"
  by (auto simp: keeps_def safe_def)

lemma safe_update:
  "(\<And>r. p0 r \<Longrightarrow> tk_tenant r = t) \<Longrightarrow> (\<And>r. p0 r \<Longrightarrow> tk_tenant (f0 r) = t) \<Longrightarrow>
     keeps (safe t) (tx_update db_tasks_update p0 f0)"
  "(\<And>r. p1 r \<Longrightarrow> at_tenant r = t) \<Longrightarrow> (\<And>r. p1 r \<Longrightarrow> at_tenant (f1 r) = t) \<Longrightarrow>
     keeps (safe t) (tx_update db_attempts_update p1 f1)"
  "(\<And>r. p2 r \<Longrightarrow> rr_tenant r = t) \<Longrightarrow> (\<And>r. p2 r \<Longrightarrow> rr_tenant (f2 r) = t) \<Longrightarrow>
     keeps (safe t) (tx_update db_retries_update p2 f2)"
  "(\<And>r. p3 r \<Longrightarrow> ap_tenant r = t) \<Longrightarrow> (\<And>r. p3 r \<Longrightarrow> ap_tenant (f3 r) = t) \<Longrightarrow>
     keeps (safe t) (tx_update db_approvals_update p3 f3)"
  "(\<And>r. p4 r \<Longrightarrow> dr_tenant r = t) \<Longrightarrow> (\<And>r. p4 r \<Longrightarrow> dr_tenant (f4 r) = t) \<Longrightarrow>
     keeps (safe t) (tx_update db_drafts_update p4 f4)"
  "(\<And>r. p5 r \<Longrightarrow> sd_tenant r = t) \<Longrightarrow> (\<And>r. p5 r \<Longrightarrow> sd_tenant (f5 r) = t) \<Longrightarrow>
     keeps (safe t) (tx_update db_sends_update p5 f5)"
  "(\<And>r. p6 r \<Longrightarrow> dy_tenant r = t) \<Longrightarrow> (\<And>r. p6 r \<Longrightarrow> dy_tenant (f6 r) = t) \<Longrightarrow>
     keeps (safe t) (tx_update db_days_update p6 f6)"
  "(\<And>r. p7 r \<Longrightarrow> mm_tenant r = t) \<Longrightarrow> (\<And>r. p7 r \<Longrightarrow> mm_tenant (f7 r) = t) \<Longrightarrow>
     keeps (safe t) (tx_update db_memory_update p7 f7)"
  "(\<And>r. p8 r \<Longrightarrow> ig_tenant r = t) \<Longrightarrow> (\<And>r. p8 r \<Longrightarrow> ig_tenant (f8 r) = t) \<Longrightarrow>
     keeps (safe t) (tx_update db_ingestions_update p8 f8)"
  by (auto simp: safe_def isolated_def keeps_def foreign_def tx_update_Inr appended_def
      maintains_def events_dense_def intro!: filter_update_rows)

lemma safe_append:
  "tk_tenant r0 = t \<Longrightarrow> keeps (safe t) (tx_append db_tasks_update r0)"
  "at_tenant r1 = t \<Longrightarrow> keeps (safe t) (tx_append db_attempts_update r1)"
  "rr_tenant r2 = t \<Longrightarrow> keeps (safe t) (tx_append db_retries_update r2)"
  "ap_tenant r3 = t \<Longrightarrow> keeps (safe t) (tx_append db_approvals_update r3)"
  "dr_tenant r4 = t \<Longrightarrow> keeps (safe t) (tx_append db_drafts_update r4)"
  "sd_tenant r5 = t \<Longrightarrow> keeps (safe t) (tx_append db_sends_update r5)"
  "re_tenant r6 = t \<Longrightarrow> keeps (safe t) (tx_append db_recs_update r6)"
  "rn_tenant r7 = t \<Longrightarrow> keeps (safe t) (tx_append db_recons_update r7)"
  "ru_tenant r8 = t \<Longrightarrow> keeps (safe t) (tx_append db_rules_update r8)"
  "jr_tenant r9 = t \<Longrightarrow> keeps (safe t) (tx_append db_judgments_update r9)"
  "xr_tenant r10 = t \<Longrightarrow> keeps (safe t) (tx_append db_runs_update r10)"
  "cs_tenant r11 = t \<Longrightarrow> keeps (safe t) (tx_append db_claim_sets_update r11)"
  "cl_tenant r12 = t \<Longrightarrow> keeps (safe t) (tx_append db_claims_update r12)"
  "sl_tenant r13 = t \<Longrightarrow> keeps (safe t) (tx_append db_seals_update r13)"
  "gn_tenant r14 = t \<Longrightarrow> keeps (safe t) (tx_append db_gate_runs_update r14)"
  "au_tenant r15 = t \<Longrightarrow> keeps (safe t) (tx_append db_audit_update r15)"
  "rv_tenant r16 = t \<Longrightarrow> keeps (safe t) (tx_append db_event_versions_update r16)"
  "dy_tenant r17 = t \<Longrightarrow> keeps (safe t) (tx_append db_days_update r17)"
  "de_tenant r18 = t \<Longrightarrow> keeps (safe t) (tx_append db_day_events_update r18)"
  "cg_tenant r19 = t \<Longrightarrow> keeps (safe t) (tx_append db_coverage_update r19)"
  "vf_tenant r20 = t \<Longrightarrow> keeps (safe t) (tx_append db_verifications_update r20)"
  "rq_tenant r21 = t \<Longrightarrow> keeps (safe t) (tx_append db_searches_update r21)"
  "cw_tenant r22 = t \<Longrightarrow> keeps (safe t) (tx_append db_candidates_update r22)"
  "dl_tenant r23 = t \<Longrightarrow> keeps (safe t) (tx_append db_day_rules_update r23)"
  "ig_tenant r24 = t \<Longrightarrow> keeps (safe t) (tx_append db_ingestions_update r24)"
  "so_tenant r25 = t \<Longrightarrow> keeps (safe t) (tx_append db_sources_update r25)"
  by (auto simp: safe_def isolated_def keeps_def foreign_def tx_append_Inr appended_def
      maintains_def events_dense_def)

lemma safe_one:
  assumes "\<And>s. (lg_tenant (e s), lg_invoice (e s), lg_sequence (e s)) = (t, i, s)"
  shows "keeps (safe t)
    (tx_bind (lock_invoice_and_advance t i st ag su 1 now cs) (\<lambda>s. insert_event (e s)))"
  unfolding keeps_safe using assms
  by (intro conjI tenant.keeps_bind history.keeps_bind dense_one tenant_lock history_lock
      tenant_event history_event) auto

lemma safe_two:
  assumes "\<And>s. (lg_tenant (e s), lg_invoice (e s), lg_sequence (e s)) = (t, i, s)"
    and "\<And>s. (lg_tenant (f s), lg_invoice (f s), lg_sequence (f s)) = (t, i, s + 1)"
  shows "keeps (safe t)
    (tx_bind (lock_invoice_and_advance t i st ag su 2 now cs)
      (\<lambda>s. tx_then (insert_event (e s)) (insert_event (f s))))"
  unfolding keeps_safe using assms
  by (intro conjI tenant.keeps_bind history.keeps_bind tenant.keeps_then history.keeps_then
      dense_two tenant_lock history_lock tenant_event history_event) auto

lemmas safe_intros = safe_two safe_one safe_update safe_append safe.keeps_intros

text \<open>What the invoice is after its counter moved.\<close>

lemma lock_invoice:
  assumes "lock_invoice_and_advance t i st ag su n now cs db = Inr (s, db')"
  shows "\<exists>r. find_invoice t i db = Some r \<and> s = in_sequence r + 1
    \<and> find_invoice t i db' = Some (r\<lparr>in_intake_state := st, in_aggregate := ag, in_status := su,
         in_sequence := in_sequence r + n, in_row_version := in_row_version r + 1,
         in_claim_set := (case cs of None \<Rightarrow> in_claim_set r | Some v \<Rightarrow> Some v), in_updated := now\<rparr>)"
proof -
  from assms obtain r where r: "find_invoice t i db = Some r" "s = in_sequence r + 1"
    and db': "db' = db\<lparr>db_invoices := update_rows (\<lambda>r. invoice_key r = (t, i))
              (\<lambda>r. r\<lparr>in_intake_state := st, in_aggregate := ag, in_status := su,
                 in_sequence := in_sequence r + n, in_row_version := in_row_version r + 1,
                 in_claim_set := (case cs of None \<Rightarrow> in_claim_set r | Some v \<Rightarrow> Some v),
                 in_updated := now\<rparr>) (db_invoices db)\<rparr>" unfolding lock_Inr by blast
  have "invoice_key r = (t, i)" using find_invoice_Some [OF r(1)] by simp
  then have "find_invoice t i db' = Some (r\<lparr>in_intake_state := st, in_aggregate := ag, in_status := su,
         in_sequence := in_sequence r + n, in_row_version := in_row_version r + 1,
         in_claim_set := (case cs of None \<Rightarrow> in_claim_set r | Some v \<Rightarrow> Some v), in_updated := now\<rparr>)"
    using r(1) unfolding find_invoice_def db' by (simp add: find_update_rows invoice_key_def)
  with r show ?thesis by blast
qed

end
