(* ===== verification/Lease.thy ===== *)
theory Lease
  imports Prelude
begin

text \<open>
  The contract of a fenced lease: every claim of a task raises its attempt counter by one,
  and only the lease with the current attempt of a running task may settle it. The client
  lemmas say what follows for whole histories; the task repositories interpret it.
\<close>

datatype 'l lease_action = Claimed 'l | Settled 'l | Quiet

inductive lease_run ::
  "('s \<Rightarrow> 'l \<Rightarrow> 's \<Rightarrow> bool) \<Rightarrow> ('s \<Rightarrow> 'l \<Rightarrow> 's \<Rightarrow> bool) \<Rightarrow> ('s \<Rightarrow> 's \<Rightarrow> bool) \<Rightarrow>
     's \<Rightarrow> 'l lease_action list \<Rightarrow> 's \<Rightarrow> bool"
  for claims settles quiet
where
  run_end: "lease_run claims settles quiet s [] s"
| run_claim: "claims s l s1 \<Longrightarrow> lease_run claims settles quiet s1 tr s' \<Longrightarrow>
     lease_run claims settles quiet s (Claimed l # tr) s'"
| run_settle: "settles s l s1 \<Longrightarrow> lease_run claims settles quiet s1 tr s' \<Longrightarrow>
     lease_run claims settles quiet s (Settled l # tr) s'"
| run_quiet: "quiet s s1 \<Longrightarrow> lease_run claims settles quiet s1 tr s' \<Longrightarrow>
     lease_run claims settles quiet s (Quiet # tr) s'"

inductive_cases lease_run_NilE: "lease_run claims settles quiet s [] s'"
inductive_cases lease_run_ClaimedE: "lease_run claims settles quiet s (Claimed l # tr) s'"
inductive_cases lease_run_SettledE: "lease_run claims settles quiet s (Settled l # tr) s'"
inductive_cases lease_run_QuietE: "lease_run claims settles quiet s (Quiet # tr) s'"

fun claimed :: "'l lease_action list \<Rightarrow> 'l list" where
  "claimed [] = []"
| "claimed (Claimed l # tr) = l # claimed tr"
| "claimed (a # tr) = claimed tr"

fun settled :: "'l lease_action list \<Rightarrow> 'l list" where
  "settled [] = []"
| "settled (Settled l # tr) = l # settled tr"
| "settled (a # tr) = settled tr"

lemma in_claimed: "l \<in> set (claimed tr) \<longleftrightarrow> Claimed l \<in> set tr"
  by (induction tr rule: claimed.induct) auto

lemma in_settled: "l \<in> set (settled tr) \<longleftrightarrow> Settled l \<in> set tr"
  by (induction tr rule: settled.induct) auto

lemma lease_run_append:
  "lease_run c s q x (tr @ tr') z \<Longrightarrow> \<exists>y. lease_run c s q x tr y \<and> lease_run c s q y tr' z"
proof (induction tr arbitrary: x)
  case Nil
  then show ?case by (auto intro: run_end)
next
  case (Cons a tr)
  from Cons.prems have "lease_run c s q x (a # (tr @ tr')) z" by simp
  then show ?case
  proof (cases rule: lease_run.cases)
    case (run_claim l s1)
    with Cons.IH [of s1] show ?thesis by (auto intro: lease_run.run_claim)
  next
    case (run_settle l s1)
    with Cons.IH [of s1] show ?thesis by (auto intro: lease_run.run_settle)
  next
    case (run_quiet s1)
    with Cons.IH [of s1] show ?thesis by (auto intro: lease_run.run_quiet)
  qed
qed

locale fenced_lease =
  fixes good :: "'s \<Rightarrow> bool"
    and current :: "'s \<Rightarrow> 't \<Rightarrow> nat"
    and running :: "'s \<Rightarrow> 't \<Rightarrow> bool"
    and claims :: "'s \<Rightarrow> 'l \<Rightarrow> 's \<Rightarrow> bool"
    and settles :: "'s \<Rightarrow> 'l \<Rightarrow> 's \<Rightarrow> bool"
    and quiet :: "'s \<Rightarrow> 's \<Rightarrow> bool"
    and task :: "'l \<Rightarrow> 't"
    and attempt :: "'l \<Rightarrow> nat"
  assumes claim_law: "good s \<Longrightarrow> claims s l s' \<Longrightarrow>
      good s' \<and> attempt l = Suc (current s (task l))
      \<and> current s' = (current s)(task l := attempt l) \<and> running s' = (running s)(task l := True)"
    and settle_law: "good s \<Longrightarrow> settles s l s' \<Longrightarrow>
      good s' \<and> running s (task l) \<and> attempt l = current s (task l)
      \<and> current s' = current s \<and> running s' = (running s)(task l := False)"
    and quiet_law: "good s \<Longrightarrow> quiet s s' \<Longrightarrow>
      good s' \<and> current s' = current s \<and> running s' = running s"
begin

lemma run_good: "lease_run claims settles quiet s tr s' \<Longrightarrow> good s \<Longrightarrow> good s'"
  by (induction rule: lease_run.induct) (blast dest: claim_law settle_law quiet_law)+

lemma later_claim_is_newer:
  "lease_run claims settles quiet s tr s' \<Longrightarrow> good s \<Longrightarrow> Claimed l \<in> set tr \<Longrightarrow>
     current s (task l) < attempt l"
proof (induction arbitrary: l rule: lease_run.induct)
  case (run_claim s k s1 tr s')
  from claim_law [OF run_claim.prems(1) run_claim.hyps(1)] run_claim.IH [of l] run_claim.prems(2)
  show ?case by (auto split: if_splits)
next
  case (run_settle s k s1 tr s')
  from settle_law [OF run_settle.prems(1) run_settle.hyps(1)] run_settle.IH [of l] run_settle.prems(2)
  show ?case by auto
next
  case (run_quiet s s1 tr s')
  from quiet_law [OF run_quiet.prems(1) run_quiet.hyps(1)] run_quiet.IH [of l] run_quiet.prems(2)
  show ?case by auto
qed simp

lemma later_settlement_is_current:
  "lease_run claims settles quiet s tr s' \<Longrightarrow> good s \<Longrightarrow> Settled l \<in> set tr \<Longrightarrow>
     current s (task l) < attempt l \<or> current s (task l) = attempt l \<and> running s (task l)"
proof (induction arbitrary: l rule: lease_run.induct)
  case (run_claim s k s1 tr s')
  from claim_law [OF run_claim.prems(1) run_claim.hyps(1)] run_claim.IH [of l] run_claim.prems(2)
  show ?case by (auto split: if_splits)
next
  case (run_settle s k s1 tr s')
  from settle_law [OF run_settle.prems(1) run_settle.hyps(1)] run_settle.IH [of l] run_settle.prems(2)
  show ?case by (auto split: if_splits)
next
  case (run_quiet s s1 tr s')
  from quiet_law [OF run_quiet.prems(1) run_quiet.hyps(1)] run_quiet.IH [of l] run_quiet.prems(2)
  show ?case by auto
qed simp

text \<open>A lease that a newer claim has overtaken settles nothing any more.\<close>

lemma overtaken_lease_is_fenced:
  assumes "lease_run claims settles quiet s (pre @ Claimed new # post) s'" "good s"
    and "task old = task new" "attempt old < attempt new"
  shows "Settled old \<notin> set post"
proof
  assume late: "Settled old \<in> set post"
  from lease_run_append [OF assms(1)] obtain s1 where
    s1: "lease_run claims settles quiet s pre s1"
    and r: "lease_run claims settles quiet s1 (Claimed new # post) s'" by blast
  from r obtain s2 where c: "claims s1 new s2" and p: "lease_run claims settles quiet s2 post s'"
    by (rule lease_run_ClaimedE)
  have "good s1" using s1 assms(2) by (rule run_good)
  with c have "good s2" "current s2 (task new) = attempt new" by (auto dest: claim_law)
  with later_settlement_is_current [OF p _ late] assms(3,4) show False by auto
qed

text \<open>No attempt is handed out twice, and none is settled twice.\<close>

lemma attempts_claimed_once:
  "lease_run claims settles quiet s tr s' \<Longrightarrow> good s \<Longrightarrow>
     distinct (map (\<lambda>l. (task l, attempt l)) (claimed tr))"
proof (induction rule: lease_run.induct)
  case (run_claim s k s1 tr s')
  from claim_law [OF run_claim.prems run_claim.hyps(1)]
  have g: "good s1" and c: "current s1 (task k) = attempt k" by auto
  from later_claim_is_newer [OF run_claim.hyps(2) g] c
  have "(task k, attempt k) \<notin> (\<lambda>l. (task l, attempt l)) ` set (claimed tr)"
    by (fastforce simp: in_claimed)
  with run_claim.IH [OF g] show ?case by simp
qed (auto dest: settle_law quiet_law)

lemma attempts_settled_once:
  "lease_run claims settles quiet s tr s' \<Longrightarrow> good s \<Longrightarrow>
     distinct (map (\<lambda>l. (task l, attempt l)) (settled tr))"
proof (induction rule: lease_run.induct)
  case (run_settle s k s1 tr s')
  from settle_law [OF run_settle.prems run_settle.hyps(1)]
  have g: "good s1" and c: "current s1 (task k) = attempt k" "\<not> running s1 (task k)" by auto
  from later_settlement_is_current [OF run_settle.hyps(2) g] c
  have "(task k, attempt k) \<notin> (\<lambda>l. (task l, attempt l)) ` set (settled tr)"
    by (fastforce simp: in_settled)
  with run_settle.IH [OF g] show ?case by simp
qed (auto dest: claim_law quiet_law)

end

end
