(* ===== verification/IntakeTasks.thy ===== *)
theory IntakeTasks
  imports Tx Lease "HOL-Library.Product_Lexorder"
begin

text \<open>
  \<open>src/platform/intake_tasks.py\<close>: workers lease extraction tasks, and settle a lease by
  completing or failing it; an operator may retry a failed one. Each operation is the body
  of one transaction. The tenant, \<open>now()\<close> in microseconds, the identifiers \<open>uuid4()\<close> draws
  and, for \<open>SKIP LOCKED\<close>, the tasks another transaction has locked are parameters.
\<close>

section \<open>Leases\<close>

definition max_automatic_attempts :: nat where
  "max_automatic_attempts = 3"

definition second :: int where
  "second = 1000000"

record extraction_lease =
  le_task :: string
  le_invoice :: string
  le_source :: string
  le_attempt :: nat
  le_worker :: string
  le_expires :: int
  le_cutoff :: int
  le_stored :: stored_source
  le_initiated :: "string option"
  le_actor :: string

record extraction_completion =
  ec_run :: string
  ec_claim_set :: string
  ec_version :: nat
  ec_reconstruction :: "string option"
  ec_status :: string

record retry_result =
  rt_task :: string
  rt_version :: nat
  rt_row_version :: nat
  rt_replay :: bool

definition task_pk :: "task_row \<Rightarrow> string \<times> string" where
  "task_pk w = (tk_tenant w, tk_id w)"

definition task_identity :: "task_row \<Rightarrow> string \<times> string \<times> task_type \<times> nat \<times> string" where
  "task_identity w = (tk_tenant w, tk_invoice w, tk_type w, tk_version w, tk_fingerprint w)"

definition attempt_key :: "attempt_row \<Rightarrow> string \<times> string \<times> nat" where
  "attempt_key a = (at_tenant a, at_task a, at_number a)"

definition object_ref :: "string \<Rightarrow> string \<Rightarrow> nat \<Rightarrow> json" where
  "object_ref ty i v = JObj [(''type'', JStr ty), (''id'', JStr i), (''version'', JInt (int v))]"

text \<open>What every event of these operations has; the rest is filled in where it is written.\<close>

definition intake_event ::
  "string \<Rightarrow> string \<Rightarrow> string \<Rightarrow> nat \<Rightarrow> int \<Rightarrow> string option \<Rightarrow> string \<Rightarrow> event_row" where
  "intake_event tenant i invoice seq now initiated actor =
     \<lparr>lg_tenant = tenant, lg_id = i, lg_invoice = invoice, lg_sequence = seq, lg_type = '''',
      lg_occurred = now, lg_role = ''INTAKE_AGENT'', lg_task = '''', lg_tool = None,
      lg_state = '''', lg_aggregate = '''', lg_summary = '''', lg_initiated = initiated,
      lg_actor = actor, lg_inputs = [], lg_produced = [], lg_output_count = None,
      lg_error = None\<rparr>"

lemma intake_event_key [simp]:
  "lg_tenant (intake_event t i v s n u a) = t"
  "lg_invoice (intake_event t i v s n u a) = v"
  "lg_sequence (intake_event t i v s n u a) = s"
  by (simp_all add: intake_event_def)

section \<open>Claiming\<close>

definition runnable :: "int \<Rightarrow> task_row \<Rightarrow> bool" where
  "runnable now w =
     (tk_state w = TaskPending
      \<or> tk_state w = TaskRetryWait
        \<and> (case tk_not_before w of None \<Rightarrow> True | Some t \<Rightarrow> t \<le> now)
      \<or> (tk_state w = TaskLeased \<or> tk_state w = TaskRunning)
        \<and> (case tk_expires w of None \<Rightarrow> False | Some t \<Rightarrow> t < now))"

text \<open>The rows of the query, in the order of the tables: a task with its PDF source.\<close>

definition extraction_candidates ::
  "string \<Rightarrow> int \<Rightarrow> (string \<Rightarrow> bool) \<Rightarrow> db \<Rightarrow> (task_row \<times> source_row) list" where
  "extraction_candidates tenant now locked db =
     concat (map (\<lambda>w. map (Pair w) (filter (\<lambda>s. so_tenant s = tk_tenant w \<and> so_invoice s = tk_invoice w
         \<and> so_type s = ''INVOICE_PDF'') (db_sources db)))
       (filter (\<lambda>w. tk_tenant w = tenant \<and> tk_type w = ExtractInvoiceClaims \<and> runnable now w
         \<and> \<not> locked (tk_id w)) (db_tasks db)))"

definition claim_order :: "task_row \<times> source_row \<Rightarrow> int \<times> string" where
  "claim_order r = (tk_created (fst r), tk_id (fst r))"

definition lease_of :: "string \<Rightarrow> int \<Rightarrow> task_row \<Rightarrow> source_row \<Rightarrow> extraction_lease" where
  "lease_of worker expires w s =
     \<lparr>le_task = tk_id w, le_invoice = tk_invoice w, le_source = so_id s,
      le_attempt = tk_attempt w + 1, le_worker = worker, le_expires = expires,
      le_cutoff = tk_cutoff w,
      le_stored = \<lparr>ss_bucket = so_bucket s, ss_key = so_key s, ss_version = so_version s,
        ss_sha256 = so_sha256 s, ss_bytes = so_bytes s\<rparr>,
      le_initiated = tk_initiated w, le_actor = tk_actor w\<rparr>"

definition start_attempt :: "string \<Rightarrow> extraction_lease \<Rightarrow> int \<Rightarrow> unit tx" where
  "start_attempt tenant l now =
     tx_then (tx_update db_tasks_update (\<lambda>w. task_pk w = (tenant, le_task l))
       (\<lambda>w. w\<lparr>tk_state := TaskRunning, tk_attempt := le_attempt l, tk_owner := Some (le_worker l),
          tk_expires := Some (le_expires l),
          tk_started := (case tk_started w of None \<Rightarrow> Some now | Some t \<Rightarrow> Some t),
          tk_updated := now\<rparr>))
     (tx_insert ''workflow_attempts_number_idx'' db_attempts db_attempts_update attempt_key
       \<lparr>at_tenant = tenant, at_task = le_task l, at_number = le_attempt l, at_state = TaskRunning,
        at_owner = Some (le_worker l), at_expires = Some (le_expires l), at_started = Some now,
        at_completed = None, at_error = None\<rparr>)"

definition claim_next_extraction_task ::
  "string \<Rightarrow> string \<Rightarrow> int \<Rightarrow> (string \<Rightarrow> bool) \<Rightarrow> int \<Rightarrow> (nat \<Rightarrow> string) \<Rightarrow> extraction_lease option tx"
where
  "claim_next_extraction_task tenant worker lease_seconds locked now ids =
     tx_bind (tx_read (extraction_candidates tenant now locked)) (\<lambda>rows.
       case rows of
         [] \<Rightarrow> tx_return None
       | r # rs \<Rightarrow>
           let row = min_by claim_order r rs;
               l = lease_of worker (now + lease_seconds * second) (fst row) (snd row)
           in tx_then (start_attempt tenant l now)
             (tx_then
               (tx_bind (lock_invoice_and_advance tenant (le_invoice l) ''INITIAL_PROCESSING''
                   ''INITIAL_PROCESSING'' ''INITIAL_PROCESSING'' 1 now None)
                 (\<lambda>seq. insert_event
                   ((intake_event tenant (ids 0) (le_invoice l) seq now (le_initiated l) (le_actor l))
                     \<lparr>lg_type := ''intake.extraction_started'', lg_task := ''EXTRACT_INVOICE_CLAIMS'',
                      lg_tool := Some ''Amazon Bedrock'', lg_state := ''RUNNING'',
                      lg_aggregate := ''INITIAL_PROCESSING'',
                      lg_summary := ''Carrier claim extraction started'',
                      lg_inputs := [object_ref ''invoice_source'' (le_source l) 1]\<rparr>)))
               (tx_return (Some l))))"

section \<open>Settling\<close>

definition holds_lease :: "string \<Rightarrow> extraction_lease \<Rightarrow> db \<Rightarrow> bool" where
  "holds_lease tenant l db =
     (case List.find (\<lambda>w. task_pk w = (tenant, le_task l)) (db_tasks db) of
        None \<Rightarrow> False
      | Some w \<Rightarrow> tk_state w = TaskRunning \<and> tk_attempt w = le_attempt l
          \<and> tk_owner w = Some (le_worker l))"

definition assert_current_lease :: "string \<Rightarrow> extraction_lease \<Rightarrow> unit tx" where
  "assert_current_lease tenant l =
     tx_bind (tx_read (holds_lease tenant l)) (\<lambda>held. tx_require held ''TASK_LEASE_LOST'')"

definition lease_task :: "string \<Rightarrow> extraction_lease \<Rightarrow> task_row \<Rightarrow> bool" where
  "lease_task tenant l w =
     (task_pk w = (tenant, le_task l) \<and> tk_attempt w = le_attempt l \<and> tk_owner w = Some (le_worker l))"

definition lease_attempt :: "string \<Rightarrow> extraction_lease \<Rightarrow> attempt_row \<Rightarrow> bool" where
  "lease_attempt tenant l a =
     (attempt_key a = (tenant, le_task l, le_attempt l) \<and> at_owner a = Some (le_worker l))"

definition next_claim_set_version :: "string \<Rightarrow> string \<Rightarrow> db \<Rightarrow> nat" where
  "next_claim_set_version tenant invoice db =
     foldr max (map cs_version (filter (\<lambda>c. cs_tenant c = tenant \<and> cs_invoice c = invoice)
       (db_claim_sets db))) 0 + 1"

text \<open>\<open>INSERT \<dots> SELECT\<close>: one run for the source and the attempt that the lease names.\<close>

definition run_key :: "run_row \<Rightarrow> string \<times> string \<times> string \<times> nat" where
  "run_key r = (xr_tenant r, xr_invoice r, xr_source r, xr_attempt r)"

definition claim_set_key :: "claim_set_row \<Rightarrow> string \<times> string \<times> nat" where
  "claim_set_key c = (cs_tenant c, cs_invoice c, cs_version c)"

definition claim_key :: "claim_row \<Rightarrow> string \<times> string \<times> string" where
  "claim_key c = (cl_tenant c, cl_set c, vc_field (cl_claim c))"

definition validation_text :: "claim_validation \<Rightarrow> string" where
  "validation_text v = (if claims_passed v then ''VALIDATED'' else ''INVALID'')"

definition insert_run ::
  "string \<Rightarrow> extraction_lease \<Rightarrow> claim_validation \<Rightarrow> string \<Rightarrow> string option \<Rightarrow> int \<Rightarrow> string \<Rightarrow> unit tx"
where
  "insert_run tenant l v response ref now i =
     tx_bind (tx_read (\<lambda>db. [(s, a). s \<leftarrow> db_sources db, so_tenant s = tenant \<and> so_id s = le_source l,
         a \<leftarrow> db_attempts db, attempt_key a = (tenant, le_task l, le_attempt l)]))
       (\<lambda>rows. tx_for rows (\<lambda>(s, a).
          tx_insert ''extraction_runs_attempt_idx'' db_runs db_runs_update run_key
            \<lparr>xr_tenant = tenant, xr_id = i, xr_invoice = le_invoice l, xr_source = le_source l,
             xr_source_sha256 = so_sha256 s, xr_source_version = so_version s,
             xr_attempt = le_attempt l, xr_requested = at_started a, xr_responded = now,
             xr_provider_ref = ref, xr_response_sha256 = response,
             xr_validation = validation_text v, xr_issues = cl_issues v\<rparr>))"

definition insert_claim_set ::
  "string \<Rightarrow> extraction_lease \<Rightarrow> claim_validation \<Rightarrow> nat \<Rightarrow> string \<Rightarrow> string \<Rightarrow> unit tx"
where
  "insert_claim_set tenant l v version i run =
     tx_then (tx_insert ''claim_sets_version_idx'' db_claim_sets db_claim_sets_update claim_set_key
       \<lparr>cs_tenant = tenant, cs_id = i, cs_invoice = le_invoice l, cs_version = version,
        cs_run = run, cs_validation = validation_text v, cs_issues = cl_issues v\<rparr>)
     (tx_for (cl_claims v) (\<lambda>c.
       tx_insert ''extracted_claims_field_idx'' db_claims db_claims_update claim_key
         \<lparr>cl_tenant = tenant, cl_set = i, cl_claim = c\<rparr>))"

definition close_task :: "string \<Rightarrow> extraction_lease \<Rightarrow> string \<Rightarrow> int \<Rightarrow> unit tx" where
  "close_task tenant l summary now =
     tx_then (tx_update db_tasks_update (lease_task tenant l)
       (\<lambda>w. w\<lparr>tk_state := TaskCompleted, tk_completed := Some now, tk_owner := None,
          tk_expires := None, tk_summary := Some summary, tk_updated := now\<rparr>))
     (tx_update db_attempts_update (lease_attempt tenant l)
       (\<lambda>a. a\<lparr>at_state := TaskCompleted, at_completed := Some now\<rparr>))"

text \<open>What follows claims that validated: the reconstruction task and two events.\<close>

definition reconstruction_refs :: "extraction_lease \<Rightarrow> string \<Rightarrow> nat \<Rightarrow> json list" where
  "reconstruction_refs l set_id version =
     [object_ref ''invoice_source'' (le_source l) 1, object_ref ''claim_set'' set_id version]"

definition reconstruction_task ::
  "string \<Rightarrow> extraction_lease \<Rightarrow> string \<Rightarrow> json list \<Rightarrow> int \<Rightarrow> task_row" where
  "reconstruction_task tenant l i refs now =
     \<lparr>tk_tenant = tenant, tk_id = i, tk_invoice = le_invoice l, tk_type = StartReconstruction,
      tk_version = 1, tk_state = TaskPending, tk_initiated = le_initiated l,
      tk_actor = le_actor l, tk_cutoff = le_cutoff l,
      tk_fingerprint = task_input_fingerprint StartReconstruction refs, tk_inputs = refs,
      tk_attempt = 0, tk_owner = None, tk_expires = None, tk_not_before = None,
      tk_started = None, tk_completed = None,
      tk_summary = Some ''Waiting to reconstruct pre-invoice events'', tk_error = None,
      tk_created = now, tk_updated = now\<rparr>"

text \<open>\<open>ON CONFLICT\<close> on the identity of the task does nothing; its primary key is new.\<close>

definition enqueue_task :: "task_row \<Rightarrow> unit tx" where
  "enqueue_task w =
     tx_bind (tx_read (\<lambda>db. task_identity w \<in> task_identity ` set (db_tasks db))) (\<lambda>known.
       if known then tx_return () else tx_insert ''primary'' db_tasks db_tasks_update task_pk w)"

definition hand_to_reconstruction ::
  "string \<Rightarrow> extraction_lease \<Rightarrow> claim_validation \<Rightarrow> string \<Rightarrow> nat \<Rightarrow> int \<Rightarrow> (nat \<Rightarrow> string) \<Rightarrow> unit tx"
where
  "hand_to_reconstruction tenant l v set_id version now ids =
     (let refs = reconstruction_refs l set_id version
      in tx_then (enqueue_task (reconstruction_task tenant l (ids 2) refs now))
         (tx_bind (lock_invoice_and_advance tenant (le_invoice l) ''READY_FOR_RECONSTRUCTION''
             ''RECONSTRUCTING'' ''RECONSTRUCTING'' 2 now (Some version))
           (\<lambda>seq. tx_then
             (insert_event ((intake_event tenant (ids 3) (le_invoice l) seq now (le_initiated l) (le_actor l))
               \<lparr>lg_type := ''intake.claims_validated'', lg_task := ''VALIDATE_INVOICE_CLAIMS'',
                lg_state := ''COMPLETED'', lg_aggregate := ''RECONSTRUCTING'',
                lg_summary := show_nat (length (cl_claims v)) @ '' carrier claims validated'',
                lg_inputs := [object_ref ''invoice_source'' (le_source l) 1],
                lg_produced := [object_ref ''claim_set'' set_id version],
                lg_output_count := Some (length (cl_claims v))\<rparr>))
             (insert_event ((intake_event tenant (ids 4) (le_invoice l) (seq + 1) now (le_initiated l) (le_actor l))
               \<lparr>lg_type := ''invoice.reconstruction_started'', lg_task := ''START_RECONSTRUCTION'',
                lg_tool := Some ''CockroachDB Managed MCP'', lg_state := ''PENDING'',
                lg_aggregate := ''RECONSTRUCTING'',
                lg_summary := ''Invoice handed to pre-invoice reconstruction'',
                lg_inputs := refs,
                lg_produced := [object_ref ''workflow_task'' (ids 2) 1]\<rparr>)))))"

definition ask_for_evidence ::
  "string \<Rightarrow> extraction_lease \<Rightarrow> claim_validation \<Rightarrow> string \<Rightarrow> nat \<Rightarrow> int \<Rightarrow> (nat \<Rightarrow> string) \<Rightarrow> unit tx"
where
  "ask_for_evidence tenant l v set_id version now ids =
     tx_bind (lock_invoice_and_advance tenant (le_invoice l) ''REQUIRED_FIELD_MISSING''
         ''NEEDS_EVIDENCE'' ''NEEDS_EVIDENCE'' 1 now (Some version))
       (\<lambda>seq. insert_event ((intake_event tenant (ids 2) (le_invoice l) seq now (le_initiated l) (le_actor l))
         \<lparr>lg_type := ''intake.claims_need_evidence'', lg_task := ''VALIDATE_INVOICE_CLAIMS'',
          lg_state := ''BLOCKED'', lg_aggregate := ''NEEDS_EVIDENCE'',
          lg_summary := ''Required carrier claims need evidence'',
          lg_inputs := [object_ref ''invoice_source'' (le_source l) 1],
          lg_produced := [object_ref ''claim_set'' set_id version],
          lg_output_count := Some (length (cl_claims v))\<rparr>))"

definition complete_extraction ::
  "string \<Rightarrow> extraction_lease \<Rightarrow> claim_validation \<Rightarrow> string \<Rightarrow> string option \<Rightarrow> int \<Rightarrow> (nat \<Rightarrow> string)
     \<Rightarrow> extraction_completion tx"
where
  "complete_extraction tenant l v response ref now ids =
     tx_then (assert_current_lease tenant l)
     (tx_bind (tx_read (next_claim_set_version tenant (le_invoice l))) (\<lambda>version.
       tx_then (insert_run tenant l v response ref now (ids 0))
       (tx_then (insert_claim_set tenant l v version (ids 1) (ids 0))
       (tx_then (close_task tenant l
           (if claims_passed v then ''Carrier claims extracted and validated''
            else ''Carrier claims require evidence'') now)
       (tx_then
         (if claims_passed v then hand_to_reconstruction tenant l v (ids 1) version now ids
          else ask_for_evidence tenant l v (ids 1) version now ids)
       (tx_return
         \<lparr>ec_run = ids 0, ec_claim_set = ids 1, ec_version = version,
          ec_reconstruction = (if claims_passed v then Some (ids 2) else None),
          ec_status = (if claims_passed v then ''RECONSTRUCTING'' else ''NEEDS_EVIDENCE'')\<rparr>))))))"

text \<open>Failing: another attempt later while attempts are left, otherwise the task is closed.\<close>

definition will_retry :: "extraction_lease \<Rightarrow> bool \<Rightarrow> bool" where
  "will_retry l retryable = (retryable \<and> le_attempt l < max_automatic_attempts)"

definition failed_state :: "extraction_lease \<Rightarrow> bool \<Rightarrow> row_state" where
  "failed_state l retryable = (if will_retry l retryable then TaskRetryWait else TaskFailed)"

definition failed_intake_state :: "extraction_lease \<Rightarrow> string \<Rightarrow> bool \<Rightarrow> string" where
  "failed_intake_state l err retryable =
     (if will_retry l retryable then ''INITIAL_PROCESSING''
      else if starts_with ''SOURCE_'' err then ''BLOCKED_SOURCE_VERSION_UNAVAILABLE''
      else ''EXTRACTION_FAILED'')"

definition release_task :: "string \<Rightarrow> extraction_lease \<Rightarrow> string \<Rightarrow> bool \<Rightarrow> int \<Rightarrow> unit tx" where
  "release_task tenant l err retryable now =
     tx_then (tx_update db_tasks_update (lease_task tenant l)
       (\<lambda>w. w\<lparr>tk_state := failed_state l retryable,
          tk_not_before := (if will_retry l retryable
            then Some (now + 2 ^ le_attempt l * second) else None),
          tk_owner := None, tk_expires := None, tk_error := Some err,
          tk_summary := Some (if will_retry l retryable then ''Extraction will retry''
            else ''Extraction is blocked''),
          tk_updated := now\<rparr>))
     (tx_update db_attempts_update (lease_attempt tenant l)
       (\<lambda>a. a\<lparr>at_state := failed_state l retryable, at_completed := Some now,
          at_error := Some err\<rparr>))"

definition task_state_text :: "row_state \<Rightarrow> string" where
  "task_state_text s =
     (case s of TaskPending \<Rightarrow> ''PENDING'' | TaskLeased \<Rightarrow> ''LEASED'' | TaskRunning \<Rightarrow> ''RUNNING''
      | TaskCompleted \<Rightarrow> ''COMPLETED'' | TaskRetryWait \<Rightarrow> ''RETRY_WAIT'' | TaskBlocked \<Rightarrow> ''BLOCKED''
      | TaskFailed \<Rightarrow> ''FAILED'' | TaskHeld \<Rightarrow> ''HELD'')"

definition fail_extraction ::
  "string \<Rightarrow> extraction_lease \<Rightarrow> string \<Rightarrow> bool \<Rightarrow> int \<Rightarrow> (nat \<Rightarrow> string) \<Rightarrow> row_state tx" where
  "fail_extraction tenant l err retryable now ids =
     (let aggregate = (if will_retry l retryable then ''INITIAL_PROCESSING'' else ''BLOCKED'')
      in tx_then (assert_current_lease tenant l)
         (tx_then (release_task tenant l err retryable now)
         (tx_then
           (tx_bind (lock_invoice_and_advance tenant (le_invoice l)
               (failed_intake_state l err retryable) aggregate aggregate 1 now None)
             (\<lambda>seq. insert_event ((intake_event tenant (ids 0) (le_invoice l) seq now (le_initiated l) (le_actor l))
               \<lparr>lg_type := (if will_retry l retryable then ''intake.extraction_retry_scheduled''
                  else ''intake.extraction_blocked''),
                lg_task := ''EXTRACT_INVOICE_CLAIMS'', lg_tool := Some ''Amazon Bedrock'',
                lg_state := task_state_text (failed_state l retryable), lg_aggregate := aggregate,
                lg_summary := (if will_retry l retryable then ''Carrier claim extraction will retry''
                  else ''Carrier claim extraction is blocked''),
                lg_inputs := [object_ref ''invoice_source'' (le_source l) 1]\<rparr>)))
         (tx_return (failed_state l retryable)))))"

section \<open>Retrying\<close>

definition retry_key :: "retry_row \<Rightarrow> string \<times> string" where
  "retry_key r = (rr_tenant r, rr_key r)"

definition retry_request_hash :: "string \<Rightarrow> int \<Rightarrow> string" where
  "retry_request_hash invoice expected =
     task_input_fingerprint ExtractInvoiceClaims
       [JObj [(''type'', JStr ''invoice''), (''id'', JStr invoice), (''version'', JInt expected)]]"

definition reserve_retry ::
  "string \<Rightarrow> string \<Rightarrow> string \<Rightarrow> int \<Rightarrow> string option \<Rightarrow> string \<Rightarrow> retry_row tx" where
  "reserve_retry tenant invoice key expected initiated actor =
     tx_then (tx_insert_absent db_retries db_retries_update retry_key
       \<lparr>rr_tenant = tenant, rr_key = key, rr_invoice = invoice,
        rr_hash = retry_request_hash invoice expected, rr_state = ''RESERVED'',
        rr_snapshot = None, rr_initiated = initiated, rr_actor = actor\<rparr>)
     (tx_bind (tx_read (\<lambda>db. List.find (\<lambda>r. retry_key r = (tenant, key)) (db_retries db))) (\<lambda>request.
        case request of
          None \<Rightarrow> tx_raise (Raised ''IDEMPOTENCY_CONFLICT'')
        | Some r \<Rightarrow> tx_then (tx_require
            (rr_invoice r = invoice \<and> rr_hash r = retry_request_hash invoice expected)
            ''IDEMPOTENCY_CONFLICT'') (tx_return r)))"

definition latest_extraction_task :: "string \<Rightarrow> string \<Rightarrow> db \<Rightarrow> task_row option" where
  "latest_extraction_task tenant invoice db =
     (case filter (\<lambda>w. tk_tenant w = tenant \<and> tk_invoice w = invoice
         \<and> tk_type w = ExtractInvoiceClaims) (db_tasks db) of
        [] \<Rightarrow> None
      | w # ws \<Rightarrow> Some (min_by (\<lambda>w. - int (tk_version w)) w ws))"

definition retried_task ::
  "string \<Rightarrow> string \<Rightarrow> string option \<Rightarrow> string \<Rightarrow> task_row \<Rightarrow> int \<Rightarrow> string \<Rightarrow> task_row" where
  "retried_task tenant invoice initiated actor previous now i =
     \<lparr>tk_tenant = tenant, tk_id = i, tk_invoice = invoice, tk_type = ExtractInvoiceClaims,
      tk_version = tk_version previous + 1, tk_state = TaskPending, tk_initiated = initiated,
      tk_actor = actor, tk_cutoff = tk_cutoff previous, tk_fingerprint = tk_fingerprint previous,
      tk_inputs = tk_inputs previous, tk_attempt = 0, tk_owner = None, tk_expires = None,
      tk_not_before = None, tk_started = None, tk_completed = None,
      tk_summary = Some ''Waiting to retry carrier claim extraction'', tk_error = None,
      tk_created = now, tk_updated = now\<rparr>"

definition requeue ::
  "string \<Rightarrow> string \<Rightarrow> string \<Rightarrow> string option \<Rightarrow> string \<Rightarrow> task_row \<Rightarrow> nat \<Rightarrow> int \<Rightarrow> (nat \<Rightarrow> string)
     \<Rightarrow> retry_result tx"
where
  "requeue tenant invoice key initiated actor previous row_version now ids =
     (let w = retried_task tenant invoice initiated actor previous now (ids 0)
      in tx_then (tx_unique ''primary'' db_tasks task_pk w)
         (tx_then (tx_insert ''workflow_tasks_identity_idx'' db_tasks db_tasks_update task_identity w)
         (tx_then
           (tx_bind (lock_invoice_and_advance tenant invoice ''RECEIVED'' ''RECEIVED'' ''RECEIVED'' 1 now None)
             (\<lambda>seq. insert_event ((intake_event tenant (ids 1) invoice seq now initiated actor)
               \<lparr>lg_type := ''intake.retry_requested'', lg_task := ''EXTRACT_INVOICE_CLAIMS'',
                lg_state := ''PENDING'', lg_aggregate := ''RECEIVED'',
                lg_summary := ''Carrier claim extraction retry requested'',
                lg_inputs := tk_inputs previous,
                lg_produced := [object_ref ''workflow_task'' (ids 0) (tk_version w)]\<rparr>)))
         (tx_then (tx_update db_retries_update (\<lambda>r. retry_key r = (tenant, key))
           (\<lambda>r. r\<lparr>rr_state := ''COMPLETED'',
              rr_snapshot := Some (ids 0, tk_version w, row_version + 1)\<rparr>))
         (tx_return \<lparr>rt_task = ids 0, rt_version = tk_version w,
            rt_row_version = row_version + 1, rt_replay = False\<rparr>)))))"

definition retry_extraction_task ::
  "string \<Rightarrow> string \<Rightarrow> string \<Rightarrow> int \<Rightarrow> string option \<Rightarrow> string \<Rightarrow> int \<Rightarrow> (nat \<Rightarrow> string) \<Rightarrow> retry_result tx"
where
  "retry_extraction_task tenant invoice key expected initiated actor now ids =
     tx_bind (reserve_retry tenant invoice key expected initiated actor) (\<lambda>request.
       if rr_state request = ''COMPLETED'' then
         (case rr_snapshot request of
            None \<Rightarrow> tx_raise (Raised ''TypeError'')
          | Some (task, version, row_version) \<Rightarrow>
              tx_return \<lparr>rt_task = task, rt_version = version, rt_row_version = row_version,
                rt_replay = True\<rparr>)
       else tx_bind (tx_read (\<lambda>db. (find_invoice tenant invoice db, latest_extraction_task tenant invoice db)))
         (\<lambda>(row, previous). case row of
            None \<Rightarrow> tx_raise (Raised ''INVOICE_NOT_FOUND'')
          | Some r \<Rightarrow> tx_then (tx_require (int (in_row_version r) = expected) ''STALE_INVOICE_VERSION'')
              (case previous of
                 None \<Rightarrow> tx_raise (Raised ''INVALID_STATE'')
               | Some w \<Rightarrow> tx_then (tx_require (tk_state w = TaskFailed) ''INVALID_STATE'')
                   (requeue tenant invoice key initiated actor w (in_row_version r) now ids))))"

section \<open>What every operation keeps\<close>

text \<open>Other tenants are untouched, the history only grows and the log stays dense.\<close>

lemma safe_start: "keeps (safe t) (start_attempt t l now)"
  unfolding start_attempt_def
  by (intro safe_intros) (auto simp: task_pk_def)

lemma safe_claim: "keeps (safe t) (claim_next_extraction_task t w secs locked now ids)"
  unfolding claim_next_extraction_task_def Let_def
  by (intro safe_start safe_intros) auto

lemma safe_assert: "keeps (safe t) (assert_current_lease t' l)"
  unfolding assert_current_lease_def by (intro safe_intros)

lemma safe_complete: "keeps (safe t) (complete_extraction t l v response ref now ids)"
  unfolding complete_extraction_def insert_run_def insert_claim_set_def close_task_def
    hand_to_reconstruction_def enqueue_task_def ask_for_evidence_def Let_def
  by (intro safe_assert safe_intros)
    (auto simp: lease_task_def lease_attempt_def task_pk_def attempt_key_def
      reconstruction_task_def intro!: safe_intros split: prod.splits)

lemma safe_fail: "keeps (safe t) (fail_extraction t l err retryable now ids)"
  unfolding fail_extraction_def release_task_def Let_def
  by (intro safe_assert safe_intros)
    (auto simp: lease_task_def lease_attempt_def task_pk_def attempt_key_def)

lemma safe_retry: "keeps (safe t) (retry_extraction_task t i key expected u a now ids)"
  unfolding retry_extraction_task_def reserve_retry_def requeue_def Let_def
  by (auto simp: retry_key_def retried_task_def split: prod.splits option.splits intro!: safe_intros)

section \<open>Fencing\<close>

definition task_keys_distinct :: "db \<Rightarrow> bool" where
  "task_keys_distinct db = distinct (map task_pk (db_tasks db))"

definition task_at :: "string \<times> string \<Rightarrow> db \<Rightarrow> task_row option" where
  "task_at k db = List.find (\<lambda>w. task_pk w = k) (db_tasks db)"

definition task_attempt :: "db \<Rightarrow> string \<times> string \<Rightarrow> nat" where
  "task_attempt db k = (case task_at k db of None \<Rightarrow> 0 | Some w \<Rightarrow> tk_attempt w)"

definition task_running :: "db \<Rightarrow> string \<times> string \<Rightarrow> bool" where
  "task_running db k = (case task_at k db of None \<Rightarrow> False | Some w \<Rightarrow> tk_state w = TaskRunning)"

text \<open>A lease together with its tenant, and what a committed transaction does with it.\<close>

type_synonym tenant_lease = "string \<times> extraction_lease"

definition leased_task :: "tenant_lease \<Rightarrow> string \<times> string" where
  "leased_task x = (fst x, le_task (snd x))"

definition leased_attempt :: "tenant_lease \<Rightarrow> nat" where
  "leased_attempt x = le_attempt (snd x)"

definition extraction_claims :: "db \<Rightarrow> tenant_lease \<Rightarrow> db \<Rightarrow> bool" where
  "extraction_claims db x db' \<longleftrightarrow>
     (\<exists>worker secs locked now ids.
        claim_next_extraction_task (fst x) worker secs locked now ids db = Inr (Some (snd x), db'))"

definition extraction_settles :: "db \<Rightarrow> tenant_lease \<Rightarrow> db \<Rightarrow> bool" where
  "extraction_settles db x db' \<longleftrightarrow>
     (\<exists>v response ref now ids c. complete_extraction (fst x) (snd x) v response ref now ids db = Inr (c, db'))
     \<or> (\<exists>err retryable now ids st. fail_extraction (fst x) (snd x) err retryable now ids db = Inr (st, db'))"

definition extraction_quiet :: "db \<Rightarrow> db \<Rightarrow> bool" where
  "extraction_quiet db db' \<longleftrightarrow> db' = db
     \<or> (\<exists>t i key expected u a now ids r. retry_extraction_task t i key expected u a now ids db = Inr (r, db'))"

text \<open>Statements that leave the tasks alone.\<close>

definition same_tasks :: "db \<Rightarrow> db \<Rightarrow> bool" where
  "same_tasks db db' = (db_tasks db' = db_tasks db)"

interpretation tasks: tx_frame same_tasks
  by unfold_locales (simp_all add: same_tasks_def)

lemma same_tasks_statements:
  "keeps same_tasks (lock_invoice_and_advance t i st ag su k now cs)"
  "keeps same_tasks (insert_event e)"
  "keeps same_tasks (tx_append db_attempts_update a)"
  "keeps same_tasks (tx_append db_runs_update r)"
  "keeps same_tasks (tx_append db_claim_sets_update s)"
  "keeps same_tasks (tx_append db_claims_update c)"
  "keeps same_tasks (tx_append db_retries_update y)"
  "keeps same_tasks (tx_update db_attempts_update p f)"
  "keeps same_tasks (tx_update db_retries_update q g)"
  by (auto simp: keeps_def same_tasks_def lock_Inr insert_event_Inr tx_simps)

lemmas same_tasks_intros = tasks.keeps_intros same_tasks_statements

lemma same_tasksD: "keeps same_tasks m \<Longrightarrow> m db = Inr (a, db') \<Longrightarrow> db_tasks db' = db_tasks db"
  by (drule (1) tasks.keepsD) (simp add: same_tasks_def)

lemma task_at_update:
  "(\<And>w. p w \<Longrightarrow> task_pk (f w) = task_pk w) \<Longrightarrow> db_tasks db' = update_rows p f (db_tasks db) \<Longrightarrow>
     task_at k db' = map_option (\<lambda>w. if p w then f w else w) (task_at k db)"
  unfolding task_at_def by (simp add: find_update_rows)

lemma task_at_append:
  "db_tasks db' = db_tasks db @ [w] \<Longrightarrow> task_pk w \<notin> task_pk ` set (db_tasks db) \<Longrightarrow>
     task_at k db' = (if k = task_pk w then Some w else task_at k db)"
proof (cases "k = task_pk w")
  case True
  assume "task_pk w \<notin> task_pk ` set (db_tasks db)"
  then have "List.find (\<lambda>x. task_pk x = task_pk w) (db_tasks db) = None"
    unfolding find_None_iff by (metis imageI)
  moreover assume "db_tasks db' = db_tasks db @ [w]"
  ultimately show ?thesis using True by (simp add: task_at_def find_append)
next
  case False
  assume "db_tasks db' = db_tasks db @ [w]"
  with False show ?thesis by (simp add: task_at_def find_append split: option.splits)
qed

lemma task_at_Some: "task_at k db = Some w \<Longrightarrow> w \<in> set (db_tasks db) \<and> task_pk w = k"
  by (auto simp: task_at_def dest: find_SomeD)

lemma task_at_in:
  "task_keys_distinct db \<Longrightarrow> w \<in> set (db_tasks db) \<Longrightarrow> task_at (task_pk w) db = Some w"
  unfolding task_at_def task_keys_distinct_def by (rule find_key_unique)

text \<open>Claiming: the candidate taken is a row, and its attempt goes up by one.\<close>

lemma extraction_candidates_in:
  "r \<in> set (extraction_candidates t now locked db) \<longleftrightarrow>
     fst r \<in> set (db_tasks db) \<and> snd r \<in> set (db_sources db) \<and> tk_tenant (fst r) = t
     \<and> tk_type (fst r) = ExtractInvoiceClaims \<and> runnable now (fst r) \<and> \<not> locked (tk_id (fst r))
     \<and> so_tenant (snd r) = t \<and> so_invoice (snd r) = tk_invoice (fst r)
     \<and> so_type (snd r) = ''INVOICE_PDF''"
  by (cases r) (auto simp: extraction_candidates_def)

lemma claim_cases:
  assumes "claim_next_extraction_task t worker secs locked now ids db = Inr (Some l, db')"
  shows "\<exists>w s. (w, s) \<in> set (extraction_candidates t now locked db)
    \<and> (\<forall>r \<in> set (extraction_candidates t now locked db). claim_order (w, s) \<le> claim_order r)
    \<and> l = lease_of worker (now + secs * second) w s
    \<and> db_tasks db' = update_rows (\<lambda>w. task_pk w = (t, le_task l))
       (\<lambda>w. w\<lparr>tk_state := TaskRunning, tk_attempt := le_attempt l, tk_owner := Some worker,
          tk_expires := Some (now + secs * second),
          tk_started := (case tk_started w of None \<Rightarrow> Some now | Some t \<Rightarrow> Some t),
          tk_updated := now\<rparr>) (db_tasks db)"
proof -
  let ?cs = "extraction_candidates t now locked db"
  from assms obtain r rs where rows: "?cs = r # rs"
    by (cases ?cs) (auto simp: claim_next_extraction_task_def tx_simps)
  obtain w s where ws: "min_by claim_order r rs = (w, s)" by fastforce
  with rows min_by_in [of claim_order r rs] min_by_le [of _ r rs claim_order]
  have "(w, s) \<in> set ?cs" "\<forall>x \<in> set ?cs. claim_order (w, s) \<le> claim_order x" by auto
  moreover from assms rows ws have "l = lease_of worker (now + secs * second) w s"
    by (auto simp: claim_next_extraction_task_def tx_simps Let_def)
  moreover from assms rows ws obtain db1 s1 db2 where
    "start_attempt t l now db = Inr ((), db1)" and k:
    "lock_invoice_and_advance t (le_invoice l) ''INITIAL_PROCESSING''
       ''INITIAL_PROCESSING'' ''INITIAL_PROCESSING'' 1 now None db1 = Inr (s1, db2)"
    and e: "db_tasks db' = db_tasks db2"
    by (auto simp: claim_next_extraction_task_def tx_simps Let_def insert_event_Inr)
  moreover from k have "db_tasks db2 = db_tasks db1" by (auto simp: lock_Inr)
  ultimately show ?thesis
    by (intro exI [of _ w] exI [of _ s]) (auto simp: start_attempt_def tx_simps lease_of_def)
qed

lemma distinct_update:
  "(\<And>w. p w \<Longrightarrow> task_pk (f w) = task_pk w) \<Longrightarrow> db_tasks db' = update_rows p f (db_tasks db) \<Longrightarrow>
     task_keys_distinct db' = task_keys_distinct db"
  unfolding task_keys_distinct_def by (simp add: map_update_rows)

lemma claim_fencing:
  assumes "task_keys_distinct db" "extraction_claims db x db'"
  shows "task_keys_distinct db' \<and> leased_attempt x = Suc (task_attempt db (leased_task x))
    \<and> task_attempt db' = (task_attempt db)(leased_task x := leased_attempt x)
    \<and> task_running db' = (task_running db)(leased_task x := True)"
proof -
  obtain t l where x: "x = (t, l)" by (cases x)
  from assms(2) x obtain worker secs locked now ids where
    "claim_next_extraction_task t worker secs locked now ids db = Inr (Some l, db')"
    by (auto simp: extraction_claims_def)
  from claim_cases [OF this] obtain w s where
    w: "(w, s) \<in> set (extraction_candidates t now locked db)"
    and l: "l = lease_of worker (now + secs * second) w s"
    and rows: "db_tasks db' = update_rows (\<lambda>w. task_pk w = (t, le_task l))
       (\<lambda>w. w\<lparr>tk_state := TaskRunning, tk_attempt := le_attempt l, tk_owner := Some worker,
          tk_expires := Some (now + secs * second),
          tk_started := (case tk_started w of None \<Rightarrow> Some now | Some t \<Rightarrow> Some t),
          tk_updated := now\<rparr>) (db_tasks db)" by blast
  from w l have pk: "task_pk w = (t, le_task l)" and "w \<in> set (db_tasks db)"
    by (auto simp: extraction_candidates_in task_pk_def lease_of_def)
  with assms(1) have at: "task_at (t, le_task l) db = Some w" by (metis task_at_in)
  note upd = task_at_update [OF _ rows] and dis = distinct_update [OF _ rows]
  show ?thesis
    using assms(1) at l
    by (auto simp: x dis upd leased_task_def leased_attempt_def task_attempt_def task_running_def
        task_pk_def lease_of_def fun_eq_iff split: option.splits dest: task_at_Some)
qed

text \<open>Settling: the lease is the current one of a running task, which it ends.\<close>

lemma assert_lease_Inr:
  "assert_current_lease t l db = Inr (u, db') \<longleftrightarrow> holds_lease t l db \<and> db' = db"
  by (auto simp: assert_current_lease_def tx_simps)

lemma holds_lease_at:
  "holds_lease t l db \<longleftrightarrow> (\<exists>w. task_at (t, le_task l) db = Some w \<and> tk_state w = TaskRunning
     \<and> tk_attempt w = le_attempt l \<and> tk_owner w = Some (le_worker l))"
  by (auto simp: holds_lease_def task_at_def split: option.splits)

lemma closed_task:
  assumes "task_keys_distinct db" "holds_lease t l db"
    and "db_tasks db' = update_rows (lease_task t l) f (db_tasks db)"
    and "\<And>w. task_pk (f w) = task_pk w" "\<And>w. tk_attempt (f w) = tk_attempt w"
    and "\<And>w. tk_state (f w) \<noteq> TaskRunning"
  shows "task_keys_distinct db' \<and> task_running db (t, le_task l)
    \<and> le_attempt l = task_attempt db (t, le_task l)
    \<and> task_attempt db' = task_attempt db
    \<and> task_running db' = (task_running db)((t, le_task l) := False)"
proof -
  from assms(2) obtain w where w: "task_at (t, le_task l) db = Some w" "tk_state w = TaskRunning"
    "tk_attempt w = le_attempt l" "lease_task t l w"
    by (auto simp: holds_lease_at lease_task_def dest: task_at_Some)
  note upd = task_at_update [OF _ assms(3)] and dis = distinct_update [OF _ assms(3)]
  show ?thesis
    using assms(1,4-6) w
    by (auto simp: dis upd task_attempt_def task_running_def fun_eq_iff lease_task_def
        split: option.splits dest: task_at_Some)
qed

lemma appended_task:
  assumes "db_tasks db' = db_tasks db @ [w]" "task_pk w \<notin> task_pk ` set (db_tasks db)"
    and "tk_attempt w = 0" "tk_state w = TaskPending"
  shows "(task_keys_distinct db \<longrightarrow> task_keys_distinct db') \<and> task_attempt db' = task_attempt db
    \<and> task_running db' = task_running db"
proof -
  have "task_at (task_pk w) db = None"
    using assms(2) unfolding task_at_def find_None_iff by (metis imageI)
  then show ?thesis
    using assms by (auto simp: task_keys_distinct_def task_attempt_def task_running_def
        task_at_append [OF assms(1,2)] fun_eq_iff)
qed

lemma complete_tasks:
  assumes "complete_extraction t l v response ref now ids db = Inr (c, db')"
  shows "holds_lease t l db \<and> (\<exists>(dbm :: db) summary.
    db_tasks dbm = update_rows (lease_task t l)
      (\<lambda>w. w\<lparr>tk_state := TaskCompleted, tk_completed := Some now, tk_owner := None,
          tk_expires := None, tk_summary := Some summary, tk_updated := now\<rparr>) (db_tasks db)
    \<and> (db_tasks db' = db_tasks dbm
       \<or> (\<exists>w. db_tasks db' = db_tasks dbm @ [w] \<and> task_pk w \<notin> task_pk ` set (db_tasks dbm)
            \<and> tk_attempt w = 0 \<and> tk_state w = TaskPending)))"
proof -
  from assms obtain version db1 db2 db3 db4 summary where
    h: "holds_lease t l db"
    and s1: "insert_run t l v response ref now (ids 0) db = Inr ((), db1)"
    and s2: "insert_claim_set t l v version (ids 1) (ids 0) db1 = Inr ((), db2)"
    and s3: "close_task t l summary now db2 = Inr ((), db3)"
    and s4: "(if claims_passed v then hand_to_reconstruction t l v (ids 1) version now ids
       else ask_for_evidence t l v (ids 1) version now ids) db3 = Inr ((), db4)"
    and e: "db' = db4"
    by (auto simp: complete_extraction_def tx_simps assert_lease_Inr simp del: split_paired_Ex)
  have "keeps same_tasks (insert_run t l v response ref now (ids 0))"
    unfolding insert_run_def by (intro same_tasks_intros) (auto intro!: same_tasks_intros)
  from same_tasksD [OF this s1] have "db_tasks db1 = db_tasks db" .
  moreover have "keeps same_tasks (insert_claim_set t l v version (ids 1) (ids 0))"
    unfolding insert_claim_set_def by (intro same_tasks_intros)
  from same_tasksD [OF this s2] have "db_tasks db2 = db_tasks db1" .
  moreover from s3 have "db_tasks db3 = update_rows (lease_task t l)
      (\<lambda>w. w\<lparr>tk_state := TaskCompleted, tk_completed := Some now, tk_owner := None,
          tk_expires := None, tk_summary := Some summary, tk_updated := now\<rparr>) (db_tasks db2)"
    by (auto simp: close_task_def tx_simps)
  moreover have "db_tasks db4 = db_tasks db3
       \<or> (\<exists>w. db_tasks db4 = db_tasks db3 @ [w] \<and> task_pk w \<notin> task_pk ` set (db_tasks db3)
            \<and> tk_attempt w = 0 \<and> tk_state w = TaskPending)"
    using s4 by (auto simp: hand_to_reconstruction_def ask_for_evidence_def Let_def tx_simps lock_Inr
        insert_event_Inr enqueue_task_def reconstruction_task_def split: if_splits)
  ultimately show ?thesis using h e
    by (intro conjI exI [of _ db3] exI [of _ summary]) auto
qed

lemma settle_fencing:
  assumes "task_keys_distinct db" "extraction_settles db x db'"
  shows "task_keys_distinct db' \<and> task_running db (leased_task x)
    \<and> leased_attempt x = task_attempt db (leased_task x)
    \<and> task_attempt db' = task_attempt db
    \<and> task_running db' = (task_running db)(leased_task x := False)"
proof -
  obtain t l where x: "x = (t, l)" by (cases x)
  from assms(2) x consider
    v response ref now ids c where "complete_extraction t l v response ref now ids db = Inr (c, db')"
  | err retryable now ids st where "fail_extraction t l err retryable now ids db = Inr (st, db')"
    by (auto simp: extraction_settles_def)
  then show ?thesis
  proof cases
    case 1
    from complete_tasks [OF this] obtain dbm :: db and summary where h: "holds_lease t l db"
      and u: "db_tasks dbm = update_rows (lease_task t l)
        (\<lambda>w. w\<lparr>tk_state := TaskCompleted, tk_completed := Some now, tk_owner := None,
          tk_expires := None, tk_summary := Some summary, tk_updated := now\<rparr>) (db_tasks db)"
      and r: "db_tasks db' = db_tasks dbm
       \<or> (\<exists>w. db_tasks db' = db_tasks dbm @ [w] \<and> task_pk w \<notin> task_pk ` set (db_tasks dbm)
            \<and> tk_attempt w = 0 \<and> tk_state w = TaskPending)" by blast
    have m: "task_keys_distinct dbm \<and> task_running db (t, le_task l)
      \<and> le_attempt l = task_attempt db (t, le_task l) \<and> task_attempt dbm = task_attempt db
      \<and> task_running dbm = (task_running db)((t, le_task l) := False)"
      by (rule closed_task [OF assms(1) h u]) (simp_all add: task_pk_def)
    have "(task_keys_distinct dbm \<longrightarrow> task_keys_distinct db')
      \<and> task_attempt db' = task_attempt dbm \<and> task_running db' = task_running dbm"
      using r appended_task
      by (auto simp: task_keys_distinct_def task_attempt_def task_running_def task_at_def fun_eq_iff)
    with m show ?thesis by (simp add: x leased_task_def leased_attempt_def)
  next
    case 2
    then have h: "holds_lease t l db"
      by (auto simp: fail_extraction_def tx_simps assert_lease_Inr Let_def)
    from 2 have "db_tasks db' = update_rows (lease_task t l)
       (\<lambda>w. w\<lparr>tk_state := failed_state l retryable,
          tk_not_before := (if will_retry l retryable
            then Some (now + 2 ^ le_attempt l * second) else None),
          tk_owner := None, tk_expires := None, tk_error := Some err,
          tk_summary := Some (if will_retry l retryable then ''Extraction will retry''
            else ''Extraction is blocked''),
          tk_updated := now\<rparr>) (db_tasks db)"
      by (auto simp: fail_extraction_def tx_simps assert_lease_Inr Let_def release_task_def
          lock_Inr insert_event_Inr)
    from closed_task [OF assms(1) h this] show ?thesis
      by (simp add: x leased_task_def leased_attempt_def task_pk_def failed_state_def)
  qed
qed

lemma quiet_fencing:
  assumes "task_keys_distinct db" "extraction_quiet db db'"
  shows "task_keys_distinct db' \<and> task_attempt db' = task_attempt db
    \<and> task_running db' = task_running db"
proof (cases "db' = db")
  case False
  with assms(2) obtain t i key expected u a now ids r where
    "retry_extraction_task t i key expected u a now ids db = Inr (r, db')"
    by (auto simp: extraction_quiet_def)
  then have "db_tasks db' = db_tasks db
     \<or> (\<exists>w. db_tasks db' = db_tasks db @ [w] \<and> task_pk w \<notin> task_pk ` set (db_tasks db)
          \<and> tk_attempt w = 0 \<and> tk_state w = TaskPending)"
    by (auto simp: retry_extraction_task_def reserve_retry_def requeue_def Let_def tx_simps lock_Inr
        insert_event_Inr retried_task_def split: option.splits if_splits prod.splits)
  then show ?thesis
    using assms(1) appended_task
    by (auto simp: task_keys_distinct_def task_attempt_def task_running_def task_at_def fun_eq_iff)
qed (use assms in simp)

interpretation extraction: fenced_lease task_keys_distinct task_attempt task_running
  extraction_claims extraction_settles extraction_quiet leased_task leased_attempt
  by unfold_locales (use claim_fencing settle_fencing quiet_fencing in blast)+

definition extraction_history :: "db \<Rightarrow> tenant_lease lease_action list \<Rightarrow> db \<Rightarrow> bool" where
  "extraction_history = lease_run extraction_claims extraction_settles extraction_quiet"

end
