(* ===== verification/IntakeTaskFacts.thy ===== *)
theory IntakeTaskFacts
  imports IntakeTasks
begin

text \<open>
  What the leasing of extraction tasks guarantees, stated over the transactions of
  \<open>IntakeTasks\<close>, with a sample state on which each statement is applied.
\<close>

section \<open>A sample state\<close>

definition sample_task :: "nat \<Rightarrow> task_row" where
  "sample_task n =
     \<lparr>tk_tenant = ''t'', tk_id = ''k'', tk_invoice = ''i'', tk_type = ExtractInvoiceClaims,
      tk_version = 1, tk_state = TaskPending, tk_initiated = None, tk_actor = ''op'',
      tk_cutoff = 0, tk_fingerprint = ''f'', tk_inputs = [], tk_attempt = n, tk_owner = None,
      tk_expires = None, tk_not_before = None, tk_started = None, tk_completed = None,
      tk_summary = None, tk_error = None, tk_created = 0, tk_updated = 0\<rparr>"

definition sample_db :: "task_row list \<Rightarrow> db" where
  "sample_db ws = empty_db
     \<lparr>db_invoices := [sample_invoice], db_sources := [sample_source], db_tasks := ws\<rparr>"

definition fresh_id :: "nat \<Rightarrow> nat \<Rightarrow> string" where
  "fresh_id k n = show_nat (10 * k + n)"

text \<open>The state a successful transaction leaves.\<close>

definition state_after :: "'a tx \<Rightarrow> db \<Rightarrow> db" where
  "state_after m db = (case m db of Inl e \<Rightarrow> db | Inr (a, db') \<Rightarrow> db')"

definition sample_lease :: "string \<Rightarrow> nat \<Rightarrow> int \<Rightarrow> extraction_lease" where
  "sample_lease worker n expires =
     \<lparr>le_task = ''k'', le_invoice = ''i'', le_source = ''s'', le_attempt = n, le_worker = worker,
      le_expires = expires, le_cutoff = 0,
      le_stored = \<lparr>ss_bucket = ''b'', ss_key = ''o'', ss_version = ''v'', ss_sha256 = ''h'', ss_bytes = 9\<rparr>,
      le_initiated = None, le_actor = ''op''\<rparr>"

definition first_claim :: "extraction_lease option tx" where
  "first_claim = claim_next_extraction_task ''t'' ''w1'' 1 (\<lambda>_. False) 0 (fresh_id 0)"

definition second_claim :: "extraction_lease option tx" where
  "second_claim = claim_next_extraction_task ''t'' ''w2'' 1 (\<lambda>_. False) 2000000 (fresh_id 1)"

definition second_failure :: "row_state tx" where
  "second_failure = fail_extraction ''t'' (sample_lease ''w2'' 2 3000000) ''TIMEOUT'' True 2500000 (fresh_id 2)"

definition claimed_once :: db where
  "claimed_once = state_after first_claim (sample_db [sample_task 0])"

definition claimed_twice :: db where
  "claimed_twice = state_after second_claim claimed_once"

definition failed_after :: db where
  "failed_after = state_after second_failure claimed_twice"

lemma sample_first_claim:
  "first_claim (sample_db [sample_task 0]) = Inr (Some (sample_lease ''w1'' 1 1000000), claimed_once)"
  by code_simp

lemma sample_second_claim:
  "second_claim claimed_once = Inr (Some (sample_lease ''w2'' 2 3000000), claimed_twice)"
  by code_simp

lemma sample_second_failure:
  "second_failure claimed_twice = Inr (TaskRetryWait, failed_after)"
  by code_simp

section \<open>Fencing\<close>

definition lease_id :: "tenant_lease \<Rightarrow> (string \<times> string) \<times> nat" where
  "lease_id x = (leased_task x, leased_attempt x)"

text \<open>
  Leases are fenced. In every history of committed transactions (claims, settlements by
  completion or failure, operator retries), no attempt of a task is handed out twice and none is
  settled twice; and once a newer lease of a task was claimed, a lease overtaken by it settles
  nothing any more.
\<close>

theorem lease_fencing:
  assumes "task_keys_distinct db" "extraction_history db tr db'"
  shows "distinct (map lease_id (claimed tr)) \<and> distinct (map lease_id (settled tr))
    \<and> (\<forall>pre new post old. tr = pre @ Claimed new # post \<and> leased_task old = leased_task new
         \<and> leased_attempt old < leased_attempt new \<longrightarrow> Settled old \<notin> set post)"
proof -
  have id: "lease_id = (\<lambda>x. (leased_task x, leased_attempt x))" by (simp add: lease_id_def fun_eq_iff)
  from assms(2) have run: "lease_run extraction_claims extraction_settles extraction_quiet db tr db'"
    by (simp add: extraction_history_def)
  from extraction.attempts_claimed_once [OF run assms(1)]
    extraction.attempts_settled_once [OF run assms(1)]
    extraction.overtaken_lease_is_fenced [OF _ assms(1)] run
  show ?thesis unfolding id by blast
qed

definition sample_trace :: "tenant_lease lease_action list" where
  "sample_trace =
     [Claimed (''t'', sample_lease ''w1'' 1 1000000), Claimed (''t'', sample_lease ''w2'' 2 3000000),
      Settled (''t'', sample_lease ''w2'' 2 3000000)]"

lemma sample_history: "extraction_history (sample_db [sample_task 0]) sample_trace failed_after"
proof -
  have "extraction_claims (sample_db [sample_task 0]) (''t'', sample_lease ''w1'' 1 1000000) claimed_once"
    using sample_first_claim unfolding extraction_claims_def first_claim_def by force
  moreover have "extraction_claims claimed_once (''t'', sample_lease ''w2'' 2 3000000) claimed_twice"
    using sample_second_claim unfolding extraction_claims_def second_claim_def by force
  moreover have "extraction_settles claimed_twice (''t'', sample_lease ''w2'' 2 3000000) failed_after"
    using sample_second_failure unfolding extraction_settles_def second_failure_def by force
  ultimately show ?thesis
    unfolding extraction_history_def sample_trace_def by (blast intro: lease_run.intros)
qed

theorem lease_fencing_witness:
  "\<exists>db tr db'. extraction_history db tr db' \<and> distinct (map lease_id (claimed tr))
     \<and> length (claimed tr) = 2 \<and> length (settled tr) = 1
     \<and> Settled (''t'', sample_lease ''w1'' 1 1000000) \<notin> set (drop 2 tr)"
proof -
  have d: "task_keys_distinct (sample_db [sample_task 0])"
    by (simp add: task_keys_distinct_def sample_db_def sample_row_defs)
  from lease_fencing [OF d sample_history]
  have f: "distinct (map lease_id (claimed sample_trace))"
    "\<And>pre new post old. sample_trace = pre @ Claimed new # post \<Longrightarrow> leased_task old = leased_task new \<Longrightarrow>
       leased_attempt old < leased_attempt new \<Longrightarrow> Settled old \<notin> set post" by blast+
  have "Settled (''t'', sample_lease ''w1'' 1 1000000) \<notin> set [Settled (''t'', sample_lease ''w2'' 2 3000000)]"
    by (rule f(2) [of "[Claimed (''t'', sample_lease ''w1'' 1 1000000)]" "(''t'', sample_lease ''w2'' 2 3000000)"])
      (simp_all add: sample_trace_def leased_task_def leased_attempt_def sample_lease_def)
  with f(1) sample_history show ?thesis
    by (intro exI [of _ "sample_db [sample_task 0]"] exI [of _ sample_trace] exI [of _ failed_after])
      (simp add: sample_trace_def)
qed

text \<open>
  A lease settles only while it is held. Completing or failing succeeds only for the worker
  that owns the running task at its current attempt; with any other lease both raise
  \<open>TASK_LEASE_LOST\<close>, and the transaction runner then leaves the database as it was.
\<close>

theorem lost_lease_refused:
  assumes "\<not> holds_lease t l db"
  shows "complete_extraction t l v response ref now ids db = Inl (Raised ''TASK_LEASE_LOST'')
    \<and> fail_extraction t l err retryable now ids db = Inl (Raised ''TASK_LEASE_LOST'')
    \<and> run_with_retry max_retries [] 0
        (\<lambda>n. complete_extraction t l v response ref now (fresh n)) db
      = (Inl (Raised ''TASK_LEASE_LOST''), db)"
proof -
  from assms have "assert_current_lease t l db = Inl (Raised ''TASK_LEASE_LOST'')"
    by (simp add: assert_current_lease_def tx_run)
  then show ?thesis
    by (simp add: complete_extraction_def fail_extraction_def tx_then_def tx_bind_def Let_def)
qed

theorem lost_lease_refused_witness:
  "fail_extraction ''t'' (sample_lease ''w1'' 1 1000000) ''TIMEOUT'' True 2500000 (fresh_id 2) claimed_twice
     = Inl (Raised ''TASK_LEASE_LOST'')"
proof -
  have "\<not> holds_lease ''t'' (sample_lease ''w1'' 1 1000000) claimed_twice" by code_simp
  from lost_lease_refused [OF this] show ?thesis by blast
qed

section \<open>The log and the tenants\<close>

text \<open>
  The transactions of extraction are safe under restarts. Whatever the database restarts,
  claiming, completing, failing and retrying leave every row of the other tenants as it was,
  only append to the event log, its outbox and the extraction history, and keep the events of every
  invoice numbered without gap or repetition up to the invoice's counter.
\<close>

theorem extraction_keeps_log:
  assumes "run_with_retry max_retries restarts 0 (\<lambda>n. claim_next_extraction_task t w secs locked now (fresh n)) db = (r1, db1)"
    and "run_with_retry max_retries restarts 0 (\<lambda>n. complete_extraction t l v response ref now (fresh n)) db = (r2, db2)"
    and "run_with_retry max_retries restarts 0 (\<lambda>n. fail_extraction t l err retryable now (fresh n)) db = (r3, db3)"
    and "run_with_retry max_retries restarts 0 (\<lambda>n. retry_extraction_task t i key expected u a now (fresh n)) db = (r4, db4)"
    and "db' \<in> {db1, db2, db3, db4}"
  shows "foreign t db' = foreign t db \<and> prefix (db_events db) (db_events db')
    \<and> prefix (db_outbox db) (db_outbox db') \<and> prefix (db_claim_sets db) (db_claim_sets db')
    \<and> prefix (db_claims db) (db_claims db') \<and> (events_dense db \<longrightarrow> events_dense db')"
proof -
  note kept = safe.keeps_retry [OF safe_claim assms(1)] safe.keeps_retry [OF safe_complete assms(2)]
    safe.keeps_retry [OF safe_fail assms(3)] safe.keeps_retry [OF safe_retry assms(4)]
  from assms(5) kept have "safe t db db'" by blast
  then show ?thesis by (simp add: safe_def isolated_def appended_def maintains_def)
qed

theorem extraction_keeps_log_witness:
  "events_dense (sample_db [sample_task 0]) \<and> events_dense claimed_once
     \<and> map lg_sequence (db_events claimed_once) = [1]"
proof -
  let ?db = "sample_db [sample_task 0]"
  have d: "events_dense ?db"
    by (simp add: sample_db_def sample_row_defs events_dense_def event_sequence_def empty_db_def)
  obtain r2 db2 where b: "run_with_retry 5 [] 0 (\<lambda>n. complete_extraction ''t''
    (sample_lease ''w1'' 1 1000000) (ClaimValidation [] []) '''' None 0 (fresh_id n)) ?db = (r2, db2)"
    by (meson surj_pair)
  obtain r3 db3 where c: "run_with_retry 5 [] 0 (\<lambda>n. fail_extraction ''t''
    (sample_lease ''w1'' 1 1000000) '''' True 0 (fresh_id n)) ?db = (r3, db3)" by (meson surj_pair)
  obtain r4 db4 where e: "run_with_retry 5 [] 0 (\<lambda>n. retry_extraction_task ''t'' ''i'' ''r'' 1 None ''op'' 0
    (fresh_id n)) ?db = (r4, db4)" by (meson surj_pair)
  have a: "run_with_retry 5 [] 0 (\<lambda>n. claim_next_extraction_task ''t'' ''w1'' 1 (\<lambda>_. False) 0 (fresh_id n)) ?db
      = (Inr (Some (sample_lease ''w1'' 1 1000000)), claimed_once)"
    using sample_first_claim by (simp add: first_claim_def)
  from extraction_keeps_log [OF a b c e, of claimed_once] d have "events_dense claimed_once" by blast
  moreover have "map lg_sequence (db_events claimed_once) = [1]" by code_simp
  ultimately show ?thesis using d by blast
qed

section \<open>Progress\<close>

text \<open>
  A state from which claiming cannot fail: keys are unique, the log is dense, every task has
  its invoice, and no attempt was recorded beyond the counter of its task.
\<close>

definition task_owner :: "task_row \<Rightarrow> string \<times> string" where
  "task_owner w = (tk_tenant w, tk_invoice w)"

definition known_invoices :: "db \<Rightarrow> (string \<times> string) set" where
  "known_invoices db = invoice_key ` set (db_invoices db)"

definition extraction_ready :: "db \<Rightarrow> bool" where
  "extraction_ready db =
     (task_keys_distinct db \<and> events_dense db
      \<and> (\<forall>w \<in> set (db_tasks db). task_owner w \<in> known_invoices db)
      \<and> (\<forall>(t, i, n) \<in> attempt_key ` set (db_attempts db). n \<le> task_attempt db (t, i)))"

definition same_book :: "string \<times> string \<Rightarrow> db \<Rightarrow> db \<Rightarrow> bool" where
  "same_book k db db' =
     (known_invoices db' = known_invoices db
      \<and> task_owner ` set (db_tasks db') \<subseteq> insert k (task_owner ` set (db_tasks db)))"

definition same_attempts :: "db \<Rightarrow> db \<Rightarrow> bool" where
  "same_attempts db db' = (map attempt_key (db_attempts db') = map attempt_key (db_attempts db))"

interpretation book: tx_frame "same_book k" for k
  by unfold_locales (unfold same_book_def, blast+)

interpretation attempts: tx_frame same_attempts
  by unfold_locales (simp_all add: same_attempts_def)

lemma same_book_owner:
  "same_book k db db' \<Longrightarrow> v \<in> set (db_tasks db') \<Longrightarrow>
     task_owner v = k \<or> (\<exists>w \<in> set (db_tasks db). task_owner v = task_owner w)"
  unfolding same_book_def by blast

lemma same_book_known: "same_book k db db' \<Longrightarrow> known_invoices db' = known_invoices db"
  by (simp add: same_book_def)

lemma safe_dense: "safe t db db' \<Longrightarrow> maintains events_dense db db'"
  by (simp add: safe_def)

lemma image_update_rows:
  "(\<And>r. p r \<Longrightarrow> key (f r) = key r) \<Longrightarrow> key ` set (update_rows p f rows) = key ` set rows"
  using map_update_rows [of p key f rows] by (metis list.set_map)

lemma lock_book:
  assumes "lock_invoice_and_advance t i st ag su n now cs db = Inr (s, db')"
  shows "known_invoices db' = known_invoices db \<and> (t, i) \<in> known_invoices db
    \<and> db_tasks db' = db_tasks db \<and> db_attempts db' = db_attempts db"
proof -
  from assms obtain r f where "find_invoice t i db = Some r" and
    inv: "db_invoices db' = update_rows (\<lambda>r. invoice_key r = (t, i)) f (db_invoices db)"
    and f: "\<And>r. invoice_key (f r) = invoice_key r"
    and "db_tasks db' = db_tasks db" "db_attempts db' = db_attempts db"
    by (auto simp: lock_Inr invoice_key_def)
  moreover from inv f have "known_invoices db' = known_invoices db"
    unfolding known_invoices_def by (simp add: image_update_rows)
  ultimately show ?thesis
    by (auto simp: known_invoices_def dest!: find_invoice_Some) (metis imageI)
qed

lemma book_statements:
  "keeps (same_book k) (lock_invoice_and_advance t i st ag su n now cs)"
  "keeps (same_book k) (insert_event e)"
  "(\<And>w. task_owner (f w) = task_owner w) \<Longrightarrow> keeps (same_book k) (tx_update db_tasks_update p f)"
  "keeps (same_book k) (tx_update db_attempts_update q g)"
  "keeps (same_book k) (tx_update db_retries_update y h)"
  "task_owner w = k \<Longrightarrow> keeps (same_book k) (tx_append db_tasks_update w)"
  "keeps (same_book k) (tx_append db_attempts_update a)"
  "keeps (same_book k) (tx_append db_runs_update r)"
  "keeps (same_book k) (tx_append db_claim_sets_update s)"
  "keeps (same_book k) (tx_append db_claims_update c)"
  "keeps (same_book k) (tx_append db_retries_update z)"
  by (auto simp: keeps_def same_book_def known_invoices_def insert_event_Inr tx_simps
      image_update_rows dest!: lock_book)

lemma attempts_statements:
  "keeps same_attempts (lock_invoice_and_advance t i st ag su n now cs)"
  "keeps same_attempts (insert_event e)"
  "keeps same_attempts (tx_update db_tasks_update p f)"
  "(\<And>a. attempt_key (g a) = attempt_key a) \<Longrightarrow> keeps same_attempts (tx_update db_attempts_update q g)"
  "keeps same_attempts (tx_update db_retries_update y h)"
  "keeps same_attempts (tx_append db_tasks_update w)"
  "keeps same_attempts (tx_append db_runs_update r)"
  "keeps same_attempts (tx_append db_claim_sets_update s)"
  "keeps same_attempts (tx_append db_claims_update c)"
  "keeps same_attempts (tx_append db_retries_update z)"
  by (auto simp: keeps_def same_attempts_def lock_Inr insert_event_Inr tx_simps map_update_rows)

lemmas book_intros = book.keeps_intros book_statements
lemmas attempts_intros = attempts.keeps_intros attempts_statements

lemma claim_book: "keeps (same_book k) (claim_next_extraction_task t w secs locked now ids)"
  unfolding claim_next_extraction_task_def start_attempt_def Let_def
  by (intro book_intros) (auto simp: task_owner_def)

lemma complete_book:
  "keeps (same_book (t, le_invoice l)) (complete_extraction t l v response ref now ids)"
  "keeps same_attempts (complete_extraction t l v response ref now ids)"
  unfolding complete_extraction_def assert_current_lease_def insert_run_def insert_claim_set_def
    close_task_def hand_to_reconstruction_def enqueue_task_def ask_for_evidence_def Let_def
  by (intro book_intros attempts_intros;
      auto simp: task_owner_def attempt_key_def reconstruction_task_def
        intro!: book_intros attempts_intros split: prod.splits)+

lemma fail_book:
  "keeps (same_book k) (fail_extraction t l err retryable now ids)"
  "keeps same_attempts (fail_extraction t l err retryable now ids)"
  unfolding fail_extraction_def assert_current_lease_def release_task_def Let_def
  by (intro book_intros attempts_intros; auto simp: task_owner_def attempt_key_def)+

lemma retry_book:
  "keeps (same_book (t, i)) (retry_extraction_task t i key expected u a now ids)"
  "keeps same_attempts (retry_extraction_task t i key expected u a now ids)"
  unfolding retry_extraction_task_def reserve_retry_def requeue_def Let_def
  by (auto simp: task_owner_def retried_task_def split: prod.splits option.splits
      intro!: book_intros attempts_intros)

lemma claim_attempts:
  assumes "claim_next_extraction_task t worker secs locked now ids db = Inr (Some l, db')"
  shows "attempt_key ` set (db_attempts db') =
    insert (t, le_task l, le_attempt l) (attempt_key ` set (db_attempts db))"
proof -
  let ?cs = "extraction_candidates t now locked db"
  from assms obtain r rs where rows: "?cs = r # rs"
    by (cases ?cs) (auto simp: claim_next_extraction_task_def tx_simps)
  from assms rows obtain db1 s1 db2 where
    s: "start_attempt t l now db = Inr ((), db1)"
    and k: "lock_invoice_and_advance t (le_invoice l) ''INITIAL_PROCESSING''
       ''INITIAL_PROCESSING'' ''INITIAL_PROCESSING'' 1 now None db1 = Inr (s1, db2)"
    and e: "db_attempts db' = db_attempts db2"
    by (auto simp: claim_next_extraction_task_def tx_simps Let_def insert_event_Inr)
  from lock_book [OF k] e s show ?thesis
    by (auto simp: start_attempt_def tx_simps attempt_key_def)
qed

lemma ready_claim:
  assumes "extraction_ready db" "extraction_claims db x db'"
  shows "extraction_ready db'"
proof -
  obtain t l where x: "x = (t, l)" by (cases x)
  from assms(2) x obtain worker secs locked now ids where
    c: "claim_next_extraction_task t worker secs locked now ids db = Inr (Some l, db')"
    by (auto simp: extraction_claims_def)
  from claim_cases [OF c] obtain w s where "(w, s) \<in> set (extraction_candidates t now locked db)"
    by blast
  then have "w \<in> set (db_tasks db)" by (simp add: extraction_candidates_in)
  with assms(1) have wt: "task_owner w \<in> known_invoices db" by (simp add: extraction_ready_def)
  have d: "task_keys_distinct db" using assms(1) by (simp add: extraction_ready_def)
  note f = claim_fencing [OF d assms(2)]
  have "events_dense db'"
    using safe.keepsD [OF safe_claim c] assms(1)
    by (simp add: safe_def maintains_def extraction_ready_def)
  moreover have "\<forall>w \<in> set (db_tasks db'). task_owner w \<in> known_invoices db'"
  proof
    fix v assume v: "v \<in> set (db_tasks db')"
    have b: "same_book (task_owner w) db db'" by (rule book.keepsD [OF claim_book c])
    from same_book_owner [OF b v] wt assms(1) show "task_owner v \<in> known_invoices db'"
      unfolding same_book_known [OF b] extraction_ready_def by auto
  qed
  moreover have "\<forall>(t, i, n) \<in> attempt_key ` set (db_attempts db'). n \<le> task_attempt db' (t, i)"
  proof
    fix k assume "k \<in> attempt_key ` set (db_attempts db')"
    then have "k = (t, le_task l, le_attempt l) \<or> k \<in> attempt_key ` set (db_attempts db)"
      by (simp add: claim_attempts [OF c])
    with f assms(1) show "case k of (t', i', n) \<Rightarrow> n \<le> task_attempt db' (t', i')"
      by (cases k) (auto simp: x extraction_ready_def leased_task_def leased_attempt_def)
  qed
  ultimately show ?thesis using f by (simp add: extraction_ready_def)
qed

text \<open>A step that keeps the books, in a state where the invoice it is about is known.\<close>

lemma ready_step:
  assumes "extraction_ready db" "same_book k db db'"
    and "k \<in> known_invoices db \<or> db_tasks db' = db_tasks db" "same_attempts db db'"
    and "task_keys_distinct db'" "task_attempt db' = task_attempt db" "maintains events_dense db db'"
  shows "extraction_ready db'"
proof -
  have "attempt_key ` set (db_attempts db') = attempt_key ` set (db_attempts db)"
    using assms(4) unfolding same_attempts_def by (metis list.set_map)
  moreover have "\<forall>w \<in> set (db_tasks db'). task_owner w \<in> known_invoices db'"
  proof
    fix v assume "v \<in> set (db_tasks db')"
    with assms(3) same_book_owner [OF assms(2)] assms(1) show "task_owner v \<in> known_invoices db'"
      unfolding same_book_known [OF assms(2)] extraction_ready_def by (metis (no_types))
  qed
  ultimately show ?thesis
    using assms(1,5-7) by (simp add: extraction_ready_def maintains_def)
qed

text \<open>Bodies that end only when the invoice is known.\<close>

definition needs :: "string \<times> string \<Rightarrow> 'a tx \<Rightarrow> bool" where
  "needs k m = (\<forall>db a db'. m db = Inr (a, db') \<longrightarrow> k \<in> known_invoices db')"

lemma needs_lock: "needs (t, i) (lock_invoice_and_advance t i st ag su n now cs)"
  by (auto simp: needs_def dest: lock_book)

lemma needs_bind_left: "needs k m \<Longrightarrow> (\<And>a. keeps (same_book k) (n a)) \<Longrightarrow> needs k (tx_bind m n)"
  unfolding needs_def keeps_def tx_bind_Inr same_book_def by blast

lemma needs_bind: "(\<And>a. needs k (n a)) \<Longrightarrow> needs k (tx_bind m n)"
  unfolding needs_def tx_bind_Inr by blast

lemma needs_left: "needs k m \<Longrightarrow> keeps (same_book k) n \<Longrightarrow> needs k (tx_then m n)"
  unfolding tx_then_def by (rule needs_bind_left)

lemma needs_then: "needs k n \<Longrightarrow> needs k (tx_then m n)"
  unfolding tx_then_def by (rule needs_bind)

lemma needsD: "needs k m \<Longrightarrow> m db = Inr (a, db') \<Longrightarrow> k \<in> known_invoices db'"
  by (simp add: needs_def)

lemma needs_complete: "needs (t, le_invoice l) (complete_extraction t l v response ref now ids)"
proof -
  have "needs (t, le_invoice l) (hand_to_reconstruction t l v i n now ids)" for i n
    unfolding hand_to_reconstruction_def Let_def
    by (intro needs_then needs_bind_left needs_lock book_intros)
  moreover have "needs (t, le_invoice l) (ask_for_evidence t l v i n now ids)" for i n
    unfolding ask_for_evidence_def by (intro needs_bind_left needs_lock book_intros)
  ultimately have "needs (t, le_invoice l)
    (if claims_passed v then hand_to_reconstruction t l v i n now ids
     else ask_for_evidence t l v i n now ids)" for i n by simp
  then show ?thesis
    unfolding complete_extraction_def
    by (rule needs_then [OF needs_bind, OF needs_then, OF needs_then, OF needs_then, OF needs_left])
      (rule book.keeps_return)
qed

lemma needs_fail: "needs (t, le_invoice l) (fail_extraction t l err retryable now ids)"
  unfolding fail_extraction_def Let_def
  by (rule needs_then [OF needs_then, OF needs_left, OF needs_bind_left, OF needs_lock])
    (rule book_statements book.keeps_return)+

lemma ready_body:
  assumes "keeps (same_book k) m" "keeps same_attempts m" "keeps (safe t) m" "needs k m"
    and "m db = Inr (a, db')" "extraction_ready db" "task_keys_distinct db'"
    and "task_attempt db' = task_attempt db"
  shows "extraction_ready db'"
proof (rule ready_step)
  show b: "same_book k db db'" by (rule book.keepsD [OF assms(1,5)])
  show "k \<in> known_invoices db \<or> db_tasks db' = db_tasks db"
    using needsD [OF assms(4,5)] same_book_known [OF b] by simp
  show "same_attempts db db'" by (rule attempts.keepsD [OF assms(2,5)])
  show "maintains events_dense db db'" by (rule safe_dense [OF safe.keepsD [OF assms(3,5)]])
qed (rule assms)+

lemma ready_settle:
  assumes "extraction_ready db" "extraction_settles db x db'"
  shows "extraction_ready db'"
proof -
  obtain t l where x: "x = (t, l)" by (cases x)
  have "task_keys_distinct db" using assms(1) by (simp add: extraction_ready_def)
  from settle_fencing [OF this assms(2)]
  have f: "task_keys_distinct db'" "task_attempt db' = task_attempt db" by simp_all
  from assms(2) x consider
    v response ref now ids c where "complete_extraction t l v response ref now ids db = Inr (c, db')"
  | err retryable now ids st where "fail_extraction t l err retryable now ids db = Inr (st, db')"
    by (auto simp: extraction_settles_def)
  then show ?thesis
  proof cases
    case 1
    from ready_body [OF complete_book safe_complete needs_complete 1 assms(1) f] show ?thesis .
  next
    case 2
    from ready_body [OF fail_book safe_fail needs_fail 2 assms(1) f] show ?thesis .
  qed
qed

lemma ready_quiet:
  assumes "extraction_ready db" "extraction_quiet db db'"
  shows "extraction_ready db'"
proof (cases "db' = db")
  case False
  with assms(2) obtain t i key expected u a now ids r where
    c: "retry_extraction_task t i key expected u a now ids db = Inr (r, db')"
    by (auto simp: extraction_quiet_def)
  have d: "task_keys_distinct db" using assms(1) by (simp add: extraction_ready_def)
  note b = book.keepsD [OF retry_book(1) c] attempts.keepsD [OF retry_book(2) c]
    safe.keepsD [OF safe_retry c] quiet_fencing [OF d assms(2)]
  have "(t, i) \<in> known_invoices db \<or> db_tasks db' = db_tasks db"
  proof (rule disjCI)
    assume "db_tasks db' \<noteq> db_tasks db"
    from c obtain request db1 where r: "reserve_retry t i key expected u a db = Inr (request, db1)"
      and rest: "(if rr_state request = ''COMPLETED'' then db' = db1
        else find_invoice t i db1 \<noteq> None)"
      by (auto simp: retry_extraction_task_def tx_simps split: if_splits option.splits prod.splits)
    from r have "db_tasks db1 = db_tasks db" "db_invoices db1 = db_invoices db"
      by (auto simp: reserve_retry_def tx_simps split: option.splits)
    with rest \<open>db_tasks db' \<noteq> db_tasks db\<close> have "find_invoice t i db \<noteq> None"
      by (auto simp: find_invoice_def split: if_splits)
    then show "(t, i) \<in> known_invoices db"
      by (auto simp: known_invoices_def dest!: find_invoice_Some) (metis imageI)
  qed
  with b safe_dense [OF b(3)] show ?thesis by (intro ready_step [OF assms(1), of "(t, i)"]) simp_all
qed (use assms in simp)

lemma extraction_ready_run:
  "lease_run extraction_claims extraction_settles extraction_quiet db tr db' \<Longrightarrow>
     extraction_ready db \<Longrightarrow> extraction_ready db'"
  by (induction rule: lease_run.induct) (blast intro: ready_claim ready_settle ready_quiet)+

lemma ready_lock:
  assumes "events_dense db" "(t, i) \<in> known_invoices db"
  shows "\<exists>s db'. lock_invoice_and_advance t i st ag su n now cs db = Inr (s, db')
    \<and> (t, i, s) \<notin> event_key ` set (db_events db') \<and> db_events db' = db_events db"
proof -
  from assms(2) have "find_invoice t i db \<noteq> None"
    by (auto simp: find_invoice_def known_invoices_def find_None_iff)
  then obtain r where r: "find_invoice t i db = Some r" by blast
  from dense_fresh_sequence [OF assms(1) r, of "in_sequence r + 1"]
  show ?thesis by (auto simp: lock_invoice_and_advance_def r)
qed

lemma ready_claims:
  assumes "extraction_ready db" "extraction_candidates t now locked db = r # rs"
  shows "\<exists>l db'. claim_next_extraction_task t worker secs locked now ids db = Inr (Some l, db')"
proof -
  let ?l = "lease_of worker (now + secs * second) (fst (min_by claim_order r rs)) (snd (min_by claim_order r rs))"
  obtain w s where ws: "min_by claim_order r rs = (w, s)" by fastforce
  with assms(2) min_by_in [of claim_order r rs]
  have "(w, s) \<in> set (extraction_candidates t now locked db)" by simp
  then have w: "w \<in> set (db_tasks db)" "tk_tenant w = t" by (simp_all add: extraction_candidates_in)
  with assms(1) have at: "task_at (t, tk_id w) db = Some w"
    using task_at_in [of db w] by (simp add: extraction_ready_def task_pk_def)
  have "(t, tk_id w, tk_attempt w + 1) \<notin> attempt_key ` set (db_attempts db)"
  proof
    assume "(t, tk_id w, tk_attempt w + 1) \<in> attempt_key ` set (db_attempts db)"
    with assms(1) have "tk_attempt w + 1 \<le> task_attempt db (t, tk_id w)"
      unfolding extraction_ready_def by fastforce
    with at show False by (simp add: task_attempt_def)
  qed
  then obtain db1 where s1: "start_attempt t ?l now db = Inr ((), db1)"
    and e1: "db_invoices db1 = db_invoices db" "db_events db1 = db_events db"
    by (simp add: start_attempt_def tx_run ws lease_of_def attempt_key_def)
  have "events_dense db1" using assms(1) e1 by (simp add: extraction_ready_def events_dense_def)
  moreover have "(t, tk_invoice w) \<in> known_invoices db1"
    using assms(1) w e1 by (force simp: extraction_ready_def known_invoices_def task_owner_def)
  ultimately obtain q db2 where
    s2: "lock_invoice_and_advance t (tk_invoice w) ''INITIAL_PROCESSING'' ''INITIAL_PROCESSING''
      ''INITIAL_PROCESSING'' 1 now None db1 = Inr (q, db2)"
    and q: "(t, tk_invoice w, q) \<notin> event_key ` set (db_events db2)"
    using ready_lock by metis
  have "insert_event e db2 \<noteq> Inl x" if "event_key e = (t, tk_invoice w, q)" for e x
    using q that by (simp add: insert_event_def insert_row_def)
  with s1 s2 ws assms(2) show ?thesis
    by (simp add: claim_next_extraction_task_def Let_def tx_bind_def tx_then_def tx_read_def
        tx_return_def lease_of_def event_key_def del: One_nat_def split: sum.split)
qed

text \<open>
  C14: claiming never gets stuck and is fair. After every history of extraction transactions from a
  state whose books are in order, claiming succeeds; it returns no lease exactly when no
  task is runnable, and otherwise the lease of the runnable task that was created first, with the
  attempt after the task's last one.
\<close>

theorem claim_never_stuck:
  assumes "extraction_ready db0" "extraction_history db0 tr db"
  shows "\<exists>res db'. claim_next_extraction_task t worker secs locked now ids db = Inr (res, db')
    \<and> (res = None \<longleftrightarrow> extraction_candidates t now locked db = [])
    \<and> (\<forall>l. res = Some l \<longrightarrow> (\<exists>(w, s) \<in> set (extraction_candidates t now locked db).
         (\<forall>r \<in> set (extraction_candidates t now locked db). claim_order (w, s) \<le> claim_order r)
         \<and> l = lease_of worker (now + secs * second) w s \<and> le_attempt l = tk_attempt w + 1))"
proof (cases "extraction_candidates t now locked db")
  case Nil
  then show ?thesis by (simp add: claim_next_extraction_task_def tx_run)
next
  case (Cons r rs)
  from extraction_ready_run assms have "extraction_ready db" unfolding extraction_history_def by blast
  from ready_claims [OF this Cons] obtain l db' where
    c: "claim_next_extraction_task t worker secs locked now ids db = Inr (Some l, db')" by blast
  from claim_cases [OF c] obtain w s where
    ws: "(w, s) \<in> set (extraction_candidates t now locked db)"
    and le: "\<forall>x \<in> set (extraction_candidates t now locked db). claim_order (w, s) \<le> claim_order x"
    and l: "l = lease_of worker (now + secs * second) w s" by blast
  have "le_attempt l = tk_attempt w + 1" by (simp add: l lease_of_def)
  with c ws le l show ?thesis
    by (intro exI [of _ "Some l"] exI [of _ db'] conjI allI impI bexI [of _ "(w, s)"])
      (simp_all add: Cons)
qed

theorem claim_never_stuck_witness:
  "\<exists>l db'. claim_next_extraction_task ''t'' ''w3'' 1 (\<lambda>_. False) 9000000 (fresh_id 3) failed_after
     = Inr (Some l, db')"
proof -
  have "extraction_ready (sample_db [sample_task 0])"
    by (simp add: extraction_ready_def sample_db_def sample_row_defs empty_db_def task_keys_distinct_def
        events_dense_def event_sequence_def task_owner_def known_invoices_def invoice_key_def
        sample_task_def)
  from claim_never_stuck [OF this sample_history, of "''t''" "''w3''" 1 "\<lambda>_. False" 9000000 "fresh_id 3"]
  obtain res db' where c: "claim_next_extraction_task ''t'' ''w3'' 1 (\<lambda>_. False) 9000000 (fresh_id 3) failed_after
     = Inr (res, db')" and n: "res = None \<longleftrightarrow> extraction_candidates ''t'' 9000000 (\<lambda>_. False) failed_after = []"
    by blast
  have "extraction_candidates ''t'' 9000000 (\<lambda>_. False) failed_after \<noteq> []" by code_simp
  with n obtain l where "res = Some l" by blast
  with c show ?thesis by blast
qed

section \<open>Failing and retrying\<close>

text \<open>
  C16: a failed attempt is retried at most twice, with a growing pause. Failing a held lease leaves
  the task in \<open>RETRY_WAIT\<close> exactly when the error is retryable and the attempt is below three; it
  is then not runnable before \<open>2\<close> to the power of the attempt seconds have passed and runnable from
  then on. Otherwise the task is \<open>FAILED\<close> and no worker can claim it at any time. The owner is cleared
  and the invoice reports the block, with an unavailable source told apart.
\<close>

theorem failed_attempt_backoff:
  assumes "task_keys_distinct db" "fail_extraction t l err retryable now ids db = Inr (st, db')"
  shows "(st = TaskRetryWait \<longleftrightarrow> retryable \<and> le_attempt l < 3) \<and> st \<in> {TaskRetryWait, TaskFailed}
    \<and> (\<exists>w. task_at (t, le_task l) db' = Some w \<and> tk_state w = st \<and> tk_owner w = None
         \<and> (\<forall>later. runnable later w \<longleftrightarrow>
              st = TaskRetryWait \<and> now + 2 ^ le_attempt l * second \<le> later))
    \<and> (\<exists>r. find_invoice t (le_invoice l) db' = Some r \<and> in_intake_state r =
         (if st = TaskRetryWait then ''INITIAL_PROCESSING''
          else if starts_with ''SOURCE_'' err then ''BLOCKED_SOURCE_VERSION_UNAVAILABLE''
          else ''EXTRACTION_FAILED''))"
proof -
  from assms(2) obtain db1 s db2 where h: "holds_lease t l db" and st: "st = failed_state l retryable"
    and r: "release_task t l err retryable now db = Inr ((), db1)"
    and k: "lock_invoice_and_advance t (le_invoice l) (failed_intake_state l err retryable)
        (if will_retry l retryable then ''INITIAL_PROCESSING'' else ''BLOCKED'')
        (if will_retry l retryable then ''INITIAL_PROCESSING'' else ''BLOCKED'') 1 now None db1 = Inr (s, db2)"
    and e: "db_tasks db' = db_tasks db2" "db_invoices db' = db_invoices db2"
    by (auto simp: fail_extraction_def tx_simps assert_lease_Inr Let_def insert_event_Inr simp del: One_nat_def)
  from h obtain w where w: "task_at (t, le_task l) db = Some w" "lease_task t l w"
    by (auto simp: holds_lease_at lease_task_def dest: task_at_Some)
  from r k e have rows: "db_tasks db' = update_rows (lease_task t l)
       (\<lambda>w. w\<lparr>tk_state := failed_state l retryable,
          tk_not_before := (if will_retry l retryable
            then Some (now + 2 ^ le_attempt l * second) else None),
          tk_owner := None, tk_expires := None, tk_error := Some err,
          tk_summary := Some (if will_retry l retryable then ''Extraction will retry''
            else ''Extraction is blocked''),
          tk_updated := now\<rparr>) (db_tasks db)"
    by (auto simp: release_task_def tx_simps lock_Inr)
  have "\<exists>v. task_at (t, le_task l) db' = Some v \<and> tk_state v = failed_state l retryable \<and> tk_owner v = None
      \<and> tk_not_before v = (if will_retry l retryable then Some (now + 2 ^ le_attempt l * second) else None)"
    using w by (simp add: task_at_update [OF _ rows] task_pk_def)
  moreover have "\<exists>q. find_invoice t (le_invoice l) db' = Some q
      \<and> in_intake_state q = failed_intake_state l err retryable"
    using lock_invoice [OF k] e(2) by (auto simp: find_invoice_def)
  ultimately show ?thesis
    unfolding st failed_state_def failed_intake_state_def will_retry_def max_automatic_attempts_def
    by (auto simp: runnable_def split: if_splits)
qed

theorem failed_attempt_backoff_witness:
  "\<exists>w. task_at (''t'', ''k'') failed_after = Some w \<and> runnable 6500000 w \<and> \<not> runnable 6499999 w"
proof -
  have d: "task_keys_distinct claimed_twice" by code_simp
  from sample_second_failure have f: "fail_extraction ''t'' (sample_lease ''w2'' 2 3000000) ''TIMEOUT'' True
      2500000 (fresh_id 2) claimed_twice = Inr (TaskRetryWait, failed_after)" by (simp add: second_failure_def)
  from failed_attempt_backoff [OF d f] show ?thesis by (auto simp: sample_lease_def second_def)
qed

lemma reserve_retry_Inr:
  "reserve_retry t i key expected u a db = Inr (y, db1) \<Longrightarrow>
     List.find (\<lambda>r. retry_key r = (t, key)) (db_retries db1) = Some y \<and> rr_invoice y = i
     \<and> rr_hash y = retry_request_hash i expected"
  by (auto simp: reserve_retry_def tx_simps split: option.splits)

lemma retry_cases:
  assumes "retry_extraction_task t i key expected u a now ids db = Inr (r, db')"
  shows "\<exists>y db1. reserve_retry t i key expected u a db = Inr (y, db1)
    \<and> (if rr_state y = ''COMPLETED''
       then db' = db1 \<and> rr_snapshot y = Some (rt_task r, rt_version r, rt_row_version r)
       else \<exists>w v. requeue t i key u a w v now ids db1 = Inr (r, db'))"
proof -
  from assms obtain y db1 where y: "reserve_retry t i key expected u a db = Inr (y, db1)"
    unfolding retry_extraction_task_def tx_bind_Inr by blast
  show ?thesis
  proof (cases "rr_state y = ''COMPLETED''")
    case True
    with assms y show ?thesis
      by (cases "rr_snapshot y") (auto simp: retry_extraction_task_def tx_bind_def tx_return_def tx_raise_def)
  next
    case False
    with assms y show ?thesis
      by (cases "find_invoice t i db1"; cases "latest_extraction_task t i db1")
        (auto simp: retry_extraction_task_def tx_bind_def tx_raise_def tx_read_def tx_then_def
          tx_require_def split: if_splits)
  qed
qed

text \<open>
  An operator's retry is idempotent. When a retry request succeeds, repeating it under the
  same key, at any time and by anyone, returns the same task, version and row version, marked as a
  replay, and changes nothing; using the key for another invoice or version raises
  \<open>IDEMPOTENCY_CONFLICT\<close>.
\<close>

theorem retry_idempotent:
  assumes "retry_extraction_task t i key expected u a now ids db = Inr (r, db')"
  shows "retry_extraction_task t i key expected u' a' now' ids' db' = Inr (r\<lparr>rt_replay := True\<rparr>, db')
    \<and> (i' \<noteq> i \<or> retry_request_hash i' expected' \<noteq> retry_request_hash i expected \<longrightarrow>
        retry_extraction_task t i' key expected' u' a' now' ids' db' = Inl (Raised ''IDEMPOTENCY_CONFLICT''))"
proof -
  let ?h = "retry_request_hash i expected"
  have "\<exists>y. List.find (\<lambda>r. retry_key r = (t, key)) (db_retries db') = Some y \<and> rr_invoice y = i
      \<and> rr_hash y = ?h \<and> rr_state y = ''COMPLETED''
      \<and> rr_snapshot y = Some (rt_task r, rt_version r, rt_row_version r)"
  proof -
    from retry_cases [OF assms] obtain y db1 where "reserve_retry t i key expected u a db = Inr (y, db1)"
      and rest: "if rr_state y = ''COMPLETED''
        then db' = db1 \<and> rr_snapshot y = Some (rt_task r, rt_version r, rt_row_version r)
        else \<exists>w v. requeue t i key u a w v now ids db1 = Inr (r, db')" by blast
    from reserve_retry_Inr [OF this(1)] have
      y: "List.find (\<lambda>r. retry_key r = (t, key)) (db_retries db1) = Some y" "rr_invoice y = i" "rr_hash y = ?h"
      by blast+
    have rest: "if rr_state y = ''COMPLETED'' then db' = db1
          \<and> rr_snapshot y = Some (rt_task r, rt_version r, rt_row_version r)
        else db_retries db' = update_rows (\<lambda>r. retry_key r = (t, key))
           (\<lambda>y. y\<lparr>rr_state := ''COMPLETED'',
              rr_snapshot := Some (rt_task r, rt_version r, rt_row_version r)\<rparr>) (db_retries db1)"
      using rest by (auto simp: requeue_def tx_simps Let_def lock_Inr insert_event_Inr split: if_splits)
    from find_SomeD [OF y(1)] have "retry_key y = (t, key)" by simp
    with y rest show ?thesis
      by (auto simp: find_update_rows retry_key_def split: if_splits)
  qed
  then obtain y where y: "List.find (\<lambda>r. retry_key r = (t, key)) (db_retries db') = Some y"
    "rr_invoice y = i" "rr_hash y = ?h" "rr_state y = ''COMPLETED''"
    "rr_snapshot y = Some (rt_task r, rt_version r, rt_row_version r)" by blast
  then have "(t, key) \<in> retry_key ` set (db_retries db')"
    by (auto dest!: find_SomeD) (metis imageI)
  then have "retry_key z = (t, key) \<Longrightarrow> tx_insert_absent db_retries db_retries_update retry_key z db' = Inr ((), db')"
    for z by (simp add: tx_insert_absent_def)
  with y show ?thesis
    by (auto simp: retry_extraction_task_def reserve_retry_def tx_bind_def tx_then_def tx_read_def
        tx_require_def tx_return_def retry_key_def)
qed

definition sample_failed :: task_row where
  "sample_failed = (sample_task 3)\<lparr>tk_state := TaskFailed\<rparr>"

definition two_ids :: "nat \<Rightarrow> string" where
  "two_ids n = (if n = 0 then ''x'' else ''y'')"

lemma sample_retry:
  "\<exists>r db'. retry_extraction_task ''t'' ''i'' ''key'' 1 None ''op'' 5 two_ids (sample_db [sample_failed])
     = Inr (r, db')"
  by (simp add: retry_extraction_task_def reserve_retry_def requeue_def tx_run Let_def retry_key_def
      sample_db_def sample_row_defs empty_db_def find_invoice_def invoice_key_def latest_extraction_task_def
      sample_failed_def sample_task_def retried_task_def task_pk_def task_identity_def two_ids_def
      lock_invoice_and_advance_def insert_event_def insert_row_def)

theorem retry_idempotent_witness:
  "\<exists>r db'. retry_extraction_task ''t'' ''i'' ''key'' 1 None ''op'' 5 two_ids (sample_db [sample_failed])
       = Inr (r, db')
     \<and> retry_extraction_task ''t'' ''i'' ''key'' 1 (Some ''u'') ''other'' 9 (fresh_id 5) db'
       = Inr (r\<lparr>rt_replay := True\<rparr>, db')"
proof -
  from sample_retry obtain r db' where
    s: "retry_extraction_task ''t'' ''i'' ''key'' 1 None ''op'' 5 two_ids (sample_db [sample_failed])
       = Inr (r, db')" by blast
  from retry_idempotent [OF s, of "Some ''u''" "''other''" 9 "fresh_id 5"] s show ?thesis by blast
qed

section \<open>Completing\<close>

lemma insert_claims:
  "tx_for cs (\<lambda>c. tx_insert ix db_claims db_claims_update claim_key \<lparr>cl_tenant = t, cl_set = i, cl_claim = c\<rparr>) db
     = Inr (u, db') \<Longrightarrow>
   db_claims db' = db_claims db @ map (\<lambda>c. \<lparr>cl_tenant = t, cl_set = i, cl_claim = c\<rparr>) cs
     \<and> db_claim_sets db' = db_claim_sets db \<and> db_tasks db' = db_tasks db \<and> db_runs db' = db_runs db
     \<and> (\<forall>c \<in> set cs. \<forall>x \<in> set (db_claims db). claim_key x \<noteq> (t, i, vc_field c))"
proof (induction cs arbitrary: db)
  case (Cons c cs)
  from Cons.prems obtain db1 where n: "\<forall>x \<in> set (db_claims db). claim_key x \<noteq> (t, i, vc_field c)"
    and d: "db1 = db_claims_update (\<lambda>rows. rows @ [\<lparr>cl_tenant = t, cl_set = i, cl_claim = c\<rparr>]) db"
    and r: "tx_for cs (\<lambda>c. tx_insert ix db_claims db_claims_update claim_key \<lparr>cl_tenant = t, cl_set = i, cl_claim = c\<rparr>) db1
     = Inr (u, db')" by (auto simp: tx_simps) (metis claim_key_def claim_row.select_convs(1,2,3) imageI)
  from Cons.IH [OF r] d n show ?case by simp
qed (simp add: tx_simps)

lemma insert_claims_ok:
  assumes "distinct (map vc_field cs)" "\<forall>c \<in> set cs. (t, i, vc_field c) \<notin> claim_key ` set (db_claims db)"
  shows "tx_for cs (\<lambda>c. tx_insert ix db_claims db_claims_update claim_key \<lparr>cl_tenant = t, cl_set = i, cl_claim = c\<rparr>) db
     = Inr ((), db_claims_update (\<lambda>rows. rows @ map (\<lambda>c. \<lparr>cl_tenant = t, cl_set = i, cl_claim = c\<rparr>) cs) db)"
  using assms
proof (induction cs arbitrary: db)
  case (Cons c cs)
  let ?db = "db_claims_update (\<lambda>rows. rows @ [\<lparr>cl_tenant = t, cl_set = i, cl_claim = c\<rparr>]) db"
  from Cons.prems have step: "tx_insert ix db_claims db_claims_update claim_key \<lparr>cl_tenant = t, cl_set = i, cl_claim = c\<rparr> db
      = Inr ((), ?db)"
    by (simp add: tx_run claim_key_def insert_row_def)
  from Cons.prems have "\<forall>x \<in> set cs. (t, i, vc_field x) \<notin> claim_key ` set (db_claims ?db)"
    by (auto simp: claim_key_def) (metis imageI)
  with Cons.IH [of ?db] Cons.prems(1) step show ?case by (simp add: tx_run comp_def)
qed (simp add: tx_run)

definition same_claims :: "db \<Rightarrow> db \<Rightarrow> bool" where
  "same_claims db db' = (db_claims db' = db_claims db \<and> db_claim_sets db' = db_claim_sets db)"

interpretation claims: tx_frame same_claims
  by unfold_locales (simp_all add: same_claims_def)

lemma same_claims_statements:
  "keeps same_claims (lock_invoice_and_advance t i st ag su n now cs)"
  "keeps same_claims (insert_event e)"
  "keeps same_claims (tx_update db_tasks_update p f)"
  "keeps same_claims (tx_update db_attempts_update q g)"
  "keeps same_claims (tx_append db_tasks_update w)"
  "keeps same_claims (tx_append db_runs_update r)"
  by (auto simp: keeps_def same_claims_def lock_Inr insert_event_Inr tx_simps)

lemmas same_claims_intros = claims.keeps_intros same_claims_statements

lemma complete_steps:
  assumes "complete_extraction t l v response ref now ids db = Inr (c, db')"
  shows "\<exists>db1 db2 db3 summary. let version = next_claim_set_version t (le_invoice l) db in
    insert_run t l v response ref now (ids 0) db = Inr ((), db1)
    \<and> insert_claim_set t l v version (ids 1) (ids 0) db1 = Inr ((), db2)
    \<and> close_task t l summary now db2 = Inr ((), db3)
    \<and> (if claims_passed v then hand_to_reconstruction t l v (ids 1) version now ids
       else ask_for_evidence t l v (ids 1) version now ids) db3 = Inr ((), db')
    \<and> c = \<lparr>ec_run = ids 0, ec_claim_set = ids 1, ec_version = version,
          ec_reconstruction = (if claims_passed v then Some (ids 2) else None),
          ec_status = (if claims_passed v then ''RECONSTRUCTING'' else ''NEEDS_EVIDENCE'')\<rparr>"
  using assms unfolding complete_extraction_def Let_def tx_bind_Inr tx_then_Inr tx_read_Inr
    tx_return_Inr assert_lease_Inr by (elim exE conjE, hypsubst) (intro exI conjI; (assumption | rule refl))

lemma same_claims_run: "keeps same_claims (insert_run t l v response ref now i)"
  unfolding insert_run_def by (intro same_claims_intros) (auto intro!: same_claims_intros)

lemma same_claims_hand_off:
  "keeps same_claims (if claims_passed v then hand_to_reconstruction t l v i n now ids
     else ask_for_evidence t l v i n now ids)"
  unfolding hand_to_reconstruction_def enqueue_task_def ask_for_evidence_def Let_def
  by (intro same_claims_intros)

lemma completed_claim_rows:
  assumes "complete_extraction t l v response ref now ids db = Inr (c, db')"
  shows "db_claim_sets db' = db_claim_sets db @
      [\<lparr>cs_tenant = t, cs_id = ec_claim_set c, cs_invoice = le_invoice l, cs_version = ec_version c,
        cs_run = ec_run c, cs_validation = validation_text v, cs_issues = cl_issues v\<rparr>]"
    and "db_claims db' = db_claims db @
        map (\<lambda>x. \<lparr>cl_tenant = t, cl_set = ec_claim_set c, cl_claim = x\<rparr>) (cl_claims v)"
    and "\<forall>x \<in> set (cl_claims v). \<forall>y \<in> set (db_claims db). claim_key y \<noteq> (t, ec_claim_set c, vc_field x)"
    and "\<forall>s \<in> set (db_claim_sets db). cs_tenant s = t \<and> cs_invoice s = le_invoice l \<longrightarrow> cs_version s < ec_version c"
proof -
  let ?n = "next_claim_set_version t (le_invoice l) db"
  from complete_steps [OF assms] obtain db1 db2 db3 summary where
    s1: "insert_run t l v response ref now (ids 0) db = Inr ((), db1)"
    and s2: "insert_claim_set t l v ?n (ids 1) (ids 0) db1 = Inr ((), db2)"
    and s3: "close_task t l summary now db2 = Inr ((), db3)"
    and s4: "(if claims_passed v then hand_to_reconstruction t l v (ids 1) ?n now ids
       else ask_for_evidence t l v (ids 1) ?n now ids) db3 = Inr ((), db')"
    and c: "ec_run c = ids 0" "ec_claim_set c = ids 1" "ec_version c = ?n"
    unfolding Let_def by auto
  note k1 = claims.keepsD [OF same_claims_run s1] and k4 = claims.keepsD [OF same_claims_hand_off s4]
  from s3 have k3: "same_claims db2 db3" by (auto simp: close_task_def tx_simps same_claims_def)
  from s2 obtain dbm where
    m: "dbm = db_claim_sets_update (\<lambda>rows. rows @ [\<lparr>cs_tenant = t, cs_id = ids 1, cs_invoice = le_invoice l,
          cs_version = ?n, cs_run = ids 0, cs_validation = validation_text v, cs_issues = cl_issues v\<rparr>]) db1"
    and f: "tx_for (cl_claims v) (\<lambda>c. tx_insert ''extracted_claims_field_idx'' db_claims db_claims_update claim_key
         \<lparr>cl_tenant = t, cl_set = ids 1, cl_claim = c\<rparr>) dbm = Inr ((), db2)"
    by (auto simp: insert_claim_set_def tx_simps)
  note k2 = insert_claims [OF f]
  from k1 k2 k3 k4 m show "db_claim_sets db' = db_claim_sets db @
      [\<lparr>cs_tenant = t, cs_id = ec_claim_set c, cs_invoice = le_invoice l, cs_version = ec_version c,
        cs_run = ec_run c, cs_validation = validation_text v, cs_issues = cl_issues v\<rparr>]"
    by (simp add: c same_claims_def)
  from k1 k2 k3 k4 m show "db_claims db' = db_claims db @
        map (\<lambda>x. \<lparr>cl_tenant = t, cl_set = ec_claim_set c, cl_claim = x\<rparr>) (cl_claims v)"
    by (simp add: c same_claims_def)
  from k1 k2 m show "\<forall>x \<in> set (cl_claims v). \<forall>y \<in> set (db_claims db). claim_key y \<noteq> (t, ec_claim_set c, vc_field x)"
    by (simp add: c same_claims_def)
  show "\<forall>s \<in> set (db_claim_sets db). cs_tenant s = t \<and> cs_invoice s = le_invoice l \<longrightarrow> cs_version s < ec_version c"
    unfolding c next_claim_set_version_def by (auto intro!: le_imp_less_Suc le_foldr_max)
qed

lemma completed_invoice:
  assumes "complete_extraction t l v response ref now ids db = Inr (c, db')"
  shows "\<exists>r. find_invoice t (le_invoice l) db' = Some r \<and> in_claim_set r = Some (ec_version c)
      \<and> in_intake_state r = (if claims_passed v then ''READY_FOR_RECONSTRUCTION'' else ''REQUIRED_FIELD_MISSING'')"
proof -
  from complete_steps [OF assms] obtain db3 where
    "(if claims_passed v then hand_to_reconstruction t l v (ids 1) (ec_version c) now ids
       else ask_for_evidence t l v (ids 1) (ec_version c) now ids) db3 = Inr ((), db')"
    unfolding Let_def by (elim exE conjE) (simp only: extraction_completion.simps)
  then show ?thesis
    by (auto simp: hand_to_reconstruction_def ask_for_evidence_def Let_def tx_simps find_invoice_def
        insert_event_Inr simp del: One_nat_def dest!: lock_invoice split: if_splits)
qed

lemma completed_task:
  assumes "complete_extraction t l v response ref now ids db = Inr (c, db')" "claims_passed v"
  shows "\<exists>w \<in> set (db_tasks db'). task_identity w = (t, le_invoice l, StartReconstruction, 1,
    task_input_fingerprint StartReconstruction (reconstruction_refs l (ec_claim_set c) (ec_version c)))"
proof -
  from complete_steps [OF assms(1)] assms(2) obtain db3 where
    "hand_to_reconstruction t l v (ids 1) (ec_version c) now ids db3 = Inr ((), db')" "ec_claim_set c = ids 1"
    unfolding Let_def by auto
  then show ?thesis
    by (auto simp: hand_to_reconstruction_def Let_def tx_simps lock_Inr insert_event_Inr
        enqueue_task_def reconstruction_task_def task_identity_def split: if_splits)
qed

lemma completed_without_task:
  assumes "complete_extraction t l v response ref now ids db = Inr (c, db')" "\<not> claims_passed v"
  shows "map task_pk (db_tasks db') = map task_pk (db_tasks db)"
proof -
  let ?n = "next_claim_set_version t (le_invoice l) db"
  from complete_steps [OF assms(1)] assms(2) obtain db1 db2 db3 summary where
    s1: "insert_run t l v response ref now (ids 0) db = Inr ((), db1)"
    and s2: "insert_claim_set t l v ?n (ids 1) (ids 0) db1 = Inr ((), db2)"
    and s3: "close_task t l summary now db2 = Inr ((), db3)"
    and s4: "ask_for_evidence t l v (ids 1) ?n now ids db3 = Inr ((), db')"
    unfolding Let_def by auto
  from s4 have "db_tasks db' = db_tasks db3" by (auto simp: ask_for_evidence_def tx_simps lock_Inr insert_event_Inr)
  moreover from s3 have "map task_pk (db_tasks db3) = map task_pk (db_tasks db2)"
    by (auto simp: close_task_def tx_simps map_update_rows task_pk_def)
  moreover have "keeps same_tasks (insert_claim_set t l v ?n (ids 1) (ids 0))"
    unfolding insert_claim_set_def by (intro same_tasks_intros)
  from same_tasksD [OF this s2] have "db_tasks db2 = db_tasks db1" .
  moreover have "keeps same_tasks (insert_run t l v response ref now (ids 0))"
    unfolding insert_run_def by (intro same_tasks_intros) (auto intro!: same_tasks_intros)
  from same_tasksD [OF this s1] have "db_tasks db1 = db_tasks db" .
  ultimately show ?thesis by simp
qed

text \<open>
  C15: completing records the claims as a new version and hands on exactly what validated. The
  claim set is appended under a version above every earlier one of the invoice, with all
  validated claims and nothing else; the invoice's active version is that one. If the claims
  passed, the invoice is ready and a reconstruction task for exactly this source and claim set
  exists; if not, no task is added and the invoice needs evidence.
\<close>

theorem completion_versions_claims:
  assumes "complete_extraction t l v response ref now ids db = Inr (c, db')"
  shows "db_claim_sets db' = db_claim_sets db @
      [\<lparr>cs_tenant = t, cs_id = ec_claim_set c, cs_invoice = le_invoice l, cs_version = ec_version c,
        cs_run = ec_run c, cs_validation = validation_text v, cs_issues = cl_issues v\<rparr>]
    \<and> (\<forall>s \<in> set (db_claim_sets db). cs_tenant s = t \<and> cs_invoice s = le_invoice l \<longrightarrow> cs_version s < ec_version c)
    \<and> db_claims db' = db_claims db @
        map (\<lambda>x. \<lparr>cl_tenant = t, cl_set = ec_claim_set c, cl_claim = x\<rparr>) (cl_claims v)
    \<and> (\<exists>r. find_invoice t (le_invoice l) db' = Some r \<and> in_claim_set r = Some (ec_version c)
         \<and> in_intake_state r = (if claims_passed v then ''READY_FOR_RECONSTRUCTION'' else ''REQUIRED_FIELD_MISSING''))
    \<and> (if claims_passed v then \<exists>w \<in> set (db_tasks db'). task_identity w = (t, le_invoice l, StartReconstruction, 1,
           task_input_fingerprint StartReconstruction (reconstruction_refs l (ec_claim_set c) (ec_version c)))
       else map task_pk (db_tasks db') = map task_pk (db_tasks db))"
  using completed_claim_rows [OF assms] completed_invoice [OF assms] completed_without_task [OF assms]
    completed_task [OF assms]
  by simp

definition sample_running :: task_row where
  "sample_running = (sample_task 1)\<lparr>tk_state := TaskRunning, tk_owner := Some ''w1''\<rparr>"

definition some_ids :: "nat \<Rightarrow> string" where
  "some_ids n = (if n = 0 then ''r'' else if n = 1 then ''c'' else if n = 2 then ''x''
     else if n = 3 then ''e'' else ''f'')"

lemma sample_completion:
  assumes "claims_passed v" "distinct (map vc_field (cl_claims v))"
  shows "\<exists>c db'. complete_extraction ''t'' (sample_lease ''w1'' 1 7) v ''h'' None 5 some_ids
     (sample_db [sample_running]) = Inr (c, db') \<and> ec_version c = 1"
  using assms
  by (simp add: insert_claims_ok [unfolded tx_insert_def tx_then_def] complete_extraction_def assert_current_lease_def holds_lease_def insert_run_def
      insert_claim_set_def close_task_def hand_to_reconstruction_def enqueue_task_def
      tx_run Let_def sample_db_def sample_row_defs empty_db_def find_invoice_def invoice_key_def
      sample_running_def sample_task_def reconstruction_task_def task_pk_def task_identity_def
      some_ids_def lock_invoice_and_advance_def insert_event_def insert_row_def sample_lease_def
      update_rows_def lease_task_def lease_attempt_def next_claim_set_version_def claim_set_key_def
      intake_event_def event_key_def)

theorem completion_versions_claims_witness:
  "\<exists>c db'. complete_extraction ''t'' (sample_lease ''w1'' 1 7) (ClaimValidation [] []) ''h'' None 5 some_ids
       (sample_db [sample_running]) = Inr (c, db')
     \<and> map cs_version (db_claim_sets db') = [1]
     \<and> (\<exists>w \<in> set (db_tasks db'). tk_type w = StartReconstruction)"
proof -
  have "claims_passed (ClaimValidation [] [])" "distinct (map vc_field (cl_claims (ClaimValidation [] [])))"
    by (simp_all add: claims_passed_def)
  from sample_completion [OF this] obtain c db' where
    s: "complete_extraction ''t'' (sample_lease ''w1'' 1 7) (ClaimValidation [] []) ''h'' None 5 some_ids
     (sample_db [sample_running]) = Inr (c, db')" and v: "ec_version c = 1" by blast
  note f = completion_versions_claims [OF s]
  from f v have "map cs_version (db_claim_sets db') = [1]" by (simp add: sample_db_def sample_row_defs empty_db_def)
  moreover from f have "\<exists>w \<in> set (db_tasks db'). tk_type w = StartReconstruction"
    by (auto simp: claims_passed_def task_identity_def)
  ultimately show ?thesis using s by (intro exI [of _ c] exI [of _ db'] conjI)
qed

text \<open>
  Nothing bounds the claims of a task whose workers die: an expired lease is claimed again whatever
  its attempt.
\<close>

lemma expired_lease_runnable:
  "tk_state w = TaskRunning \<Longrightarrow> tk_expires w = Some x \<Longrightarrow> x < now \<Longrightarrow> tk_attempt w = n \<Longrightarrow> runnable now w"
  by (simp add: runnable_def)

end
