(* ===== verification/AuthoritySeal.thy ===== *)
theory AuthoritySeal
  imports Tx SealManifest
begin

text \<open>
  \<open>src/platform/authority_seal_repository.py\<close>: one transaction binds a human approval to one
  frozen version of a recommendation and seals everything it rests on. The theorems say that
  an approval and its seal come together or not at all, that a recommendation is sealed at
  most once, that a repeated request replays, and that a stale one is refused.
\<close>

section \<open>What a seal binds\<close>

record seal_result =
  sr_approval :: string
  sr_seal :: string
  sr_revision :: nat
  sr_digest :: string
  sr_type :: string
  sr_already :: bool

definition find_recommendation :: "string \<Rightarrow> string \<Rightarrow> db \<Rightarrow> recommendation_row option" where
  "find_recommendation tenant i db =
     List.find (\<lambda>r. re_tenant r = tenant \<and> re_id r = i) (db_recs db)"

definition invoice_bindings :: "string \<Rightarrow> string \<Rightarrow> db \<Rightarrow> nat \<times> string" where
  "invoice_bindings tenant invoice db =
     ((case find_invoice tenant invoice db of
         None \<Rightarrow> 1
       | Some r \<Rightarrow> (case in_claim_set r of None \<Rightarrow> 1 | Some v \<Rightarrow> v)),
      (case List.find (\<lambda>s. so_tenant s = tenant \<and> so_invoice s = invoice
          \<and> so_type s = ''INVOICE_PDF'') (db_sources db) of
         None \<Rightarrow> ''unbound-source:'' @ invoice
       | Some s \<Rightarrow> so_key s @ ''@'' @ so_version s))"

definition reconstruction_version :: "string \<Rightarrow> string \<Rightarrow> db \<Rightarrow> int" where
  "reconstruction_version tenant i db =
     (case List.find (\<lambda>r. rn_tenant r = tenant \<and> rn_id r = i) (db_recons db) of
        None \<Rightarrow> 1 | Some r \<Rightarrow> rn_version r)"

definition rule_payload :: "rule_row \<Rightarrow> json" where
  "rule_payload r =
     JObj [(''ref'', JStr (ru_public_ref r)), (''rate'', JInt (ru_rate r)),
           (''cur'', JStr (ru_currency r)), (''from'', JStr (date_iso (ru_from r))),
           (''to'', JOpt (\<lambda>d. JStr (date_iso d)) (ru_to r))]"

definition rule_digest :: "string \<Rightarrow> string \<Rightarrow> db \<Rightarrow> string option" where
  "rule_digest tenant i db =
     map_option (\<lambda>r. prefixed_sha256 (canonical_json_bytes (rule_payload r)))
       (List.find (\<lambda>r. ru_tenant r = tenant \<and> ru_id r = i) (db_rules db))"

definition judgment_payload :: "judgment_row \<Rightarrow> json" where
  "judgment_payload j =
     JObj [(''d'', JStr (date_iso (jr_date j))), (''inv'', JInt (jr_invoice_rate j)),
           (''app'', JOpt JInt (jr_applicable_rate j)), (''disc'', JInt (jr_discrepancy j)),
           (''o'', JStr (jr_outcome j))]"

definition day_judgment_digests :: "string \<Rightarrow> string \<Rightarrow> db \<Rightarrow> string list" where
  "day_judgment_digests tenant rec_id db =
     map (\<lambda>j. prefixed_sha256 (canonical_json_bytes (judgment_payload j)))
       (sort_key jr_date (filter (\<lambda>j. jr_tenant j = tenant \<and> jr_recommendation j = rec_id) (db_judgments db)))"

definition next_revision :: "string \<Rightarrow> string \<Rightarrow> db \<Rightarrow> nat" where
  "next_revision tenant invoice db =
     foldr max (map sl_revision (filter (\<lambda>s. sl_tenant s = tenant \<and> sl_invoice s = invoice) (db_seals db))) 0 + 1"

definition gather_inputs :: "string \<Rightarrow> recommendation_row \<Rightarrow> string \<Rightarrow> string \<Rightarrow> db \<Rightarrow> seal_inputs" where
  "gather_inputs tenant r display kind db =
     \<lparr>si_invoice_id = re_invoice r, si_reconstruction_id = re_reconstruction r,
      si_reconstruction_version = reconstruction_version tenant (re_reconstruction r) db,
      si_recommendation_id = re_id r, si_recommendation_version = re_version r,
      si_recommendation_type = re_type r, si_recommendation_digest = re_digest r,
      si_disputed = re_disputed r, si_supported = re_supported r, si_claimed = re_claimed r,
      si_currency = re_currency r, si_rule_id = re_rule r,
      si_rule_digest = (case re_rule r of None \<Rightarrow> None | Some i \<Rightarrow> rule_digest tenant i db),
      si_claim_set_version = int (fst (invoice_bindings tenant (re_invoice r) db)),
      si_invoice_source_ref = snd (invoice_bindings tenant (re_invoice r) db),
      si_day_digests = day_judgment_digests tenant (re_id r) db,
      si_approver_display = display, si_approver_kind = kind\<rparr>"

definition bound_refs :: "seal_inputs \<Rightarrow> json list" where
  "bound_refs i =
     [JObj [(''type'', JStr ''recommendation''), (''id'', JStr (si_recommendation_id i)),
            (''version'', JInt (si_recommendation_version i))],
      JObj [(''type'', JStr ''reconstruction''), (''id'', JStr (si_reconstruction_id i)),
            (''version'', JInt (si_reconstruction_version i))],
      JObj [(''type'', JStr ''claim_set''), (''version'', JInt (si_claim_set_version i))]]
     @ (case si_rule_id i of
          None \<Rightarrow> []
        | Some r \<Rightarrow> if r = '''' then [] else
            [JObj [(''type'', JStr ''applicable_rule''), (''id'', JStr r), (''version'', JInt 1)]])"

section \<open>Approving and sealing\<close>

definition outcome_status :: "string \<Rightarrow> string" where
  "outcome_status ty =
     (if ty = ''DISPUTE'' then ''DISPUTED''
      else if ty = ''APPROVE_FOR_PAYMENT'' then ''APPROVED_FOR_PAYMENT'' else ''READY_TO_SEND'')"

definition advance_and_emit ::
  "string \<Rightarrow> string \<Rightarrow> string \<Rightarrow> string \<Rightarrow> nat \<Rightarrow> string \<Rightarrow> string \<Rightarrow> int \<Rightarrow> string \<Rightarrow> unit tx" where
  "advance_and_emit tenant invoice rec_id seal_id revision ty display now event_id =
     (let status = outcome_status ty in
      tx_bind (lock_invoice_and_advance tenant invoice ''READY_FOR_RECONSTRUCTION'' status status 1 now None)
        (\<lambda>seq. insert_event
          \<lparr>lg_tenant = tenant, lg_id = event_id, lg_invoice = invoice, lg_sequence = seq,
           lg_type = ''decision.sealed'', lg_occurred = now, lg_role = ''DECISION_ENGINE'',
           lg_task = ''SEAL_DECISION'', lg_tool = Some ''CockroachDB transaction'',
           lg_state = ''COMPLETED'', lg_aggregate = status,
           lg_summary = ''Decision sealed and '' @ replace_char (CHR ''_'') '' '' (py_lower status),
           lg_initiated = None, lg_actor = display,
           lg_inputs = [JObj [(''type'', JStr ''recommendation''), (''id'', JStr rec_id), (''version'', JInt 1)]],
           lg_produced = [JObj [(''type'', JStr ''decision_seal''), (''id'', JStr seal_id),
             (''version'', JInt (int revision))]],
           lg_output_count = None, lg_error = None\<rparr>))"

definition approval_pk :: "approval_row \<Rightarrow> string \<times> string" where
  "approval_pk a = (ap_tenant a, ap_key a)"

definition approval_id :: "approval_row \<Rightarrow> string \<times> string" where
  "approval_id a = (ap_tenant a, ap_id a)"

text \<open>\<open>approval_active_idx\<close>: one approved row per recommendation.\<close>

definition insert_approval :: "approval_row \<Rightarrow> unit tx" where
  "insert_approval a =
     tx_then (tx_unique ''primary'' db_approvals approval_pk a)
     (tx_then (tx_unique ''approval_id_idx'' db_approvals approval_id a)
     (tx_then
       (tx_unique ''approval_active_idx''
         (\<lambda>db. filter (\<lambda>b. ap_state b = ''APPROVED'' \<and> ap_state a = ''APPROVED'') (db_approvals db))
         (\<lambda>b. (ap_tenant b, ap_recommendation b)) a)
     (tx_append db_approvals_update a)))"

definition seal_key :: "seal_row \<Rightarrow> string \<times> string" where
  "seal_key s = (sl_tenant s, sl_recommendation s)"

definition seal_revision_key :: "seal_row \<Rightarrow> string \<times> string \<times> nat" where
  "seal_revision_key s = (sl_tenant s, sl_invoice s, sl_revision s)"

text \<open>\<open>ON CONFLICT (tenant_id, recommendation_id) DO NOTHING\<close>.\<close>

definition insert_seal :: "seal_row \<Rightarrow> unit tx" where
  "insert_seal s =
     tx_bind (tx_read (\<lambda>db. seal_key s \<in> seal_key ` set (db_seals db))) (\<lambda>known.
       if known then tx_return ()
       else tx_insert ''seal_revision_idx'' db_seals db_seals_update seal_revision_key s)"

definition make_approval ::
  "string \<Rightarrow> recommendation_row \<Rightarrow> string \<Rightarrow> string \<Rightarrow> string \<Rightarrow> string option \<Rightarrow> string \<Rightarrow> string \<Rightarrow> string
     \<Rightarrow> string \<Rightarrow> nat \<Rightarrow> string \<Rightarrow> approval_row" where
  "make_approval tenant r i key hash user display kind decision seal_id revision digest =
     \<lparr>ap_tenant = tenant, ap_id = i, ap_invoice = re_invoice r, ap_reconstruction = re_reconstruction r,
      ap_recommendation = re_id r, ap_version = re_version r, ap_digest = re_digest r, ap_key = key,
      ap_hash = hash, ap_user = user, ap_display = display, ap_kind = kind, ap_decision = decision,
      ap_state = ''APPROVED'', ap_snap_seal = seal_id, ap_snap_revision = revision,
      ap_snap_digest = digest, ap_snap_type = re_type r\<rparr>"

definition make_seal ::
  "string \<Rightarrow> recommendation_row \<Rightarrow> seal_inputs \<Rightarrow> string \<Rightarrow> string \<Rightarrow> string \<Rightarrow> nat \<Rightarrow> nat \<Rightarrow> string \<Rightarrow> seal_row" where
  "make_seal tenant r i seal_id approval display claim_set revision digest =
     \<lparr>sl_tenant = tenant, sl_id = seal_id, sl_invoice = re_invoice r,
      sl_reconstruction = re_reconstruction r, sl_recommendation = re_id r, sl_version = re_version r,
      sl_rule = re_rule r, sl_claim_set = claim_set, sl_approval = approval, sl_display = display,
      sl_revision = revision, sl_digest = digest, sl_refs = bound_refs i,
      sl_source_ref = si_invoice_source_ref i,
      sl_summary = ''Decision sealed: '' @ re_type r @ '' '' @ [char_of (183 :: nat)] @ '' revision '' @ show_nat revision\<rparr>"

definition seal_recommendation ::
  "string \<Rightarrow> recommendation_row \<Rightarrow> string \<Rightarrow> string \<Rightarrow> string option \<Rightarrow> string \<Rightarrow> string \<Rightarrow> string \<Rightarrow> int
     \<Rightarrow> (nat \<Rightarrow> string) \<Rightarrow> seal_result tx" where
  "seal_recommendation tenant r key hash user display kind decision now ids =
     tx_bind (tx_read (\<lambda>db. (gather_inputs tenant r display kind db,
         fst (invoice_bindings tenant (re_invoice r) db), next_revision tenant (re_invoice r) db)))
       (\<lambda>(i, claim_set, revision).
         let digest = seal_digest (build_seal_manifest i (int revision)) in
         tx_then (insert_approval
           (make_approval tenant r (ids 0) key hash user display kind decision (ids 1) revision digest))
         (tx_then (insert_seal
           (make_seal tenant r i (ids 1) (ids 0) display claim_set revision digest))
         (tx_then (advance_and_emit tenant (re_invoice r) (re_id r) (ids 1) revision (re_type r) display now (ids 2))
         (tx_then (tx_append db_audit_update
           \<lparr>au_tenant = tenant, au_tag = ''seal'',
            au_text = ''APPROVE & SEAL '' @ [char_of (183 :: nat)] @ '' rec '' @ re_id r @ '' ''
              @ [char_of (183 :: nat)] @ '' rev '' @ show_nat revision @ '' '' @ [char_of (183 :: nat)]
              @ '' by '' @ display,
            au_actor = display\<rparr>)
         (tx_return \<lparr>sr_approval = ids 0, sr_seal = ids 1, sr_revision = revision, sr_digest = digest,
            sr_type = re_type r, sr_already = False\<rparr>)))))"

definition find_approval :: "string \<Rightarrow> string \<Rightarrow> db \<Rightarrow> approval_row option" where
  "find_approval tenant key db = List.find (\<lambda>a. approval_pk a = (tenant, key)) (db_approvals db)"

definition approve_and_seal ::
  "string \<Rightarrow> string \<Rightarrow> int \<Rightarrow> string \<Rightarrow> string \<Rightarrow> string option \<Rightarrow> string \<Rightarrow> string \<Rightarrow> string \<Rightarrow> int
     \<Rightarrow> (nat \<Rightarrow> string) \<Rightarrow> seal_result tx" where
  "approve_and_seal tenant rec_id expected_version expected_digest key user display kind decision now ids =
     (let hash = approval_request_hash rec_id expected_version expected_digest decision in
      tx_bind (tx_read (\<lambda>db. (find_recommendation tenant rec_id db, find_approval tenant key db)))
        (\<lambda>(row, existing). case row of
           None \<Rightarrow> tx_raise (Raised ''RECOMMENDATION_NOT_FOUND'')
         | Some r \<Rightarrow> (case existing of
             Some a \<Rightarrow> tx_then (tx_require (ap_hash a = hash) ''IDEMPOTENCY_CONFLICT'')
               (tx_return \<lparr>sr_approval = ap_id a, sr_seal = ap_snap_seal a, sr_revision = ap_snap_revision a,
                  sr_digest = ap_snap_digest a, sr_type = ap_snap_type a, sr_already = True\<rparr>)
           | None \<Rightarrow> tx_then (tx_require (\<not> is_stale expected_version (re_version r) expected_digest (re_digest r))
                 ''RECOMMENDATION_STALE'')
               (tx_then (tx_require (re_state r = ''FROZEN'') ''RECOMMENDATION_NOT_FROZEN'')
               (seal_recommendation tenant r key hash user display kind decision now ids)))))"

section \<open>What a sealing leaves\<close>

lemma advance_frame:
  "advance_and_emit tenant invoice rec_id seal_id revision ty display now e db = Inr (u, db') \<Longrightarrow>
     db_approvals db' = db_approvals db \<and> db_seals db' = db_seals db \<and> db_recs db' = db_recs db"
  by (auto simp: advance_and_emit_def Let_def tx_simps lock_Inr insert_event_Inr)

lemma seal_recommendation_Inr:
  assumes "seal_recommendation t r key hash user display kind decision now ids db = Inr (res, db')"
  defines "i \<equiv> gather_inputs t r display kind db"
    and "revision \<equiv> next_revision t (re_invoice r) db"
  defines "digest \<equiv> seal_digest (build_seal_manifest i (int revision))"
  defines "a \<equiv> make_approval t r (ids 0) key hash user display kind decision (ids 1) revision digest"
    and "s \<equiv> make_seal t r i (ids 1) (ids 0) display (fst (invoice_bindings t (re_invoice r) db)) revision digest"
  shows "approval_pk a \<notin> approval_pk ` set (db_approvals db)"
    and "\<forall>b \<in> set (db_approvals db). ap_state b = ''APPROVED'' \<longrightarrow> (ap_tenant b, ap_recommendation b) \<noteq> (t, re_id r)"
    and "db_approvals db' = db_approvals db @ [a]"
    and "db_seals db' = (if seal_key s \<in> seal_key ` set (db_seals db) then db_seals db else db_seals db @ [s])"
    and "db_recs db' = db_recs db"
    and "res = \<lparr>sr_approval = ids 0, sr_seal = ids 1, sr_revision = revision, sr_digest = digest,
            sr_type = re_type r, sr_already = False\<rparr>"
proof -
  from assms(1) obtain db1 db2 db3 where
    s1: "insert_approval a db = Inr ((), db1)" and s2: "insert_seal s db1 = Inr ((), db2)"
    and s3: "advance_and_emit t (re_invoice r) (re_id r) (ids 1) revision (re_type r) display now (ids 2) db2
       = Inr ((), db3)"
    and s4: "db_approvals db' = db_approvals db3" "db_seals db' = db_seals db3" "db_recs db' = db_recs db3"
    and res: "res = \<lparr>sr_approval = ids 0, sr_seal = ids 1, sr_revision = revision, sr_digest = digest,
            sr_type = re_type r, sr_already = False\<rparr>"
    unfolding seal_recommendation_def Let_def
    by (auto simp: tx_simps a_def s_def digest_def i_def revision_def)
  from s1 show "approval_pk a \<notin> approval_pk ` set (db_approvals db)"
    by (simp add: insert_approval_def tx_simps)
  from s1 show "\<forall>b \<in> set (db_approvals db). ap_state b = ''APPROVED'' \<longrightarrow> (ap_tenant b, ap_recommendation b) \<noteq> (t, re_id r)"
    by (auto simp: insert_approval_def tx_simps a_def make_approval_def)
  show "db_approvals db' = db_approvals db @ [a]"
    using s1 s2 advance_frame [OF s3] s4 by (auto simp: insert_approval_def insert_seal_def tx_simps split: if_splits)
  show "db_seals db' = (if seal_key s \<in> seal_key ` set (db_seals db) then db_seals db else db_seals db @ [s])"
    using s1 s2 advance_frame [OF s3] s4 by (auto simp: insert_approval_def insert_seal_def tx_simps split: if_splits)
  show "db_recs db' = db_recs db"
    using s1 s2 advance_frame [OF s3] s4 by (auto simp: insert_approval_def insert_seal_def tx_simps split: if_splits)
  show "res = \<lparr>sr_approval = ids 0, sr_seal = ids 1, sr_revision = revision, sr_digest = digest,
            sr_type = re_type r, sr_already = False\<rparr>" by (rule res)
qed

text \<open>The ways a request can succeed.\<close>

lemma approve_and_seal_cases:
  assumes "approve_and_seal t rec_id v d key user display kind decision now ids db = Inr (res, db')"
  obtains (replay) r a where "find_recommendation t rec_id db = Some r" "find_approval t key db = Some a"
      "ap_hash a = approval_request_hash rec_id v d decision" "db' = db"
      "res = \<lparr>sr_approval = ap_id a, sr_seal = ap_snap_seal a, sr_revision = ap_snap_revision a,
         sr_digest = ap_snap_digest a, sr_type = ap_snap_type a, sr_already = True\<rparr>"
    | (sealed) r where "find_recommendation t rec_id db = Some r" "find_approval t key db = None"
      "v = re_version r" "d = re_digest r" "re_state r = ''FROZEN''"
      "seal_recommendation t r key (approval_request_hash rec_id v d decision) user display kind decision now ids db
         = Inr (res, db')"
proof -
  from assms obtain r where r: "find_recommendation t rec_id db = Some r"
    by (cases "find_recommendation t rec_id db")
      (auto simp: approve_and_seal_def Let_def tx_simps)
  show thesis
  proof (cases "find_approval t key db")
    case None
    with assms r show thesis
      by (intro sealed [of r]) (auto simp: approve_and_seal_def Let_def tx_simps is_stale_def)
  next
    case (Some a)
    with assms r show thesis
      by (intro replay [of r a]) (auto simp: approve_and_seal_def Let_def tx_simps)
  qed
qed

lemma find_recommendation_Some:
  "find_recommendation t i db = Some r \<Longrightarrow> re_tenant r = t \<and> re_id r = i"
  by (auto simp: find_recommendation_def dest: find_SomeD)

lemma find_approval_Some:
  "find_approval t key db = Some a \<Longrightarrow> a \<in> set (db_approvals db) \<and> approval_pk a = (t, key)"
  by (auto simp: find_approval_def dest: find_SomeD)

text \<open>
  Approvals and seals come in pairs: every approval has the seal its snapshot names, every
  seal an approval of the same recommendation, and no recommendation has two seals.
\<close>

definition seal_of :: "approval_row \<Rightarrow> seal_row \<Rightarrow> bool" where
  "seal_of a s =
     (seal_key s = (ap_tenant a, ap_recommendation a) \<and> sl_approval s = ap_id a
      \<and> sl_id s = ap_snap_seal a \<and> sl_revision s = ap_snap_revision a \<and> sl_digest s = ap_snap_digest a
      \<and> sl_version s = ap_version a)"

definition paired :: "db \<Rightarrow> bool" where
  "paired db =
     (distinct (map seal_key (db_seals db))
      \<and> (\<forall>a \<in> set (db_approvals db). ap_state a = ''APPROVED'' \<and> (\<exists>s \<in> set (db_seals db). seal_of a s))
      \<and> (\<forall>s \<in> set (db_seals db). \<exists>a \<in> set (db_approvals db). (ap_tenant a, ap_recommendation a) = seal_key s))"

text \<open>So a recommendation without an approval has no seal, and its new seal is inserted.\<close>

lemma paired_no_seal:
  assumes "paired db" "\<forall>b \<in> set (db_approvals db). ap_state b = ''APPROVED'' \<longrightarrow>
    (ap_tenant b, ap_recommendation b) \<noteq> k"
  shows "k \<notin> seal_key ` set (db_seals db)"
  using assms unfolding paired_def by (metis (no_types, lifting) imageE)

lemma paired_append:
  assumes "paired db" "seal_key s \<notin> seal_key ` set (db_seals db)" "seal_of a s" "ap_state a = ''APPROVED''"
    and "db_approvals db' = db_approvals db @ [a]" "db_seals db' = db_seals db @ [s]"
  shows "paired db'"
  using assms unfolding paired_def by (auto simp: seal_of_def)

lemma safe_approve: "keeps (safe t) (approve_and_seal t rec_id v d key user display kind decision now ids)"
  unfolding approve_and_seal_def seal_recommendation_def insert_approval_def insert_seal_def
    advance_and_emit_def Let_def
  by (auto simp: make_approval_def make_seal_def split: prod.splits option.splits
      intro!: safe_intros simp del: One_nat_def)

lemma approve_paired:
  assumes "paired db" "approve_and_seal t rec_id v d key user display kind decision now ids db = Inr (res, db')"
  shows "paired db' \<and> (\<exists>s \<in> set (db_seals db'). sl_tenant s = t \<and> sl_id s = sr_seal res
    \<and> sl_revision s = sr_revision res \<and> sl_digest s = sr_digest res \<and> sl_approval s = sr_approval res)"
  using assms(2)
proof (cases rule: approve_and_seal_cases)
  case (replay r a)
  from find_approval_Some [OF replay(2)] have a: "a \<in> set (db_approvals db)" "ap_tenant a = t"
    by (simp_all add: approval_pk_def)
  with assms(1) obtain s where "s \<in> set (db_seals db)" "seal_of a s" by (auto simp: paired_def)
  with a assms(1) replay(4,5) show ?thesis by (auto simp: seal_of_def seal_key_def)
next
  case (sealed r)
  note f = seal_recommendation_Inr [OF sealed(6)]
  let ?i = "gather_inputs t r display kind db" and ?n = "next_revision t (re_invoice r) db"
  let ?digest = "seal_digest (build_seal_manifest ?i (int ?n))"
  let ?a = "make_approval t r (ids 0) key (approval_request_hash rec_id v d decision) user display kind
    decision (ids 1) ?n ?digest"
  let ?s = "make_seal t r ?i (ids 1) (ids 0) display (fst (invoice_bindings t (re_invoice r) db)) ?n ?digest"
  have k: "seal_key ?s = (t, re_id r)" by (simp add: seal_key_def make_seal_def)
  have new: "seal_key ?s \<notin> seal_key ` set (db_seals db)"
    unfolding k by (rule paired_no_seal [OF assms(1) f(2)])
  have of: "seal_of ?a ?s"
    by (simp add: seal_of_def seal_key_def make_seal_def make_approval_def)
  from new f(4) have "db_seals db' = db_seals db @ [?s]" by simp
  moreover from paired_append [OF assms(1) new of _ f(3) this] have "paired db'"
    by (simp add: make_approval_def)
  ultimately show ?thesis
    using f(6) by (simp add: make_seal_def)
qed

text \<open>Histories of approval transactions, of any tenants.\<close>

inductive authority_run :: "db \<Rightarrow> db \<Rightarrow> bool" where
  authority_start: "authority_run db db"
| authority_step: "authority_run db db' \<Longrightarrow>
     approve_and_seal t rec_id v d key user display kind decision now ids db' = Inr (res, db'') \<Longrightarrow>
     authority_run db db''"

lemma paired_run: "authority_run db db' \<Longrightarrow> paired db \<Longrightarrow> paired db'"
  by (induction rule: authority_run.induct) (auto dest: approve_paired)

section \<open>A sample state\<close>

definition sealing_db :: db where
  "sealing_db = empty_db\<lparr>db_invoices := [sample_invoice\<lparr>in_claim_set := Some 1\<rparr>],
     db_recs := [sample_recommendation]\<rparr>"

definition sealing_ids :: "nat \<Rightarrow> string" where
  "sealing_ids n = (if n = 0 then ''a'' else if n = 1 then ''s'' else ''e'')"

lemma sample_sealing:
  "\<exists>res db'. approve_and_seal ''t'' ''r'' 1 ''d'' ''key'' None ''Ann'' ''HUMAN'' ''APPROVE'' 5 sealing_ids sealing_db
     = Inr (res, db') \<and> sr_already res = False"
  by (simp add: approve_and_seal_def seal_recommendation_def insert_approval_def insert_seal_def
      advance_and_emit_def tx_run Let_def sealing_db_def sample_row_defs find_recommendation_def find_approval_def
      find_invoice_def invoice_key_def is_stale_def make_approval_def make_seal_def
      lock_invoice_and_advance_def insert_event_def insert_row_def split: prod.split)

lemma sample_paired: "paired sealing_db"
  by (simp add: paired_def sealing_db_def sample_row_defs)

section \<open>Properties\<close>

text \<open>
  C17: no phantom approval and no second seal. In every history of approval transactions that
  starts from paired approvals and seals (none at all, for instance), each recommendation has at
  most one seal, every approval has exactly the seal its stored response names, and whatever a
  successful request returns, new or replayed, names a seal that is in the database with that
  revision and digest. Other tenants' rows are untouched and seals are only ever added.
\<close>

theorem approvals_have_their_seal:
  assumes "paired db0" "authority_run db0 db"
    and "approve_and_seal t rec_id v d key user display kind decision now ids db = Inr (res, db')"
  shows "distinct (map seal_key (db_seals db'))
    \<and> (\<forall>a \<in> set (db_approvals db'). \<exists>s \<in> set (db_seals db'). seal_of a s)
    \<and> (\<exists>s \<in> set (db_seals db'). sl_tenant s = t \<and> sl_id s = sr_seal res
         \<and> sl_revision s = sr_revision res \<and> sl_digest s = sr_digest res \<and> sl_approval s = sr_approval res)
    \<and> prefix (db_seals db) (db_seals db') \<and> foreign t db' = foreign t db
    \<and> (events_dense db \<longrightarrow> events_dense db')"
proof -
  from approve_paired [OF paired_run [OF assms(2,1)] assms(3)] safe.keepsD [OF safe_approve assms(3)]
  show ?thesis unfolding paired_def safe_def appended_def isolated_def maintains_def by blast
qed

theorem approvals_have_their_seal_witness:
  "\<exists>res db'. approve_and_seal ''t'' ''r'' 1 ''d'' ''key'' None ''Ann'' ''HUMAN'' ''APPROVE'' 5 sealing_ids sealing_db
     = Inr (res, db') \<and> (\<exists>s \<in> set (db_seals db'). sl_id s = sr_seal res \<and> sl_digest s = sr_digest res)"
proof -
  from sample_sealing obtain res db' where
    s: "approve_and_seal ''t'' ''r'' 1 ''d'' ''key'' None ''Ann'' ''HUMAN'' ''APPROVE'' 5 sealing_ids sealing_db
     = Inr (res, db')" by blast
  from approvals_have_their_seal [OF sample_paired authority_start s] s show ?thesis by blast
qed

text \<open>
  C18: a new seal binds exactly the frozen version the approver saw. If a request seals anew,
  the recommendation existed, was frozen, and had the version and digest the approver gave; the
  added seal's digest is the manifest digest of the inputs read in that transaction, its
  revision is above every earlier one of the invoice, and the approval records version and
  digest.
\<close>

theorem seal_binds_seen_version:
  assumes "paired db" "approve_and_seal t rec_id v d key user display kind decision now ids db = Inr (res, db')"
    and "\<not> sr_already res"
  shows "\<exists>r s a. find_recommendation t rec_id db = Some r \<and> re_state r = ''FROZEN''
    \<and> re_version r = v \<and> re_digest r = d
    \<and> db_seals db' = db_seals db @ [s] \<and> db_approvals db' = db_approvals db @ [a]
    \<and> sl_recommendation s = rec_id \<and> sl_version s = v \<and> ap_version a = v \<and> ap_digest a = d
    \<and> ap_decision a = decision \<and> seal_of a s
    \<and> sl_digest s = seal_digest (build_seal_manifest (gather_inputs t r display kind db) (int (sl_revision s)))
    \<and> (\<forall>s' \<in> set (db_seals db). sl_tenant s' = t \<and> sl_invoice s' = sl_invoice s \<longrightarrow> sl_revision s' < sl_revision s)"
  using assms(2)
proof (cases rule: approve_and_seal_cases)
  case (replay r a)
  with assms(3) show ?thesis by simp
next
  case (sealed r)
  note f = seal_recommendation_Inr [OF sealed(6)]
  let ?i = "gather_inputs t r display kind db" and ?n = "next_revision t (re_invoice r) db"
  let ?digest = "seal_digest (build_seal_manifest ?i (int ?n))"
  let ?a = "make_approval t r (ids 0) key (approval_request_hash rec_id v d decision) user display kind
    decision (ids 1) ?n ?digest"
  let ?s = "make_seal t r ?i (ids 1) (ids 0) display (fst (invoice_bindings t (re_invoice r) db)) ?n ?digest"
  have "seal_key ?s = (t, re_id r)" by (simp add: seal_key_def make_seal_def)
  with paired_no_seal [OF assms(1) f(2)] f(4) have "db_seals db' = db_seals db @ [?s]" by simp
  moreover have "\<forall>s' \<in> set (db_seals db). sl_tenant s' = t \<and> sl_invoice s' = re_invoice r \<longrightarrow> sl_revision s' < ?n"
    unfolding next_revision_def by (auto intro!: le_imp_less_Suc le_foldr_max)
  ultimately show ?thesis
    using sealed(1,3-5) f(3) find_recommendation_Some [OF sealed(1)]
    by (intro exI [of _ r] exI [of _ ?s] exI [of _ ?a])
      (simp add: make_seal_def make_approval_def seal_of_def seal_key_def)
qed

theorem seal_binds_seen_version_witness:
  "\<exists>res db' s. approve_and_seal ''t'' ''r'' 1 ''d'' ''key'' None ''Ann'' ''HUMAN'' ''APPROVE'' 5 sealing_ids sealing_db
     = Inr (res, db') \<and> db_seals db' = [s] \<and> sl_recommendation s = ''r'' \<and> sl_version s = 1"
proof -
  from sample_sealing obtain res db' where
    s: "approve_and_seal ''t'' ''r'' 1 ''d'' ''key'' None ''Ann'' ''HUMAN'' ''APPROVE'' 5 sealing_ids sealing_db
     = Inr (res, db')" and n: "\<not> sr_already res" by blast
  from seal_binds_seen_version [OF sample_paired s n] obtain x where
    "db_seals db' = db_seals sealing_db @ [x]" "sl_recommendation x = ''r''" "sl_version x = 1" by blast
  then have "db_seals db' = [x] \<and> sl_recommendation x = ''r'' \<and> sl_version x = 1"
    by (simp add: sealing_db_def sample_row_defs)
  with s show ?thesis by blast
qed

text \<open>
  Approving is idempotent and final. After a successful request, the same request under the
  same key replays the same seal and changes nothing; another request under that key is an
  \<open>IDEMPOTENCY_CONFLICT\<close>; and no request for the same recommendation, under whatever key, ever
  seals it anew.
\<close>

theorem approval_is_final:
  assumes "paired db" "approve_and_seal t rec_id v d key user display kind decision now ids db = Inr (res, db')"
    and "\<not> sr_already res"
  shows "approve_and_seal t rec_id v d key user' display' kind' decision now' ids' db'
      = Inr (res\<lparr>sr_already := True\<rparr>, db')
    \<and> (approval_request_hash rec_id v' d' decision' \<noteq> approval_request_hash rec_id v d decision \<longrightarrow>
        approve_and_seal t rec_id v' d' key user' display' kind' decision' now' ids' db'
          = Inl (Raised ''IDEMPOTENCY_CONFLICT''))
    \<and> (\<forall>r2 db2. approve_and_seal t rec_id v' d' key' user' display' kind' decision' now' ids' db' = Inr (r2, db2)
        \<longrightarrow> sr_already r2 \<and> db2 = db')"
proof -
  from seal_binds_seen_version [OF assms] obtain r s a where
    r: "find_recommendation t rec_id db = Some r" by blast
  from assms(2) have e: "find_recommendation t rec_id db' = Some r
    \<and> (\<exists>a. find_approval t key db' = Some a \<and> ap_hash a = approval_request_hash rec_id v d decision
        \<and> res = \<lparr>sr_approval = ap_id a, sr_seal = ap_snap_seal a, sr_revision = ap_snap_revision a,
         sr_digest = ap_snap_digest a, sr_type = ap_snap_type a, sr_already = False\<rparr>)
    \<and> (\<exists>a \<in> set (db_approvals db'). ap_state a = ''APPROVED'' \<and> (ap_tenant a, ap_recommendation a) = (t, rec_id))"
  proof (cases rule: approve_and_seal_cases)
    case (replay r a)
    with assms(3) show ?thesis by simp
  next
    case (sealed q)
    note f = seal_recommendation_Inr [OF sealed(6)]
    from sealed(1) r have q: "q = r" by simp
    from sealed(2) have none: "List.find (\<lambda>a. approval_pk a = (t, key)) (db_approvals db) = None"
      by (simp add: find_approval_def)
    show ?thesis
      using r f(3,5,6) none find_recommendation_Some [OF r]
      by (simp add: q find_recommendation_def find_approval_def find_append make_approval_def approval_pk_def)
  qed
  have one: "approve_and_seal t rec_id v d key user' display' kind' decision now' ids' db'
      = Inr (res\<lparr>sr_already := True\<rparr>, db')"
    using e by (auto simp: approve_and_seal_def Let_def tx_run)
  have two: "approve_and_seal t rec_id v' d' key user' display' kind' decision' now' ids' db'
          = Inl (Raised ''IDEMPOTENCY_CONFLICT'')"
    if "approval_request_hash rec_id v' d' decision' \<noteq> approval_request_hash rec_id v d decision"
    using e that by (auto simp: approve_and_seal_def Let_def tx_run)
  have three: "sr_already r2 \<and> db2 = db'"
    if "approve_and_seal t rec_id v' d' key' user' display' kind' decision' now' ids' db' = Inr (r2, db2)" for r2 db2
    using that
  proof (cases rule: approve_and_seal_cases)
    case (sealed q)
    from seal_recommendation_Inr(2) [OF sealed(6)] find_recommendation_Some [OF sealed(1)] e
    show ?thesis by auto
  qed simp
  from one two three show ?thesis by blast
qed

theorem approval_is_final_witness:
  "\<exists>res db'. approve_and_seal ''t'' ''r'' 1 ''d'' ''key'' None ''Ann'' ''HUMAN'' ''APPROVE'' 5 sealing_ids sealing_db
       = Inr (res, db')
     \<and> approve_and_seal ''t'' ''r'' 1 ''d'' ''key'' None ''Bob'' ''HUMAN'' ''APPROVE'' 9 sealing_ids db'
       = Inr (res\<lparr>sr_already := True\<rparr>, db')"
proof -
  from sample_sealing obtain res db' where
    s: "approve_and_seal ''t'' ''r'' 1 ''d'' ''key'' None ''Ann'' ''HUMAN'' ''APPROVE'' 5 sealing_ids sealing_db
     = Inr (res, db')" and n: "\<not> sr_already res" by blast
  from approval_is_final [OF sample_paired s n, of None "''Bob''" "''HUMAN''" 9 sealing_ids] s show ?thesis by blast
qed



end
