(* ===== verification/Sending.thy ===== *)
theory Sending
  imports Tx Correspondence
begin

text \<open>
  \<open>src/platform/correspondence_repository.py\<close>, \<open>src/platform/send_gates.py\<close>,
  \<open>src/external/controlled_mail.py\<close> and the deterministic generator of
  \<open>src/external/correspondence_bedrock.py\<close>: a draft is made from a seal alone, and sent only
  when six fresh gates verify. The model that writes prose is a parameter. The mail provider
  keeps its own state, which no database rollback undoes.
\<close>

section \<open>The sealed facts\<close>

definition claim_text :: "claim_normal \<Rightarrow> tx_error + string" where
  "claim_text n = (case n of NText s \<Rightarrow> Inr s | _ \<Rightarrow> Inl (Raised ''TypeError''))"

definition container_claim :: "string \<Rightarrow> string \<Rightarrow> db \<Rightarrow> claim_row option" where
  "container_claim tenant invoice db =
     List.find (\<lambda>c. cl_tenant c = tenant \<and> vc_field (cl_claim c) = ''container_number''
       \<and> (\<exists>s \<in> set (db_claim_sets db). cs_tenant s = tenant \<and> cs_id s = cl_set c \<and> cs_invoice s = invoice))
       (db_claims db)"

definition charge_period :: "string \<Rightarrow> string \<Rightarrow> db \<Rightarrow> string \<times> string" where
  "charge_period tenant seal_id db =
     (case [jr_date j. j \<leftarrow> db_judgments db, s \<leftarrow> db_seals db,
            jr_tenant j = tenant \<and> sl_tenant s = tenant \<and> sl_id s = seal_id
            \<and> sl_recommendation s = jr_recommendation j] of
        [] \<Rightarrow> ('''', '''')
      | d # ds \<Rightarrow> (date_iso (foldl min d ds), date_iso (foldl max d ds)))"

text \<open>The joined row: the seal, its recommendation and invoice, and its rule if it is there.\<close>

definition sealed_rows ::
  "string \<Rightarrow> string \<Rightarrow> db \<Rightarrow> (seal_row \<times> recommendation_row \<times> invoice_row \<times> rule_row option) list" where
  "sealed_rows tenant seal_id db =
     [(s, r, i, List.find (\<lambda>u. ru_tenant u = tenant \<and> Some (ru_id u) = sl_rule s) (db_rules db)).
       s \<leftarrow> db_seals db, sl_tenant s = tenant \<and> sl_id s = seal_id,
       r \<leftarrow> db_recs db, re_tenant r = tenant \<and> re_id r = sl_recommendation s,
       i \<leftarrow> db_invoices db, in_tenant i = tenant \<and> in_id i = sl_invoice s]"

definition or_else :: "string option \<Rightarrow> string \<Rightarrow> string" where
  "or_else v d = (case v of None \<Rightarrow> d | Some s \<Rightarrow> if s = '''' then d else s)"

definition load_sealed_fact_pack :: "string \<Rightarrow> string \<Rightarrow> db \<Rightarrow> tx_error + sealed_fact_pack" where
  "load_sealed_fact_pack tenant seal_id db =
     (case sealed_rows tenant seal_id db of
        [] \<Rightarrow> Inl (Raised ''SEAL_NOT_FOUND'')
      | (s, r, i, rule) # _ \<Rightarrow>
          rbind (case container_claim tenant (sl_invoice s) db of
                   None \<Rightarrow> Inr ''UNKNOWN''
                 | Some c \<Rightarrow> claim_text (vc_normal (cl_claim c)))
            (\<lambda>container. Inr
              \<lparr>fp_invoice_id = sl_invoice s, fp_decision_seal_id = seal_id, fp_seal_digest = sl_digest s,
               fp_recommendation_type = re_type r, fp_disputed = re_disputed r,
               fp_supported = re_supported r, fp_currency = re_currency r,
               fp_period_start = fst (charge_period tenant seal_id db),
               fp_period_end = snd (charge_period tenant seal_id db),
               fp_container_ref = container, fp_invoice_no = or_else (in_no i) ''INV'',
               fp_rule_ref = or_else (case rule of None \<Rightarrow> None | Some u \<Rightarrow> ru_clause_ref u) ''UNKNOWN''\<rparr>))"

section \<open>Drafting\<close>

text \<open>
  \<open>_dollars\<close>: two decimals with grouped thousands. The quotient is a binary double in the
  source; below \<open>2 ^ 53\<close> minor units it prints as the exact cents do.
\<close>

definition dollars :: "int \<Rightarrow> string \<Rightarrow> string" where
  "dollars minor cur =
     cur @ '' $'' @ (if minor < 0 then ''-'' else '''') @ show_grouped (\<bar>minor\<bar> div 100) @ ''.''
       @ pad0 2 (show_int (\<bar>minor\<bar> mod 100))"

definition deterministic_body :: "sealed_fact_pack \<Rightarrow> string" where
  "deterministic_body p =
     ''We are requesting an adjustment of '' @ dollars (fp_disputed p) (fp_currency p)
     @ '' on invoice '' @ fp_invoice_no p @ '' for container '' @ fp_container_ref p
     @ ''. For the charged period '' @ fp_period_start p @ '' through '' @ fp_period_end p
     @ '', the invoiced rate differs from the applicable recorded tariff ('' @ fp_rule_ref p
     @ ''); the supported total is '' @ dollars (fp_supported p) (fp_currency p)
     @ ''. Please review and adjust the disputed amount accordingly.''"

text \<open>
  Where the prose comes from: the caller, or a generator with its kind and model, which
  returns prose or raises (\<open>None\<close>).
\<close>

datatype prose_source =
    CallerProse string
  | Generated string "string option" "sealed_fact_pack \<Rightarrow> string option"

definition default_generator :: prose_source where
  "default_generator = Generated ''DETERMINISTIC'' None (\<lambda>p. Some (deterministic_body p))"

definition written_prose :: "prose_source \<Rightarrow> sealed_fact_pack \<Rightarrow> string \<times> string \<times> string option" where
  "written_prose src p =
     (case src of
        CallerProse body \<Rightarrow> (body, ''CALLER_SUPPLIED'', None)
      | Generated kind model gen \<Rightarrow> (case gen p of
            Some body \<Rightarrow> (body, kind, model)
          | None \<Rightarrow> (deterministic_body p, ''DETERMINISTIC_FALLBACK'', None)))"

record draft_result =
  df_draft :: string
  df_digest :: string
  df_state :: string

definition recipient_class :: string where
  "recipient_class = ''CONTROLLED_DEMONSTRATION_INBOX''"

definition state_text :: "bool \<Rightarrow> string" where
  "state_text ok = (if ok then ''VALIDATED'' else ''INVALID'')"

definition draft_seal_key :: "draft_row \<Rightarrow> string \<times> string" where
  "draft_seal_key d = (dr_tenant d, dr_seal d)"

definition make_draft :: "string \<Rightarrow> string \<Rightarrow> sealed_fact_pack \<Rightarrow> prose_source \<Rightarrow> string \<Rightarrow> draft_row" where
  "make_draft tenant seal_id p src i =
     (case written_prose src p of (body, kind, model) \<Rightarrow>
        let fields = locked_fields p;
            locked = validate_draft_locked_fields p fields;
            prose = validate_draft_prose p (Some body)
        in \<lparr>dr_tenant = tenant, dr_id = i, dr_invoice = fp_invoice_id p, dr_seal = seal_id,
            dr_seal_digest = fp_seal_digest p, dr_recipient = recipient_class,
            dr_subject = build_subject p, dr_body = body, dr_fields = fields,
            dr_fields_digest = locked_fields_digest p,
            dr_validation = state_text (dv_ok locked \<and> dv_ok prose), dr_state = ''DRAFT_READY'',
            dr_generator = kind, dr_generator_model = model,
            dr_prose_validation = state_text (dv_ok prose), dr_prose_issues = dv_issues prose\<rparr>)"

definition draft_from_sealed :: "string \<Rightarrow> string \<Rightarrow> prose_source \<Rightarrow> (nat \<Rightarrow> string) \<Rightarrow> draft_result tx" where
  "draft_from_sealed tenant seal_id src ids =
     tx_bind (tx_read (load_sealed_fact_pack tenant seal_id)) (\<lambda>loaded. case loaded of
        Inl e \<Rightarrow> tx_raise e
      | Inr p \<Rightarrow>
          tx_bind (tx_read (\<lambda>db. List.find (\<lambda>d. draft_seal_key d = (tenant, seal_id)) (db_drafts db)))
            (\<lambda>existing. case existing of
               Some d \<Rightarrow> tx_return \<lparr>df_draft = dr_id d, df_digest = fp_seal_digest p, df_state = ''VALIDATED''\<rparr>
             | None \<Rightarrow>
                 let d = make_draft tenant seal_id p src (ids 0)
                 in tx_then (tx_insert ''draft_seal_idx'' db_drafts db_drafts_update draft_seal_key d)
                    (tx_return \<lparr>df_draft = dr_id d, df_digest = fp_seal_digest p, df_state = dr_validation d\<rparr>)))"

section \<open>The controlled provider\<close>

record inbox =
  ib_delivered :: "(string \<times> string) list"
  ib_fail :: bool

record send_receipt =
  rc_message :: string
  rc_class :: string
  rc_duplicate :: bool

definition provider_send :: "string \<Rightarrow> string \<Rightarrow> inbox \<Rightarrow> (string + send_receipt) \<times> inbox" where
  "provider_send key class ib =
     (if class \<noteq> recipient_class then (Inl ''RECIPIENT_NOT_CONTROLLED'', ib)
      else if ib_fail ib then (Inl ''PROVIDER_UNAVAILABLE'', ib)
      else (case map_of (ib_delivered ib) key of
          Some m \<Rightarrow> (Inr \<lparr>rc_message = m, rc_class = recipient_class, rc_duplicate = True\<rparr>, ib)
        | None \<Rightarrow>
            let m = ''demo-'' @ take 16 key
            in (Inr \<lparr>rc_message = m, rc_class = recipient_class, rc_duplicate = False\<rparr>,
                ib\<lparr>ib_delivered := ib_delivered ib @ [(key, m)]\<rparr>)))"

section \<open>Gates\<close>

definition gate_state_text :: "gate_state \<Rightarrow> string" where
  "gate_state_text s = (case s of GVerified \<Rightarrow> ''VERIFIED'' | GFailed \<Rightarrow> ''FAILED'' | GNotRun \<Rightarrow> ''NOT_RUN'')"

definition verified_if :: "bool \<Rightarrow> gate_state" where
  "verified_if b = (if b then GVerified else GFailed)"

definition latest_reconstruction :: "string \<Rightarrow> string \<Rightarrow> db \<Rightarrow> reconstruction_row option" where
  "latest_reconstruction tenant invoice db =
     (case filter (\<lambda>r. rn_tenant r = tenant \<and> rn_invoice r = invoice) (db_recons db) of
        [] \<Rightarrow> None | r # rs \<Rightarrow> Some (min_by (\<lambda>r. - rn_version r) r rs))"

definition memory_complete :: "string \<Rightarrow> string \<Rightarrow> db \<Rightarrow> bool" where
  "memory_complete tenant invoice db =
     (case latest_reconstruction tenant invoice db of None \<Rightarrow> False | Some r \<Rightarrow> rn_state r = ''COMPLETE'')"

definition rule_verified :: "string \<Rightarrow> string \<Rightarrow> db \<Rightarrow> bool" where
  "rule_verified tenant invoice db =
     (case List.find (\<lambda>r. ru_tenant r = tenant \<and> ru_invoice r = invoice) (db_rules db) of
        None \<Rightarrow> False | Some r \<Rightarrow> ru_validation r = ''VERIFIED'')"

definition source_exact :: "string \<Rightarrow> string \<Rightarrow> db \<Rightarrow> bool" where
  "source_exact tenant invoice db =
     (case List.find (\<lambda>s. so_tenant s = tenant \<and> so_invoice s = invoice \<and> so_type s = ''INVOICE_PDF'')
         (db_sources db) of None \<Rightarrow> False | Some s \<Rightarrow> so_preservation s = ''VERSION_VERIFIED'')"

type_synonym gate_check = "db \<Rightarrow> gate_result"

definition build_fresh_gate_checks :: "string \<Rightarrow> string \<Rightarrow> (string \<times> gate_check) list" where
  "build_fresh_gate_checks tenant invoice =
     [(''APPROVED_MEMORY_MCP'', \<lambda>db. GateResult ''APPROVED_MEMORY_MCP'' (verified_if (memory_complete tenant invoice db))
         (Some (if memory_complete tenant invoice db then ''reconstruction complete'' else ''no complete memory''))),
      (''VECTOR_CLAUSE_BINDING'', \<lambda>db. GateResult ''VECTOR_CLAUSE_BINDING'' (verified_if (rule_verified tenant invoice db)) None),
      (''EXACT_S3_SOURCE'', \<lambda>db. GateResult ''EXACT_S3_SOURCE'' (verified_if (source_exact tenant invoice db)) None),
      (''NO_FALLBACK'', \<lambda>db. GateResult ''NO_FALLBACK'' GVerified (Some ''no substitute used''))]"

text \<open>The two computed gates, then the injected ones, which may replace them.\<close>

definition gate_results ::
  "string \<Rightarrow> draft_row \<Rightarrow> (string \<times> gate_check) list \<Rightarrow> db \<Rightarrow> string \<rightharpoonup> gate_result" where
  "gate_results approver d checks db =
     foldl (\<lambda>m (c, check). m(c \<mapsto> check db))
       [''SECOND_AUTHORIZATION'' \<mapsto> GateResult ''SECOND_AUTHORIZATION'' (verified_if (approver \<noteq> '''')) None,
        ''LOCKED_FIELDS'' \<mapsto> GateResult ''LOCKED_FIELDS'' (verified_if (dr_validation d = ''VALIDATED'')) None]
       checks"

section \<open>Sending\<close>

record send_result =
  se_attempt :: string
  se_state :: string
  se_gate :: string
  se_message :: "string option"
  se_blocked :: "string option"
  se_duplicate :: bool

definition send_summary :: "string \<Rightarrow> string" where
  "send_summary ty =
     (if ty = ''correspondence.sent'' then ''Adjustment request sent to the controlled demonstration inbox''
      else if ty = ''correspondence.send_blocked'' then ''Send blocked. Required memory or evidence check failed.''
      else if ty = ''correspondence.send_failed'' then ''Controlled provider did not acknowledge; will retry.''
      else ty)"

definition error_code :: "string option \<Rightarrow> json" where
  "error_code c = JObj [(''code'', JOpt JStr c)]"

definition emit_send_event ::
  "string \<Rightarrow> string \<Rightarrow> string \<Rightarrow> string \<Rightarrow> string \<Rightarrow> json option \<Rightarrow> string option \<Rightarrow> int \<Rightarrow> string \<Rightarrow> unit tx" where
  "emit_send_event tenant invoice ty state actor err message now event_id =
     tx_bind (tx_read (\<lambda>db. if ty = ''correspondence.sent''
         then (case find_invoice tenant invoice db of None \<Rightarrow> ''READY_TO_SEND'' | Some r \<Rightarrow> in_status r)
         else ''SEND_FAILED'')) (\<lambda>aggregate.
       tx_bind (lock_invoice_and_advance tenant invoice ''READY_FOR_RECONSTRUCTION'' aggregate aggregate 1 now None)
         (\<lambda>seq. insert_event
           \<lparr>lg_tenant = tenant, lg_id = event_id, lg_invoice = invoice, lg_sequence = seq, lg_type = ty,
            lg_occurred = now, lg_role = ''CORRESPONDENCE_AGENT'', lg_task = ''SEND_CORRESPONDENCE'',
            lg_tool = Some ''Controlled mail provider'', lg_state = state, lg_aggregate = aggregate,
            lg_summary = send_summary ty, lg_initiated = None, lg_actor = actor, lg_inputs = [],
            lg_produced = (if truthy message
              then [JObj [(''type'', JStr ''send_receipt''), (''id'', JOpt JStr message), (''version'', JInt 1)]]
              else []),
            lg_output_count = None, lg_error = err\<rparr>))"

definition send_pk :: "send_row \<Rightarrow> string \<times> string" where
  "send_pk s = (sd_tenant s, sd_key s)"

definition send_id :: "send_row \<Rightarrow> string \<times> string" where
  "send_id s = (sd_tenant s, sd_id s)"

definition send_provider_key :: "send_row \<Rightarrow> string \<times> string" where
  "send_provider_key s = (sd_tenant s, sd_provider_key s)"

definition insert_send :: "send_row \<Rightarrow> unit tx" where
  "insert_send s =
     tx_then (tx_unique ''primary'' db_sends send_pk s)
     (tx_then (tx_unique ''send_attempt_id_idx'' db_sends send_id s)
     (tx_insert ''send_provider_key_idx'' db_sends db_sends_update send_provider_key s))"

definition gate_run_key :: "gate_run_row \<Rightarrow> string \<times> string \<times> string" where
  "gate_run_key g = (gn_tenant g, gn_attempt g, gn_code g)"

definition insert_gate_runs :: "string \<Rightarrow> string \<Rightarrow> gate_result list \<Rightarrow> unit tx" where
  "insert_gate_runs tenant attempt results =
     tx_for results (\<lambda>r. tx_insert ''gate_run_code_idx'' db_gate_runs db_gate_runs_update gate_run_key
       \<lparr>gn_tenant = tenant, gn_attempt = attempt, gn_code = gr_gate_code r,
        gn_state = gate_state_text (gr_state r), gn_detail = gr_detail r\<rparr>)"

definition send_request_hash :: "string \<Rightarrow> string \<Rightarrow> string" where
  "send_request_hash draft_id digest =
     prefixed_sha256 (canonical_json_bytes (JObj [(''draft'', JStr draft_id), (''seal_digest'', JStr digest)]))"

definition provider_key :: "string \<Rightarrow> string \<Rightarrow> string" where
  "provider_key attempt digest =
     remove_prefix ''sha256:'' (prefixed_sha256 (canonical_json_bytes
       (JObj [(''attempt'', JStr attempt), (''seal'', JStr digest)])))"

definition find_draft :: "string \<Rightarrow> string \<Rightarrow> db \<Rightarrow> draft_row option" where
  "find_draft tenant i db = List.find (\<lambda>d. dr_tenant d = tenant \<and> dr_id d = i) (db_drafts db)"

definition find_send :: "string \<Rightarrow> string \<Rightarrow> db \<Rightarrow> send_row option" where
  "find_send tenant key db = List.find (\<lambda>s. send_pk s = (tenant, key)) (db_sends db)"

definition make_send ::
  "string \<Rightarrow> string \<Rightarrow> draft_row \<Rightarrow> string \<Rightarrow> string \<Rightarrow> send_decision \<Rightarrow> send_row" where
  "make_send tenant i d key approver decision =
     \<lparr>sd_tenant = tenant, sd_id = i, sd_invoice = dr_invoice d, sd_draft = dr_id d, sd_seal = dr_seal d,
      sd_key = key, sd_hash = send_request_hash (dr_id d) (dr_seal_digest d), sd_approver = approver,
      sd_gate_state = (if sd_permitted decision then ''PASSED'' else ''BLOCKED''),
      sd_send_state = (if sd_permitted decision then ''PENDING'' else ''SEND_BLOCKED''),
      sd_provider_key = provider_key i (dr_seal_digest d), sd_message_id = None,
      sd_recipient = recipient_class, sd_blocked = sd_blocked_reason decision, sd_acknowledged = None\<rparr>"

text \<open>
  The transaction up to the provider: it either has its result, or leaves a pending attempt for
  the given draft.
\<close>

definition prepare_send ::
  "string \<Rightarrow> string \<Rightarrow> string \<Rightarrow> string \<Rightarrow> (string \<times> gate_check) list \<Rightarrow> int \<Rightarrow> (nat \<Rightarrow> string)
     \<Rightarrow> (send_result + draft_row) tx" where
  "prepare_send tenant draft_id key approver checks now ids =
     tx_bind (tx_read (\<lambda>db. (find_draft tenant draft_id db, find_send tenant key db))) (\<lambda>(draft, existing).
       case draft of
         None \<Rightarrow> tx_raise (Raised ''DRAFT_NOT_FOUND'')
       | Some d \<Rightarrow> (case existing of
           Some s \<Rightarrow> tx_then (tx_require (sd_hash s = send_request_hash draft_id (dr_seal_digest d)) ''IDEMPOTENCY_CONFLICT'')
             (tx_return (Inl \<lparr>se_attempt = sd_id s, se_state = sd_send_state s, se_gate = sd_gate_state s,
                se_message = sd_message_id s, se_blocked = sd_blocked s, se_duplicate = True\<rparr>))
         | None \<Rightarrow>
             tx_bind (tx_read (\<lambda>db. evaluate_send_gates (gate_results approver d checks db))) (\<lambda>decision.
               tx_then (insert_send (make_send tenant (ids 0) d key approver decision))
               (tx_then (insert_gate_runs tenant (ids 0) (sd_gate_results decision))
               (if sd_permitted decision then tx_return (Inr d)
                else tx_then
                  (emit_send_event tenant (dr_invoice d) ''correspondence.send_blocked'' ''BLOCKED'' approver
                    (Some (error_code (sd_blocked_reason decision))) None now (ids 7))
                  (tx_return (Inl \<lparr>se_attempt = ids 0, se_state = ''SEND_BLOCKED'', se_gate = ''BLOCKED'',
                     se_message = None, se_blocked = sd_blocked_reason decision, se_duplicate = False\<rparr>)))))))"

definition record_outcome ::
  "string \<Rightarrow> draft_row \<Rightarrow> string \<Rightarrow> string + send_receipt \<Rightarrow> int \<Rightarrow> (nat \<Rightarrow> string) \<Rightarrow> send_result tx" where
  "record_outcome tenant d approver outcome now ids =
     (case outcome of
        Inl err \<Rightarrow>
          tx_then (tx_update db_sends_update (\<lambda>s. send_id s = (tenant, ids 0))
            (\<lambda>s. s\<lparr>sd_send_state := ''SEND_FAILED_RETRYABLE'', sd_blocked := Some err\<rparr>))
          (tx_then (emit_send_event tenant (dr_invoice d) ''correspondence.send_failed'' ''FAILED'' approver
              (Some (error_code (Some err))) None now (ids 7))
          (tx_return \<lparr>se_attempt = ids 0, se_state = ''SEND_FAILED_RETRYABLE'', se_gate = ''PASSED'',
             se_message = None, se_blocked = Some err, se_duplicate = False\<rparr>))
      | Inr receipt \<Rightarrow>
          tx_then (tx_update db_sends_update (\<lambda>s. send_id s = (tenant, ids 0))
            (\<lambda>s. s\<lparr>sd_send_state := ''SENT'', sd_message_id := Some (rc_message receipt),
               sd_acknowledged := Some now\<rparr>))
          (tx_then (emit_send_event tenant (dr_invoice d) ''correspondence.sent'' ''COMPLETED'' approver
              None (Some (rc_message receipt)) now (ids 7))
          (tx_return \<lparr>se_attempt = ids 0, se_state = ''SENT'', se_gate = ''PASSED'',
             se_message = Some (rc_message receipt), se_blocked = None, se_duplicate = rc_duplicate receipt\<rparr>)))"

definition approve_and_send ::
  "string \<Rightarrow> string \<Rightarrow> string \<Rightarrow> string \<Rightarrow> (string \<times> gate_check) list \<Rightarrow> int \<Rightarrow> (nat \<Rightarrow> string)
     \<Rightarrow> db \<times> inbox \<Rightarrow> (tx_error + send_result \<times> db) \<times> inbox" where
  "approve_and_send tenant draft_id key approver checks now ids x =
     (case prepare_send tenant draft_id key approver checks now ids (fst x) of
        Inl e \<Rightarrow> (Inl e, snd x)
      | Inr (Inl res, db') \<Rightarrow> (Inr (res, db'), snd x)
      | Inr (Inr d, db') \<Rightarrow>
          (case provider_send (provider_key (ids 0) (dr_seal_digest d)) recipient_class (snd x) of
             (outcome, ib) \<Rightarrow> (record_outcome tenant d approver outcome now ids db', ib)))"

text \<open>
  The transaction runner around it: a restart rolls the database back, but not the provider.
\<close>

datatype restart = Commits | RestartsBeforeSend | RestartsAfterSend

fun send_with_retry ::
  "nat \<Rightarrow> restart list \<Rightarrow> nat \<Rightarrow> (nat \<Rightarrow> db \<times> inbox \<Rightarrow> (tx_error + send_result \<times> db) \<times> inbox)
     \<Rightarrow> db \<times> inbox \<Rightarrow> (tx_error + send_result) \<times> db \<times> inbox" where
  "send_with_retry m [] n body x =
     (case body n x of (Inl e, ib) \<Rightarrow> (Inl e, fst x, ib) | (Inr (r, db'), ib) \<Rightarrow> (Inr r, db', ib))"
| "send_with_retry m (Commits # rs) n body x = send_with_retry m [] n body x"
| "send_with_retry m (RestartsBeforeSend # rs) n body x =
     (if m < n + 1 then (Inl SerializationFailure, x) else send_with_retry m rs (n + 1) body x)"
| "send_with_retry m (RestartsAfterSend # rs) n body x =
     (if m < n + 1 then (Inl SerializationFailure, fst x, snd (body n x))
      else send_with_retry m rs (n + 1) body (fst x, snd (body n x)))"

section \<open>What each part leaves\<close>

lemma safe_emit: "keeps (safe t) (emit_send_event t i ty st actor err message now e)"
  unfolding emit_send_event_def by (intro safe_intros) auto

lemma safe_prepare: "keeps (safe t) (prepare_send t draft_id key approver checks now ids)"
  unfolding prepare_send_def insert_send_def insert_gate_runs_def
  by (auto simp: make_send_def split: prod.splits option.splits intro!: safe_intros safe_emit)

lemma safe_outcome: "keeps (safe t) (record_outcome t d approver outcome now ids)"
  unfolding record_outcome_def
  by (auto simp: send_id_def split: sum.splits intro!: safe_intros safe_emit)

lemma safe_draft: "keeps (safe t) (draft_from_sealed t seal_id src ids)"
  unfolding draft_from_sealed_def Let_def
  by (auto simp: make_draft_def Let_def split: sum.splits option.splits prod.splits intro!: safe_intros)

lemma prepare_send_pending:
  "prepare_send t draft_id key approver checks now ids db = Inr (Inr d, db') \<Longrightarrow>
     find_draft t draft_id db = Some d \<and> find_send t key db = None
     \<and> sd_permitted (evaluate_send_gates (gate_results approver d checks db))"
  by (auto simp: prepare_send_def tx_simps split: option.splits if_splits prod.splits)

lemma gate_results_fresh:
  assumes "sd_permitted (evaluate_send_gates (gate_results approver d (build_fresh_gate_checks t i) db))"
  shows "approver \<noteq> '''' \<and> dr_validation d = ''VALIDATED'' \<and> memory_complete t i db
    \<and> rule_verified t i db \<and> source_exact t i db"
proof -
  have "\<forall>g \<in> set send_gates. gate_ok (gate_results approver d (build_fresh_gate_checks t i) db) g"
    using assms by (simp only: send_gate.pass_all)
  then show ?thesis
    by (simp add: send_gates_def gate_ok_def gate_lookup_def gate_results_def build_fresh_gate_checks_def
        verified_if_def split: if_splits)
qed

lemma blocked_none: "sd_permitted (evaluate_send_gates rs) \<longleftrightarrow> sd_blocked_reason (evaluate_send_gates rs) = None"
  by (auto simp: evaluate_send_gates_def split: prod.splits)

text \<open>The row of a new attempt after each part.\<close>

lemma gate_runs_frame:
  "insert_gate_runs t a results db = Inr (u, db') \<Longrightarrow> db_sends db' = db_sends db \<and> db_drafts db' = db_drafts db"
  unfolding insert_gate_runs_def
  by (induction results arbitrary: db) (auto simp: tx_simps)

lemma emit_frame:
  "emit_send_event t i ty st actor err message now e db = Inr (u, db') \<Longrightarrow>
     db_sends db' = db_sends db \<and> db_drafts db' = db_drafts db"
  by (auto simp: emit_send_event_def tx_simps lock_Inr insert_event_Inr)

lemma find_send_appended:
  "find_send t key db = None \<Longrightarrow> db_sends db' = db_sends db @ [s] \<Longrightarrow> send_pk s = (t, key) \<Longrightarrow>
     find_send t key db' = Some s"
  by (simp add: find_send_def find_append)

lemma prepare_new:
  assumes "prepare_send t draft_id key approver checks now ids db = Inr (out, db')" "find_send t key db = None"
  shows "\<exists>d. find_draft t draft_id db = Some d \<and> find_draft t draft_id db' = Some d
    \<and> (let decision = evaluate_send_gates (gate_results approver d checks db) in
       find_send t key db' = Some (make_send t (ids 0) d key approver decision)
       \<and> out = (if sd_permitted decision then Inr d
           else Inl \<lparr>se_attempt = ids 0, se_state = ''SEND_BLOCKED'', se_gate = ''BLOCKED'',
             se_message = None, se_blocked = sd_blocked_reason decision, se_duplicate = False\<rparr>))"
proof -
  from assms obtain d where d: "find_draft t draft_id db = Some d"
    by (cases "find_draft t draft_id db") (auto simp: prepare_send_def tx_simps)
  let ?dec = "evaluate_send_gates (gate_results approver d checks db)"
  let ?s = "make_send t (ids 0) d key approver ?dec"
  from assms d obtain db1 db2 where
    s1: "insert_send ?s db = Inr ((), db1)"
    and s2: "insert_gate_runs t (ids 0) (sd_gate_results ?dec) db1 = Inr ((), db2)"
    and rest: "(if sd_permitted ?dec then out = Inr d \<and> db' = db2
      else emit_send_event t (dr_invoice d) ''correspondence.send_blocked'' ''BLOCKED'' approver
          (Some (error_code (sd_blocked_reason ?dec))) None now (ids 7) db2 = Inr ((), db')
        \<and> out = Inl \<lparr>se_attempt = ids 0, se_state = ''SEND_BLOCKED'', se_gate = ''BLOCKED'',
             se_message = None, se_blocked = sd_blocked_reason ?dec, se_duplicate = False\<rparr>)"
    by (auto simp: prepare_send_def tx_simps split: if_splits)
  from s1 have "db_sends db1 = db_sends db @ [?s]" "db_drafts db1 = db_drafts db"
    by (simp_all add: insert_send_def tx_simps)
  with gate_runs_frame [OF s2] rest emit_frame have
    "db_sends db' = db_sends db @ [?s]" "db_drafts db' = db_drafts db"
    by (auto split: if_splits)
  moreover have "send_pk ?s = (t, key)" by (simp add: send_pk_def make_send_def)
  ultimately have "find_send t key db' = Some ?s" "find_draft t draft_id db' = Some d"
    using find_send_appended [OF assms(2)] d by (simp_all add: find_draft_def)
  with d rest show ?thesis by (auto simp: Let_def split: if_splits)
qed

lemma record_outcome_row:
  assumes "record_outcome t d approver outcome now ids db = Inr (r, db')" "find_send t key db = Some s"
    and "sd_id s = ids 0"
  shows "find_draft t i db' = find_draft t i db \<and> se_attempt r = ids 0 \<and> se_gate r = ''PASSED''
    \<and> (case outcome of
         Inl err \<Rightarrow> find_send t key db' = Some (s\<lparr>sd_send_state := ''SEND_FAILED_RETRYABLE'', sd_blocked := Some err\<rparr>)
           \<and> se_state r = ''SEND_FAILED_RETRYABLE'' \<and> se_message r = None \<and> se_blocked r = Some err
           \<and> \<not> se_duplicate r
       | Inr receipt \<Rightarrow> find_send t key db' = Some (s\<lparr>sd_send_state := ''SENT'',
             sd_message_id := Some (rc_message receipt), sd_acknowledged := Some now\<rparr>)
           \<and> se_state r = ''SENT'' \<and> se_message r = Some (rc_message receipt) \<and> se_blocked r = None
           \<and> se_duplicate r = rc_duplicate receipt)"
proof -
  from assms(2) have "sd_tenant s = t"
    by (auto simp: find_send_def send_pk_def dest: find_SomeD)
  with assms(2,3) have key: "find_send t key db' = Some (f s)"
    if "db_sends db' = update_rows (\<lambda>s. send_id s = (t, ids 0)) f (db_sends db)"
      "\<And>s. send_pk (f s) = send_pk s" for f
    using that by (simp add: find_send_def find_update_rows send_id_def)
  show ?thesis
  proof (cases outcome)
    case (Inl err)
    with assms(1) obtain db1 where
      u: "db1 = db_sends_update (update_rows (\<lambda>s. send_id s = (t, ids 0))
            (\<lambda>s. s\<lparr>sd_send_state := ''SEND_FAILED_RETRYABLE'', sd_blocked := Some err\<rparr>)) db"
      and e: "emit_send_event t (dr_invoice d) ''correspondence.send_failed'' ''FAILED'' approver
              (Some (error_code (Some err))) None now (ids 7) db1 = Inr ((), db')"
      and r: "r = \<lparr>se_attempt = ids 0, se_state = ''SEND_FAILED_RETRYABLE'', se_gate = ''PASSED'',
             se_message = None, se_blocked = Some err, se_duplicate = False\<rparr>"
      by (auto simp: record_outcome_def tx_simps)
    from emit_frame [OF e] u key show ?thesis
      by (simp add: Inl r find_draft_def send_pk_def)
  next
    case (Inr receipt)
    with assms(1) obtain db1 where
      u: "db1 = db_sends_update (update_rows (\<lambda>s. send_id s = (t, ids 0))
            (\<lambda>s. s\<lparr>sd_send_state := ''SENT'', sd_message_id := Some (rc_message receipt),
               sd_acknowledged := Some now\<rparr>)) db"
      and e: "emit_send_event t (dr_invoice d) ''correspondence.sent'' ''COMPLETED'' approver
              None (Some (rc_message receipt)) now (ids 7) db1 = Inr ((), db')"
      and r: "r = \<lparr>se_attempt = ids 0, se_state = ''SENT'', se_gate = ''PASSED'',
             se_message = Some (rc_message receipt), se_blocked = None, se_duplicate = rc_duplicate receipt\<rparr>"
      by (auto simp: record_outcome_def tx_simps)
    from emit_frame [OF e] u key show ?thesis
      by (simp add: Inr r find_draft_def send_pk_def)
  qed
qed

text \<open>What a successful request leaves, as one statement.\<close>

definition recorded :: "string \<Rightarrow> string \<Rightarrow> string \<Rightarrow> send_result \<Rightarrow> db \<Rightarrow> bool" where
  "recorded t draft_id key r db =
     (\<exists>d s. find_draft t draft_id db = Some d \<and> find_send t key db = Some s
        \<and> sd_hash s = send_request_hash draft_id (dr_seal_digest d)
        \<and> r\<lparr>se_duplicate := True\<rparr> = \<lparr>se_attempt = sd_id s, se_state = sd_send_state s,
            se_gate = sd_gate_state s, se_message = sd_message_id s, se_blocked = sd_blocked s,
            se_duplicate = True\<rparr>)"

lemma find_draft_id: "find_draft t i db = Some d \<Longrightarrow> dr_id d = i"
  by (auto simp: find_draft_def dest: find_SomeD)

lemma approve_and_send_new:
  assumes "approve_and_send t draft_id key approver checks now ids (db, ib) = (Inr (r, db'), ib')"
    and "find_send t key db = None"
  shows "recorded t draft_id key r db' \<and>
    (\<exists>d. find_draft t draft_id db = Some d \<and>
      (if sd_permitted (evaluate_send_gates (gate_results approver d checks db))
       then (\<exists>outcome. provider_send (provider_key (ids 0) (dr_seal_digest d)) recipient_class ib = (outcome, ib')
          \<and> se_state r = (case outcome of Inl _ \<Rightarrow> ''SEND_FAILED_RETRYABLE'' | Inr _ \<Rightarrow> ''SENT'')
          \<and> se_message r = (case outcome of Inl _ \<Rightarrow> None | Inr c \<Rightarrow> Some (rc_message c))
          \<and> se_blocked r = (case outcome of Inl e \<Rightarrow> Some e | Inr _ \<Rightarrow> None))
       else ib' = ib \<and> se_state r = ''SEND_BLOCKED'' \<and> se_message r = None
          \<and> se_blocked r = sd_blocked_reason (evaluate_send_gates (gate_results approver d checks db))))"
proof -
  from assms(1) obtain out dbm where
    p: "prepare_send t draft_id key approver checks now ids db = Inr (out, dbm)"
    by (cases "prepare_send t draft_id key approver checks now ids db") (auto simp: approve_and_send_def)
  from prepare_new [OF p assms(2)] obtain d where
    d: "find_draft t draft_id db = Some d" "find_draft t draft_id dbm = Some d"
    and s: "find_send t key dbm = Some (make_send t (ids 0) d key approver
       (evaluate_send_gates (gate_results approver d checks db)))"
    and out: "out = (if sd_permitted (evaluate_send_gates (gate_results approver d checks db)) then Inr d
           else Inl \<lparr>se_attempt = ids 0, se_state = ''SEND_BLOCKED'', se_gate = ''BLOCKED'',
             se_message = None, se_blocked = sd_blocked_reason (evaluate_send_gates (gate_results approver d checks db)),
             se_duplicate = False\<rparr>)" unfolding Let_def by blast
  let ?dec = "evaluate_send_gates (gate_results approver d checks db)"
  note di = find_draft_id [OF d(1)]
  show ?thesis
  proof (cases "sd_permitted ?dec")
    case False
    with assms(1) p out have r: "ib' = ib" "db' = dbm"
      "r = \<lparr>se_attempt = ids 0, se_state = ''SEND_BLOCKED'', se_gate = ''BLOCKED'',
             se_message = None, se_blocked = sd_blocked_reason ?dec, se_duplicate = False\<rparr>"
      by (auto simp: approve_and_send_def)
    from False d s di have "recorded t draft_id key r db'"
      unfolding recorded_def r(2,3) by (simp add: make_send_def)
    with False d r show ?thesis by simp
  next
    case True
    obtain outcome ib1 where
      o: "provider_send (provider_key (ids 0) (dr_seal_digest d)) recipient_class ib = (outcome, ib1)"
      by fastforce
    from True assms(1) p out o have ib: "ib' = ib1"
      and rec: "record_outcome t d approver outcome now ids dbm = Inr (r, db')"
      by (auto simp: approve_and_send_def)
    note row = record_outcome_row [OF rec s, of draft_id]
    have blk: "sd_blocked_reason ?dec = None" using True by (simp add: blocked_none)
    have "recorded t draft_id key r db'"
    proof (cases outcome)
      case (Inl err)
      with row d True di show ?thesis by (simp add: recorded_def make_send_def)
    next
      case (Inr c)
      with row d True di blk show ?thesis by (simp add: recorded_def make_send_def)
    qed
    with True d o ib row show ?thesis by (cases outcome) (auto simp: make_send_def)
  qed
qed

lemma approve_and_send_replay:
  assumes "approve_and_send t draft_id key approver checks now ids (db, ib) = (Inr (r, db'), ib')"
    and "find_send t key db = Some s"
  shows "db' = db \<and> ib' = ib \<and> se_duplicate r \<and> recorded t draft_id key r db'"
proof -
  from assms obtain d where d: "find_draft t draft_id db = Some d"
    by (cases "find_draft t draft_id db")
      (auto simp: approve_and_send_def prepare_send_def tx_bind_def tx_read_def tx_raise_def)
  with assms show ?thesis
    by (auto simp: approve_and_send_def prepare_send_def tx_run recorded_def split: if_splits)
qed

text \<open>What a draft reads is not changed by drafts.\<close>

lemma load_frame:
  assumes "db_seals db' = db_seals db" "db_recs db' = db_recs db" "db_invoices db' = db_invoices db"
    "db_rules db' = db_rules db" "db_claims db' = db_claims db" "db_claim_sets db' = db_claim_sets db"
    "db_judgments db' = db_judgments db"
  shows "load_sealed_fact_pack t seal_id db' = load_sealed_fact_pack t seal_id db"
  unfolding load_sealed_fact_pack_def sealed_rows_def container_claim_def charge_period_def assms ..

section \<open>A sample state\<close>

definition sample_draft :: draft_row where
  "sample_draft =
     \<lparr>dr_tenant = ''t'', dr_id = ''d'', dr_invoice = ''i'', dr_seal = ''l'', dr_seal_digest = ''g'',
        dr_recipient = recipient_class, dr_subject = ''S'', dr_body = ''B'', dr_fields = [],
        dr_fields_digest = ''f'', dr_validation = ''VALIDATED'', dr_state = ''DRAFT_READY'',
        dr_generator = ''DETERMINISTIC'', dr_generator_model = None, dr_prose_validation = ''VALIDATED'',
        dr_prose_issues = []\<rparr>"

definition sending_db :: "string \<Rightarrow> db" where
  "sending_db preservation = empty_db
     \<lparr>db_invoices := [sample_invoice], db_sources := [sample_source\<lparr>so_preservation := preservation\<rparr>],
      db_rules := [sample_rule_row], db_recons := [sample_reconstruction], db_drafts := [sample_draft]\<rparr>"

definition empty_inbox :: inbox where
  "empty_inbox = \<lparr>ib_delivered = [], ib_fail = False\<rparr>"

definition send_ids :: "nat \<Rightarrow> string" where
  "send_ids n = (if n = 0 then ''a'' else ''e'')"

definition sample_send :: "(string \<times> gate_check) list \<Rightarrow> db \<times> inbox \<Rightarrow> (tx_error + send_result \<times> db) \<times> inbox" where
  "sample_send checks = approve_and_send ''t'' ''d'' ''key'' ''Bob'' checks 5 send_ids"

lemmas send_run = approve_and_send_def prepare_send_def insert_send_def insert_gate_runs_def
  record_outcome_def emit_send_event_def provider_send_def tx_run find_draft_def find_send_def
  send_pk_def send_id_def send_provider_key_def make_send_def gate_run_key_def lock_invoice_and_advance_def
  insert_event_def insert_row_def find_invoice_def invoice_key_def Let_def

lemma sample_gates:
  "evaluate_send_gates (gate_results ''Bob'' sample_draft
     (build_fresh_gate_checks ''t'' ''i'') (sending_db ''VERSION_VERIFIED'')) =
   SendDecision True
     [GateResult ''SECOND_AUTHORIZATION'' GVerified None, GateResult ''LOCKED_FIELDS'' GVerified None,
      GateResult ''APPROVED_MEMORY_MCP'' GVerified (Some ''reconstruction complete''),
      GateResult ''VECTOR_CLAUSE_BINDING'' GVerified None, GateResult ''EXACT_S3_SOURCE'' GVerified None,
      GateResult ''NO_FALLBACK'' GVerified (Some ''no substitute used'')] None"
  by code_simp

lemma sending_tables:
  "db_drafts (sending_db s) = [sample_draft]" "db_sends (sending_db s) = []"
  "db_gate_runs (sending_db s) = []" "db_events (sending_db s) = []"
  "db_invoices (sending_db s) = [hd (db_invoices (sending_db s))]"
  "in_tenant (hd (db_invoices (sending_db s))) = ''t''" "in_id (hd (db_invoices (sending_db s))) = ''i''"
  by (simp_all add: sending_db_def sample_row_defs)

lemma sample_draft_keys:
  "dr_tenant sample_draft = ''t''" "dr_id sample_draft = ''d''" "dr_invoice sample_draft = ''i''"
  "dr_seal_digest sample_draft = ''g''"
  by (simp_all add: sample_draft_def)

lemma sample_sent:
  "\<exists>r db'. sample_send (build_fresh_gate_checks ''t'' ''i'') (sending_db ''VERSION_VERIFIED'', empty_inbox) =
     (Inr (r, db'), empty_inbox\<lparr>ib_delivered := [(provider_key ''a'' ''g'', ''demo-'' @ take 16 (provider_key ''a'' ''g''))]\<rparr>)
     \<and> se_state r = ''SENT''"
proof -
  obtain i where i: "db_invoices (sending_db ''VERSION_VERIFIED'') = [i]" "in_tenant i = ''t''" "in_id i = ''i''"
    by (simp add: sending_db_def sample_row_defs)
  show ?thesis
    by (simp add: sample_send_def send_run sample_gates sending_tables(1-4) sample_draft_keys i send_ids_def empty_inbox_def
        update_rows_def event_key_def)
qed

section \<open>Properties\<close>

text \<open>
  C20: the provider is called only when every gate verified. If a request with the platform's
  fresh checks changes what the provider delivered, then it is the first under its key, the second
  approver is named, the draft is validated, and in the same transaction's state the latest
  reconstruction is complete, the rule is verified and the exact source version is verified; and
  exactly one message was added, for the controlled recipient class.
\<close>

theorem provider_only_after_gates:
  assumes "approve_and_send t draft_id key approver (build_fresh_gate_checks t i) now ids (db, ib) = (res, ib')"
    and "ib' \<noteq> ib"
  shows "\<exists>d. find_draft t draft_id db = Some d \<and> find_send t key db = None \<and> approver \<noteq> ''''
    \<and> dr_validation d = ''VALIDATED'' \<and> memory_complete t i db \<and> rule_verified t i db \<and> source_exact t i db
    \<and> (\<exists>m. ib_delivered ib' = ib_delivered ib @ [(provider_key (ids 0) (dr_seal_digest d), m)])"
proof -
  from assms obtain d dbm where
    p: "prepare_send t draft_id key approver (build_fresh_gate_checks t i) now ids db = Inr (Inr d, dbm)"
    and ib: "ib' = snd (provider_send (provider_key (ids 0) (dr_seal_digest d)) recipient_class ib)"
    by (auto simp: approve_and_send_def split: sum.splits prod.splits)
  from prepare_send_pending [OF p] gate_results_fresh ib assms(2) show ?thesis
    by (auto simp: provider_send_def Let_def split: if_splits option.splits)
qed

theorem provider_only_after_gates_witness:
  "\<exists>m. ib_delivered (snd (sample_send (build_fresh_gate_checks ''t'' ''i'') (sending_db ''VERSION_VERIFIED'', empty_inbox)))
     = [(provider_key ''a'' ''g'', m)] \<and> source_exact ''t'' ''i'' (sending_db ''VERSION_VERIFIED'')"
proof -
  from sample_sent obtain r db' ib' where
    s: "approve_and_send ''t'' ''d'' ''key'' ''Bob'' (build_fresh_gate_checks ''t'' ''i'') 5 send_ids
      (sending_db ''VERSION_VERIFIED'', empty_inbox) = (Inr (r, db'), ib')"
    and ib: "ib' = empty_inbox\<lparr>ib_delivered := [(provider_key ''a'' ''g'', ''demo-'' @ take 16 (provider_key ''a'' ''g''))]\<rparr>"
    unfolding sample_send_def by blast
  have "ib' \<noteq> empty_inbox" by (simp add: ib empty_inbox_def)
  from provider_only_after_gates [OF s this] have "source_exact ''t'' ''i'' (sending_db ''VERSION_VERIFIED'')"
    by blast
  with s ib show ?thesis by (simp add: sample_send_def)
qed

text \<open>
  A send is idempotent under its key. After a request that was answered, whether sent,
  blocked or failed, the same draft under the same key gets the stored answer, marked as a
  duplicate, without a call of the provider or a change of the database, whoever asks and
  whatever the gates say then; a draft or seal that does not match is an \<open>IDEMPOTENCY_CONFLICT\<close>.
\<close>

theorem send_idempotent:
  assumes "approve_and_send t draft_id key approver checks now ids (db, ib) = (Inr (r, db'), ib')"
  shows "approve_and_send t draft_id key approver' checks' now' ids' (db', ib2)
      = (Inr (r\<lparr>se_duplicate := True\<rparr>, db'), ib2)
    \<and> (\<forall>other d d'. find_draft t other db' = Some d' \<and> find_draft t draft_id db' = Some d
        \<and> send_request_hash other (dr_seal_digest d') \<noteq> send_request_hash draft_id (dr_seal_digest d) \<longrightarrow>
          approve_and_send t other key approver' checks' now' ids' (db', ib2)
            = (Inl (Raised ''IDEMPOTENCY_CONFLICT''), ib2))"
proof -
  have "recorded t draft_id key r db'"
    using approve_and_send_new [OF assms] approve_and_send_replay [OF assms]
    by (cases "find_send t key db") auto
  then obtain d s where f: "find_draft t draft_id db' = Some d" "find_send t key db' = Some s"
    "sd_hash s = send_request_hash draft_id (dr_seal_digest d)"
    and r: "r\<lparr>se_duplicate := True\<rparr> = \<lparr>se_attempt = sd_id s, se_state = sd_send_state s,
            se_gate = sd_gate_state s, se_message = sd_message_id s, se_blocked = sd_blocked s,
            se_duplicate = True\<rparr>" unfolding recorded_def by blast
  show ?thesis
    unfolding r using f by (auto simp: approve_and_send_def prepare_send_def tx_run)
qed

theorem send_idempotent_witness:
  "\<exists>r db' ib'. sample_send (build_fresh_gate_checks ''t'' ''i'') (sending_db ''VERSION_VERIFIED'', empty_inbox)
       = (Inr (r, db'), ib')
     \<and> sample_send [] (db', ib') = (Inr (r\<lparr>se_duplicate := True\<rparr>, db'), ib') \<and> se_state r = ''SENT''"
proof -
  from sample_sent obtain r db' ib' where
    s: "approve_and_send ''t'' ''d'' ''key'' ''Bob'' (build_fresh_gate_checks ''t'' ''i'') 5 send_ids
      (sending_db ''VERSION_VERIFIED'', empty_inbox) = (Inr (r, db'), ib')" "se_state r = ''SENT''"
    unfolding sample_send_def by blast
  from send_idempotent [OF s(1), of "''Bob''" "[]" 5 send_ids ib'] s show ?thesis
    unfolding sample_send_def by blast
qed

text \<open>
  C21: the answer says what happened. A first request under a key is blocked exactly when the
  gates do not permit it, with their reason and without touching the provider; otherwise it is
  sent with the provider's message, which the provider then has delivered, or reported as failed
  with nothing delivered. The stored attempt agrees with the answer, and other tenants' rows
  are unchanged.
\<close>

theorem answer_matches_delivery:
  assumes "approve_and_send t draft_id key approver checks now ids (db, ib) = (Inr (r, db'), ib')"
    and "find_send t key db = None"
  shows "(\<exists>d. find_draft t draft_id db = Some d \<and>
      (se_state r = ''SEND_BLOCKED'' \<longleftrightarrow> \<not> sd_permitted (evaluate_send_gates (gate_results approver d checks db))))
    \<and> (se_state r = ''SENT'' \<longleftrightarrow> (\<exists>m. se_message r = Some m \<and> m \<in> snd ` set (ib_delivered ib')))
    \<and> (se_state r \<noteq> ''SENT'' \<longrightarrow> ib' = ib \<and> se_blocked r \<noteq> None)
    \<and> se_state r \<in> {''SENT'', ''SEND_BLOCKED'', ''SEND_FAILED_RETRYABLE''}
    \<and> (\<exists>s. find_send t key db' = Some s \<and> sd_send_state s = se_state r \<and> sd_message_id s = se_message r)
    \<and> foreign t db' = foreign t db"
proof -
  from approve_and_send_new [OF assms] obtain d where rec: "recorded t draft_id key r db'"
    and d: "find_draft t draft_id db = Some d"
    and cs: "if sd_permitted (evaluate_send_gates (gate_results approver d checks db))
       then (\<exists>outcome. provider_send (provider_key (ids 0) (dr_seal_digest d)) recipient_class ib = (outcome, ib')
          \<and> se_state r = (case outcome of Inl _ \<Rightarrow> ''SEND_FAILED_RETRYABLE'' | Inr _ \<Rightarrow> ''SENT'')
          \<and> se_message r = (case outcome of Inl _ \<Rightarrow> None | Inr c \<Rightarrow> Some (rc_message c))
          \<and> se_blocked r = (case outcome of Inl e \<Rightarrow> Some e | Inr _ \<Rightarrow> None))
       else ib' = ib \<and> se_state r = ''SEND_BLOCKED'' \<and> se_message r = None
          \<and> se_blocked r = sd_blocked_reason (evaluate_send_gates (gate_results approver d checks db))" by blast
  have delivered: "m \<in> snd ` set (ib_delivered ib2)"
    if "provider_send k c ib = (Inr \<lparr>rc_message = m, rc_class = q, rc_duplicate = z\<rparr>, ib2)" for k c m q z ib2
    using that by (force simp: provider_send_def Let_def split: if_splits option.splits dest: map_of_SomeD)
  have failed: "ib2 = ib" if "provider_send k c ib = (Inl e, ib2)" for k c e ib2
    using that by (auto simp: provider_send_def Let_def split: if_splits option.splits)
  from rec obtain s where s: "find_send t key db' = Some s" "sd_send_state s = se_state r"
    "sd_message_id s = se_message r" unfolding recorded_def by (cases r) auto
  from assms(1) have iso: "foreign t db' = foreign t db"
    using safe.keepsD [OF safe_prepare] safe.keepsD [OF safe_outcome]
    by (fastforce simp: approve_and_send_def safe_def isolated_def split: sum.splits prod.splits)
  show ?thesis
  proof (cases "sd_permitted (evaluate_send_gates (gate_results approver d checks db))")
    case False
    with cs d s iso show ?thesis by (simp add: blocked_none)
  next
    case True
    with cs obtain outcome where
      o: "provider_send (provider_key (ids 0) (dr_seal_digest d)) recipient_class ib = (outcome, ib')"
        "se_state r = (case outcome of Inl _ \<Rightarrow> ''SEND_FAILED_RETRYABLE'' | Inr _ \<Rightarrow> ''SENT'')"
        "se_message r = (case outcome of Inl _ \<Rightarrow> None | Inr c \<Rightarrow> Some (rc_message c))"
        "se_blocked r = (case outcome of Inl e \<Rightarrow> Some e | Inr _ \<Rightarrow> None)" by auto
    show ?thesis
    proof (cases outcome)
      case (Inl e)
      with True d s iso o failed show ?thesis by simp
    next
      case (Inr c)
      with True d s iso o delivered show ?thesis by (cases c) simp
    qed
  qed
qed

theorem answer_matches_delivery_witness:
  "\<exists>r db' ib'. sample_send (build_fresh_gate_checks ''t'' ''i'') (sending_db ''VERSION_VERIFIED'', empty_inbox)
       = (Inr (r, db'), ib') \<and> (\<exists>m. se_message r = Some m \<and> m \<in> snd ` set (ib_delivered ib'))"
proof -
  from sample_sent obtain r db' ib' where
    s: "approve_and_send ''t'' ''d'' ''key'' ''Bob'' (build_fresh_gate_checks ''t'' ''i'') 5 send_ids
      (sending_db ''VERSION_VERIFIED'', empty_inbox) = (Inr (r, db'), ib')" "se_state r = ''SENT''"
    unfolding sample_send_def by blast
  have "find_send ''t'' ''key'' (sending_db ''VERSION_VERIFIED'') = None"
    by (simp add: find_send_def sending_tables)
  from answer_matches_delivery [OF s(1) this] s show ?thesis
    unfolding sample_send_def by blast
qed

text \<open>
  A draft carries the sealed facts and nothing it made up. For a seal without a draft, exactly
  one draft is added, whose locked fields and digest are those of the seal whatever wrote the
  prose; it is valid exactly when every number in the prose is supported by the sealed facts and
  neither identifier is mangled. Drafting the same seal again returns the same draft and changes
  nothing.
\<close>

theorem draft_from_seal_alone:
  assumes "draft_from_sealed t seal_id src ids db = Inr (r, db')"
    and "\<forall>d \<in> set (db_drafts db). draft_seal_key d \<noteq> (t, seal_id)"
  shows "\<exists>p d body. load_sealed_fact_pack t seal_id db = Inr p \<and> db_drafts db' = db_drafts db @ [d]
    \<and> body = fst (written_prose src p) \<and> dr_body d = body
    \<and> dr_fields d = locked_fields p \<and> dr_fields_digest d = locked_fields_digest p
    \<and> dr_seal d = seal_id \<and> df_draft r = dr_id d \<and> df_state r = dr_validation d
    \<and> (dr_validation d = ''VALIDATED'' \<longleftrightarrow>
        (\<forall>n \<in> set (number_tokens body). number_supported (supported_number_tokens p) n)
        \<and> \<not> mangled body (fp_container_ref p) \<and> \<not> mangled body (fp_invoice_no p))
    \<and> (\<exists>r'. draft_from_sealed t seal_id src' ids' db' = Inr (r', db') \<and> df_draft r' = df_draft r)"
proof -
  have fresh: "List.find (\<lambda>d. draft_seal_key d = (t, seal_id)) (db_drafts db) = None"
    using assms(2) by (simp add: find_None_iff)
  with assms(1) obtain p where p: "load_sealed_fact_pack t seal_id db = Inr p"
    by (cases "load_sealed_fact_pack t seal_id db") (auto simp: draft_from_sealed_def tx_simps)
  let ?d = "make_draft t seal_id p src (ids 0)"
  from assms(1) p fresh have db': "db' = db\<lparr>db_drafts := db_drafts db @ [?d]\<rparr>"
    and r: "r = \<lparr>df_draft = dr_id ?d, df_digest = fp_seal_digest p, df_state = dr_validation ?d\<rparr>"
    by (auto simp: draft_from_sealed_def tx_simps Let_def insert_row_def split: if_splits)
  have key: "draft_seal_key ?d = (t, seal_id)"
    by (simp add: draft_seal_key_def make_draft_def Let_def split: prod.splits)
  have p': "load_sealed_fact_pack t seal_id db' = Inr p"
    using p load_frame [of db' db] by (simp add: db')
  have again: "draft_from_sealed t seal_id src' ids' db' =
      Inr (\<lparr>df_draft = dr_id ?d, df_digest = fp_seal_digest p, df_state = ''VALIDATED''\<rparr>, db')"
    unfolding draft_from_sealed_def using p' fresh key by (simp add: tx_run db' find_append)
  have "dr_validation ?d = ''VALIDATED'' \<longleftrightarrow> dv_ok (validate_draft_prose p (Some (fst (written_prose src p))))"
    by (simp add: make_draft_def Let_def state_text_def validate_locked_ok split: prod.splits)
  with p db' r again show ?thesis
    by (intro exI [of _ p] exI [of _ ?d] exI [of _ "fst (written_prose src p)"])
      (auto simp: validate_draft_prose_ok or_empty_def make_draft_def Let_def split: prod.splits)
qed

definition drafting_db :: db where
  "drafting_db = (sending_db ''VERSION_VERIFIED'')\<lparr>db_drafts := [],
     db_recs := [sample_recommendation\<lparr>re_disputed := 500, re_state := ''APPROVED''\<rparr>],
     db_seals := [\<lparr>sl_tenant = ''t'', sl_id = ''l'', sl_invoice = ''i'', sl_reconstruction = ''c'',
        sl_recommendation = ''r'', sl_version = 1, sl_rule = None, sl_claim_set = 1, sl_approval = ''a'',
        sl_display = ''Ann'', sl_revision = 1, sl_digest = ''g'', sl_refs = [], sl_source_ref = ''s'',
        sl_summary = ''m''\<rparr>]\<rparr>"

lemma drafting_load: "\<exists>p. load_sealed_fact_pack ''t'' ''l'' drafting_db = Inr p \<and> fp_disputed p = 500"
  by (simp add: drafting_db_def sending_db_def sample_row_defs load_sealed_fact_pack_def sealed_rows_def
      container_claim_def rbind_def)

theorem draft_from_seal_alone_witness:
  "\<exists>r db' d. draft_from_sealed ''t'' ''l'' (CallerProse ''Pay 9.'') send_ids drafting_db = Inr (r, db')
     \<and> db_drafts db' = [d] \<and> df_state r = dr_validation d"
proof -
  have n: "db_drafts drafting_db = []" by (simp add: drafting_db_def)
  from drafting_load obtain p where "load_sealed_fact_pack ''t'' ''l'' drafting_db = Inr p" by blast
  with n obtain r db' where
    s: "draft_from_sealed ''t'' ''l'' (CallerProse ''Pay 9.'') send_ids drafting_db = Inr (r, db')"
    by (simp add: draft_from_sealed_def tx_run Let_def)
  from draft_from_seal_alone [OF s, of default_generator send_ids] n s show ?thesis by auto
qed

text \<open>The provider's part of one request: at most one message more, none for a known key.\<close>

lemma provider_send_bound:
  "length (ib_delivered (snd (provider_send k c ib))) \<le> Suc (length (ib_delivered ib))"
  by (auto simp: provider_send_def Let_def split: option.splits)

lemma approve_and_send_bound:
  "length (ib_delivered (snd (approve_and_send t i key a checks now ids x)))
     \<le> Suc (length (ib_delivered (snd x)))"
  using provider_send_bound [of _ _ "snd x"]
  by (auto simp: approve_and_send_def split: sum.splits prod.splits) (metis snd_conv)+

lemma provider_send_distinct:
  "distinct (map fst (ib_delivered ib)) \<Longrightarrow> distinct (map fst (ib_delivered (snd (provider_send k c ib))))"
  by (auto simp: provider_send_def Let_def map_of_eq_None_iff split: option.splits)

lemma approve_and_send_distinct:
  "distinct (map fst (ib_delivered (snd x))) \<Longrightarrow>
     distinct (map fst (ib_delivered (snd (approve_and_send t i key a checks now ids x))))"
  using provider_send_distinct [of "snd x"]
  by (auto simp: approve_and_send_def split: sum.splits prod.splits) (metis snd_conv)+



end
