(* ===== verification/Workers.thy ===== *)
theory Workers
  imports IntakeTasks
begin

text \<open>
  What the workers of reconstruction, rule search, judgment and access evidence share: the
  repositories repeat the same statements for leasing the oldest runnable task of a type, for
  checking the lease, for closing the task and for releasing it. Their effect on leases is stated
  on the fence of a task: its attempt, and the owner while it runs.
\<close>

section \<open>Leases of a type of task\<close>

record task_lease =
  tl_task :: string
  tl_invoice :: string
  tl_attempt :: nat
  tl_worker :: string
  tl_initiated :: "string option"
  tl_actor :: string

definition runnable_tasks :: "string \<Rightarrow> task_type \<Rightarrow> int \<Rightarrow> (string \<Rightarrow> bool) \<Rightarrow> db \<Rightarrow> task_row list" where
  "runnable_tasks tenant ty now locked db =
     filter (\<lambda>w. tk_tenant w = tenant \<and> tk_type w = ty \<and> runnable now w \<and> \<not> locked (tk_id w)) (db_tasks db)"

definition task_order :: "task_row \<Rightarrow> int \<times> string" where
  "task_order w = (tk_created w, tk_id w)"

definition next_task :: "string \<Rightarrow> task_type \<Rightarrow> int \<Rightarrow> (string \<Rightarrow> bool) \<Rightarrow> db \<Rightarrow> task_row option" where
  "next_task tenant ty now locked db =
     (case runnable_tasks tenant ty now locked db of [] \<Rightarrow> None | w # ws \<Rightarrow> Some (min_by task_order w ws))"

definition begin_attempt :: "task_row \<Rightarrow> string \<Rightarrow> int \<Rightarrow> int \<Rightarrow> unit tx" where
  "begin_attempt w worker lease_seconds now =
     tx_then (tx_update db_tasks_update (\<lambda>x. task_pk x = task_pk w)
       (\<lambda>x. x\<lparr>tk_state := TaskRunning, tk_attempt := tk_attempt w + 1, tk_owner := Some worker,
          tk_expires := Some (now + lease_seconds * second),
          tk_started := (case tk_started x of None \<Rightarrow> Some now | Some s \<Rightarrow> Some s), tk_updated := now\<rparr>))
     (tx_insert ''workflow_attempts_number_idx'' db_attempts db_attempts_update attempt_key
       \<lparr>at_tenant = tk_tenant w, at_task = tk_id w, at_number = tk_attempt w + 1, at_state = TaskRunning,
        at_owner = Some worker, at_expires = Some (now + lease_seconds * second), at_started = Some now,
        at_completed = None, at_error = None\<rparr>)"

definition task_lease_of :: "string \<Rightarrow> task_row \<Rightarrow> task_lease" where
  "task_lease_of worker w =
     \<lparr>tl_task = tk_id w, tl_invoice = tk_invoice w, tl_attempt = tk_attempt w + 1, tl_worker = worker,
      tl_initiated = tk_initiated w, tl_actor = tk_actor w\<rparr>"

text \<open>The lease is the current one: the task runs, at this attempt, for this worker.\<close>

definition holds :: "string \<Rightarrow> 'a task_lease_scheme \<Rightarrow> db \<Rightarrow> bool" where
  "holds tenant l db =
     (case task_at (tenant, tl_task l) db of
        None \<Rightarrow> False
      | Some w \<Rightarrow> tk_state w = TaskRunning \<and> tk_attempt w = tl_attempt l \<and> tk_owner w = Some (tl_worker l))"

definition require_lease :: "string \<Rightarrow> 'a task_lease_scheme \<Rightarrow> unit tx" where
  "require_lease tenant l =
     tx_bind (tx_read (holds tenant l)) (\<lambda>held. tx_require held ''TASK_LEASE_LOST'')"

definition leased_row :: "string \<Rightarrow> 'a task_lease_scheme \<Rightarrow> task_row \<Rightarrow> bool" where
  "leased_row tenant l w =
     (task_pk w = (tenant, tl_task l) \<and> tk_attempt w = tl_attempt l \<and> tk_owner w = Some (tl_worker l))"

definition leased_attempt_row :: "string \<Rightarrow> 'a task_lease_scheme \<Rightarrow> attempt_row \<Rightarrow> bool" where
  "leased_attempt_row tenant l a =
     (attempt_key a = (tenant, tl_task l, tl_attempt l) \<and> at_owner a = Some (tl_worker l))"

definition finish_task :: "string \<Rightarrow> 'a task_lease_scheme \<Rightarrow> string \<Rightarrow> int \<Rightarrow> unit tx" where
  "finish_task tenant l summary now =
     tx_then (tx_update db_tasks_update (leased_row tenant l)
       (\<lambda>w. w\<lparr>tk_state := TaskCompleted, tk_completed := Some now, tk_owner := None,
          tk_expires := None, tk_summary := Some summary, tk_updated := now\<rparr>))
     (tx_update db_attempts_update (leased_attempt_row tenant l)
       (\<lambda>a. a\<lparr>at_state := TaskCompleted, at_completed := Some now\<rparr>))"

text \<open>
  A failed attempt: another one after a pause that doubles, while attempts are left; otherwise the
  task is blocked. A summary is written where the repository writes one.
\<close>

definition retries :: "'a task_lease_scheme \<Rightarrow> bool \<Rightarrow> bool" where
  "retries l retryable = (retryable \<and> tl_attempt l < max_automatic_attempts)"

definition released_state :: "'a task_lease_scheme \<Rightarrow> bool \<Rightarrow> row_state" where
  "released_state l retryable = (if retries l retryable then TaskRetryWait else TaskBlocked)"

definition release_lease ::
  "string \<Rightarrow> 'a task_lease_scheme \<Rightarrow> string \<Rightarrow> bool \<Rightarrow> (task_row \<Rightarrow> task_row) \<Rightarrow> int \<Rightarrow> unit tx" where
  "release_lease tenant l err retryable summarise now =
     tx_then (tx_update db_tasks_update (leased_row tenant l)
       (\<lambda>w. summarise (w\<lparr>tk_state := released_state l retryable,
          tk_not_before := (if retries l retryable then Some (now + 2 ^ tl_attempt l * second) else None),
          tk_owner := None, tk_expires := None, tk_error := Some err, tk_updated := now\<rparr>)))
     (tx_update db_attempts_update (leased_attempt_row tenant l)
       (\<lambda>a. a\<lparr>at_state := released_state l retryable, at_completed := Some now, at_error := Some err\<rparr>))"

definition summarised :: "string \<Rightarrow> task_row \<Rightarrow> task_row" where
  "summarised s w = w\<lparr>tk_summary := Some s\<rparr>"

definition new_task ::
  "string \<Rightarrow> string \<Rightarrow> string \<Rightarrow> task_type \<Rightarrow> row_state \<Rightarrow> string option \<Rightarrow> string \<Rightarrow> int \<Rightarrow> json list
     \<Rightarrow> string \<Rightarrow> int \<Rightarrow> task_row" where
  "new_task tenant i invoice ty state initiated actor cutoff refs summary now =
     \<lparr>tk_tenant = tenant, tk_id = i, tk_invoice = invoice, tk_type = ty, tk_version = 1,
      tk_state = state, tk_initiated = initiated, tk_actor = actor, tk_cutoff = cutoff,
      tk_fingerprint = task_input_fingerprint ty refs, tk_inputs = refs, tk_attempt = 0,
      tk_owner = None, tk_expires = None, tk_not_before = None, tk_started = None,
      tk_completed = None, tk_summary = Some summary, tk_error = None, tk_created = now, tk_updated = now\<rparr>"

section \<open>References\<close>

text \<open>
  \<open>next((r for r in refs if r.get("type") == ty), \<lbrace>\<rbrace>)\<close>, and \<open>str\<close> of a field of it. The code writes
  texts and integers as fields; \<open>str\<close> of a list or an object is left out.
\<close>

definition json_get :: "string \<Rightarrow> json \<Rightarrow> json option" where
  "json_get k v = (case v of JObj kvs \<Rightarrow> map_of kvs k | _ \<Rightarrow> None)"

definition ref_of_type :: "string \<Rightarrow> json list \<Rightarrow> json" where
  "ref_of_type ty refs =
     (case List.find (\<lambda>r. json_get ''type'' r = Some (JStr ty)) refs of None \<Rightarrow> JObj [] | Some r \<Rightarrow> r)"

definition json_str :: "json option \<Rightarrow> string" where
  "json_str v =
     (case v of Some (JStr s) \<Rightarrow> s | Some (JInt n) \<Rightarrow> show_int n | Some (JBool b) \<Rightarrow> if b then ''True'' else ''False''
      | None \<Rightarrow> ''None'' | Some JNull \<Rightarrow> ''None'' | _ \<Rightarrow> '''')"

definition ref_id :: "string \<Rightarrow> json list \<Rightarrow> string" where
  "ref_id ty refs = json_str (json_get ''id'' (ref_of_type ty refs))"

section \<open>The fence\<close>

definition task_fence :: "db \<Rightarrow> string \<times> string \<Rightarrow> nat \<times> string option option" where
  "task_fence db k =
     (case task_at k db of
        None \<Rightarrow> (0, None)
      | Some w \<Rightarrow> (tk_attempt w, if tk_state w = TaskRunning then Some (tk_owner w) else None))"

lemma fence_attempt: "task_attempt db k = fst (task_fence db k)"
  by (simp add: task_attempt_def task_fence_def split: option.splits)

lemma fence_running: "task_running db k \<longleftrightarrow> snd (task_fence db k) \<noteq> None"
  by (simp add: task_running_def task_fence_def split: option.splits)

lemma holds_fence:
  "holds t l db \<longleftrightarrow> task_fence db (t, tl_task l) = (tl_attempt l, Some (Some (tl_worker l)))"
  by (auto simp: holds_def task_fence_def split: option.splits)

definition same_fence :: "db \<Rightarrow> db \<Rightarrow> bool" where
  "same_fence db db' =
     (task_fence db' = task_fence db \<and> (task_keys_distinct db \<longrightarrow> task_keys_distinct db'))"

interpretation fence: tx_frame same_fence
  by unfold_locales (auto simp: same_fence_def)

text \<open>A body that settles at most the lease it was given.\<close>

definition settles_only :: "string \<Rightarrow> 'a task_lease_scheme \<Rightarrow> db \<Rightarrow> db \<Rightarrow> bool" where
  "settles_only t l db db' =
     ((task_fence db' = task_fence db
       \<or> holds t l db \<and> task_fence db' = (task_fence db)((t, tl_task l) := (tl_attempt l, None)))
      \<and> (task_keys_distinct db \<longrightarrow> task_keys_distinct db'))"

interpretation settle: tx_frame "settles_only t l" for t :: string and l :: "'a task_lease_scheme"
  by unfold_locales (auto simp: settles_only_def holds_fence)

lemma settles_same: "keeps same_fence m \<Longrightarrow> keeps (settles_only t l) m"
  by (auto simp: keeps_def same_fence_def settles_only_def)

text \<open>Statements on the other tables, and a new task.\<close>

lemma same_fence_tasks: "db_tasks db' = db_tasks db \<Longrightarrow> same_fence db db'"
  by (simp add: same_fence_def task_fence_def task_at_def task_keys_distinct_def fun_eq_iff)

lemma fence_lock: "keeps same_fence (lock_invoice_and_advance t i st ag su k now cs)"
  by (auto simp: keeps_def lock_Inr intro: same_fence_tasks)

lemma fence_event: "keeps same_fence (insert_event e)"
  by (auto simp: keeps_def insert_event_Inr intro: same_fence_tasks)

lemma fence_append:
  "(\<And>g db. db_tasks (upd g db) = db_tasks db) \<Longrightarrow> keeps same_fence (tx_append upd row)"
  by (auto simp: keeps_def tx_simps intro: same_fence_tasks)

lemma fence_update:
  "(\<And>g db. db_tasks (upd g db) = db_tasks db) \<Longrightarrow> keeps same_fence (tx_update upd p f)"
  by (auto simp: keeps_def tx_simps intro: same_fence_tasks)

lemma fence_new:
  assumes "tk_attempt w = 0" "tk_state w \<noteq> TaskRunning"
  shows "keeps same_fence (tx_insert ''primary'' db_tasks db_tasks_update task_pk w)"
proof -
  have "same_fence db (db_tasks_update (\<lambda>ws. ws @ [w]) db)" if n: "task_pk w \<notin> task_pk ` set (db_tasks db)" for db
  proof -
    have "task_at (task_pk w) db = None"
      using n unfolding task_at_def find_None_iff by (metis imageI)
    then show ?thesis
      using assms n by (auto simp: same_fence_def task_fence_def task_keys_distinct_def fun_eq_iff
          task_at_append [of "db_tasks_update (\<lambda>ws. ws @ [w]) db" db w])
  qed
  then show ?thesis by (auto simp: keeps_def tx_simps)
qed

lemma fence_enqueue:
  "tk_attempt w = 0 \<Longrightarrow> tk_state w \<noteq> TaskRunning \<Longrightarrow> keeps same_fence (enqueue_task w)"
  unfolding enqueue_task_def by (intro fence.keeps_intros fence_new)

lemmas fence_intros = fence.keeps_intros fence_lock fence_event fence_append fence_update fence_enqueue

text \<open>Closing or releasing the task settles the lease, whatever happened before.\<close>

lemma task_fence_update:
  assumes "db_tasks db' = update_rows (leased_row t l) f (db_tasks db)"
    and "\<And>w. task_pk (f w) = task_pk w" "\<And>w. tk_attempt (f w) = tk_attempt w" "\<And>w. tk_state (f w) \<noteq> TaskRunning"
  shows "settles_only t l db db' \<and> \<not> holds t l db'"
proof -
  have at: "task_at k db' = map_option (\<lambda>w. if leased_row t l w then f w else w) (task_at k db)" for k
    using task_at_update [OF _ assms(1)] assms(2) by auto
  have "task_keys_distinct db' = task_keys_distinct db"
    using distinct_update [OF _ assms(1)] assms(2) by auto
  moreover have "task_fence db' k = (if holds t l db then (task_fence db)((t, tl_task l) := (tl_attempt l, None))
      else task_fence db) k" for k
  proof (cases "task_at k db")
    case None
    then show ?thesis by (auto simp: task_fence_def at holds_def split: option.splits)
  next
    case (Some w)
    from task_at_Some [OF this] have "task_pk w = k" by simp
    with Some assms(3,4) show ?thesis
      by (cases "k = (t, tl_task l)") (auto simp: task_fence_def at holds_def leased_row_def)
  qed
  ultimately show ?thesis by (auto simp: settles_only_def holds_fence)
qed

text \<open>What holds whenever a body returns.\<close>

definition ensures :: "(db \<Rightarrow> bool) \<Rightarrow> 'a tx \<Rightarrow> bool" where
  "ensures P m = (\<forall>db a db'. m db = Inr (a, db') \<longrightarrow> P db')"

lemma ensures_bind: "(\<And>a. ensures P (k a)) \<Longrightarrow> ensures P (tx_bind m k)"
  unfolding ensures_def tx_bind_Inr by blast

lemma ensures_then: "ensures P k \<Longrightarrow> ensures P (tx_then m k)"
  unfolding tx_then_def by (rule ensures_bind)

lemma ensures_raise: "ensures P (tx_raise e)"
  by (simp add: ensures_def tx_simps)

lemma ensures_first: "ensures P m \<Longrightarrow> keeps (maintains P) k \<Longrightarrow> ensures P (tx_then m k)"
  unfolding ensures_def keeps_def maintains_def tx_then_Inr by blast

lemma not_held_stays: "keeps same_fence k \<Longrightarrow> keeps (maintains (\<lambda>db. \<not> holds t l db)) k"
  by (auto simp: keeps_def maintains_def same_fence_def holds_fence)

lemma finish_settles:
  "keeps (settles_only t l) (finish_task t l s now)" "ensures (\<lambda>db. \<not> holds t l db) (finish_task t l s now)"
proof -
  have "settles_only t l db db' \<and> \<not> holds t l db'" if "finish_task t l s now db = Inr (u, db')" for db u db'
    by (rule task_fence_update [where f = "\<lambda>w. w\<lparr>tk_state := TaskCompleted, tk_completed := Some now,
          tk_owner := None, tk_expires := None, tk_summary := Some s, tk_updated := now\<rparr>"])
      (use that in \<open>auto simp: finish_task_def tx_simps task_pk_def\<close>)
  then show "keeps (settles_only t l) (finish_task t l s now)"
    "ensures (\<lambda>db. \<not> holds t l db) (finish_task t l s now)"
    by (auto simp: keeps_def ensures_def)
qed

definition keeps_identity :: "(task_row \<Rightarrow> task_row) \<Rightarrow> bool" where
  "keeps_identity f = (\<forall>w. task_pk (f w) = task_pk w \<and> tk_attempt (f w) = tk_attempt w \<and> tk_state (f w) = tk_state w
     \<and> tk_tenant (f w) = tk_tenant w)"

lemma keeps_identity_summary [simp]: "keeps_identity (summarised s)" "keeps_identity (\<lambda>w. w)"
  by (simp_all add: keeps_identity_def summarised_def task_pk_def)

lemma release_settles:
  assumes "keeps_identity f"
  shows "keeps (settles_only t l) (release_lease t l err r f now)"
    "ensures (\<lambda>db. \<not> holds t l db) (release_lease t l err r f now)"
proof -
  have "settles_only t l db db' \<and> \<not> holds t l db'" if "release_lease t l err r f now db = Inr (u, db')" for db u db'
    by (rule task_fence_update [where f = "\<lambda>w. f (w\<lparr>tk_state := released_state l r,
          tk_not_before := (if retries l r then Some (now + 2 ^ tl_attempt l * second) else None),
          tk_owner := None, tk_expires := None, tk_error := Some err, tk_updated := now\<rparr>)"])
      (use that assms in \<open>auto simp: release_lease_def tx_simps keeps_identity_def task_pk_def released_state_def\<close>)
  then show "keeps (settles_only t l) (release_lease t l err r f now)"
    "ensures (\<lambda>db. \<not> holds t l db) (release_lease t l err r f now)"
    by (auto simp: keeps_def ensures_def)
qed

lemmas settle_intros = settle.keeps_intros finish_settles(1) release_settles(1)

lemma require_lease_Inr: "require_lease t l db = Inr (u, db') \<longleftrightarrow> holds t l db \<and> db' = db"
  by (auto simp: require_lease_def tx_simps)

text \<open>The laws of a fenced lease, from what a body keeps and ensures.\<close>

lemma settled_fence:
  assumes "tx_then (require_lease t l) m db = Inr (a, db')" "task_keys_distinct db"
    and "keeps (settles_only t l) m" "ensures (\<lambda>db. \<not> holds t l db) m"
  shows "task_keys_distinct db' \<and> task_running db (t, tl_task l) \<and> tl_attempt l = task_attempt db (t, tl_task l)
    \<and> task_attempt db' = task_attempt db
    \<and> task_running db' = (task_running db)((t, tl_task l) := False)"
proof -
  from assms(1) have h: "holds t l db" and m: "m db = Inr (a, db')"
    by (auto simp: tx_then_Inr require_lease_Inr)
  from assms(3,4) m have "settles_only t l db db'" "\<not> holds t l db'"
    by (auto simp: keeps_def ensures_def)
  with h have f: "task_fence db' = (task_fence db)((t, tl_task l) := (tl_attempt l, None))"
    and "task_keys_distinct db'" using assms(2) by (auto simp: settles_only_def holds_fence)
  with h show ?thesis by (auto simp: fence_attempt fence_running holds_fence fun_eq_iff)
qed

lemma begin_fence:
  assumes "begin_attempt w worker secs now db = Inr (u, db1)" "task_keys_distinct db" "w \<in> set (db_tasks db)"
  shows "task_keys_distinct db1
    \<and> task_fence db1 = (task_fence db)(task_pk w := (Suc (tk_attempt w), Some (Some worker)))
    \<and> fst (task_fence db (task_pk w)) = tk_attempt w"
proof -
  let ?f = "\<lambda>x. x\<lparr>tk_state := TaskRunning, tk_attempt := tk_attempt w + 1, tk_owner := Some worker,
          tk_expires := Some (now + secs * second),
          tk_started := (case tk_started x of None \<Rightarrow> Some now | Some s \<Rightarrow> Some s), tk_updated := now\<rparr>"
  from assms(1) have rows: "db_tasks db1 = update_rows (\<lambda>x. task_pk x = task_pk w) ?f (db_tasks db)"
    by (auto simp: begin_attempt_def tx_simps)
  have at: "task_at k db1 = map_option (\<lambda>x. if task_pk x = task_pk w then ?f x else x) (task_at k db)" for k
    using task_at_update [OF _ rows] by (simp add: task_pk_def)
  have "task_at (task_pk w) db = Some w" using assms(2,3) by (rule task_at_in)
  with at show ?thesis
    using assms(2) distinct_update [OF _ rows]
    by (auto simp: task_fence_def fun_eq_iff task_pk_def split: option.splits dest: task_at_Some)
qed

lemma runnable_tasks_in:
  "w \<in> set (runnable_tasks t ty now locked db) \<longleftrightarrow>
     w \<in> set (db_tasks db) \<and> tk_tenant w = t \<and> tk_type w = ty \<and> runnable now w \<and> \<not> locked (tk_id w)"
  by (auto simp: runnable_tasks_def)

lemma next_task_Some:
  assumes "next_task t ty now locked db = Some w"
  shows "w \<in> set (runnable_tasks t ty now locked db)
    \<and> (\<forall>x \<in> set (runnable_tasks t ty now locked db). task_order w \<le> task_order x)"
  using assms min_by_in [of task_order] min_by_le [of _ _ _ task_order]
  by (auto simp: next_task_def split: list.splits)

lemma next_task_None: "next_task t ty now locked db = None \<longleftrightarrow> runnable_tasks t ty now locked db = []"
  by (simp add: next_task_def split: list.splits)

lemma keeps_next:
  "(\<And>w. tk_tenant w = t \<Longrightarrow> keeps R (k (Some w))) \<Longrightarrow> keeps R (k None) \<Longrightarrow>
     keeps R (tx_bind (tx_read (next_task t ty now locked)) k)"
proof -
  assume some: "\<And>w. tk_tenant w = t \<Longrightarrow> keeps R (k (Some w))" and none: "keeps R (k None)"
  have "keeps R (k (next_task t ty now locked db))" for db
    using none some next_task_Some [of t ty now locked db]
    by (cases "next_task t ty now locked db") (auto simp: runnable_tasks_in)
  then show "keeps R (tx_bind (tx_read (next_task t ty now locked)) k)"
    unfolding keeps_def tx_bind_Inr tx_read_Inr by blast
qed

lemma claimed_fence:
  assumes "next_task t ty now locked db = Some w" "begin_attempt w worker secs now db = Inr (u, db1)"
    and "same_fence db1 db'" "task_keys_distinct db"
  shows "task_keys_distinct db' \<and> Suc (tk_attempt w) = Suc (task_attempt db (t, tk_id w))
    \<and> task_attempt db' = (task_attempt db)((t, tk_id w) := Suc (tk_attempt w))
    \<and> task_running db' = (task_running db)((t, tk_id w) := True)"
proof -
  from next_task_Some [OF assms(1)] have w: "w \<in> set (db_tasks db)" "task_pk w = (t, tk_id w)"
    by (auto simp: runnable_tasks_in task_pk_def)
  from begin_fence [OF assms(2,4) w(1)] assms(3) w(2)
  show ?thesis by (auto simp: same_fence_def fence_attempt fence_running fun_eq_iff)
qed

section \<open>What they keep\<close>

lemma safe_begin: "tk_tenant w = t \<Longrightarrow> keeps (safe t) (begin_attempt w worker secs now)"
  unfolding begin_attempt_def by (intro safe_intros) (auto simp: task_pk_def)

lemma safe_require: "keeps (safe t) (require_lease t' l)"
  unfolding require_lease_def by (intro safe_intros)

lemma safe_finish: "keeps (safe t) (finish_task t l s now)"
  unfolding finish_task_def
  by (intro safe_intros) (auto simp: leased_row_def leased_attempt_row_def task_pk_def attempt_key_def)

lemma safe_release: "keeps_identity f \<Longrightarrow> keeps (safe t) (release_lease t l err r f now)"
  unfolding release_lease_def
  by (intro safe_intros) (auto simp: leased_row_def leased_attempt_row_def task_pk_def attempt_key_def keeps_identity_def)

lemma safe_enqueue: "tk_tenant w = t \<Longrightarrow> keeps (safe t) (enqueue_task w)"
  unfolding enqueue_task_def by (intro safe_intros) auto

lemma new_task_fields [simp]:
  "tk_tenant (new_task t i v ty st u a c refs s now) = t" "tk_attempt (new_task t i v ty st u a c refs s now) = 0"
  "tk_state (new_task t i v ty st u a c refs s now) = st"
  by (simp_all add: new_task_def)

lemmas worker_safe_intros = safe_begin safe_require safe_finish safe_release safe_enqueue safe_intros

end
