(* ===== verification/ReconstructionTasks.thy ===== *)
theory ReconstructionTasks
  imports Workers Reconstruction
begin

text \<open>
  \<open>src/platform/reconstruction_repository.py\<close>: a worker leases a reconstruction task with the
  claims of its invoice, and persists one immutable version of the reconstruction (its source-bound
  events, the ledger of charged days and the coverage), or fails closed. The events, days, coverage
  and state come from \<open>src/core/reconstruction.py\<close> (theory \<open>Reconstruction\<close>) and are arguments.
\<close>

section \<open>Names as stored\<close>

definition reconstruction_state_text :: "reconstruction_state \<Rightarrow> string" where
  "reconstruction_state_text s =
     (case s of RQueued \<Rightarrow> ''QUEUED'' | RetrievingMemory \<Rightarrow> ''RETRIEVING_MEMORY''
      | AssemblingEvents \<Rightarrow> ''ASSEMBLING_EVENTS'' | AdjudicatingDays \<Rightarrow> ''ADJUDICATING_DAYS''
      | Complete \<Rightarrow> ''COMPLETE'' | Partial \<Rightarrow> ''PARTIAL'' | NeedsEvidence \<Rightarrow> ''NEEDS_EVIDENCE''
      | BlockedMemoryUnavailable \<Rightarrow> ''BLOCKED_MEMORY_UNAVAILABLE''
      | BlockedSourceGap \<Rightarrow> ''BLOCKED_SOURCE_GAP'' | RFailed \<Rightarrow> ''FAILED'')"

definition day_state_text :: "charged_day_state \<Rightarrow> string" where
  "day_state_text s =
     (case s of DayUnresolved \<Rightarrow> ''UNRESOLVED'' | DaySourcing \<Rightarrow> ''SOURCING''
      | DaySourceComplete \<Rightarrow> ''SOURCE_COMPLETE'' | DaySupported \<Rightarrow> ''SUPPORTED''
      | DayRateDiscrepancy \<Rightarrow> ''RATE_DISCREPANCY'' | DayOperationalException \<Rightarrow> ''OPERATIONAL_EXCEPTION''
      | DayInsufficientEvidence \<Rightarrow> ''INSUFFICIENT_EVIDENCE''
      | DayExcludedNotChargeable \<Rightarrow> ''EXCLUDED_NOT_CHARGEABLE'')"

definition coverage_text :: "coverage_state \<Rightarrow> string" where
  "coverage_text s =
     (case s of PRESENT_VERIFIED \<Rightarrow> ''PRESENT_VERIFIED'' | MISSING \<Rightarrow> ''MISSING'' | UNAVAILABLE \<Rightarrow> ''UNAVAILABLE''
      | CONFLICTED \<Rightarrow> ''CONFLICTED'' | NOT_APPLICABLE \<Rightarrow> ''NOT_APPLICABLE'')"

section \<open>Claiming\<close>

record reconstruction_lease = task_lease +
  rl_expires :: int
  rl_cutoff :: int
  rl_fingerprint :: string
  rl_claim_set :: nat
  rl_source :: string
  rl_shipment :: string
  rl_container :: string
  rl_rate :: int
  rl_currency :: string
  rl_dates :: "string list"

record reconstruction_completion =
  rp_reconstruction :: string
  rp_version :: int
  rp_state :: string
  rp_event_count :: nat
  rp_days_total :: nat
  rp_days_complete :: nat

text \<open>\<open>str\<close> of a normalized value, and whether it is truthy; money is a dictionary.\<close>

definition normal_str :: "claim_normal \<Rightarrow> string" where
  "normal_str n =
     (case n of NText s \<Rightarrow> s | NCount k \<Rightarrow> show_int k
      | NMoney a c \<Rightarrow> CHR ''{'' # CHR 39 # ''amount_minor'' @ CHR 39 # '': '' @ show_int a @ '', '' @ CHR 39 # ''currency''
          @ CHR 39 # '': '' @ CHR 39 # c @ [CHR 39, CHR ''}''])"

definition normal_truthy :: "claim_normal option \<Rightarrow> bool" where
  "normal_truthy v =
     (case v of None \<Rightarrow> False | Some (NText s) \<Rightarrow> s \<noteq> '''' | Some (NCount k) \<Rightarrow> k \<noteq> 0 | Some (NMoney a c) \<Rightarrow> True)"

definition set_claims :: "string \<Rightarrow> string \<Rightarrow> nat \<Rightarrow> db \<Rightarrow> (string \<times> validated_claim) list" where
  "set_claims tenant invoice version db =
     [(vc_field (cl_claim c), cl_claim c).
       c \<leftarrow> db_claims db, s \<leftarrow> db_claim_sets db,
       cl_tenant c = tenant \<and> cs_tenant s = cl_tenant c \<and> cs_id s = cl_set c
       \<and> cs_invoice s = invoice \<and> cs_version s = version]"

definition claim_value_of :: "(string \<times> validated_claim) list \<Rightarrow> string \<Rightarrow> claim_normal option" where
  "claim_value_of claims name = map_option vc_normal (map_of (rev claims) name)"

definition dates_from :: "date \<Rightarrow> nat \<Rightarrow> string list" where
  "dates_from start n = map (\<lambda>i. date_iso ((next_day ^^ i) start)) [0..<n]"

definition expand_charge_dates :: "(string \<times> validated_claim) list \<Rightarrow> tx_error + string list" where
  "expand_charge_dates claims =
     (case (claim_value_of claims ''period_start'', claim_value_of claims ''period_end'') of
        (Some s, Some e) \<Rightarrow>
          if \<not> normal_truthy (Some s) \<or> \<not> normal_truthy (Some e) then Inr []
          else (case (date_fromiso (normal_str s), date_fromiso (normal_str e)) of
              (Some start, Some end_day) \<Rightarrow>
                if end_day < start then Inr []
                else Inr (dates_from start (nat (toordinal end_day - toordinal start + 1)))
            | _ \<Rightarrow> Inl (Raised ''ValueError''))
      | _ \<Rightarrow> Inr [])"

definition claim_container :: "(string \<times> validated_claim) list \<Rightarrow> string" where
  "claim_container claims =
     (if normal_truthy (claim_value_of claims ''container_number'')
      then normal_str (the (claim_value_of claims ''container_number'')) else '''')"

definition claim_rate :: "(string \<times> validated_claim) list \<Rightarrow> int" where
  "claim_rate claims =
     (case map_of (rev claims) ''daily_rate'' of None \<Rightarrow> 0
      | Some c \<Rightarrow> (case vc_amount c of None \<Rightarrow> 0 | Some a \<Rightarrow> a))"

definition claim_currency :: "(string \<times> validated_claim) list \<Rightarrow> string" where
  "claim_currency claims =
     (case map_of (rev claims) ''daily_rate'' of None \<Rightarrow> ''USD''
      | Some c \<Rightarrow> (case vc_currency c of None \<Rightarrow> ''USD'' | Some u \<Rightarrow> if u = '''' then ''USD'' else u))"

definition claimed_version :: "json list \<Rightarrow> nat" where
  "claimed_version refs =
     (case json_get ''version'' (ref_of_type ''claim_set'' refs) of Some (JInt n) \<Rightarrow> nat n | _ \<Rightarrow> 0)"

definition recon_event ::
  "string \<Rightarrow> string \<Rightarrow> string \<Rightarrow> nat \<Rightarrow> int \<Rightarrow> string option \<Rightarrow> string \<Rightarrow> event_row" where
  "recon_event tenant i invoice seq now initiated actor =
     \<lparr>lg_tenant = tenant, lg_id = i, lg_invoice = invoice, lg_sequence = seq, lg_type = '''',
      lg_occurred = now, lg_role = ''RECONSTRUCTION_AGENT'', lg_task = ''ASSEMBLE_RECONSTRUCTION'',
      lg_tool = Some ''CockroachDB Managed MCP'', lg_state = '''', lg_aggregate = '''',
      lg_summary = '''', lg_initiated = initiated, lg_actor = actor, lg_inputs = [], lg_produced = [],
      lg_output_count = None, lg_error = None\<rparr>"

lemma recon_event_key [simp]:
  "lg_tenant (recon_event t i v s n u a) = t" "lg_invoice (recon_event t i v s n u a) = v"
  "lg_sequence (recon_event t i v s n u a) = s"
  by (simp_all add: recon_event_def)

definition reconstruction_lease_of ::
  "string \<Rightarrow> int \<Rightarrow> task_row \<Rightarrow> (string \<times> validated_claim) list \<Rightarrow> string list \<Rightarrow> reconstruction_lease" where
  "reconstruction_lease_of worker expires w claims dates =
     task_lease.extend (task_lease_of worker w)
       (reconstruction_lease.fields expires (tk_cutoff w) (tk_fingerprint w) (claimed_version (tk_inputs w))
         (ref_id ''invoice_source'' (tk_inputs w)) (claim_container claims) (claim_container claims)
         (claim_rate claims) (claim_currency claims) dates)"

definition claim_next_reconstruction_task ::
  "string \<Rightarrow> string \<Rightarrow> int \<Rightarrow> (string \<Rightarrow> bool) \<Rightarrow> int \<Rightarrow> (nat \<Rightarrow> string) \<Rightarrow> reconstruction_lease option tx" where
  "claim_next_reconstruction_task tenant worker lease_seconds locked now ids =
     tx_bind (tx_read (next_task tenant StartReconstruction now locked)) (\<lambda>row. case row of
        None \<Rightarrow> tx_return None
      | Some w \<Rightarrow>
          tx_bind (tx_read (set_claims tenant (tk_invoice w) (claimed_version (tk_inputs w)))) (\<lambda>claims.
            case expand_charge_dates claims of
              Inl e \<Rightarrow> tx_raise e
            | Inr dates \<Rightarrow>
                tx_then (begin_attempt w worker lease_seconds now)
                (tx_then
                  (tx_bind (lock_invoice_and_advance tenant (tk_invoice w) ''READY_FOR_RECONSTRUCTION''
                      ''RECONSTRUCTING'' ''RECONSTRUCTING'' 1 now None)
                    (\<lambda>seq. insert_event
                      ((recon_event tenant (ids 0) (tk_invoice w) seq now (tk_initiated w) (tk_actor w))
                        \<lparr>lg_type := ''reconstruction.memory_retrieval_started'', lg_state := ''RUNNING'',
                         lg_aggregate := ''RECONSTRUCTING'',
                         lg_summary := ''Retrieving pre-invoice events through CockroachDB Managed MCP'',
                         lg_inputs := tk_inputs w\<rparr>)))
                (tx_return (Some (reconstruction_lease_of worker (now + lease_seconds * second) w claims dates))))))"

section \<open>Completing\<close>

definition reconstruction_version_key :: "reconstruction_row \<Rightarrow> string \<times> string \<times> int" where
  "reconstruction_version_key r = (rn_tenant r, rn_invoice r, rn_version r)"

definition reconstruction_print :: "reconstruction_row \<Rightarrow> string \<times> string \<times> string" where
  "reconstruction_print r = (rn_tenant r, rn_invoice r, rn_fingerprint r)"

definition next_reconstruction_version :: "string \<Rightarrow> string \<Rightarrow> db \<Rightarrow> int" where
  "next_reconstruction_version tenant invoice db =
     foldr max (map rn_version (filter (\<lambda>r. rn_tenant r = tenant \<and> rn_invoice r = invoice) (db_recons db))) 0 + 1"

definition reconstruction_summary :: "reconstruction_state \<Rightarrow> nat \<Rightarrow> nat \<Rightarrow> string" where
  "reconstruction_summary state sourced count =
     (if state = Complete then show_nat count @ '' charged days reconstructed with complete source coverage''
      else show_nat sourced @ '' of '' @ show_nat count @ '' charged days sourced; evidence required'')"

definition days_sourced :: "charged_day_result list \<Rightarrow> nat" where
  "days_sourced days = length (filter (\<lambda>d. cd_state d = DaySourceComplete) days)"

text \<open>
  The identifiers of the rows of the version, drawn in the order of the statements: the events
  after the first eight, then the days.
\<close>

definition event_row_id :: "(nat \<Rightarrow> string) \<Rightarrow> nat \<Rightarrow> string" where
  "event_row_id ids k = ids (8 + k)"

definition event_ids :: "(nat \<Rightarrow> string) \<Rightarrow> normalized_event list \<Rightarrow> (string \<times> string) list" where
  "event_ids ids events = rev (map (\<lambda>k. (ev_public_ref (events ! k), event_row_id ids k)) [0..<length events])"

definition event_version_key :: "event_version_row \<Rightarrow> string \<times> string \<times> string" where
  "event_version_key r = (rv_tenant r, rv_reconstruction r, rv_public_ref r)"

definition event_version ::
  "string \<Rightarrow> reconstruction_lease \<Rightarrow> string \<Rightarrow> string \<Rightarrow> nat \<Rightarrow> normalized_event \<Rightarrow> artifact_row \<Rightarrow> event_version_row" where
  "event_version tenant l recon i k e a =
     \<lparr>rv_tenant = tenant, rv_id = i, rv_reconstruction = recon, rv_invoice = tl_invoice l,
      rv_public_ref = ev_public_ref e, rv_type = event_type_value (ev_type e), rv_shipment = ev_shipment_ref e,
      rv_container = ev_container_ref e, rv_artifact = ar_id a, rv_version = ar_version a,
      rv_anchor = ev_display_anchor e, rv_provenance = ev_provenance e, rv_occurred = instant (ev_occurred_at e),
      rv_from = ev_effective_from e, rv_to = ev_effective_to e,
      rv_observed = map_option instant (ev_observed_at e), rv_recorded = instant (ev_recorded_at e),
      rv_received = rl_cutoff l, rv_before_cutoff = (instant (ev_recorded_at e) \<le> rl_cutoff l),
      rv_facts = ev_facts e, rv_sequence = k\<rparr>"

definition insert_event_version ::
  "string \<Rightarrow> reconstruction_lease \<Rightarrow> string \<Rightarrow> string \<Rightarrow> nat \<Rightarrow> normalized_event \<Rightarrow> unit tx" where
  "insert_event_version tenant l recon i k e =
     tx_bind (tx_read (\<lambda>db. List.find (\<lambda>a. ar_tenant a = tenant \<and> ar_public_ref a = ev_source_ref e) (db_artifacts db)))
       (\<lambda>artifact. case artifact of
          None \<Rightarrow> tx_raise (Raised ''MISSING_SOURCE_ARTIFACT'')
        | Some a \<Rightarrow> tx_insert ''recon_events_public_ref_idx'' db_event_versions db_event_versions_update
            event_version_key (event_version tenant l recon i k e a))"

definition day_key :: "day_row \<Rightarrow> string \<times> string \<times> date" where
  "day_key d = (dy_tenant d, dy_reconstruction d, dy_date d)"

definition charged_day_row :: "string \<Rightarrow> reconstruction_lease \<Rightarrow> string \<Rightarrow> string \<Rightarrow> charged_day_result \<Rightarrow> day_row" where
  "charged_day_row tenant l recon i d =
     \<lparr>dy_tenant = tenant, dy_id = i, dy_reconstruction = recon, dy_invoice = tl_invoice l, dy_date = cd_date d,
      dy_chargeability = cd_chargeability d, dy_coverage = coverage_text (cd_coverage d),
      dy_state = day_state_text (cd_state d), dy_invoice_rate = cd_invoice_rate d, dy_applicable_rate = None,
      dy_currency = cd_currency d, dy_missing = cd_missing d\<rparr>"

definition day_event_key :: "day_event_row \<Rightarrow> string \<times> string \<times> string \<times> string" where
  "day_event_key b = (de_tenant b, de_day b, de_event b, de_role b)"

type_synonym day_roles = "(string \<times> (string \<times> string list) list) list"

text \<open>The bindings of a day: its roles, with the references that name an event of this version.\<close>

definition day_bindings ::
  "string \<Rightarrow> string \<Rightarrow> (string \<times> string) list \<Rightarrow> (string \<times> string list) list \<Rightarrow> day_event_row list" where
  "day_bindings tenant day known roles =
     [\<lparr>de_tenant = tenant, de_day = day, de_event = i, de_role = role\<rparr>.
       (role, refs) \<leftarrow> roles, ref \<leftarrow> refs, i \<leftarrow> (case map_of known ref of None \<Rightarrow> [] | Some i \<Rightarrow> [i])]"

definition roles_of_day :: "day_roles \<Rightarrow> date \<Rightarrow> (string \<times> string list) list" where
  "roles_of_day roles d = (case map_of roles (date_iso d) of None \<Rightarrow> [] | Some r \<Rightarrow> r)"

definition insert_day ::
  "string \<Rightarrow> reconstruction_lease \<Rightarrow> string \<Rightarrow> (string \<times> string) list \<Rightarrow> day_roles \<Rightarrow> string
     \<Rightarrow> charged_day_result \<Rightarrow> unit tx" where
  "insert_day tenant l recon known roles i d =
     tx_then (tx_insert ''recon_days_date_idx'' db_days db_days_update day_key (charged_day_row tenant l recon i d))
     (tx_for (day_bindings tenant i known (roles_of_day roles (cd_date d)))
       (tx_insert_absent db_day_events db_day_events_update day_event_key))"

definition coverage_key :: "coverage_row \<Rightarrow> string \<times> string \<times> string" where
  "coverage_key c = (cg_tenant c, cg_reconstruction c, cg_requirement c)"

definition insert_coverage ::
  "string \<Rightarrow> reconstruction_lease \<Rightarrow> string \<Rightarrow> (string \<times> coverage_state) list \<Rightarrow> unit tx" where
  "insert_coverage tenant l recon coverage =
     tx_for coverage (\<lambda>(requirement, state).
       tx_insert ''primary'' db_coverage db_coverage_update coverage_key
         \<lparr>cg_tenant = tenant, cg_reconstruction = recon, cg_invoice = tl_invoice l,
          cg_requirement = requirement, cg_state = coverage_text state\<rparr>)"

definition insert_reconstruction :: "reconstruction_row \<Rightarrow> unit tx" where
  "insert_reconstruction r =
     tx_then (tx_unique ''reconstructions_version_idx'' db_recons reconstruction_version_key r)
     (tx_insert ''reconstructions_fingerprint_idx'' db_recons db_recons_update reconstruction_print r)"

definition make_reconstruction ::
  "string \<Rightarrow> reconstruction_lease \<Rightarrow> string \<Rightarrow> int \<Rightarrow> normalized_event list \<Rightarrow> charged_day_result list
     \<Rightarrow> reconstruction_state \<Rightarrow> string \<Rightarrow> string \<Rightarrow> string list \<Rightarrow> int \<Rightarrow> reconstruction_row" where
  "make_reconstruction tenant l recon version events days state correlation query issues now =
     \<lparr>rn_tenant = tenant, rn_id = recon, rn_invoice = tl_invoice l, rn_version = version,
      rn_state = reconstruction_state_text state, rn_task = tl_task l, rn_fingerprint = rl_fingerprint l,
      rn_claim_set = rl_claim_set l, rn_cutoff = rl_cutoff l, rn_event_count = length events,
      rn_days_total = length days, rn_days_complete = days_sourced days, rn_correlation = correlation,
      rn_query = query, rn_summary = reconstruction_summary state (days_sourced days) (length days),
      rn_issues = issues, rn_completed = now\<rparr>"

definition version_ref :: "string \<Rightarrow> string \<Rightarrow> int \<Rightarrow> json" where
  "version_ref ty i v = JObj [(''type'', JStr ty), (''id'', JStr i), (''version'', JInt v)]"

definition emit_rule_task :: "string \<Rightarrow> reconstruction_lease \<Rightarrow> string \<Rightarrow> int \<Rightarrow> string \<Rightarrow> int \<Rightarrow> unit tx" where
  "emit_rule_task tenant l recon version i now =
     enqueue_task (new_task tenant i (tl_invoice l) FindApplicableRule TaskPending (tl_initiated l) (tl_actor l)
       (rl_cutoff l) [version_ref ''reconstruction'' recon version]
       ''Waiting to find the governing tariff clause'' now)"

definition finish_reconstruction :: "string \<Rightarrow> reconstruction_lease \<Rightarrow> reconstruction_state \<Rightarrow> int \<Rightarrow> unit tx" where
  "finish_reconstruction tenant l state now =
     finish_task tenant l (if state = Complete then ''Pre-invoice events reconstructed''
       else ''Reconstruction needs evidence'') now"

definition completion_of :: "reconstruction_row \<Rightarrow> reconstruction_completion" where
  "completion_of r =
     \<lparr>rp_reconstruction = rn_id r, rp_version = rn_version r, rp_state = rn_state r,
      rp_event_count = rn_event_count r, rp_days_total = rn_days_total r, rp_days_complete = rn_days_complete r\<rparr>"

definition hands_to_rule :: "reconstruction_state \<Rightarrow> bool" where
  "hands_to_rule state = (state = Complete \<or> state = NeedsEvidence)"

text \<open>The version, its events, days and coverage.\<close>

definition persist_version ::
  "string \<Rightarrow> reconstruction_lease \<Rightarrow> reconstruction_row \<Rightarrow> normalized_event list \<Rightarrow> charged_day_result list
     \<Rightarrow> (string \<times> coverage_state) list \<Rightarrow> day_roles \<Rightarrow> (nat \<Rightarrow> string) \<Rightarrow> unit tx" where
  "persist_version tenant l r events days coverage roles ids =
     tx_then (insert_reconstruction r)
     (tx_then (tx_for [0..<length events] (\<lambda>k.
         insert_event_version tenant l (rn_id r) (event_row_id ids k) k (events ! k)))
     (tx_then (tx_for [0..<length days] (\<lambda>k.
         insert_day tenant l (rn_id r) (event_ids ids events) roles (event_row_id ids (length events + k)) (days ! k)))
     (insert_coverage tenant l (rn_id r) coverage)))"

definition announce_version ::
  "string \<Rightarrow> reconstruction_lease \<Rightarrow> reconstruction_row \<Rightarrow> reconstruction_state \<Rightarrow> int \<Rightarrow> (nat \<Rightarrow> string) \<Rightarrow> unit tx" where
  "announce_version tenant l r state now ids =
     (let aggregate = (if state = Complete then ''RECONSTRUCTING'' else ''NEEDS_EVIDENCE'');
          ref = version_ref ''reconstruction'' (rn_id r) (rn_version r)
      in tx_then
        (tx_bind (lock_invoice_and_advance tenant (tl_invoice l) ''READY_FOR_RECONSTRUCTION'' aggregate aggregate 1 now None)
          (\<lambda>seq. insert_event ((recon_event tenant (ids 2) (tl_invoice l) seq now (tl_initiated l) (tl_actor l))
            \<lparr>lg_type := (if state = Complete then ''reconstruction.completed'' else ''reconstruction.needs_evidence''),
             lg_state := (if state = Complete then ''COMPLETED'' else ''BLOCKED''), lg_aggregate := aggregate,
             lg_summary := rn_summary r, lg_inputs := [object_ref ''workflow_task'' (tl_task l) 1],
             lg_produced := [ref], lg_output_count := Some (rn_event_count r)\<rparr>)))
        (tx_bind (lock_invoice_and_advance tenant (tl_invoice l) ''READY_FOR_RECONSTRUCTION'' aggregate aggregate 1 now None)
          (\<lambda>seq. insert_event ((recon_event tenant (ids 3) (tl_invoice l) seq now (tl_initiated l) (tl_actor l))
            \<lparr>lg_type := ''reconstruction.coverage_updated'', lg_state := ''COMPLETED'', lg_aggregate := aggregate,
             lg_summary := ''Source coverage '' @ show_nat (rn_days_complete r) @ '' of '' @ show_nat (rn_days_total r)
               @ '' charged days'',
             lg_inputs := [ref], lg_produced := [ref], lg_output_count := Some (rn_days_complete r)\<rparr>))))"

definition complete_reconstruction ::
  "string \<Rightarrow> reconstruction_lease \<Rightarrow> normalized_event list \<Rightarrow> charged_day_result list
     \<Rightarrow> (string \<times> coverage_state) list \<Rightarrow> reconstruction_state \<Rightarrow> day_roles \<Rightarrow> string \<Rightarrow> string \<Rightarrow> string list
     \<Rightarrow> int \<Rightarrow> (nat \<Rightarrow> string) \<Rightarrow> reconstruction_completion tx" where
  "complete_reconstruction tenant l events days coverage state roles correlation query issues now ids =
     tx_then (require_lease tenant l)
     (tx_bind (tx_read (\<lambda>db. List.find (\<lambda>r. reconstruction_print r = (tenant, tl_invoice l, rl_fingerprint l)) (db_recons db)))
       (\<lambda>existing. case existing of
          Some r \<Rightarrow> tx_then (finish_reconstruction tenant l state now) (tx_return (completion_of r))
        | None \<Rightarrow>
            tx_bind (tx_read (next_reconstruction_version tenant (tl_invoice l))) (\<lambda>version.
              let r = make_reconstruction tenant l (ids 0) version events days state correlation query issues now
              in tx_then (persist_version tenant l r events days coverage roles ids)
                (tx_then (finish_reconstruction tenant l state now)
                (tx_then (if hands_to_rule state then emit_rule_task tenant l (ids 0) version (ids 1) now
                          else tx_return ())
                (tx_then (announce_version tenant l r state now ids)
                (tx_return (completion_of r))))))))"

section \<open>Failing\<close>

definition public_error_code :: "string \<Rightarrow> string" where
  "public_error_code err =
     (if starts_with ''SOURCE_'' err then ''SOURCE_VERSION_UNAVAILABLE''
      else if err = ''MCP_EMPTY'' \<or> err = ''PRIOR_MEMORY_EMPTY'' then ''PRIOR_MEMORY_EMPTY''
      else ''PRIOR_MEMORY_UNAVAILABLE'')"

definition fail_reconstruction ::
  "string \<Rightarrow> reconstruction_lease \<Rightarrow> string \<Rightarrow> bool \<Rightarrow> int \<Rightarrow> (nat \<Rightarrow> string) \<Rightarrow> row_state tx" where
  "fail_reconstruction tenant l err retryable now ids =
     (let again = retries l retryable; aggregate = (if again then ''RECONSTRUCTING'' else ''BLOCKED'')
      in tx_then (require_lease tenant l)
        (tx_then (release_lease tenant l err retryable
            (summarised (if again then ''Reconstruction will retry'' else ''Reconstruction is blocked'')) now)
        (tx_then
          (tx_bind (lock_invoice_and_advance tenant (tl_invoice l) ''READY_FOR_RECONSTRUCTION'' aggregate aggregate 1 now None)
            (\<lambda>seq. insert_event ((recon_event tenant (ids 0) (tl_invoice l) seq now (tl_initiated l) (tl_actor l))
              \<lparr>lg_type := (if again then ''reconstruction.memory_retrieval_retry_scheduled''
                 else ''reconstruction.memory_retrieval_failed''),
               lg_state := task_state_text (released_state l retryable), lg_aggregate := aggregate,
               lg_summary := (if again then ''Prior memory retrieval will retry''
                 else ''Prior memory unavailable. No substitute data is shown.''),
               lg_inputs := [object_ref ''workflow_task'' (tl_task l) 1],
               lg_error := Some (JObj [(''code'', JStr (public_error_code err))])\<rparr>)))
        (tx_return (released_state l retryable)))))"

section \<open>What every operation keeps\<close>

lemma safe_claim_reconstruction: "keeps (safe t) (claim_next_reconstruction_task t w secs locked now ids)"
  unfolding claim_next_reconstruction_task_def
  by (rule keeps_next; simp only: option.case) (intro worker_safe_intros; auto)+

lemma safe_persist:
  "rn_tenant r = t \<Longrightarrow> keeps (safe t) (persist_version t l r events days coverage roles ids)"
  unfolding persist_version_def insert_reconstruction_def insert_event_version_def insert_day_def insert_coverage_def
  by (intro worker_safe_intros)
    (auto simp: event_version_def charged_day_row_def day_bindings_def split: prod.splits option.splits
      intro!: worker_safe_intros)

lemma safe_announce: "keeps (safe t) (announce_version t l r state now ids)"
  unfolding announce_version_def Let_def by (intro worker_safe_intros) auto

lemma safe_complete_reconstruction:
  "keeps (safe t) (complete_reconstruction t l events days coverage state roles correlation query issues now ids)"
  unfolding complete_reconstruction_def finish_reconstruction_def emit_rule_task_def Let_def
  by (intro worker_safe_intros safe_persist safe_announce) (auto simp: make_reconstruction_def)

lemma safe_fail_reconstruction: "keeps (safe t) (fail_reconstruction t l err retryable now ids)"
  unfolding fail_reconstruction_def Let_def by (intro worker_safe_intros) auto

section \<open>Leases\<close>

lemma fence_persist: "keeps same_fence (persist_version t l r events days coverage roles ids)"
  unfolding persist_version_def insert_reconstruction_def insert_event_version_def insert_day_def insert_coverage_def
  by (intro fence_intros) (auto split: prod.splits option.splits intro!: fence_intros)

lemma fence_announce: "keeps same_fence (announce_version t l r state now ids)"
  unfolding announce_version_def Let_def by (intro fence_intros)

lemma fence_rule_task: "keeps same_fence (emit_rule_task t l recon version i now)"
  unfolding emit_rule_task_def by (intro fence_intros) auto

end
