(* ===== verification/RuleTasks.thy ===== *)
theory RuleTasks
  imports ReconstructionTasks ApplicableRule
begin

text \<open>
  \<open>src/platform/applicable_rule_repository.py\<close>: a worker leases a rule task, persists the search it
  ran with its ranked candidates, and, only when the decision of \<open>ApplicableRule\<close> verified one,
  the applicable rule with its rate on every charged day. The search itself is an argument.
\<close>

section \<open>Claiming\<close>

record rule_lease = task_lease +
  ul_reconstruction :: string
  ul_cutoff :: int
  ul_fingerprint :: string
  ul_carrier :: string
  ul_scope :: string
  ul_dates :: "string list"
  ul_currency :: string

record rule_completion =
  uc_run :: string
  uc_rule :: "string option"
  uc_state :: string
  uc_candidates :: nat
  uc_rate :: "int option"

definition days_of :: "string \<Rightarrow> string \<Rightarrow> db \<Rightarrow> day_row list" where
  "days_of tenant recon db =
     sort_key dy_date (filter (\<lambda>d. dy_tenant d = tenant \<and> dy_reconstruction d = recon) (db_days db))"

definition rule_event ::
  "string \<Rightarrow> string \<Rightarrow> string \<Rightarrow> nat \<Rightarrow> int \<Rightarrow> string option \<Rightarrow> string \<Rightarrow> event_row" where
  "rule_event tenant i invoice seq now initiated actor =
     \<lparr>lg_tenant = tenant, lg_id = i, lg_invoice = invoice, lg_sequence = seq, lg_type = '''',
      lg_occurred = now, lg_role = ''EVIDENCE_AGENT'', lg_task = ''FIND_APPLICABLE_RULE'',
      lg_tool = Some ''CockroachDB Distributed Vector Indexing'', lg_state = '''', lg_aggregate = '''',
      lg_summary = '''', lg_initiated = initiated, lg_actor = actor, lg_inputs = [], lg_produced = [],
      lg_output_count = None, lg_error = None\<rparr>"

lemma rule_event_key [simp]:
  "lg_tenant (rule_event t i v s n u a) = t" "lg_invoice (rule_event t i v s n u a) = v"
  "lg_sequence (rule_event t i v s n u a) = s"
  by (simp_all add: rule_event_def)

text \<open>The inputs of the reconstruction: its dates and currency, and the carrier of the invoice.\<close>

definition rule_lease_of :: "string \<Rightarrow> task_row \<Rightarrow> db \<Rightarrow> rule_lease" where
  "rule_lease_of worker w db =
     (let recon = ref_id ''reconstruction'' (tk_inputs w);
          days = days_of (tk_tenant w) recon db
      in task_lease.extend (task_lease_of worker w)
        (rule_lease.fields recon (tk_cutoff w) (tk_fingerprint w)
          (case find_invoice (tk_tenant w) (tk_invoice w) db of None \<Rightarrow> '''' | Some r \<Rightarrow> in_carrier r)
          ''DEMURRAGE:USOAK:DRY'' (map (date_iso \<circ> dy_date) days)
          (case days of [] \<Rightarrow> ''USD'' | d # _ \<Rightarrow> dy_currency d)))"

definition claim_next_rule_task ::
  "string \<Rightarrow> string \<Rightarrow> int \<Rightarrow> (string \<Rightarrow> bool) \<Rightarrow> int \<Rightarrow> (nat \<Rightarrow> string) \<Rightarrow> rule_lease option tx" where
  "claim_next_rule_task tenant worker lease_seconds locked now ids =
     tx_bind (tx_read (next_task tenant FindApplicableRule now locked)) (\<lambda>row. case row of
        None \<Rightarrow> tx_return None
      | Some w \<Rightarrow>
          tx_bind (tx_read (rule_lease_of worker w)) (\<lambda>l.
            tx_then (begin_attempt w worker lease_seconds now)
            (tx_then
              (tx_bind (lock_invoice_and_advance tenant (tk_invoice w) ''READY_FOR_RECONSTRUCTION''
                  ''RECONSTRUCTING'' ''RECONSTRUCTING'' 1 now None)
                (\<lambda>seq. insert_event ((rule_event tenant (ids 0) (tk_invoice w) seq now (tk_initiated w) (tk_actor w))
                  \<lparr>lg_type := ''evidence.rule_search_started'', lg_state := ''RUNNING'',
                   lg_aggregate := ''RECONSTRUCTING'',
                   lg_summary := ''Searching recorded tariffs via Distributed Vector Indexing'',
                   lg_inputs := tk_inputs w\<rparr>)))
            (tx_return (Some l)))))"

section \<open>Completing\<close>

definition search_key :: "search_row \<Rightarrow> string \<times> string \<times> string" where
  "search_key r = (rq_tenant r, rq_reconstruction r, rq_fingerprint r)"

definition candidate_key :: "candidate_row \<Rightarrow> string \<times> string \<times> int" where
  "candidate_key c = (cw_tenant c, cw_run c, cw_rank c)"

definition candidate_state_text :: "candidate_state \<Rightarrow> string" where
  "candidate_state_text s =
     (case s of RETRIEVED \<Rightarrow> ''RETRIEVED'' | ACCEPTED \<Rightarrow> ''ACCEPTED'' | REJECTED \<Rightarrow> ''REJECTED'')"

definition rule_state_text :: "rule_state \<Rightarrow> string" where
  "rule_state_text s =
     (case s of RuleVerified \<Rightarrow> ''VERIFIED'' | RuleRejected \<Rightarrow> ''REJECTED'' | RuleConflicted \<Rightarrow> ''CONFLICTED'')"

text \<open>The validation of a candidate is looked up by its reference; the last one stays.\<close>

definition validation_of :: "applicability_decision \<Rightarrow> string \<Rightarrow> candidate_validation option" where
  "validation_of decision ref =
     map_of (rev (map (\<lambda>v. (rc_public_ref (cv_candidate v), v)) (ad_validations decision))) ref"

definition candidate_row_of ::
  "string \<Rightarrow> string \<Rightarrow> applicability_decision \<Rightarrow> rule_candidate \<Rightarrow> candidate_row" where
  "candidate_row_of tenant run decision c =
     \<lparr>cw_tenant = tenant, cw_run = run, cw_clause = rc_clause_id c, cw_public_ref = rc_public_ref c,
      cw_rank = rc_rank c, cw_distance = rc_distance c,
      cw_state = (case validation_of decision (rc_public_ref c) of None \<Rightarrow> ''RETRIEVED''
        | Some v \<Rightarrow> candidate_state_text (cv_state v)),
      cw_rejection = (case validation_of decision (rc_public_ref c) of None \<Rightarrow> None
        | Some v \<Rightarrow> cv_rejection_code v)\<rparr>"

record rule_query =
  qy_text :: string
  qy_fingerprint :: string
  qy_model :: string
  qy_input_sha256 :: string
  qy_index :: string

definition insert_search ::
  "string \<Rightarrow> rule_lease \<Rightarrow> rule_query \<Rightarrow> rule_candidate list \<Rightarrow> applicability_decision \<Rightarrow> string \<Rightarrow> int \<Rightarrow> unit tx" where
  "insert_search tenant l q candidates decision run now =
     tx_then (tx_insert ''rule_run_fingerprint_idx'' db_searches db_searches_update search_key
       \<lparr>rq_tenant = tenant, rq_id = run, rq_invoice = tl_invoice l, rq_reconstruction = ul_reconstruction l,
        rq_fingerprint = qy_fingerprint q, rq_query = qy_text q, rq_index = qy_index q, rq_model = qy_model q,
        rq_input_sha256 = qy_input_sha256 q, rq_state = (if candidates \<noteq> [] then ''COMPLETED'' else ''EMPTY''),
        rq_count = length candidates, rq_completed = now\<rparr>)
     (tx_for candidates (\<lambda>c.
       tx_insert ''rule_candidate_rank_idx'' db_candidates db_candidates_update candidate_key
         (candidate_row_of tenant run decision c)))"

definition rule_recon_key :: "rule_row \<Rightarrow> string \<times> string" where
  "rule_recon_key r = (ru_tenant r, ru_reconstruction r)"

definition day_rule_key :: "day_rule_row \<Rightarrow> string \<times> string \<times> string" where
  "day_rule_key b = (dl_tenant b, dl_day b, dl_rule b)"

definition nonempty_or :: "string option \<Rightarrow> string \<Rightarrow> string" where
  "nonempty_or v d = (case v of None \<Rightarrow> d | Some s \<Rightarrow> if s = '''' then d else s)"

text \<open>
  The rule of a reconstruction, one at most; a missing rate or start date violates a
  \<open>NOT NULL\<close> column. Every charged day gets the rate, and is bound to the rule, which the foreign
  key wants to exist.
\<close>

definition rule_row_of ::
  "string \<Rightarrow> rule_lease \<Rightarrow> string \<Rightarrow> candidate_validation \<Rightarrow> string \<Rightarrow> int \<Rightarrow> int \<Rightarrow> date \<Rightarrow> rule_row" where
  "rule_row_of tenant l run v i now rate from_day =
     \<lparr>ru_tenant = tenant, ru_id = i, ru_invoice = tl_invoice l, ru_public_ref = rc_public_ref (cv_candidate v),
      ru_clause_ref = Some (rc_clause_ref (cv_candidate v)), ru_rate = rate,
      ru_currency = nonempty_or (rc_rate_currency (cv_candidate v)) ''USD'', ru_from = from_day,
      ru_to = rc_effective_to (cv_candidate v), ru_validation = ''VERIFIED'',
      ru_reconstruction = ul_reconstruction l, ru_run = run, ru_clause = rc_clause_id (cv_candidate v),
      ru_excerpt = rc_display_excerpt (cv_candidate v),
      ru_unit = nonempty_or (rc_rate_unit (cv_candidate v)) ''CALENDAR_DAY'',
      ru_scope = rc_scope_code (cv_candidate v), ru_locator = rc_source_locator (cv_candidate v),
      ru_results = cv_results v, ru_validated = now\<rparr>"

definition insert_applicable_rule ::
  "string \<Rightarrow> rule_lease \<Rightarrow> string \<Rightarrow> candidate_validation \<Rightarrow> string \<Rightarrow> int \<Rightarrow> int tx" where
  "insert_applicable_rule tenant l run v i now =
     (case (cv_rate_minor v, rc_effective_from (cv_candidate v)) of
        (Some rate, Some from_day) \<Rightarrow>
          tx_then (tx_insert_absent db_rules db_rules_update rule_recon_key (rule_row_of tenant l run v i now rate from_day))
          (tx_then (tx_update db_days_update
            (\<lambda>d. dy_tenant d = tenant \<and> dy_reconstruction d = ul_reconstruction l)
            (\<lambda>d. d\<lparr>dy_applicable_rate := Some rate\<rparr>))
          (tx_bind (tx_read (\<lambda>db. (filter (\<lambda>d. dy_tenant d = tenant \<and> dy_reconstruction d = ul_reconstruction l) (db_days db),
              \<exists>r \<in> set (db_rules db). ru_tenant r = tenant \<and> ru_id r = i))) (\<lambda>(days, known).
            tx_then (tx_require (days = [] \<or> known) ''cd_rule_binding_rule_fk'')
            (tx_then (tx_for days (\<lambda>d. tx_insert_absent db_day_rules db_day_rules_update day_rule_key
                \<lparr>dl_tenant = tenant, dl_day = dy_id d, dl_rule = i\<rparr>))
            (tx_return rate)))))
      | _ \<Rightarrow> tx_raise (Raised ''NotNullViolation''))"

definition coverage_complete :: "string \<Rightarrow> string \<Rightarrow> db \<Rightarrow> bool" where
  "coverage_complete tenant recon db =
     (case List.find (\<lambda>r. rn_tenant r = tenant \<and> rn_id r = recon) (db_recons db) of
        None \<Rightarrow> False
      | Some r \<Rightarrow> rn_days_total r \<noteq> 0 \<and> rn_days_complete r = rn_days_total r)"

definition emit_judgment_task :: "string \<Rightarrow> rule_lease \<Rightarrow> string \<Rightarrow> int \<Rightarrow> unit tx" where
  "emit_judgment_task tenant l i now =
     enqueue_task (new_task tenant i (tl_invoice l) JudgeDays TaskPending (tl_initiated l) (tl_actor l) (ul_cutoff l)
       [object_ref ''reconstruction'' (ul_reconstruction l) 1] ''Waiting to compute the deterministic judgment'' now)"

definition finish_rule :: "string \<Rightarrow> rule_lease \<Rightarrow> int \<Rightarrow> unit tx" where
  "finish_rule tenant l now = finish_task tenant l ''Applicable rule evaluated'' now"

definition load_rule_completion :: "string \<Rightarrow> search_row \<Rightarrow> db \<Rightarrow> rule_completion" where
  "load_rule_completion tenant run db =
     (case List.find (\<lambda>r. ru_tenant r = tenant \<and> ru_run r = rq_id run) (db_rules db) of
        None \<Rightarrow> \<lparr>uc_run = rq_id run, uc_rule = None, uc_state = ''REJECTED'', uc_candidates = rq_count run,
          uc_rate = None\<rparr>
      | Some r \<Rightarrow> \<lparr>uc_run = rq_id run, uc_rule = Some (ru_id r), uc_state = ru_validation r,
          uc_candidates = rq_count run, uc_rate = Some (ru_rate r)\<rparr>)"

definition announce_rule ::
  "string \<Rightarrow> rule_lease \<Rightarrow> string \<Rightarrow> applicability_decision \<Rightarrow> string option \<Rightarrow> int \<Rightarrow> string \<Rightarrow> unit tx" where
  "announce_rule tenant l run decision rule now event_id =
     (let aggregate = (if rule \<noteq> None then ''RECONSTRUCTING'' else ''NEEDS_EVIDENCE'');
          conflict = (ad_state decision = RuleConflicted)
      in tx_bind (lock_invoice_and_advance tenant (tl_invoice l) ''READY_FOR_RECONSTRUCTION'' aggregate aggregate 1 now None)
        (\<lambda>seq. insert_event ((rule_event tenant event_id (tl_invoice l) seq now (tl_initiated l) (tl_actor l))
          \<lparr>lg_type := (if rule \<noteq> None then ''evidence.rule_verified''
             else if conflict then ''evidence.rule_conflict'' else ''evidence.rule_not_applicable''),
           lg_state := (if rule \<noteq> None then ''COMPLETED'' else ''BLOCKED''), lg_aggregate := aggregate,
           lg_summary := (if rule \<noteq> None then ''Applicable tariff verified: exact rate, date, and scope''
             else if conflict then ''Conflicting tariffs; evidence required''
             else ''No applicable tariff verified; evidence required''),
           lg_inputs := [object_ref ''rule_retrieval_run'' run 1],
           lg_produced := (case rule of None \<Rightarrow> [] | Some i \<Rightarrow> [object_ref ''applicable_rule'' i 1]),
           lg_error := (if rule \<noteq> None then None
             else Some (JObj [(''code'', JOpt JStr (ad_public_error decision))]))\<rparr>)))"

definition verified_choice :: "applicability_decision \<Rightarrow> candidate_validation option" where
  "verified_choice decision = (if ad_state decision = RuleVerified then ad_accepted decision else None)"

definition complete_rule ::
  "string \<Rightarrow> rule_lease \<Rightarrow> rule_query \<Rightarrow> rule_candidate list \<Rightarrow> applicability_decision \<Rightarrow> int \<Rightarrow> (nat \<Rightarrow> string)
     \<Rightarrow> rule_completion tx" where
  "complete_rule tenant l q candidates decision now ids =
     tx_then (require_lease tenant l)
     (tx_bind (tx_read (\<lambda>db. List.find (\<lambda>r. search_key r = (tenant, ul_reconstruction l, qy_fingerprint q)) (db_searches db)))
       (\<lambda>existing. case existing of
          Some run \<Rightarrow> tx_then (finish_rule tenant l now) (tx_read (load_rule_completion tenant run))
        | None \<Rightarrow>
            tx_then (insert_search tenant l q candidates decision (ids 0) now)
            (tx_bind (case verified_choice decision of
                 None \<Rightarrow> tx_return None
               | Some v \<Rightarrow> tx_bind (insert_applicable_rule tenant l (ids 0) v (ids 1) now) (\<lambda>rate. tx_return (Some rate)))
              (\<lambda>rate.
                let rule = (if rate = None then None else Some (ids 1))
                in tx_then (finish_rule tenant l now)
                  (tx_then
                    (tx_bind (tx_read (coverage_complete tenant (ul_reconstruction l))) (\<lambda>covered.
                      if rule \<noteq> None \<or> covered then emit_judgment_task tenant l (ids 2) now else tx_return ()))
                  (tx_then (announce_rule tenant l (ids 0) decision rule now (ids 3))
                  (tx_return \<lparr>uc_run = ids 0, uc_rule = rule, uc_state = rule_state_text (ad_state decision),
                     uc_candidates = length candidates, uc_rate = rate\<rparr>)))))))"

section \<open>Failing\<close>

definition rule_public_error :: "string \<Rightarrow> string" where
  "rule_public_error err =
     (if starts_with ''VECTOR_'' err then ''VECTOR_RETRIEVAL_UNAVAILABLE'' else ''NO_APPLICABLE_RULE'')"

definition fail_rule ::
  "string \<Rightarrow> rule_lease \<Rightarrow> string \<Rightarrow> bool \<Rightarrow> int \<Rightarrow> (nat \<Rightarrow> string) \<Rightarrow> row_state tx" where
  "fail_rule tenant l err retryable now ids =
     (let again = retries l retryable; aggregate = (if again then ''RECONSTRUCTING'' else ''NEEDS_EVIDENCE'')
      in tx_then (require_lease tenant l)
        (tx_then (release_lease tenant l err retryable
            (summarised (if again then ''Rule search will retry'' else ''Rule search is blocked'')) now)
        (tx_then
          (tx_bind (lock_invoice_and_advance tenant (tl_invoice l) ''READY_FOR_RECONSTRUCTION'' aggregate aggregate 1 now None)
            (\<lambda>seq. insert_event ((rule_event tenant (ids 0) (tl_invoice l) seq now (tl_initiated l) (tl_actor l))
              \<lparr>lg_type := (if again then ''evidence.rule_search_retry_scheduled'' else ''evidence.rule_search_failed''),
               lg_state := task_state_text (released_state l retryable), lg_aggregate := aggregate,
               lg_summary := (if again then ''Tariff search will retry''
                 else ''Tariff search unavailable. No substitute clause is used.''),
               lg_inputs := [object_ref ''workflow_task'' (tl_task l) 1],
               lg_error := Some (JObj [(''code'', JStr (rule_public_error err))])\<rparr>)))
        (tx_return (released_state l retryable)))))"

section \<open>What every operation keeps\<close>

lemma safe_claim_rule: "keeps (safe t) (claim_next_rule_task t w secs locked now ids)"
  unfolding claim_next_rule_task_def
  by (rule keeps_next; simp only: option.case) (intro worker_safe_intros; auto)+

lemma safe_search: "keeps (safe t) (insert_search t l q candidates decision run now)"
  unfolding insert_search_def by (intro worker_safe_intros) (auto simp: candidate_row_of_def)

lemma safe_rule: "keeps (safe t) (insert_applicable_rule t l run v i now)"
  unfolding insert_applicable_rule_def
  by (auto split: option.splits prod.splits simp: rule_row_of_def intro!: worker_safe_intros)

lemma safe_complete_rule: "keeps (safe t) (complete_rule t l q candidates decision now ids)"
  unfolding complete_rule_def finish_rule_def emit_judgment_task_def announce_rule_def Let_def
  by (intro safe_search safe_rule worker_safe_intros) auto

lemma safe_fail_rule: "keeps (safe t) (fail_rule t l err retryable now ids)"
  unfolding fail_rule_def Let_def by (intro worker_safe_intros) auto

lemma fence_search: "keeps same_fence (insert_search t l q candidates decision run now)"
  unfolding insert_search_def by (intro fence_intros) auto

lemma fence_rule: "keeps same_fence (insert_applicable_rule t l run v i now)"
  unfolding insert_applicable_rule_def
  by (auto split: option.splits prod.splits intro!: fence_intros)

lemma fence_judgment_task: "keeps same_fence (emit_judgment_task t l i now)"
  unfolding emit_judgment_task_def by (intro fence_intros) auto

lemma fence_announce_rule: "keeps same_fence (announce_rule t l run decision rule now i)"
  unfolding announce_rule_def Let_def by (intro fence_intros)

end
