(* ===== verification/JudgmentTasks.thy ===== *)
theory JudgmentTasks
  imports RuleTasks
begin

text \<open>
  \<open>src/platform/judgment_repository.py\<close>: a worker leases a judgment task, reads the ledger of
  charged days, and freezes one recommendation with one judgment row for each day, computed by
  \<open>Judgment\<close>. A decision withheld for a missing access snapshot leaves a held task behind.
\<close>

section \<open>Claiming\<close>

record judgment_lease = task_lease +
  jl_reconstruction :: string
  jl_fingerprint :: string

record judgment_completion =
  jc_recommendation :: string
  jc_version :: int
  jc_type :: string
  jc_disputed :: int
  jc_supported :: int
  jc_days_total :: nat

definition judgment_lease_of :: "string \<Rightarrow> task_row \<Rightarrow> judgment_lease" where
  "judgment_lease_of worker w =
     task_lease.extend (task_lease_of worker w)
       (judgment_lease.fields (ref_id ''reconstruction'' (tk_inputs w)) (tk_fingerprint w))"

definition claim_next_judgment_task ::
  "string \<Rightarrow> string \<Rightarrow> int \<Rightarrow> (string \<Rightarrow> bool) \<Rightarrow> int \<Rightarrow> judgment_lease option tx" where
  "claim_next_judgment_task tenant worker lease_seconds locked now =
     tx_bind (tx_read (next_task tenant JudgeDays now locked)) (\<lambda>row. case row of
        None \<Rightarrow> tx_return None
      | Some w \<Rightarrow> tx_then (begin_attempt w worker lease_seconds now)
          (tx_return (Some (judgment_lease_of worker w))))"

section \<open>The ledger as inputs\<close>

definition day_input_of :: "day_row \<Rightarrow> day_input" where
  "day_input_of d =
     \<lparr>di_date = dy_date d, di_invoice_rate = dy_invoice_rate d, di_applicable_rate = dy_applicable_rate d,
      di_currency = dy_currency d, di_coverage_state = dy_coverage d,
      di_chargeable = (dy_chargeability d \<noteq> ''NOT_CHARGEABLE''), di_missing_requirements = dy_missing d\<rparr>"

definition load_day_inputs :: "string \<Rightarrow> string \<Rightarrow> db \<Rightarrow> day_input list" where
  "load_day_inputs tenant recon db = map day_input_of (days_of tenant recon db)"

section \<open>Completing\<close>

definition recommendation_print :: "recommendation_row \<Rightarrow> string \<times> string \<times> string" where
  "recommendation_print r = (re_tenant r, re_reconstruction r, re_fingerprint r)"

definition recommendation_version_key :: "recommendation_row \<Rightarrow> string \<times> string \<times> int" where
  "recommendation_version_key r = (re_tenant r, re_reconstruction r, re_version r)"

definition next_recommendation_version :: "string \<Rightarrow> string \<Rightarrow> db \<Rightarrow> int" where
  "next_recommendation_version tenant recon db =
     foldr max (map re_version (filter (\<lambda>r. re_tenant r = tenant \<and> re_reconstruction r = recon) (db_recs db))) 0 + 1"

definition verified_rule_id :: "string \<Rightarrow> string \<Rightarrow> db \<Rightarrow> string option" where
  "verified_rule_id tenant recon db =
     map_option ru_id (List.find (\<lambda>r. ru_tenant r = tenant \<and> ru_reconstruction r = recon
       \<and> ru_validation r = ''VERIFIED'') (db_rules db))"

definition make_recommendation ::
  "string \<Rightarrow> judgment_lease \<Rightarrow> string \<Rightarrow> int \<Rightarrow> string option \<Rightarrow> string \<Rightarrow> recommendation \<Rightarrow> recommendation_row" where
  "make_recommendation tenant l i version rule print r =
     \<lparr>re_tenant = tenant, re_id = i, re_invoice = tl_invoice l, re_reconstruction = jl_reconstruction l,
      re_rule = rule, re_version = version, re_digest = rec_digest r, re_state = ''FROZEN'',
      re_type = recommendation_value (rec_type r), re_disputed = rec_disputed r,
      re_supported = rec_supported r, re_claimed = rec_claimed r, re_currency = rec_currency r,
      re_fingerprint = print, re_days_total = rec_days_total r, re_days_covered = rec_days_covered r,
      re_coverage = rec_coverage r, re_summary = rec_summary r, re_reasons = map reason_value (rec_reasons r)\<rparr>"

definition insert_recommendation :: "recommendation_row \<Rightarrow> unit tx" where
  "insert_recommendation r =
     tx_bind (tx_read (\<lambda>db. recommendation_print r \<in> recommendation_print ` set (db_recs db))) (\<lambda>known.
       if known then tx_return ()
       else tx_insert ''recommendation_version_idx'' db_recs db_recs_update recommendation_version_key r)"

definition judgment_key :: "judgment_row \<Rightarrow> string \<times> string \<times> date" where
  "judgment_key j = (jr_tenant j, jr_recommendation j, jr_date j)"

definition judgment_row_of ::
  "string \<Rightarrow> judgment_lease \<Rightarrow> string \<Rightarrow> string option \<Rightarrow> day_judgment \<Rightarrow> day_row \<Rightarrow> judgment_row" where
  "judgment_row_of tenant l rec_id rule j d =
     \<lparr>jr_tenant = tenant, jr_recommendation = rec_id, jr_date = dj_date j, jr_invoice_rate = dj_invoice_rate j,
      jr_applicable_rate = dj_applicable_rate j, jr_discrepancy = dj_discrepancy j,
      jr_outcome = outcome_value (dj_outcome j), jr_invoice = tl_invoice l,
      jr_reconstruction = jl_reconstruction l, jr_day = dy_id d, jr_currency = dj_currency j,
      jr_coverage = dy_coverage d, jr_rule = rule, jr_explanation = dj_explanation j\<rparr>"

text \<open>\<open>INSERT \<dots> SELECT\<close>: a judgment is written for each ledger row of its date.\<close>

definition insert_judgments ::
  "string \<Rightarrow> judgment_lease \<Rightarrow> string \<Rightarrow> string option \<Rightarrow> day_judgment list \<Rightarrow> unit tx" where
  "insert_judgments tenant l rec_id rule judgments =
     tx_for judgments (\<lambda>j.
       tx_bind (tx_read (\<lambda>db. filter (\<lambda>d. dy_tenant d = tenant \<and> dy_reconstruction d = jl_reconstruction l
           \<and> dy_date d = dj_date j) (db_days db)))
         (\<lambda>rows. tx_for rows (\<lambda>d.
           tx_insert ''judgment_day_version_idx'' db_judgments db_judgments_update judgment_key
             (judgment_row_of tenant l rec_id rule j d))))"

definition finish_judgment :: "string \<Rightarrow> judgment_lease \<Rightarrow> int \<Rightarrow> unit tx" where
  "finish_judgment tenant l now = finish_task tenant l ''Recommendation frozen'' now"

definition announce_recommendation ::
  "string \<Rightarrow> judgment_lease \<Rightarrow> recommendation \<Rightarrow> string \<Rightarrow> int \<Rightarrow> int \<Rightarrow> string \<Rightarrow> unit tx" where
  "announce_recommendation tenant l r rec_id version now event_id =
     (let withheld = (rec_type r = REQUEST_EVIDENCE);
          status = (if withheld then ''NEEDS_EVIDENCE'' else ''READY_FOR_REVIEW'')
      in tx_bind (lock_invoice_and_advance tenant (tl_invoice l) ''READY_FOR_RECONSTRUCTION'' status status 1 now None)
        (\<lambda>seq. insert_event ((rule_event tenant event_id (tl_invoice l) seq now (tl_initiated l) (tl_actor l))
          \<lparr>lg_type := (if withheld then ''decision.authority_withheld'' else ''decision.recommendation_ready''),
           lg_state := ''COMPLETED'', lg_aggregate := status, lg_summary := rec_summary r,
           lg_inputs := [object_ref ''reconstruction'' (jl_reconstruction l) 1],
           lg_produced := [version_ref ''recommendation'' rec_id version],
           lg_output_count := Some (rec_days_total r)\<rparr>)))"

text \<open>
  The retained snapshot that could still be bound: the earliest pending one of the tenant, when the
  invoice has claims. Missing dates sort first.
\<close>

definition pending_snapshot :: "string \<Rightarrow> string \<Rightarrow> db \<Rightarrow> memory_row option" where
  "pending_snapshot tenant invoice db =
     (if find_invoice tenant invoice db = None
         \<or> \<not> (\<exists>s \<in> set (db_claim_sets db). cs_tenant s = tenant \<and> cs_invoice s = invoice) then None
      else case filter (\<lambda>m. mm_tenant m = tenant \<and> mm_type m = ''TERMINAL_ACCESS_SNAPSHOT'' \<and> mm_state m = ''PENDING'')
          (db_memory db) of
        [] \<Rightarrow> None
      | m # ms \<Rightarrow> Some (min_by (\<lambda>m. case mm_from m of None \<Rightarrow> 0 | Some d \<Rightarrow> toordinal d) m ms))"

definition binding_request :: "memory_row \<Rightarrow> date \<Rightarrow> json" where
  "binding_request m d =
     JObj [(''type'', JStr ''access_binding_request''), (''snapshot_public_ref'', JStr (mm_public_ref m)),
       (''container_ref'', JStr (mm_container m)), (''snapshot_date'', JStr (date_iso d))]"

definition enqueue_held_access_binding :: "string \<Rightarrow> judgment_lease \<Rightarrow> string \<Rightarrow> int \<Rightarrow> unit tx" where
  "enqueue_held_access_binding tenant l i now =
     tx_bind (tx_read (\<lambda>db. (pending_snapshot tenant (tl_invoice l) db, find_invoice tenant (tl_invoice l) db)))
       (\<lambda>(snapshot, invoice). case (snapshot, invoice) of
          (Some m, Some r) \<Rightarrow> (case mm_from m of
              None \<Rightarrow> tx_raise (Raised ''AttributeError'')
            | Some d \<Rightarrow> enqueue_task (new_task tenant i (tl_invoice l) BindAccessEvidence TaskHeld
                (tl_initiated l) (tl_actor l) (in_received r) [binding_request m d]
                ''Awaiting release to verify the terminal-access snapshot'' now))
        | _ \<Rightarrow> tx_return ())"

definition judgment_completion_of :: "recommendation_row \<Rightarrow> judgment_completion" where
  "judgment_completion_of r =
     \<lparr>jc_recommendation = re_id r, jc_version = re_version r, jc_type = re_type r, jc_disputed = re_disputed r,
      jc_supported = re_supported r, jc_days_total = re_days_total r\<rparr>"

definition judgment_error_text :: "judgment_error \<Rightarrow> string" where
  "judgment_error_text e =
     (case e of NO_CHARGED_DAYS \<Rightarrow> ''NO_CHARGED_DAYS'' | CURRENCY_MISMATCH \<Rightarrow> ''CURRENCY_MISMATCH'')"

definition holds_access_task :: "recommendation \<Rightarrow> bool" where
  "holds_access_task r =
     (rec_type r = REQUEST_EVIDENCE \<and> MISSING_DAY_ACCESS_EVIDENCE \<in> set (rec_reasons r))"

text \<open>Freezing a new version.\<close>

definition freeze_recommendation ::
  "string \<Rightarrow> judgment_lease \<Rightarrow> recommendation \<Rightarrow> recommendation_row \<Rightarrow> int \<Rightarrow> (nat \<Rightarrow> string) \<Rightarrow> unit tx" where
  "freeze_recommendation tenant l r row now ids =
     tx_then (insert_recommendation row)
     (tx_then (insert_judgments tenant l (re_id row) (re_rule row) (rec_judgments r))
     (tx_then (finish_judgment tenant l now)
     (tx_then (announce_recommendation tenant l r (re_id row) (re_version row) now (ids 1))
     (if holds_access_task r then enqueue_held_access_binding tenant l (ids 2) now else tx_return ()))))"

definition complete_judgment ::
  "string \<Rightarrow> judgment_lease \<Rightarrow> day_input list \<Rightarrow> int \<Rightarrow> (nat \<Rightarrow> string) \<Rightarrow> judgment_completion tx" where
  "complete_judgment tenant l days now ids =
     (case resolve_recommendation days of
        Inl e \<Rightarrow> tx_raise (Raised (judgment_error_text e))
      | Inr r \<Rightarrow>
          tx_then (require_lease tenant l)
          (tx_bind (tx_read (\<lambda>db. List.find (\<lambda>x. recommendation_print x
                = (tenant, jl_reconstruction l, recommendation_fingerprint days)) (db_recs db)))
            (\<lambda>existing. case existing of
               Some x \<Rightarrow> tx_then (finish_judgment tenant l now) (tx_return (judgment_completion_of x))
             | None \<Rightarrow>
                 tx_bind (tx_read (\<lambda>db. (next_recommendation_version tenant (jl_reconstruction l) db,
                     verified_rule_id tenant (jl_reconstruction l) db)))
                   (\<lambda>(version, rule).
                     let row = make_recommendation tenant l (ids 0) version rule (recommendation_fingerprint days) r
                     in tx_then (freeze_recommendation tenant l r row now ids)
                       (tx_return (judgment_completion_of row))))))"

section \<open>Failing\<close>

definition fail_judgment :: "string \<Rightarrow> judgment_lease \<Rightarrow> string \<Rightarrow> int \<Rightarrow> row_state tx" where
  "fail_judgment tenant l err now =
     tx_then (require_lease tenant l)
     (tx_then (release_lease tenant l err True (\<lambda>w. w) now) (tx_return (released_state l True)))"

section \<open>What every operation keeps\<close>

lemma safe_claim_judgment: "keeps (safe t) (claim_next_judgment_task t w secs locked now)"
  unfolding claim_next_judgment_task_def
  by (rule keeps_next; simp only: option.case) (intro worker_safe_intros; auto)+

lemma safe_held: "keeps (safe t) (enqueue_held_access_binding t l i now)"
  unfolding enqueue_held_access_binding_def
  by (auto split: option.splits prod.splits intro!: worker_safe_intros)

lemma safe_announce_recommendation: "keeps (safe t) (announce_recommendation t l r i v now e)"
  unfolding announce_recommendation_def Let_def by (intro worker_safe_intros) auto

lemma safe_freeze: "re_tenant row = t \<Longrightarrow> keeps (safe t) (freeze_recommendation t l r row now ids)"
  unfolding freeze_recommendation_def insert_recommendation_def insert_judgments_def finish_judgment_def
  by (intro safe_held safe_announce_recommendation worker_safe_intros) (auto simp: judgment_row_of_def)

lemma safe_complete_judgment: "keeps (safe t) (complete_judgment t l days now ids)"
  unfolding complete_judgment_def finish_judgment_def Let_def
  by (auto simp: make_recommendation_def split: sum.splits option.splits prod.splits
      intro!: safe_freeze worker_safe_intros)

lemma safe_fail_judgment: "keeps (safe t) (fail_judgment t l err now)"
  unfolding fail_judgment_def by (intro worker_safe_intros) auto

lemma fence_held: "keeps same_fence (enqueue_held_access_binding t l i now)"
  unfolding enqueue_held_access_binding_def
  by (auto split: option.splits prod.splits intro!: fence_intros)

lemma fence_announce_recommendation: "keeps same_fence (announce_recommendation t l r i v now e)"
  unfolding announce_recommendation_def Let_def by (intro fence_intros)

lemma fence_judgment_rows:
  "keeps same_fence (insert_recommendation row)" "keeps same_fence (insert_judgments t l i rule js)"
  unfolding insert_recommendation_def insert_judgments_def by (intro fence_intros; auto)+

end
