(* ===== verification/AccessEvidence.thy ===== *)
theory AccessEvidence
  imports JudgmentTasks
begin

text \<open>
  \<open>src/platform/access_evidence_repository.py\<close>: once a held task is released, a worker verifies the
  retained snapshot it names against its source and binds it, or refuses. Unlike the other
  repositories it checks only the owner of the lease, not the attempt.
\<close>

section \<open>Leases\<close>

record access_lease = task_lease +
  al_cutoff :: int
  al_snapshot :: string
  al_container :: string
  al_date :: date

record access_result =
  ax_outcome :: string
  ax_reason :: "string option"
  ax_snapshot :: string
  ax_requeued :: bool

definition ref_text :: "string \<Rightarrow> json \<Rightarrow> string" where
  "ref_text k r = (case json_get k r of None \<Rightarrow> '''' | v \<Rightarrow> json_str v)"

text \<open>The date of the request; without one it is \<open>date.min\<close>.\<close>

definition requested_date :: "json \<Rightarrow> tx_error + date" where
  "requested_date r =
     (if ref_text ''snapshot_date'' r = '''' then Inr (Date 1 1 1)
      else case date_fromiso (ref_text ''snapshot_date'' r) of
        None \<Rightarrow> Inl (Raised ''ValueError'') | Some d \<Rightarrow> Inr d)"

definition access_lease_of :: "string \<Rightarrow> task_row \<Rightarrow> date \<Rightarrow> access_lease" where
  "access_lease_of worker w d =
     (let request = ref_of_type ''access_binding_request'' (tk_inputs w)
      in task_lease.extend (task_lease_of worker w)
        (access_lease.fields (tk_cutoff w) (ref_text ''snapshot_public_ref'' request)
          (ref_text ''container_ref'' request) d))"

definition claim_next_access_evidence_task ::
  "string \<Rightarrow> string \<Rightarrow> int \<Rightarrow> (string \<Rightarrow> bool) \<Rightarrow> int \<Rightarrow> access_lease option tx" where
  "claim_next_access_evidence_task tenant worker lease_seconds locked now =
     tx_bind (tx_read (next_task tenant BindAccessEvidence now locked)) (\<lambda>row. case row of
        None \<Rightarrow> tx_return None
      | Some w \<Rightarrow> tx_then (begin_attempt w worker lease_seconds now)
          (case requested_date (ref_of_type ''access_binding_request'' (tk_inputs w)) of
             Inl e \<Rightarrow> tx_raise e
           | Inr d \<Rightarrow> tx_return (Some (access_lease_of worker w d))))"

definition access_held :: "string \<Rightarrow> access_lease \<Rightarrow> db \<Rightarrow> bool" where
  "access_held tenant l db =
     (case task_at (tenant, tl_task l) db of
        None \<Rightarrow> False | Some w \<Rightarrow> tk_state w = TaskRunning \<and> tk_owner w = Some (tl_worker l))"

definition require_access_lease :: "string \<Rightarrow> access_lease \<Rightarrow> unit tx" where
  "require_access_lease tenant l =
     tx_bind (tx_read (access_held tenant l)) (\<lambda>held. tx_require held ''TASK_LEASE_LOST'')"

definition owned_row :: "string \<Rightarrow> access_lease \<Rightarrow> task_row \<Rightarrow> bool" where
  "owned_row tenant l w = (task_pk w = (tenant, tl_task l) \<and> tk_owner w = Some (tl_worker l))"

definition finish_access :: "string \<Rightarrow> access_lease \<Rightarrow> int \<Rightarrow> unit tx" where
  "finish_access tenant l now =
     tx_update db_tasks_update (owned_row tenant l)
       (\<lambda>w. w\<lparr>tk_state := TaskCompleted, tk_completed := Some now, tk_owner := None,
          tk_expires := None, tk_updated := now\<rparr>)"

section \<open>Verifying and binding\<close>

definition fact_text :: "string \<Rightarrow> (string \<times> json) list \<Rightarrow> string" where
  "fact_text k facts = (case map_of facts k of None \<Rightarrow> '''' | v \<Rightarrow> json_str v)"

definition find_snapshot :: "string \<Rightarrow> string \<Rightarrow> db \<Rightarrow> memory_row option" where
  "find_snapshot tenant ref db = List.find (\<lambda>m. mm_tenant m = tenant \<and> mm_public_ref m = ref) (db_memory db)"

definition source_state :: "string \<Rightarrow> string \<Rightarrow> db \<Rightarrow> string" where
  "source_state tenant ref db =
     (case List.find (\<lambda>a. ar_tenant a = tenant \<and> ar_public_ref a = ref) (db_artifacts db) of
        None \<Rightarrow> ''UNAVAILABLE'' | Some a \<Rightarrow> ar_verification a)"

text \<open>A snapshot without a date cannot be recorded: the verdict's date column is \<open>NOT NULL\<close>.\<close>

definition load_snapshot_facts :: "string \<Rightarrow> string \<Rightarrow> db \<Rightarrow> tx_error + access_snapshot_facts" where
  "load_snapshot_facts tenant ref db =
     (case find_snapshot tenant ref db of
        None \<Rightarrow> Inl (Raised ''AccessSnapshotMissingError'')
      | Some m \<Rightarrow> (case mm_from m of
          None \<Rightarrow> Inl (Raised ''NotNullViolation'')
        | Some d \<Rightarrow> Inr
            \<lparr>as_public_ref = mm_public_ref m, as_container_ref = mm_container m, as_snapshot_date = d,
             as_exact_source_verified = (source_state tenant (mm_source m) db = ''VERIFIED''),
             as_access_status = fact_text ''access_status'' (mm_facts m),
             as_gate_status = fact_text ''gate_status'' (mm_facts m),
             as_blocking_hold = fact_text ''blocking_hold'' (mm_facts m)\<rparr>))"

definition verification_key :: "verification_row \<Rightarrow> string \<times> string \<times> string" where
  "verification_key v = (vf_tenant v, vf_task v, vf_snapshot v)"

definition verification_of ::
  "string \<Rightarrow> access_lease \<Rightarrow> string \<Rightarrow> access_snapshot_facts \<Rightarrow> bool \<times> string option \<Rightarrow> verification_row" where
  "verification_of tenant l i facts checked =
     \<lparr>vf_tenant = tenant, vf_id = i, vf_invoice = tl_invoice l, vf_task = tl_task l, vf_snapshot = al_snapshot l,
      vf_container = as_container_ref facts, vf_date = as_snapshot_date facts,
      vf_outcome = (if fst checked then ''VERIFIED'' else ''REFUSED''), vf_reason = snd checked\<rparr>"

definition bind_snapshot :: "string \<Rightarrow> string \<Rightarrow> unit tx" where
  "bind_snapshot tenant ref =
     tx_update db_memory_update (\<lambda>m. mm_tenant m = tenant \<and> mm_public_ref m = ref \<and> mm_state m = ''PENDING'')
       (\<lambda>m. m\<lparr>mm_state := ''VERIFIED''\<rparr>)"

text \<open>The earliest reconstruction task of the invoice gives the references of the new one.\<close>

definition prior_refs :: "string \<Rightarrow> string \<Rightarrow> db \<Rightarrow> json list" where
  "prior_refs tenant invoice db =
     (case filter (\<lambda>w. tk_tenant w = tenant \<and> tk_invoice w = invoice \<and> tk_type w = StartReconstruction) (db_tasks db) of
        [] \<Rightarrow> [] | w # ws \<Rightarrow> tk_inputs (min_by tk_created w ws))"

definition untyped_ref :: "string \<Rightarrow> string \<Rightarrow> json" where
  "untyped_ref ty i = JObj [(''type'', JStr ty), (''id'', JStr i)]"

definition emit_reconstruction_task :: "string \<Rightarrow> access_lease \<Rightarrow> string \<Rightarrow> int \<Rightarrow> unit tx" where
  "emit_reconstruction_task tenant l i now =
     tx_bind (tx_read (prior_refs tenant (tl_invoice l))) (\<lambda>refs.
       enqueue_task (new_task tenant i (tl_invoice l) StartReconstruction TaskPending (tl_initiated l) (tl_actor l)
         (al_cutoff l) (refs @ [untyped_ref ''access_binding'' (al_snapshot l)])
         ''Re-sourcing charged days after evidence binding'' now))"

definition announce_binding :: "string \<Rightarrow> access_lease \<Rightarrow> int \<Rightarrow> string \<Rightarrow> unit tx" where
  "announce_binding tenant l now event_id =
     tx_bind (lock_invoice_and_advance tenant (tl_invoice l) ''READY_FOR_RECONSTRUCTION''
         ''RECONSTRUCTING'' ''RECONSTRUCTING'' 1 now None)
       (\<lambda>seq. insert_event ((intake_event tenant event_id (tl_invoice l) seq now (tl_initiated l) (tl_actor l))
         \<lparr>lg_type := ''reconstruction.source_bound'', lg_task := ''BIND_ACCESS_EVIDENCE'',
          lg_tool := Some ''CockroachDB Managed MCP'', lg_state := ''COMPLETED'',
          lg_aggregate := ''RECONSTRUCTING'',
          lg_summary := ''Terminal-access snapshot verified and bound for '' @ date_iso (al_date l),
          lg_inputs := [untyped_ref ''access_snapshot'' (al_snapshot l)],
          lg_produced := [untyped_ref ''access_binding'' (al_snapshot l)], lg_output_count := Some 1\<rparr>))"

definition complete_access_binding ::
  "string \<Rightarrow> access_lease \<Rightarrow> int \<Rightarrow> (nat \<Rightarrow> string) \<Rightarrow> access_result tx" where
  "complete_access_binding tenant l now ids =
     tx_then (require_access_lease tenant l)
     (tx_bind (tx_read (\<lambda>db. List.find (\<lambda>v. verification_key v = (tenant, tl_task l, al_snapshot l)) (db_verifications db)))
       (\<lambda>prior. case prior of
          Some v \<Rightarrow> tx_then (finish_access tenant l now)
            (tx_return \<lparr>ax_outcome = vf_outcome v, ax_reason = vf_reason v, ax_snapshot = al_snapshot l, ax_requeued = False\<rparr>)
        | None \<Rightarrow>
            tx_bind (tx_read (load_snapshot_facts tenant (al_snapshot l))) (\<lambda>loaded. case loaded of
              Inl e \<Rightarrow> tx_raise e
            | Inr facts \<Rightarrow>
                let checked = verify_access_snapshot facts (al_container l) (al_date l);
                    v = verification_of tenant l (ids 0) facts checked
                in tx_then (tx_insert ''access_verif_task_snapshot_idx'' db_verifications db_verifications_update
                     verification_key v)
                  (if \<not> fst checked
                   then tx_then (finish_access tenant l now)
                     (tx_return \<lparr>ax_outcome = vf_outcome v, ax_reason = snd checked, ax_snapshot = al_snapshot l,
                        ax_requeued = False\<rparr>)
                   else tx_then (bind_snapshot tenant (al_snapshot l))
                     (tx_then (announce_binding tenant l now (ids 1))
                     (tx_then (emit_reconstruction_task tenant l (ids 2) now)
                     (tx_then (finish_access tenant l now)
                     (tx_return \<lparr>ax_outcome = vf_outcome v, ax_reason = None, ax_snapshot = al_snapshot l,
                        ax_requeued = True\<rparr>))))))))"

section \<open>Releasing\<close>

definition held_task :: "string \<Rightarrow> string \<Rightarrow> task_row \<Rightarrow> bool" where
  "held_task tenant invoice w =
     (tk_tenant w = tenant \<and> tk_invoice w = invoice \<and> tk_type w = BindAccessEvidence \<and> tk_state w = TaskHeld)"

definition release_access_evidence :: "string \<Rightarrow> string \<Rightarrow> int \<Rightarrow> bool tx" where
  "release_access_evidence tenant invoice now =
     tx_bind (tx_read (\<lambda>db. \<exists>w \<in> set (db_tasks db). held_task tenant invoice w)) (\<lambda>any.
       tx_then (tx_update db_tasks_update (held_task tenant invoice) (\<lambda>w. w\<lparr>tk_state := TaskPending, tk_updated := now\<rparr>))
         (tx_return any))"

section \<open>What every operation keeps\<close>

lemma safe_claim_access: "keeps (safe t) (claim_next_access_evidence_task t w secs locked now)"
  unfolding claim_next_access_evidence_task_def
  by (rule keeps_next; simp only: option.case) (intro worker_safe_intros; auto)+

lemma safe_finish_access: "keeps (safe t) (finish_access t l now)"
  unfolding finish_access_def by (intro worker_safe_intros) (auto simp: owned_row_def task_pk_def)

lemma safe_bind: "keeps (safe t) (bind_snapshot t ref)"
  unfolding bind_snapshot_def by (intro worker_safe_intros) auto

lemma safe_announce_binding: "keeps (safe t) (announce_binding t l now e)"
  unfolding announce_binding_def by (intro worker_safe_intros) auto

lemma safe_complete_access: "keeps (safe t) (complete_access_binding t l now ids)"
  unfolding complete_access_binding_def require_access_lease_def emit_reconstruction_task_def Let_def
  by (intro safe_finish_access safe_bind safe_announce_binding worker_safe_intros) (auto simp: verification_of_def)

lemma safe_release_access: "keeps (safe t) (release_access_evidence t i now)"
  unfolding release_access_evidence_def by (intro worker_safe_intros) (auto simp: held_task_def)

end
