(* ===== verification/IntakeReceipts.thy ===== *)
theory IntakeReceipts
  imports Workers
begin

text \<open>
  \<open>src/platform/intake_repository.py\<close>: an upload is reserved under an idempotency key, its source is
  recorded once it is preserved, and the receipt is finalized in one transaction: the invoice, its
  source, the extraction task and the first event. A second upload of the same bytes is linked to the
  invoice that has them.
\<close>

section \<open>Requests\<close>

record ingestion_reservation =
  ir_invoice :: string
  ir_source :: string
  ir_state :: string
  ir_snapshot :: "json option"
  ir_new :: bool
  ir_stored :: "stored_source option"

record finalize_receipt =
  fr_key :: string
  fr_hash :: string
  fr_carrier :: string
  fr_display :: string
  fr_mime :: string
  fr_stored :: stored_source
  fr_actor :: "string option"
  fr_actor_display :: string
  fr_provenance :: string
  fr_disclosure :: string

definition ingestion_key :: "ingestion_row \<Rightarrow> string \<times> string" where
  "ingestion_key g = (ig_tenant g, ig_key g)"

definition find_ingestion :: "string \<Rightarrow> string \<Rightarrow> db \<Rightarrow> ingestion_row option" where
  "find_ingestion tenant key db = List.find (\<lambda>g. ingestion_key g = (tenant, key)) (db_ingestions db)"

definition find_invoice_by_sha :: "string \<Rightarrow> string \<Rightarrow> db \<Rightarrow> (string \<times> string) option" where
  "find_invoice_by_sha tenant sha db =
     (case [(i, s). i \<leftarrow> db_invoices db, s \<leftarrow> db_sources db,
            in_tenant i = tenant \<and> in_sha256 i = sha \<and> so_tenant s = in_tenant i
            \<and> so_invoice s = in_id i \<and> so_type s = ''INVOICE_PDF''] of
        [] \<Rightarrow> None
      | x # xs \<Rightarrow> (case min_by (\<lambda>(i, s). (in_received i, in_id i)) x xs of (i, s) \<Rightarrow> Some (in_id i, so_id s)))"

definition reserved_invoice_key :: "ingestion_row \<Rightarrow> string \<times> string" where
  "reserved_invoice_key g = (ig_tenant g, ig_invoice g)"

definition reserved_source_key :: "ingestion_row \<Rightarrow> string \<times> string" where
  "reserved_source_key g = (ig_tenant g, ig_source g)"

definition insert_ingestion :: "ingestion_row \<Rightarrow> unit tx" where
  "insert_ingestion g =
     tx_bind (tx_read (\<lambda>db. ingestion_key g \<in> ingestion_key ` set (db_ingestions db))) (\<lambda>known.
       if known then tx_return ()
       else tx_then (tx_unique ''ingestion_request_invoice_idx'' db_ingestions reserved_invoice_key g)
         (tx_insert ''ingestion_request_source_idx'' db_ingestions db_ingestions_update reserved_source_key g))"

definition reservation_of :: "ingestion_row \<Rightarrow> string \<Rightarrow> ingestion_reservation" where
  "reservation_of g invoice =
     \<lparr>ir_invoice = ig_invoice g, ir_source = ig_source g, ir_state = ig_state g, ir_snapshot = ig_snapshot g,
      ir_new = (ig_invoice g = invoice), ir_stored = ig_stored g\<rparr>"

text \<open>The identifiers of the reservation are drawn once, before the transaction is run.\<close>

definition reserve_ingestion ::
  "string \<Rightarrow> string \<Rightarrow> string \<Rightarrow> string option \<Rightarrow> string \<Rightarrow> string \<Rightarrow> string \<Rightarrow> ingestion_reservation tx" where
  "reserve_ingestion tenant key hash actor display invoice source =
     tx_then (insert_ingestion
       \<lparr>ig_tenant = tenant, ig_key = key, ig_hash = hash, ig_state = ''RESERVED'', ig_initiated = actor,
        ig_actor = display, ig_invoice = invoice, ig_source = source, ig_stored = None, ig_snapshot = None,
        ig_duplicate = None\<rparr>)
     (tx_bind (tx_read (find_ingestion tenant key)) (\<lambda>row. case row of
        None \<Rightarrow> tx_raise (Raised ''RuntimeError'')
      | Some g \<Rightarrow> tx_then (tx_require (ig_hash g = hash) ''IDEMPOTENCY_CONFLICT'')
          (tx_return (reservation_of g invoice))))"

definition update_ingestion :: "string \<Rightarrow> string \<Rightarrow> (ingestion_row \<Rightarrow> ingestion_row) \<Rightarrow> unit tx" where
  "update_ingestion tenant key f = tx_update db_ingestions_update (\<lambda>g. ingestion_key g = (tenant, key)) f"

text \<open>What the other three operations start with: the request, under the same hash.\<close>

definition with_ingestion :: "string \<Rightarrow> string \<Rightarrow> string \<Rightarrow> (ingestion_row \<Rightarrow> 'a tx) \<Rightarrow> 'a tx" where
  "with_ingestion tenant key hash k =
     tx_bind (tx_read (find_ingestion tenant key)) (\<lambda>row. case row of
        None \<Rightarrow> tx_raise (Raised ''INGESTION_REQUEST_NOT_FOUND'')
      | Some g \<Rightarrow> tx_then (tx_require (ig_hash g = hash) ''IDEMPOTENCY_CONFLICT'') (k g))"

definition stored_snapshot :: "ingestion_row \<Rightarrow> json tx" where
  "stored_snapshot g = (case ig_snapshot g of None \<Rightarrow> tx_raise (Raised ''TypeError'') | Some s \<Rightarrow> tx_return s)"

definition record_source_stored :: "string \<Rightarrow> string \<Rightarrow> string \<Rightarrow> stored_source \<Rightarrow> unit tx" where
  "record_source_stored tenant key hash source =
     with_ingestion tenant key hash (\<lambda>g.
       if ig_state g = ''COMPLETED'' then tx_return ()
       else update_ingestion tenant key (\<lambda>g. g\<lparr>ig_state := ''SOURCE_STORED_DB_PENDING'', ig_stored := Some source\<rparr>))"

definition bound_source :: "string \<Rightarrow> string \<Rightarrow> string \<Rightarrow> string \<Rightarrow> db \<Rightarrow> bool" where
  "bound_source tenant invoice source sha db =
     (\<exists>i \<in> set (db_invoices db). \<exists>s \<in> set (db_sources db).
        in_tenant i = tenant \<and> in_id i = invoice \<and> in_sha256 i = sha \<and> so_tenant s = tenant
        \<and> so_invoice s = invoice \<and> so_type s = ''INVOICE_PDF'' \<and> so_id s = source \<and> so_sha256 s = sha)"

definition complete_duplicate_ingestion ::
  "string \<Rightarrow> string \<Rightarrow> string \<Rightarrow> string \<Rightarrow> string \<Rightarrow> string \<Rightarrow> json \<Rightarrow> json tx" where
  "complete_duplicate_ingestion tenant key hash invoice source sha snapshot =
     with_ingestion tenant key hash (\<lambda>g.
       if ig_state g = ''COMPLETED'' then stored_snapshot g
       else tx_bind (tx_read (bound_source tenant invoice source sha)) (\<lambda>bound.
         tx_then (tx_require bound ''DUPLICATE_SOURCE_BINDING_MISMATCH'')
         (tx_then (update_ingestion tenant key (\<lambda>g. g\<lparr>ig_state := ''COMPLETED'', ig_snapshot := Some snapshot,
            ig_duplicate := Some (invoice, source)\<rparr>))
         (tx_return snapshot))))"

section \<open>Finalizing\<close>

text \<open>\<open>now().isoformat()\<close>; the session's time zone is UTC.\<close>

definition utc_iso :: "int \<Rightarrow> string" where
  "utc_iso now = isoformat (DateTime (shift_days (now div day_us - 1) (Date 1 1 1)) (now mod day_us) (Some 0))"

definition receipt_snapshot :: "string \<Rightarrow> string \<Rightarrow> finalize_receipt \<Rightarrow> int \<Rightarrow> json" where
  "receipt_snapshot invoice source c now =
     JObj
      [(''invoice'', JObj
         [(''invoice_id'', JStr invoice), (''display_name'', JStr (fr_display c)), (''status'', JStr ''RECEIVED''),
          (''status_sequence'', JInt 1), (''received_at'', JStr (utc_iso now)),
          (''invoice_source'', JObj
             [(''source_id'', JStr source), (''filename'', JStr (fr_display c)), (''mime_type'', JStr (fr_mime c)),
              (''preservation_status'', JStr ''VERSION_VERIFIED''), (''claimed_total_minor'', JNull),
              (''currency'', JNull)]),
          (''recommendation'', JNull), (''next_action'', JNull)]),
       (''links'', JObj
         [(''self'', JStr (''/api/invoices/'' @ invoice)), (''workbench'', JStr (''/invoices/'' @ invoice)),
          (''events'', JStr (''/api/invoices/'' @ invoice @ ''/events'')),
          (''source'', JStr (''/api/invoices/'' @ invoice @ ''/sources/'' @ source @ ''/content''))])]"

definition received_invoice :: "string \<Rightarrow> string \<Rightarrow> finalize_receipt \<Rightarrow> int \<Rightarrow> invoice_row" where
  "received_invoice tenant invoice c now =
     \<lparr>in_tenant = tenant, in_id = invoice, in_carrier = fr_carrier c, in_sha256 = ss_sha256 (fr_stored c),
      in_display = fr_display c, in_received = now, in_no = None, in_intake_state = ''RECEIVED'',
      in_aggregate = ''RECEIVED'', in_status = ''RECEIVED'', in_sequence = 1, in_row_version = 1,
      in_claim_set = None, in_updated = now\<rparr>"

definition received_source :: "string \<Rightarrow> string \<Rightarrow> string \<Rightarrow> finalize_receipt \<Rightarrow> int \<Rightarrow> source_row" where
  "received_source tenant invoice source c now =
     \<lparr>so_tenant = tenant, so_id = source, so_invoice = invoice, so_type = ''INVOICE_PDF'',
      so_preservation = ''VERSION_VERIFIED'', so_bucket = ss_bucket (fr_stored c), so_key = ss_key (fr_stored c),
      so_version = ss_version (fr_stored c), so_sha256 = ss_sha256 (fr_stored c), so_bytes = ss_bytes (fr_stored c),
      so_filename = fr_display c, so_mime = fr_mime c, so_provenance = fr_provenance c,
      so_disclosure = fr_disclosure c, so_received = now\<rparr>"

definition received_event :: "string \<Rightarrow> string \<Rightarrow> string \<Rightarrow> finalize_receipt \<Rightarrow> int \<Rightarrow> string \<Rightarrow> event_row" where
  "received_event tenant invoice source c now i =
     (intake_event tenant i invoice 1 now (fr_actor c) (fr_actor_display c))
       \<lparr>lg_type := ''invoice.received'', lg_task := ''PRESERVE_INVOICE_SOURCE'', lg_tool := Some ''Amazon S3'',
        lg_state := ''COMPLETED'', lg_aggregate := ''RECEIVED'',
        lg_summary := ''Invoice received and original source verified'',
        lg_produced := [object_ref ''invoice_source'' source 1]\<rparr>"

definition sha_key :: "invoice_row \<Rightarrow> string \<times> string" where
  "sha_key i = (in_tenant i, in_sha256 i)"

definition source_type_key :: "source_row \<Rightarrow> string \<times> string \<times> string" where
  "source_type_key s = (so_tenant s, so_invoice s, so_type s)"

definition source_version_key :: "source_row \<Rightarrow> string \<times> string \<times> string" where
  "source_version_key s = (so_tenant s, so_key s, so_version s)"

definition insert_received :: "invoice_row \<Rightarrow> source_row \<Rightarrow> task_row \<Rightarrow> event_row \<Rightarrow> unit tx" where
  "insert_received i s w e =
     tx_then (tx_unique ''primary'' db_invoices invoice_key i)
     (tx_then (tx_insert ''invoices_sha256_idx'' db_invoices db_invoices_update sha_key i)
     (tx_then (tx_unique ''invoice_sources_primary_idx'' db_sources source_type_key s)
     (tx_then (tx_insert ''invoice_sources_s3_version_idx'' db_sources db_sources_update source_version_key s)
     (tx_then (tx_unique ''workflow_tasks_identity_idx'' db_tasks task_identity w)
     (tx_then (tx_insert ''primary'' db_tasks db_tasks_update task_pk w)
     (insert_event e))))))"

definition finalize_received_invoice ::
  "string \<Rightarrow> finalize_receipt \<Rightarrow> int \<Rightarrow> (nat \<Rightarrow> string) \<Rightarrow> json tx" where
  "finalize_received_invoice tenant c now ids =
     with_ingestion tenant (fr_key c) (fr_hash c) (\<lambda>g.
       if ig_state g = ''COMPLETED'' then stored_snapshot g
       else if ig_state g \<noteq> ''SOURCE_STORED_DB_PENDING''
         then tx_raise (Raised (''INGESTION_NOT_FINALIZABLE:'' @ ig_state g))
       else tx_then (tx_require (ig_stored g = Some (fr_stored c)) ''SOURCE_BINDING_MISMATCH'')
         (tx_then (insert_received (received_invoice tenant (ig_invoice g) c now)
            (received_source tenant (ig_invoice g) (ig_source g) c now)
            (new_task tenant (ids 0) (ig_invoice g) ExtractInvoiceClaims TaskPending (fr_actor c) (fr_actor_display c)
              now [object_ref ''invoice_source'' (ig_source g) 1] ''Waiting to extract carrier claims'' now)
            (received_event tenant (ig_invoice g) (ig_source g) c now (ids 1)))
         (tx_then (update_ingestion tenant (fr_key c) (\<lambda>x. x\<lparr>ig_state := ''COMPLETED'',
              ig_snapshot := Some (receipt_snapshot (ig_invoice g) (ig_source g) c now)\<rparr>))
         (tx_return (receipt_snapshot (ig_invoice g) (ig_source g) c now)))))"

section \<open>What every operation keeps\<close>

lemma dense_received:
  assumes "insert_received i s w e db = Inr (u, db')" "events_dense db"
    and "in_sequence i = 1" "(lg_tenant e, lg_invoice e, lg_sequence e) = (in_tenant i, in_id i, 1)"
  shows "events_dense db'"
proof -
  from assms(1) have new: "invoice_key i \<notin> invoice_key ` set (db_invoices db)"
    and rows: "db_invoices db' = db_invoices db @ [i]" "db_events db' = db_events db @ [e]"
    by (auto simp: insert_received_def tx_simps insert_event_Inr)
  have e: "(lg_tenant e, lg_invoice e) = invoice_key i" "lg_sequence e = 1"
    using assms(4) by (auto simp: invoice_key_def)
  from assms(2) have own: "\<And>x. x \<in> set (db_events db) \<Longrightarrow> (lg_tenant x, lg_invoice x) \<in> invoice_key ` set (db_invoices db)"
    and old: "\<And>r. r \<in> set (db_invoices db) \<Longrightarrow>
      event_sequence (db_events db) (invoice_key r) = [1..<Suc (in_sequence r)]"
    and dist: "distinct (map invoice_key (db_invoices db))"
    by (auto simp: events_dense_def)
  have split: "event_sequence (db_events db') k = event_sequence (db_events db) k @ event_sequence [e] k" for k
    by (simp add: rows event_sequence_def)
  have "(lg_tenant x, lg_invoice x) \<noteq> invoice_key i" if "x \<in> set (db_events db)" for x
    using own [OF that] new by metis
  then have "event_sequence (db_events db) (invoice_key i) = []"
    by (simp add: event_sequence_def)
  then have self: "event_sequence (db_events db') (invoice_key i) = [1..<Suc (in_sequence i)]"
    unfolding split using e assms(3) by (simp add: event_sequence_def)
  have others: "event_sequence (db_events db') (invoice_key r) = [1..<Suc (in_sequence r)]"
    if "r \<in> set (db_invoices db)" for r
  proof -
    have "invoice_key r \<noteq> invoice_key i" using new that by (metis imageI)
    then show ?thesis unfolding split using old [OF that] e by (simp add: event_sequence_def)
  qed
  from self others own new dist e show ?thesis
    by (auto simp: events_dense_def rows)
qed

lemma tenant_received:
  assumes "in_tenant i = t" "so_tenant s = t" "tk_tenant w = t" "lg_tenant e = t"
  shows "keeps (isolated t) (insert_received i s w e)"
  using assms by (auto simp: keeps_def isolated_def insert_received_def tx_simps insert_event_Inr foreign_def)

lemma history_received: "keeps appended (insert_received i s w e)"
  by (auto simp: keeps_def insert_received_def tx_simps insert_event_Inr appended_def)

lemma safe_received:
  assumes "in_tenant i = t" "so_tenant s = t" "tk_tenant w = t" "in_sequence i = 1"
    and "(lg_tenant e, lg_invoice e, lg_sequence e) = (in_tenant i, in_id i, 1)"
  shows "keeps (safe t) (insert_received i s w e)"
  unfolding keeps_safe
proof (intro conjI tenant_received history_received)
  show "keeps (maintains events_dense) (insert_received i s w e)"
    unfolding keeps_def maintains_def using dense_received [OF _ _ assms(4,5)] by blast
qed (use assms in auto)

lemma safe_update_ingestion:
  "(\<And>g. ig_tenant (f g) = ig_tenant g) \<Longrightarrow> keeps (safe t) (update_ingestion t key f)"
  unfolding update_ingestion_def by (intro safe_intros) (auto simp: ingestion_key_def)

lemma safe_with: "(\<And>g. keeps (safe t) (k g)) \<Longrightarrow> keeps (safe t) (with_ingestion t key hash k)"
  unfolding with_ingestion_def by (intro safe_intros)

lemma safe_snapshot: "keeps (safe t) (stored_snapshot g)"
  unfolding stored_snapshot_def by (intro safe_intros)

lemma safe_reserve: "keeps (safe t) (reserve_ingestion t key hash actor display invoice source)"
  unfolding reserve_ingestion_def insert_ingestion_def by (intro safe_intros) auto

lemma safe_record: "keeps (safe t) (record_source_stored t key hash source)"
  unfolding record_source_stored_def by (intro safe_with safe_update_ingestion safe_intros) auto

lemma safe_duplicate: "keeps (safe t) (complete_duplicate_ingestion t key hash invoice source sha snapshot)"
  unfolding complete_duplicate_ingestion_def by (intro safe_with safe_update_ingestion safe_snapshot safe_intros) auto

lemma safe_finalize: "keeps (safe t) (finalize_received_invoice t c now ids)"
  unfolding finalize_received_invoice_def
  by (intro safe_with safe_update_ingestion safe_snapshot safe_received safe_intros)
    (auto simp: received_invoice_def received_source_def received_event_def)

end
