(* ===== verification/EventFeed.thy ===== *)
theory EventFeed
  imports AccessEvidence IntakeReceipts
begin

text \<open>
  \<open>src/platform/intake_events.py\<close>: rows of the event log as public events, pages of the feed after
  a cursor, the relay that delivers the outbox, and one round of the server-sent stream. A page is
  sorted by time, invoice and sequence number; the cursor of the tenant's feed is that position.
\<close>

section \<open>Projecting\<close>

text \<open>
  \<open>_project_event\<close>. JSON columns arrive decoded; the writers store lists of references and an
  object or nothing as error. \<open>schema_version\<close> is always 1 and \<open>elapsed_ms\<close> never set.
\<close>

definition tool_name :: "string option \<Rightarrow> string" where
  "tool_name t =
     (case t of None \<Rightarrow> ''Deterministic validation''
      | Some s \<Rightarrow> if s = '''' then ''Deterministic validation'' else s)"

definition event_dict :: "event_row \<Rightarrow> (string \<times> json) list" where
  "event_dict e =
     [(''event_id'', JStr (lg_id e)), (''event_type'', JStr (lg_type e)), (''schema_version'', JInt 1),
      (''invoice_id'', JStr (lg_invoice e)), (''sequence'', JInt (int (lg_sequence e))),
      (''occurred_at'', JStr (utc_iso (lg_occurred e))), (''role'', JStr (lg_role e)),
      (''task'', JStr (lg_task e)), (''tool'', JObj [(''display_name'', JStr (tool_name (lg_tool e)))]),
      (''state'', JStr (lg_state e)), (''status'', JStr (lg_aggregate e)), (''summary'', JStr (lg_summary e)),
      (''input_object_refs'', JList (lg_inputs e)), (''produced_object_refs'', JList (lg_produced e)),
      (''output_count'', JOpt (JInt \<circ> int) (lg_output_count e)), (''elapsed_ms'', JNull),
      (''public_error'', JOpt (\<lambda>j. j) (lg_error e))]"

definition project_event :: "event_row \<Rightarrow> string + (string \<times> json) list" where
  "project_event e = rbind (validate_public_event (event_dict e)) (\<lambda>_. Inr (event_dict e))"

text \<open>When a row of the log can be shown.\<close>

definition presentable :: "event_row \<Rightarrow> bool" where
  "presentable e = (event_type_ok (lg_type e) \<and> list_all versioned_ref (lg_produced e))"

definition private_free :: "string \<Rightarrow> bool" where
  "private_free t = (\<forall>f \<in> set forbidden_event_names. \<not> contains f (py_lower t))"

definition discreet :: "event_row \<Rightarrow> bool" where
  "discreet e = (\<forall>t \<in> json_texts (JObj (event_dict e)). private_free t)"

lemma project_event_ok:
  "project_event e = Inr p \<longleftrightarrow> p = event_dict e \<and> presentable e \<and> 0 < lg_sequence e \<and> discreet e"
proof -
  have "set required_event_fields \<subseteq> set (map fst (event_dict e))"
    by (simp add: required_event_fields_def event_dict_def)
  then show ?thesis
    unfolding project_event_def rbind_Inr_iff
    by (auto simp: public_event_hides_private discreet_def private_free_def presentable_def event_get_def event_dict_def list_all_iff)
qed

section \<open>Pages of the feed\<close>

type_synonym feed_position = "int \<times> string \<times> nat"

definition event_position :: "event_row \<Rightarrow> feed_position" where
  "event_position e = (lg_occurred e, lg_invoice e, lg_sequence e)"

text \<open>Where a page starts: the clauses on the events that the cursor and the invoice give.\<close>

datatype feed_start = WholeFeed | AfterPosition feed_position | OfInvoice string int

definition in_feed :: "feed_start \<Rightarrow> event_row \<Rightarrow> bool" where
  "in_feed start e =
     (case start of WholeFeed \<Rightarrow> True
      | AfterPosition p \<Rightarrow> p < event_position e
      | OfInvoice i k \<Rightarrow> k < int (lg_sequence e) \<and> lg_invoice e = i)"

definition event_at_cursor :: "string \<Rightarrow> string \<Rightarrow> db \<Rightarrow> event_row option" where
  "event_at_cursor tenant i db = List.find (\<lambda>e. lg_tenant e = tenant \<and> lg_id e = i) (db_events db)"

definition feed_start_of :: "string \<Rightarrow> string option \<Rightarrow> int \<Rightarrow> string option \<Rightarrow> db \<Rightarrow> feed_start option" where
  "feed_start_of tenant invoice after_sequence after_event db =
     (if truthy after_event then
        (case event_at_cursor tenant (the after_event) db of
           None \<Rightarrow> None
         | Some c \<Rightarrow> (case invoice of
             None \<Rightarrow> Some (AfterPosition (event_position c))
           | Some i \<Rightarrow> if lg_invoice c \<noteq> i then None else Some (OfInvoice i (int (lg_sequence c)))))
      else Some (case invoice of None \<Rightarrow> WholeFeed | Some i \<Rightarrow> OfInvoice i after_sequence))"

definition page_limit :: "int \<Rightarrow> nat" where
  "page_limit limit = nat (min (max limit 1) 500)"

definition feed_rows :: "string \<Rightarrow> feed_start \<Rightarrow> bool \<Rightarrow> db \<Rightarrow> event_row list" where
  "feed_rows tenant start delivered_only db =
     sort_key event_position
       [e. e \<leftarrow> db_events db, b \<leftarrow> db_outbox db,
         ob_tenant b = lg_tenant e \<and> ob_event b = lg_id e \<and> lg_tenant e = tenant \<and> in_feed start e
         \<and> (delivered_only \<longrightarrow> ob_state b = ''DELIVERED'')]"

definition load_event_history ::
  "string \<Rightarrow> string option \<Rightarrow> int \<Rightarrow> string option \<Rightarrow> bool \<Rightarrow> int \<Rightarrow> db
     \<Rightarrow> string + (string \<times> json) list list \<times> bool" where
  "load_event_history tenant invoice after_sequence after_event delivered_only limit db =
     (case feed_start_of tenant invoice after_sequence after_event db of
        None \<Rightarrow> Inr ([], True)
      | Some start \<Rightarrow>
          rbind (rmap project_event (take (page_limit limit) (feed_rows tenant start delivered_only db)))
            (\<lambda>events. Inr (events, False)))"

section \<open>The relay\<close>

text \<open>
  \<open>pk\<close> gives the identifier the database drew for the outbox row of an event. No code writes
  \<open>lease_expires_at\<close>, so its clause holds.
\<close>

definition outbox_key :: "outbox_row \<Rightarrow> string \<times> string" where
  "outbox_key b = (ob_tenant b, ob_event b)"

definition relay_batch ::
  "string \<Rightarrow> (string \<times> string \<Rightarrow> string) \<Rightarrow> (string \<Rightarrow> bool) \<Rightarrow> int \<Rightarrow> int \<Rightarrow> db \<Rightarrow> outbox_row list" where
  "relay_batch tenant pk locked limit now db =
     take (page_limit limit) (sort_key (\<lambda>b. (ob_available b, pk (outbox_key b)))
       (filter (\<lambda>b. ob_tenant b = tenant \<and> ob_state b = ''PENDING'' \<and> ob_available b \<le> now
          \<and> \<not> locked (pk (outbox_key b))) (db_outbox db)))"

definition deliver :: "string \<Rightarrow> (string \<times> string \<Rightarrow> string) \<Rightarrow> int \<Rightarrow> outbox_row \<Rightarrow> unit tx" where
  "deliver tenant pk now b =
     tx_update db_outbox_update
       (\<lambda>x. ob_tenant x = tenant \<and> pk (outbox_key x) = pk (outbox_key b) \<and> ob_state x = ''PENDING'')
       (\<lambda>x. x\<lparr>ob_state := ''DELIVERED'', ob_count := ob_count x + 1, ob_delivered := Some now\<rparr>)"

definition relay_outbox_batch ::
  "string \<Rightarrow> (string \<times> string \<Rightarrow> string) \<Rightarrow> (string \<Rightarrow> bool) \<Rightarrow> int \<Rightarrow> int \<Rightarrow> nat tx" where
  "relay_outbox_batch tenant pk locked limit now =
     tx_bind (tx_read (relay_batch tenant pk locked limit now)) (\<lambda>batch.
       if batch = [] then tx_return 0
       else tx_then (tx_for batch (deliver tenant pk now)) (tx_return (length batch)))"

section \<open>One round of the stream\<close>

record stream_state =
  st_cursor :: "string option"
  st_checked :: bool
  st_heartbeat :: int

definition newline :: string where
  "newline = [CHR 10]"

definition reconcile_frame :: string where
  "reconcile_frame =
     ''event: stream.reconcile_required'' @ newline @ ''data: '' @
     print_json (True, '', '', '': '')
       (JObj [(''event_type'', JStr ''stream.reconcile_required''), (''schema_version'', JInt 1),
          (''summary'', JStr ''Event cursor is unavailable; reload server snapshots'')]) @ newline @ newline"

definition event_frame :: "(string \<times> json) list \<Rightarrow> string" where
  "event_frame event =
     ''id: '' @ json_str (Some (event_get event ''event_id'')) @ newline @
     ''event: '' @ json_str (Some (event_get event ''event_type'')) @ newline @
     ''data: '' @ print_json (True, '','', '':'') (JObj event) @ newline @ newline"

definition heartbeat_frame :: string where
  "heartbeat_frame = '': heartbeat'' @ newline @ newline"

definition last_cursor :: "(string \<times> json) list list \<Rightarrow> string option \<Rightarrow> string option" where
  "last_cursor events cursor =
     (if events = [] then cursor else Some (json_str (Some (event_get (last events) ''event_id''))))"

text \<open>
  A round reads one page of 200 and yields its frames; \<open>sent\<close> is the clock after the last
  frame and \<open>now\<close> the clock after the loop. A projection that fails ends the stream.
\<close>

definition sse_round ::
  "string \<Rightarrow> int \<Rightarrow> int \<Rightarrow> int \<Rightarrow> db \<Rightarrow> stream_state \<Rightarrow> string + string list \<times> stream_state" where
  "sse_round tenant heartbeat sent now db s =
     rbind (load_event_history tenant None 0 (st_cursor s) True 200 db) (\<lambda>(events, unknown).
       let reconcile = unknown \<and> \<not> st_checked s;
           cursor = last_cursor events (if reconcile then None else st_cursor s);
           due = (if events = [] then st_heartbeat s else sent + heartbeat);
           beat = (due \<le> now)
       in Inr ((if reconcile then [reconcile_frame] else []) @ map event_frame events
                @ (if beat then [heartbeat_frame] else []),
            \<lparr>st_cursor = cursor, st_checked = True, st_heartbeat = (if beat then now + heartbeat else due)\<rparr>))"

section \<open>Reading a feed in pages\<close>

text \<open>
  The keys of the log: sequence numbers, identifiers of events, one outbox row for an event.
  Identifiers are UUIDs, so not empty.
\<close>

definition log_keyed :: "db \<Rightarrow> bool" where
  "log_keyed db =
     (distinct (map event_key (db_events db)) \<and> distinct (map (\<lambda>e. (lg_tenant e, lg_id e)) (db_events db))
      \<and> distinct (map outbox_key (db_outbox db)) \<and> (\<forall>e \<in> set (db_events db). lg_id e \<noteq> ''''))"

definition times_follow_sequence :: "db \<Rightarrow> bool" where
  "times_follow_sequence db =
     (\<forall>e \<in> set (db_events db). \<forall>f \<in> set (db_events db).
        (lg_tenant e, lg_invoice e) = (lg_tenant f, lg_invoice f) \<longrightarrow> lg_sequence e \<le> lg_sequence f
          \<longrightarrow> lg_occurred e \<le> lg_occurred f)"

text \<open>The events that have a row in the outbox, a delivered one where it matters.\<close>

definition logged :: "string \<Rightarrow> bool \<Rightarrow> db \<Rightarrow> event_row list" where
  "logged tenant delivered_only db =
     filter (\<lambda>e. lg_tenant e = tenant \<and> (\<exists>b \<in> set (db_outbox db). outbox_key b = (lg_tenant e, lg_id e)
        \<and> (delivered_only \<longrightarrow> ob_state b = ''DELIVERED''))) (db_events db)"

lemma concat_single_match:
  assumes "distinct (map k bs)" "\<And>b. b \<in> set bs \<Longrightarrow> P b \<Longrightarrow> k b = x"
  shows "concat (map (\<lambda>b. if P b then [e] else []) bs) = (if \<exists>b \<in> set bs. P b then [e] else [])"
  using assms
proof (induction bs)
  case (Cons b bs)
  have IH: "concat (map (\<lambda>b. if P b then [e] else []) bs) = (if \<exists>b \<in> set bs. P b then [e] else [])"
    using Cons by simp
  have "\<not> P c" if "P b" "c \<in> set bs" for c
  proof
    assume "P c"
    with that Cons.prems(2) have "k c = k b" by simp
    with Cons.prems(1) that show False by (auto simp: image_iff)
  qed
  with IH show ?case by auto
qed simp

lemma concat_filter_if: "concat (map (\<lambda>x. if P x then [x] else []) xs) = filter P xs"
  by (induction xs) auto

lemma feed_rows_filter:
  assumes "log_keyed db"
  shows "feed_rows tenant start d db = filter (in_feed start) (sort_key event_position (logged tenant d db))"
proof -
  let ?P = "\<lambda>e b. ob_tenant b = lg_tenant e \<and> ob_event b = lg_id e \<and> lg_tenant e = tenant \<and> in_feed start e
         \<and> (d \<longrightarrow> ob_state b = ''DELIVERED'')"
  let ?Q = "\<lambda>e. lg_tenant e = tenant \<and> (\<exists>b \<in> set (db_outbox db). outbox_key b = (lg_tenant e, lg_id e)
        \<and> (d \<longrightarrow> ob_state b = ''DELIVERED''))"
  have one: "concat (map (\<lambda>b. if ?P e b then [e] else []) (db_outbox db)) = (if ?Q e \<and> in_feed start e then [e] else [])" for e
    using concat_single_match [of outbox_key "db_outbox db" "?P e" "(lg_tenant e, lg_id e)" e] assms
    by (auto simp: log_keyed_def outbox_key_def)
  have "concat (map (\<lambda>e. concat (map (\<lambda>b. if ?P e b then [e] else []) (db_outbox db))) (db_events db))
      = filter (\<lambda>e. ?Q e \<and> in_feed start e) (db_events db)"
    by (simp only: one concat_filter_if)
  then show ?thesis by (simp add: feed_rows_def logged_def filter_sort)
qed

lemma logged_sorted:
  assumes "log_keyed db"
  shows "sorted_wrt (\<lambda>a b. event_position a < event_position b) (sort_key event_position (logged tenant d db))"
proof -
  have "distinct (map event_key (logged tenant d db))"
    using assms by (simp add: log_keyed_def logged_def distinct_map_filter)
  then have "distinct (map event_position (logged tenant d db))"
    by (auto simp: distinct_map inj_on_def logged_def event_key_def event_position_def)
  then have "distinct (map event_position (sort_key event_position (logged tenant d db)))"
    by (simp add: distinct_map)
  then have "sorted_wrt (<) (map event_position (sort_key event_position (logged tenant d db)))"
    by (simp add: strict_sorted_iff)
  then show ?thesis by (simp add: sorted_wrt_map)
qed

lemma filter_after:
  "sorted_wrt R xs \<Longrightarrow> (\<And>a b. R a b \<Longrightarrow> \<not> R b a) \<Longrightarrow> k < length xs \<Longrightarrow>
     filter (R (xs ! k)) xs = drop (Suc k) xs"
proof (induction xs arbitrary: k)
  case (Cons x xs)
  show ?case
  proof (cases k)
    case 0
    with Cons.prems have "\<not> R x x" "\<forall>y \<in> set xs. R x y" by auto
    with 0 show ?thesis by (simp add: filter_id_conv)
  next
    case (Suc j)
    with Cons.prems have "R x (xs ! j)" by simp
    then have "\<not> R (xs ! j) x" by (rule Cons.prems(2))
    with Cons.IH [of j] Cons.prems Suc show ?thesis by simp
  qed
qed simp

lemma invoice_feed_sorted:
  assumes "log_keyed db" "times_follow_sequence db"
  shows "sorted_wrt (\<lambda>a b. lg_sequence a < lg_sequence b) (feed_rows tenant (OfInvoice i k) d db)"
proof -
  let ?M = "filter (in_feed (OfInvoice i k)) (sort_key event_position (logged tenant d db))"
  have "sorted_wrt (\<lambda>a b. event_position a < event_position b) ?M"
    using logged_sorted [OF assms(1)] by (rule sorted_wrt_filter)
  then have "sorted_wrt (\<lambda>a b. lg_sequence a < lg_sequence b) ?M"
  proof (rule sorted_wrt_mono_rel [rotated])
    fix e f
    assume "e \<in> set ?M" "f \<in> set ?M" and lt: "event_position e < event_position f"
    then have same: "lg_invoice e = lg_invoice f" and ef: "e \<in> set (db_events db)" "f \<in> set (db_events db)"
      "(lg_tenant f, lg_invoice f) = (lg_tenant e, lg_invoice e)"
      by (auto simp: in_feed_def logged_def)
    show "lg_sequence e < lg_sequence f"
    proof (rule ccontr)
      assume "\<not> lg_sequence e < lg_sequence f"
      then have "lg_sequence f \<le> lg_sequence e" by simp
      with assms(2) ef have "lg_occurred f \<le> lg_occurred e" by (auto simp: times_follow_sequence_def)
      with \<open>lg_sequence f \<le> lg_sequence e\<close> lt same show False by (auto simp: event_position_def less_prod_def')
    qed
  qed
  then show ?thesis by (simp add: feed_rows_filter [OF assms(1)])
qed

lemma cursor_event:
  assumes "log_keyed db" "c \<in> set (feed_rows tenant start d db)"
  shows "event_at_cursor tenant (lg_id c) db = Some c" "truthy (Some (lg_id c))"
proof -
  from assms have c: "c \<in> set (db_events db)" "lg_tenant c = tenant"
    by (auto simp: feed_rows_filter logged_def)
  have "distinct (map (\<lambda>e. (lg_tenant e, lg_id e)) (db_events db))" using assms(1) by (simp add: log_keyed_def)
  from find_key_unique [OF this c(1)] c(2) show "event_at_cursor tenant (lg_id c) db = Some c"
    by (simp add: event_at_cursor_def)
  show "truthy (Some (lg_id c))" using assms(1) c by (auto simp: log_keyed_def truthy_def)
qed

text \<open>After the cursor of an event of the page, the page goes on.\<close>

lemma feed_rows_rest:
  assumes "log_keyed db" "feed_start_of tenant invoice a cursor db = Some s" "k < length (feed_rows tenant s d db)"
    and "invoice = None \<or> times_follow_sequence db"
  shows "\<exists>s'. feed_start_of tenant invoice b (Some (lg_id (feed_rows tenant s d db ! k))) db = Some s'
    \<and> feed_rows tenant s' d db = drop (Suc k) (feed_rows tenant s d db)"
proof -
  let ?M = "feed_rows tenant s d db" and ?L = "sort_key event_position (logged tenant d db)"
  define c where "c = ?M ! k"
  have c: "c \<in> set ?M" unfolding c_def using assms(3) by simp
  note at = cursor_event [OF assms(1) c]
  have M: "?M = filter (in_feed s) ?L" by (rule feed_rows_filter [OF assms(1)])
  have pass: "in_feed s c" using c by (simp add: M)
  show ?thesis
  proof (cases invoice)
    case None
    have "sorted_wrt (\<lambda>a b. event_position a < event_position b) ?M"
      unfolding M using logged_sorted [OF assms(1)] by (rule sorted_wrt_filter)
    from filter_after [OF this _ assms(3)] have "filter (\<lambda>e. event_position c < event_position e) ?M = drop (Suc k) ?M"
      by (simp add: c_def)
    moreover have "in_feed s e" if "event_position c < event_position e" for e
      using None assms(2) pass that by (auto simp: feed_start_of_def in_feed_def split: if_splits option.splits)
    then have "filter (\<lambda>e. event_position c < event_position e) ?M = filter (in_feed (AfterPosition (event_position c))) ?L"
      unfolding M filter_filter by (intro filter_cong) (auto simp: in_feed_def)
    ultimately show ?thesis
      using None at by (auto simp: feed_start_of_def feed_rows_filter [OF assms(1)] c_def)
  next
    case (Some i)
    with assms(2) obtain n where s: "s = OfInvoice i n"
      by (auto simp: feed_start_of_def split: if_splits option.splits)
    have "sorted_wrt (\<lambda>a b. lg_sequence a < lg_sequence b) ?M"
      unfolding s by (rule invoice_feed_sorted) (use assms(1,4) Some in auto)
    from filter_after [OF this _ assms(3)] have "filter (\<lambda>e. lg_sequence c < lg_sequence e) ?M = drop (Suc k) ?M"
      by (simp add: c_def)
    moreover have "filter (\<lambda>e. lg_sequence c < lg_sequence e) ?M = filter (in_feed (OfInvoice i (int (lg_sequence c)))) ?L"
      unfolding M filter_filter using pass s by (intro filter_cong) (auto simp: in_feed_def)
    moreover have "lg_invoice c = i" using pass s by (simp add: in_feed_def)
    ultimately show ?thesis
      using Some at by (auto simp: feed_start_of_def feed_rows_filter [OF assms(1)] c_def)
  qed
qed

lemma project_event_id: "project_event e = Inr p \<Longrightarrow> json_str (Some (event_get p ''event_id'')) = lg_id e"
  by (auto simp: project_event_def rbind_Inr_iff event_dict_def event_get_def json_str_def)

lemma rmap_append:
  "rmap f (xs @ ys) = rbind (rmap f xs) (\<lambda>p. rbind (rmap f ys) (\<lambda>q. Inr (p @ q)))"
  by (induction xs) (auto simp: rbind_def split: sum.splits)

lemma page_limit_int: "1 \<le> n \<Longrightarrow> n \<le> 500 \<Longrightarrow> page_limit (int n) = n"
  by (simp add: page_limit_def)


section \<open>Following the stream\<close>

fun sse_rounds ::
  "string \<Rightarrow> int \<Rightarrow> (int \<times> int) list \<Rightarrow> db \<Rightarrow> stream_state \<Rightarrow> string + string list \<times> stream_state" where
  "sse_rounds tenant heartbeat [] db s = Inr ([], s)"
| "sse_rounds tenant heartbeat ((sent, now) # clocks) db s =
     rbind (sse_round tenant heartbeat sent now db s) (\<lambda>(frames, s1).
       rbind (sse_rounds tenant heartbeat clocks db s1) (\<lambda>(later, s2). Inr (frames @ later, s2)))"

lemma event_frame_not_heartbeat: "event_frame p \<noteq> heartbeat_frame"
  by (simp add: event_frame_def heartbeat_frame_def)

lemma load_known:
  assumes "feed_start_of tenant invoice a cursor db = Some start"
    and "rmap project_event (take (page_limit limit) (feed_rows tenant start d db)) = Inr p"
  shows "load_event_history tenant invoice a cursor d limit db = Inr (p, False)"
  using assms by (simp add: load_event_history_def rbind_def)

lemma rmap_take_drop:
  assumes "rmap f xs = Inr ys"
  shows "rmap f (take n xs) = Inr (take n ys)" "rmap f (drop n xs) = Inr (drop n ys)"
proof -
  from assms have "rmap f (take n xs @ drop n xs) = Inr ys" by simp
  then obtain p q where pq: "rmap f (take n xs) = Inr p" "rmap f (drop n xs) = Inr q" "ys = p @ q"
    using rmap_append [of f "take n xs" "drop n xs"]
    by (cases "rmap f (take n xs)"; cases "rmap f (drop n xs)") (auto simp: rbind_def)
  have l: "length p = min n (length xs)" "length q = length xs - n"
    using rmap_Inr_length [OF pq(1)] rmap_Inr_length [OF pq(2)] by auto
  have "take n ys = p" "drop n ys = q"
    using pq(3) l by (cases "n \<le> length xs"; simp)+
  with pq show "rmap f (take n xs) = Inr (take n ys)" "rmap f (drop n xs) = Inr (drop n ys)" by auto
qed


section \<open>Delivering the outbox\<close>

definition delivered :: "int \<Rightarrow> outbox_row \<Rightarrow> outbox_row" where
  "delivered now b = b\<lparr>ob_state := ''DELIVERED'', ob_count := ob_count b + 1, ob_delivered := Some now\<rparr>"

definition outbox_once :: "db \<Rightarrow> bool" where
  "outbox_once db =
     (\<forall>b \<in> set (db_outbox db). (ob_state b, ob_count b) = (''PENDING'', 0) \<or> (ob_state b, ob_count b) = (''DELIVERED'', 1))"

lemma deliver_all:
  "tx_for bs (deliver tenant pk now) db = Inr (u, db') \<longleftrightarrow>
     db' = db\<lparr>db_outbox := update_rows
       (\<lambda>x. ob_tenant x = tenant \<and> pk (outbox_key x) \<in> (pk \<circ> outbox_key) ` set bs \<and> ob_state x = ''PENDING'')
       (delivered now) (db_outbox db)\<rparr>"
proof (induction bs arbitrary: db)
  case Nil
  then show ?case by (auto simp: tx_simps update_rows_def)
next
  case (Cons b bs)
  then show ?case
    by (simp add: tx_simps deliver_def update_rows_def delivered_def outbox_key_def comp_def)
      (auto simp: fun_eq_iff intro!: arg_cong [where f = "\<lambda>rows. db\<lparr>db_outbox := rows\<rparr>"])
qed

text \<open>
  C33: the relay delivers every event once. A batch marks exactly the oldest pending rows of the
  tenant that are due and not locked, and returns their number; nothing else changes; when it
  returns fewer than its limit none is left; and a row is never delivered twice: pending rows have
  count 0 and delivered ones count 1, before and after.
\<close>

theorem outbox_delivered_once:
  assumes "distinct (map outbox_key (db_outbox db))" "inj_on pk (outbox_key ` set (db_outbox db))"
    and "relay_outbox_batch tenant pk locked limit now db = Inr (n, db')"
  shows "n = length (relay_batch tenant pk locked limit now db)
    \<and> db' = db\<lparr>db_outbox := map (\<lambda>b. if b \<in> set (relay_batch tenant pk locked limit now db)
        then delivered now b else b) (db_outbox db)\<rparr>
    \<and> (n < page_limit limit \<longrightarrow> (\<forall>b \<in> set (db_outbox db'). ob_tenant b = tenant \<longrightarrow> ob_state b = ''PENDING''
        \<longrightarrow> ob_available b \<le> now \<longrightarrow> locked (pk (outbox_key b))))
    \<and> (outbox_once db \<longrightarrow> outbox_once db')"
proof -
  let ?due = "\<lambda>b. ob_tenant b = tenant \<and> ob_state b = ''PENDING'' \<and> ob_available b \<le> now \<and> \<not> locked (pk (outbox_key b))"
  let ?all = "sort_key (\<lambda>b. (ob_available b, pk (outbox_key b))) (filter ?due (db_outbox db))"
  let ?B = "relay_batch tenant pk locked limit now db"
  have B: "?B = take (page_limit limit) ?all" by (simp add: relay_batch_def)
  have sub: "set ?B \<subseteq> set ?all" unfolding B by (rule set_take_subset)
  have in_B: "pk (outbox_key x) \<in> (pk \<circ> outbox_key) ` set ?B \<longleftrightarrow> x \<in> set ?B" if "x \<in> set (db_outbox db)" for x
  proof
    assume "pk (outbox_key x) \<in> (pk \<circ> outbox_key) ` set ?B"
    then obtain b where b: "b \<in> set ?B" "pk (outbox_key x) = pk (outbox_key b)"
      unfolding image_iff comp_def by blast
    from b(1) sub have "b \<in> set (db_outbox db)" by auto
    moreover from this b(2) that assms(2) have same: "outbox_key b = outbox_key x" by (auto dest: inj_onD)
    ultimately have "b \<in> set (db_outbox db)" "outbox_key b = outbox_key x" by simp_all
    with that assms(1) have "b = x" by (auto simp: distinct_map dest: inj_onD)
    with b show "x \<in> set ?B" by simp
  qed (simp add: image_iff, blast)
  have run: "n = length ?B \<and> db' = db\<lparr>db_outbox := update_rows
      (\<lambda>x. ob_tenant x = tenant \<and> pk (outbox_key x) \<in> (pk \<circ> outbox_key) ` set ?B \<and> ob_state x = ''PENDING'')
      (delivered now) (db_outbox db)\<rparr>"
    using assms(3) by (auto simp: relay_outbox_batch_def tx_simps deliver_all update_rows_def split: if_splits)
  have rows: "update_rows (\<lambda>x. ob_tenant x = tenant \<and> pk (outbox_key x) \<in> (pk \<circ> outbox_key) ` set ?B \<and> ob_state x = ''PENDING'')
      (delivered now) (db_outbox db) = map (\<lambda>b. if b \<in> set ?B then delivered now b else b) (db_outbox db)"
    unfolding update_rows_def using in_B sub by (auto intro!: map_cong)
  have left: "locked (pk (outbox_key b))" if "n < page_limit limit" "b \<in> set (db_outbox db')" "ob_tenant b = tenant"
      "ob_state b = ''PENDING''" "ob_available b \<le> now" for b
  proof (rule ccontr)
    assume free: "\<not> locked (pk (outbox_key b))"
    have "length ?all \<le> page_limit limit" using that(1) run B by (simp add: min_def split: if_splits)
    then have B': "set ?B = set ?all" using B by simp
    from that(2) run rows obtain x where x: "x \<in> set (db_outbox db)" "b = (if x \<in> set ?B then delivered now x else x)"
      by auto
    with that(4) have "x \<notin> set ?B" "b = x" by (auto simp: delivered_def split: if_splits)
    with B' free that x(1) show False by auto
  qed
  have "outbox_once db'" if once: "outbox_once db"
    unfolding outbox_once_def
  proof
    fix b assume "b \<in> set (db_outbox db')"
    with run rows obtain x where x: "x \<in> set (db_outbox db)" "b = (if x \<in> set ?B then delivered now x else x)"
      by auto
    moreover have "ob_state x = ''PENDING''" if "x \<in> set ?B" using that sub by auto
    ultimately show "(ob_state b, ob_count b) = (''PENDING'', 0) \<or> (ob_state b, ob_count b) = (''DELIVERED'', 1)"
      using once by (cases "x \<in> set ?B") (auto simp: outbox_once_def delivered_def)
  qed
  with run rows left show ?thesis by (intro conjI impI ballI) simp_all
qed

section \<open>Samples\<close>

definition sample_logged :: "string \<Rightarrow> string \<Rightarrow> nat \<Rightarrow> int \<Rightarrow> event_row" where
  "sample_logged i invoice s occurred =
     (recon_event ''t'' i invoice s occurred None ''a'')
       \<lparr>lg_type := ''reconstruction.completed'', lg_state := ''COMPLETED'', lg_aggregate := ''RECONSTRUCTING''\<rparr>"

definition sample_feed :: "string \<Rightarrow> event_row list \<Rightarrow> db" where
  "sample_feed state es =
     empty_db\<lparr>db_events := es, db_outbox := map (\<lambda>e. \<lparr>ob_tenant = lg_tenant e, ob_invoice = lg_invoice e,
       ob_event = lg_id e, ob_state = state, ob_available = lg_occurred e,
       ob_count = (if state = ''PENDING'' then 0 else 1), ob_delivered = None\<rparr>) es\<rparr>"

definition two_events :: db where
  "two_events = sample_feed ''DELIVERED'' [sample_logged ''e'' ''i'' 1 5, sample_logged ''f'' ''i'' 2 7]"

lemma two_events_keyed: "log_keyed two_events" "times_follow_sequence two_events"
  by (simp_all add: log_keyed_def times_follow_sequence_def two_events_def sample_feed_def sample_logged_def
      recon_event_def event_key_def outbox_key_def)

lemma constant_texts:
  "list_all private_free
     ([''event_id'', ''event_type'', ''schema_version'', ''invoice_id'', ''sequence'', ''occurred_at'', ''role'',
       ''task'', ''tool'', ''display_name'', ''state'', ''status'', ''summary'', ''input_object_refs'',
       ''produced_object_refs'', ''output_count'', ''elapsed_ms'', ''public_error'']
      @ [''reconstruction.completed'', ''RECONSTRUCTION_AGENT'', ''ASSEMBLE_RECONSTRUCTION'',
       ''CockroachDB Managed MCP'', ''COMPLETED'', ''RECONSTRUCTING'', ''''])"
  unfolding list_all_append by (intro conjI; code_simp)

lemma sample_discreet:
  assumes "private_free i" "private_free v" "private_free (utc_iso occurred)"
  shows "discreet (sample_logged i v s occurred)"
  using assms constant_texts
  by (simp add: discreet_def sample_logged_def recon_event_def event_dict_def tool_name_def JOpt_def)

lemma sample_projects:
  "project_event (sample_logged ''e'' ''i'' 1 5) = Inr (event_dict (sample_logged ''e'' ''i'' 1 5))"
  "project_event (sample_logged ''f'' ''i'' 2 7) = Inr (event_dict (sample_logged ''f'' ''i'' 2 7))"
proof -
  have "private_free ''e''" "private_free ''f''" "private_free ''i''" "private_free (utc_iso 5)" "private_free (utc_iso 7)"
    by code_simp+
  then have "discreet (sample_logged ''e'' ''i'' 1 5)" "discreet (sample_logged ''f'' ''i'' 2 7)"
    by (simp_all add: sample_discreet)
  moreover have "presentable (sample_logged i v s occurred)" for i v s occurred
    unfolding presentable_def sample_logged_def recon_event_def by (simp, code_simp)
  moreover have "0 < lg_sequence (sample_logged i v s occurred) \<longleftrightarrow> 0 < s" for i v s occurred
    by (simp add: sample_logged_def)
  ultimately show "project_event (sample_logged ''e'' ''i'' 1 5) = Inr (event_dict (sample_logged ''e'' ''i'' 1 5))"
    "project_event (sample_logged ''f'' ''i'' 2 7) = Inr (event_dict (sample_logged ''f'' ''i'' 2 7))"
    by (simp_all add: project_event_ok)
qed

lemma two_events_rows:
  "feed_rows ''t'' WholeFeed True two_events = [sample_logged ''e'' ''i'' 1 5, sample_logged ''f'' ''i'' 2 7]"
  "feed_rows ''t'' (OfInvoice ''i'' 0) True two_events = [sample_logged ''e'' ''i'' 1 5, sample_logged ''f'' ''i'' 2 7]"
  "feed_rows ''t'' (OfInvoice ''i'' 1) True two_events = [sample_logged ''f'' ''i'' 2 7]"
  by code_simp+



theorem outbox_delivered_once_witness:
  "\<exists>db'. relay_outbox_batch ''t'' snd (\<lambda>_. False) 100 9 (sample_feed ''PENDING'' [sample_logged ''e'' ''i'' 1 5]) = Inr (1, db')
     \<and> outbox_once db'"
proof -
  let ?db = "sample_feed ''PENDING'' [sample_logged ''e'' ''i'' 1 5]"
  have "inj_on snd (outbox_key ` set (db_outbox ?db))" by (simp add: sample_feed_def)
  moreover have "distinct (map outbox_key (db_outbox ?db))" by (simp add: sample_feed_def)
  moreover obtain db' where r: "relay_outbox_batch ''t'' snd (\<lambda>_. False) 100 9 ?db = Inr (1, db')"
    by (simp add: relay_outbox_batch_def relay_batch_def tx_run deliver_def sample_feed_def sample_logged_def recon_event_def
        page_limit_def outbox_key_def)
  moreover have "outbox_once ?db" by (simp add: sample_feed_def outbox_once_def)
  ultimately have "outbox_once db'" using outbox_delivered_once by blast
  with r show ?thesis by blast
qed

section \<open>Gaps\<close>

text \<open>
  The position of an event is the time its transaction began, not the time it committed: one
  that commits after a client has read a later position is never sent to it.
\<close>

lemma late_event_is_skipped:
  "feed_start_of ''t'' None 0 (Some ''e'') db = Some start \<Longrightarrow>
     db = sample_feed ''DELIVERED'' [sample_logged ''e'' ''i'' 1 10, sample_logged ''f'' ''j'' 1 5] \<Longrightarrow>
     feed_rows ''t'' start True db = [] \<and> length (feed_rows ''t'' WholeFeed True db) = 2"
proof -
  let ?db = "sample_feed ''DELIVERED'' [sample_logged ''e'' ''i'' 1 10, sample_logged ''f'' ''j'' 1 5]"
  have "feed_start_of ''t'' None 0 (Some ''e'') ?db = Some (AfterPosition (10, ''i'', 1))"
    "feed_rows ''t'' (AfterPosition (10, ''i'', 1)) True ?db = []" "length (feed_rows ''t'' WholeFeed True ?db) = 2"
    by code_simp+
  then show "feed_start_of ''t'' None 0 (Some ''e'') db = Some start \<Longrightarrow> db = ?db \<Longrightarrow>
     feed_rows ''t'' start True db = [] \<and> length (feed_rows ''t'' WholeFeed True db) = 2" by auto
qed

text \<open>
  The event that reports a bound snapshot names its product without a version, so it cannot be
  projected: from then on every page that holds it raises, and the stream ends.
\<close>

lemma bound_event_unreadable:
  assumes "announce_binding tenant l now i db = Inr (u, db')"
  shows "\<exists>e. db_events db' = db_events db @ [e] \<and> lg_invoice e = tl_invoice l
    \<and> project_event e \<noteq> Inr p"
proof -
  from assms obtain s db1 where "lock_invoice_and_advance tenant (tl_invoice l) ''READY_FOR_RECONSTRUCTION''
      ''RECONSTRUCTING'' ''RECONSTRUCTING'' 1 now None db = Inr (s, db1)"
    and "db_events db' = db_events db1 @ [(intake_event tenant i (tl_invoice l) s now (tl_initiated l) (tl_actor l))
         \<lparr>lg_type := ''reconstruction.source_bound'', lg_task := ''BIND_ACCESS_EVIDENCE'',
          lg_tool := Some ''CockroachDB Managed MCP'', lg_state := ''COMPLETED'',
          lg_aggregate := ''RECONSTRUCTING'',
          lg_summary := ''Terminal-access snapshot verified and bound for '' @ date_iso (al_date l),
          lg_inputs := [untyped_ref ''access_snapshot'' (al_snapshot l)],
          lg_produced := [untyped_ref ''access_binding'' (al_snapshot l)], lg_output_count := Some 1\<rparr>]"
    by (auto simp: announce_binding_def tx_simps insert_event_Inr simp del: One_nat_def)
  moreover from this(1) have "db_events db1 = db_events db" by (auto simp: lock_Inr)
  ultimately show ?thesis
    by (intro exI conjI) (assumption | simp add: project_event_ok presentable_def untyped_ref_def)+
qed

end
