(* ===== verification/Pipeline.thy ===== *)
theory Pipeline
  imports EventFeed AuthoritySeal Sending
begin

text \<open>
  The transactions of all repositories together: what any history of them keeps (other tenants,
  the append-only history, dense event numbers, events that can be shown), and how leases are
  fenced across the five kinds of worker.
\<close>

section \<open>Transactions of a tenant\<close>

definition forget :: "'a tx \<Rightarrow> unit tx" where
  "forget m = tx_bind m (\<lambda>_. tx_return ())"

text \<open>The database part of a send, for whatever the provider answers.\<close>

definition send_transaction ::
  "string \<Rightarrow> string \<Rightarrow> string \<Rightarrow> string \<Rightarrow> (string \<times> gate_check) list \<Rightarrow> string + send_receipt \<Rightarrow> int
     \<Rightarrow> (nat \<Rightarrow> string) \<Rightarrow> send_result tx" where
  "send_transaction tenant draft_id key approver checks outcome now ids =
     tx_bind (prepare_send tenant draft_id key approver checks now ids) (\<lambda>r. case r of
       Inl res \<Rightarrow> tx_return res
     | Inr d \<Rightarrow> record_outcome tenant d approver outcome now ids)"

inductive transaction :: "string \<Rightarrow> unit tx \<Rightarrow> bool" for t where
  "transaction t (forget (reserve_ingestion t key hash actor display invoice source))"
| "transaction t (record_source_stored t key hash stored)"
| "transaction t (forget (complete_duplicate_ingestion t key hash invoice source sha snapshot))"
| "transaction t (forget (finalize_received_invoice t c now ids))"
| "transaction t (forget (claim_next_extraction_task t worker secs locked now ids))"
| "transaction t (forget (complete_extraction t xl validation response ref now ids))"
| "transaction t (forget (fail_extraction t xl err retryable now ids))"
| "transaction t (forget (retry_extraction_task t invoice key expected user display now ids))"
| "transaction t (forget (claim_next_reconstruction_task t worker secs locked now ids))"
| "transaction t (forget (complete_reconstruction t cl events days coverage state roles correlation query issues now ids))"
| "transaction t (forget (fail_reconstruction t cl err retryable now ids))"
| "transaction t (forget (claim_next_rule_task t worker secs locked now ids))"
| "transaction t (forget (complete_rule t ul q candidates decision now ids))"
| "transaction t (forget (fail_rule t ul err retryable now ids))"
| "transaction t (forget (claim_next_judgment_task t worker secs locked now))"
| "transaction t (forget (complete_judgment t jl inputs now ids))"
| "transaction t (forget (fail_judgment t jl err now))"
| "transaction t (forget (claim_next_access_evidence_task t worker secs locked now))"
| "transaction t (forget (complete_access_binding t al now ids))"
| "transaction t (forget (release_access_evidence t invoice now))"
| "transaction t (forget (approve_and_seal t rec_id version digest key user display kind outcome now ids))"
| "transaction t (forget (draft_from_sealed t seal_id prose ids))"
| "transaction t (forget (send_transaction t draft_id key approver checks answer now ids))"

text \<open>A step runs a transaction under the retry loop, with new identifiers for each run.\<close>

definition pipeline_step :: "string \<Rightarrow> db \<Rightarrow> db \<Rightarrow> bool" where
  "pipeline_step t db db' =
     (\<exists>body restarts res. (\<forall>n. transaction t (body n))
        \<and> run_with_retry default_max_retries restarts 0 body db = (res, db'))"

lemma keeps_step:
  assumes "\<And>db. R db db" "\<And>m. transaction t m \<Longrightarrow> keeps R m" "pipeline_step t db db'"
  shows "R db db'"
proof -
  from assms(3) obtain body restarts res where body: "\<And>n. transaction t (body n)"
    and run: "run_with_retry default_max_retries restarts 0 body db = (res, db')"
    by (auto simp: pipeline_step_def)
  show ?thesis
  proof (cases res)
    case (Inl e)
    with run_with_retry_Inl run assms(1) show ?thesis by metis
  next
    case (Inr a)
    with run_with_retry_Inr run obtain k where "body k db = Inr (a, db')" by metis
    with assms(2) [OF body] show ?thesis by (auto simp: keeps_def)
  qed
qed

lemma keeps_run:
  assumes "\<And>db. R db db" "\<And>x y z. R x y \<Longrightarrow> R y z \<Longrightarrow> R x z" "\<And>m. transaction t m \<Longrightarrow> keeps R m"
    and "(pipeline_step t)\<^sup>*\<^sup>* db db'"
  shows "R db db'"
  using assms(4)
proof (induction rule: rtranclp_induct)
  case base
  then show ?case by (rule assms(1))
next
  case (step y z)
  with keeps_step [of R t y z] assms(1-3) show ?case by blast
qed

section \<open>Safety\<close>

lemma safe_forget: "keeps (safe t) m \<Longrightarrow> keeps (safe t) (forget m)"
  unfolding forget_def by (intro safe.keeps_intros)

lemma safe_send: "keeps (safe t) (send_transaction t draft_id key approver checks outcome now ids)"
  unfolding send_transaction_def
  by (intro safe_prepare safe_outcome safe.keeps_intros)

lemma transaction_safe: "transaction t m \<Longrightarrow> keeps (safe t) m"
  by (induction rule: transaction.induct)
    (intro safe_forget safe_reserve safe_record safe_duplicate safe_finalize safe_claim safe_complete safe_fail safe_retry
      safe_claim_reconstruction safe_complete_reconstruction safe_fail_reconstruction safe_claim_rule safe_complete_rule
      safe_fail_rule safe_claim_judgment safe_complete_judgment safe_fail_judgment safe_claim_access safe_complete_access
      safe_release_access safe_approve safe_draft safe_send)+

section \<open>Events that can be shown\<close>

text \<open>
  Every event is well named and every object it reports versioned; the exception is the report of
  a bound snapshot.
\<close>

definition log_presentable :: "db \<Rightarrow> bool" where
  "log_presentable db = (\<forall>e \<in> set (db_events db). presentable e \<or> lg_type e = ''reconstruction.source_bound'')"

abbreviation shows_log :: "db \<Rightarrow> db \<Rightarrow> bool" where
  "shows_log \<equiv> maintains log_presentable"

lemma shows_event:
  "presentable e \<or> lg_type e = ''reconstruction.source_bound'' \<Longrightarrow> keeps shows_log (insert_event e)"
  by (auto simp: keeps_def maintains_def log_presentable_def insert_event_Inr)

lemma shows_lock: "keeps shows_log (lock_invoice_and_advance t i st ag su k now cs)"
  by (auto simp: keeps_def maintains_def log_presentable_def lock_Inr)

lemma shows_append: "(\<And>g db. db_events (upd g db) = db_events db) \<Longrightarrow> keeps shows_log (tx_append upd row)"
  by (auto simp: keeps_def maintains_def log_presentable_def tx_simps)

lemma shows_update: "(\<And>g db. db_events (upd g db) = db_events db) \<Longrightarrow> keeps shows_log (tx_update upd p f)"
  by (auto simp: keeps_def maintains_def log_presentable_def tx_simps)

lemma event_types [simp]:
  "event_type_ok ''invoice.received''" "event_type_ok ''invoice.reconstruction_started''"
  "event_type_ok ''intake.extraction_started''" "event_type_ok ''intake.claims_validated''"
  "event_type_ok ''intake.claims_need_evidence''" "event_type_ok ''intake.extraction_retry_scheduled''"
  "event_type_ok ''intake.extraction_blocked''" "event_type_ok ''intake.retry_requested''"
  "event_type_ok ''reconstruction.memory_retrieval_started''" "event_type_ok ''reconstruction.completed''"
  "event_type_ok ''reconstruction.needs_evidence''" "event_type_ok ''reconstruction.coverage_updated''"
  "event_type_ok ''reconstruction.memory_retrieval_retry_scheduled''"
  "event_type_ok ''reconstruction.memory_retrieval_failed''"
  "event_type_ok ''evidence.rule_search_started''" "event_type_ok ''evidence.rule_verified''"
  "event_type_ok ''evidence.rule_conflict''" "event_type_ok ''evidence.rule_not_applicable''"
  "event_type_ok ''evidence.rule_search_retry_scheduled''" "event_type_ok ''evidence.rule_search_failed''"
  "event_type_ok ''decision.authority_withheld''" "event_type_ok ''decision.recommendation_ready''"
  "event_type_ok ''decision.sealed''" "event_type_ok ''correspondence.send_blocked''"
  "event_type_ok ''correspondence.send_failed''" "event_type_ok ''correspondence.sent''"
  by code_simp+

lemma versioned_refs [simp]: "versioned_ref (object_ref ty i n)" "versioned_ref (version_ref ty i v)"
  by (simp_all add: object_ref_def version_ref_def)

lemmas shows_intros = inv_frame.keeps_intros shows_lock shows_event shows_append shows_update

lemma shows_forget: "keeps shows_log m \<Longrightarrow> keeps shows_log (forget m)"
  unfolding forget_def by (intro shows_intros)

lemma shows_leases:
  "keeps shows_log (begin_attempt w worker secs now)" "keeps shows_log (require_lease t l)"
  "keeps shows_log (finish_task t l s now)" "keeps shows_log (release_lease t l err r f now)"
  "keeps shows_log (enqueue_task w)"
  unfolding begin_attempt_def require_lease_def finish_task_def release_lease_def enqueue_task_def
  by (intro shows_intros; simp)+

lemma shows_receipts:
  "keeps shows_log (reserve_ingestion t key hash actor display invoice source)"
  "keeps shows_log (record_source_stored t key hash stored)"
  "keeps shows_log (complete_duplicate_ingestion t key hash invoice source sha snapshot)"
  "keeps shows_log (finalize_received_invoice t c now ids)"
  unfolding reserve_ingestion_def insert_ingestion_def record_source_stored_def with_ingestion_def update_ingestion_def
    complete_duplicate_ingestion_def stored_snapshot_def finalize_received_invoice_def insert_received_def
  by (intro shows_intros; simp add: presentable_def received_event_def)+

lemma shows_extraction:
  "keeps shows_log (claim_next_extraction_task t worker secs locked now ids)"
  "keeps shows_log (complete_extraction t xl validation response ref now ids)"
  "keeps shows_log (fail_extraction t xl err retryable now ids)"
  "keeps shows_log (retry_extraction_task t invoice key expected user display now ids)"
  unfolding claim_next_extraction_task_def start_attempt_def complete_extraction_def assert_current_lease_def
    insert_run_def insert_claim_set_def close_task_def hand_to_reconstruction_def enqueue_task_def ask_for_evidence_def
    fail_extraction_def release_task_def retry_extraction_task_def reserve_retry_def requeue_def Let_def
  by (auto intro!: shows_intros split: option.splits prod.splits simp: presentable_def intake_event_def)

lemma shows_reconstruction:
  "keeps shows_log (claim_next_reconstruction_task t worker secs locked now ids)"
  "keeps shows_log (complete_reconstruction t cl events days coverage state roles correlation query issues now ids)"
  "keeps shows_log (fail_reconstruction t cl err retryable now ids)"
  unfolding claim_next_reconstruction_task_def complete_reconstruction_def persist_version_def insert_reconstruction_def
    insert_event_version_def insert_day_def insert_coverage_def announce_version_def emit_rule_task_def
    finish_reconstruction_def fail_reconstruction_def Let_def
  by (auto intro!: shows_intros shows_leases split: option.splits prod.splits sum.splits simp: presentable_def recon_event_def)

lemma shows_rule:
  "keeps shows_log (claim_next_rule_task t worker secs locked now ids)"
  "keeps shows_log (complete_rule t ul q candidates decision now ids)"
  "keeps shows_log (fail_rule t ul err retryable now ids)"
  unfolding claim_next_rule_task_def complete_rule_def insert_search_def insert_applicable_rule_def finish_rule_def
    emit_judgment_task_def announce_rule_def fail_rule_def Let_def
  by (auto intro!: shows_intros shows_leases split: option.splits prod.splits simp: presentable_def rule_event_def)

lemma shows_judgment:
  "keeps shows_log (claim_next_judgment_task t worker secs locked now)"
  "keeps shows_log (complete_judgment t jl inputs now ids)"
  "keeps shows_log (fail_judgment t jl err now)"
  unfolding claim_next_judgment_task_def complete_judgment_def freeze_recommendation_def insert_recommendation_def
    insert_judgments_def finish_judgment_def announce_recommendation_def enqueue_held_access_binding_def
    fail_judgment_def Let_def
  by (auto intro!: shows_intros shows_leases split: option.splits prod.splits sum.splits simp: presentable_def rule_event_def)

lemma shows_access:
  "keeps shows_log (claim_next_access_evidence_task t worker secs locked now)"
  "keeps shows_log (complete_access_binding t al now ids)"
  "keeps shows_log (release_access_evidence t invoice now)"
  unfolding claim_next_access_evidence_task_def complete_access_binding_def require_access_lease_def finish_access_def
    bind_snapshot_def announce_binding_def emit_reconstruction_task_def release_access_evidence_def Let_def
  by (auto intro!: shows_intros shows_leases split: option.splits sum.splits)

lemma shows_decision:
  "keeps shows_log (approve_and_seal t rec_id version digest key user display kind outcome now ids)"
  "keeps shows_log (draft_from_sealed t seal_id prose ids)"
  "keeps shows_log (send_transaction t draft_id key approver checks answer now ids)"
  unfolding approve_and_seal_def seal_recommendation_def insert_approval_def insert_seal_def advance_and_emit_def
    draft_from_sealed_def send_transaction_def prepare_send_def insert_send_def insert_gate_runs_def emit_send_event_def
    record_outcome_def Let_def
  by (auto intro!: shows_intros split: option.splits prod.splits sum.splits simp: presentable_def)

lemma transaction_shows: "transaction t m \<Longrightarrow> keeps shows_log m"
  by (induction rule: transaction.induct)
    (intro shows_forget shows_receipts shows_extraction shows_reconstruction shows_rule shows_judgment shows_access
      shows_decision)+

section \<open>Leases of all workers\<close>

text \<open>
  A lease is named by its task and attempt. The access worker does not check the attempt when it
  completes, so its completion counts as settling the attempt that is current then.
\<close>

type_synonym lease_name = "(string \<times> string) \<times> nat"

inductive worker_claims :: "db \<Rightarrow> lease_name \<Rightarrow> db \<Rightarrow> bool" where
  "claim_next_extraction_task t worker secs locked now ids db = Inr (Some xl, db') \<Longrightarrow>
     worker_claims db ((t, le_task xl), le_attempt xl) db'"
| "claim_next_reconstruction_task t worker secs locked now ids db = Inr (Some cl, db') \<Longrightarrow>
     worker_claims db ((t, tl_task cl), tl_attempt cl) db'"
| "claim_next_rule_task t worker secs locked now ids db = Inr (Some ul, db') \<Longrightarrow>
     worker_claims db ((t, tl_task ul), tl_attempt ul) db'"
| "claim_next_judgment_task t worker secs locked now db = Inr (Some jl, db') \<Longrightarrow>
     worker_claims db ((t, tl_task jl), tl_attempt jl) db'"
| "claim_next_access_evidence_task t worker secs locked now db = Inr (Some al, db') \<Longrightarrow>
     worker_claims db ((t, tl_task al), tl_attempt al) db'"

inductive worker_settles :: "db \<Rightarrow> lease_name \<Rightarrow> db \<Rightarrow> bool" where
  "complete_extraction t xl validation response ref now ids db = Inr (c1, db') \<Longrightarrow>
     worker_settles db ((t, le_task xl), le_attempt xl) db'"
| "fail_extraction t xl err retryable now ids db = Inr (st, db') \<Longrightarrow>
     worker_settles db ((t, le_task xl), le_attempt xl) db'"
| "complete_reconstruction t cl events days coverage state roles correlation query issues now ids db = Inr (c2, db') \<Longrightarrow>
     worker_settles db ((t, tl_task cl), tl_attempt cl) db'"
| "fail_reconstruction t cl err retryable now ids db = Inr (st, db') \<Longrightarrow>
     worker_settles db ((t, tl_task cl), tl_attempt cl) db'"
| "complete_rule t ul q candidates decision now ids db = Inr (c3, db') \<Longrightarrow>
     worker_settles db ((t, tl_task ul), tl_attempt ul) db'"
| "fail_rule t ul err retryable now ids db = Inr (st, db') \<Longrightarrow>
     worker_settles db ((t, tl_task ul), tl_attempt ul) db'"
| "complete_judgment t jl inputs now ids db = Inr (c4, db') \<Longrightarrow>
     worker_settles db ((t, tl_task jl), tl_attempt jl) db'"
| "fail_judgment t jl err now db = Inr (st, db') \<Longrightarrow>
     worker_settles db ((t, tl_task jl), tl_attempt jl) db'"
| "complete_access_binding t al now ids db = Inr (c5, db') \<Longrightarrow>
     worker_settles db ((t, tl_task al), task_attempt db (t, tl_task al)) db'"

text \<open>Everything else: uploads, retries, releases, approvals, drafts, sends, claims that find nothing.\<close>

inductive worker_quiet :: "db \<Rightarrow> db \<Rightarrow> bool" where
  "worker_quiet db db"
| "reserve_ingestion t key hash actor display invoice source db = Inr (q1, db') \<Longrightarrow> worker_quiet db db'"
| "record_source_stored t key hash stored db = Inr (q2, db') \<Longrightarrow> worker_quiet db db'"
| "complete_duplicate_ingestion t key hash invoice source sha snapshot db = Inr (q3, db') \<Longrightarrow> worker_quiet db db'"
| "finalize_received_invoice t c now ids db = Inr (q4, db') \<Longrightarrow> worker_quiet db db'"
| "retry_extraction_task t invoice key expected user display now ids db = Inr (q5, db') \<Longrightarrow> worker_quiet db db'"
| "release_access_evidence t invoice now db = Inr (q6, db') \<Longrightarrow> worker_quiet db db'"
| "approve_and_seal t rec_id version digest key user display kind outcome now ids db = Inr (q7, db') \<Longrightarrow>
     worker_quiet db db'"
| "draft_from_sealed t seal_id prose ids db = Inr (q8, db') \<Longrightarrow> worker_quiet db db'"
| "send_transaction t draft_id key approver checks answer now ids db = Inr (q9, db') \<Longrightarrow> worker_quiet db db'"
| "relay_outbox_batch t pk locked limit now db = Inr (q10, db') \<Longrightarrow> worker_quiet db db'"

lemma claim_law_of:
  assumes "next_task t ty now locked db = Some w" "begin_attempt w worker secs now db = Inr (u, db1)"
    and "same_fence db1 db'" "task_keys_distinct db" "tl_task l = tk_id w" "tl_attempt l = tk_attempt w + 1"
  shows "task_keys_distinct db' \<and> tl_attempt l = Suc (task_attempt db (t, tl_task l))
    \<and> task_attempt db' = (task_attempt db)((t, tl_task l) := tl_attempt l)
    \<and> task_running db' = (task_running db)((t, tl_task l) := True)"
  using claimed_fence [OF assms(1-4)] assms(5,6) by simp

lemma same_fence_event:
  assumes "lock_invoice_and_advance t i st ag su k now cs db = Inr (s, db1)" "insert_event e db1 = Inr (u, db2)"
  shows "same_fence db db2"
  using fence.keepsD [OF fence_lock assms(1)] fence.keepsD [OF fence_event assms(2)] by (rule fence.frame_trans)

lemma lease_fields [simp]:
  "tl_task (reconstruction_lease_of worker ex w claims dates) = tk_id w"
  "tl_attempt (reconstruction_lease_of worker ex w claims dates) = tk_attempt w + 1"
  "tl_task (rule_lease_of worker w db) = tk_id w" "tl_attempt (rule_lease_of worker w db) = tk_attempt w + 1"
  "tl_task (judgment_lease_of worker w) = tk_id w" "tl_attempt (judgment_lease_of worker w) = tk_attempt w + 1"
  "tl_task (access_lease_of worker w d) = tk_id w" "tl_attempt (access_lease_of worker w d) = tk_attempt w + 1"
  by (simp_all add: reconstruction_lease_of_def rule_lease_of_def judgment_lease_of_def access_lease_of_def
      task_lease_of_def task_lease.extend_def reconstruction_lease.fields_def rule_lease.fields_def
      judgment_lease.fields_def access_lease.fields_def Let_def)

lemma worker_claim_law:
  assumes "task_keys_distinct db" "worker_claims db l db'"
  shows "task_keys_distinct db' \<and> snd l = Suc (task_attempt db (fst l))
    \<and> task_attempt db' = (task_attempt db)(fst l := snd l) \<and> task_running db' = (task_running db)(fst l := True)"
  using assms(2)
proof cases
  case (1 t worker secs locked now ids xl)
  then have "extraction_claims db (t, xl) db'" by (simp add: extraction_claims_def) blast
  from claim_fencing [OF assms(1) this] 1 show ?thesis by (simp add: leased_task_def leased_attempt_def)
next
  case (2 t worker secs locked now ids cl)
  from 2(2) obtain w u db1 where "next_task t StartReconstruction now locked db = Some w"
    "begin_attempt w worker secs now db = Inr (u, db1)" "same_fence db1 db'" "tl_task cl = tk_id w"
    "tl_attempt cl = tk_attempt w + 1"
    by (auto simp: claim_next_reconstruction_task_def tx_simps split: option.splits sum.splits dest: same_fence_event
        simp del: One_nat_def)
  from claim_law_of [OF this(1-3) assms(1) this(4,5)] 2 show ?thesis by simp
next
  case (3 t worker secs locked now ids ul)
  from 3(2) obtain w u db1 where "next_task t FindApplicableRule now locked db = Some w"
    "begin_attempt w worker secs now db = Inr (u, db1)" "same_fence db1 db'" "tl_task ul = tk_id w"
    "tl_attempt ul = tk_attempt w + 1"
    by (auto simp: claim_next_rule_task_def tx_simps split: option.splits dest: same_fence_event simp del: One_nat_def)
  from claim_law_of [OF this(1-3) assms(1) this(4,5)] 3 show ?thesis by simp
next
  case (4 t worker secs locked now jl)
  from 4(2) obtain w u where "next_task t JudgeDays now locked db = Some w"
    "begin_attempt w worker secs now db = Inr (u, db')" "tl_task jl = tk_id w" "tl_attempt jl = tk_attempt w + 1"
    by (auto simp: claim_next_judgment_task_def tx_simps split: option.splits)
  from claim_law_of [OF this(1,2) fence.frame_refl assms(1) this(3,4)] 4 show ?thesis by simp
next
  case (5 t worker secs locked now al)
  from 5(2) obtain w u where "next_task t BindAccessEvidence now locked db = Some w"
    "begin_attempt w worker secs now db = Inr (u, db')" "tl_task al = tk_id w" "tl_attempt al = tk_attempt w + 1"
    by (auto simp: claim_next_access_evidence_task_def tx_simps split: option.splits sum.splits)
  from claim_law_of [OF this(1,2) fence.frame_refl assms(1) this(3,4)] 5 show ?thesis by simp
qed

text \<open>A body that settles its lease: statements before, the closing statement, statements after.\<close>

definition settling :: "string \<Rightarrow> 'a task_lease_scheme \<Rightarrow> 'b tx \<Rightarrow> bool" where
  "settling t l m = (keeps (settles_only t l) m \<and> ensures (\<lambda>db. \<not> holds t l db) m)"

lemma settling_left: "settling t l m \<Longrightarrow> keeps same_fence k \<Longrightarrow> settling t l (tx_then m k)"
  unfolding settling_def by (blast intro: settle.keeps_then ensures_first not_held_stays settles_same)

lemma settling_close:
  "keeps same_fence k \<Longrightarrow> settling t l (tx_then (finish_task t l s now) k)"
  "keeps_identity f \<Longrightarrow> keeps same_fence k \<Longrightarrow> settling t l (tx_then (release_lease t l err r f now) k)"
  by (intro settling_left; simp add: settling_def finish_settles release_settles)+

lemma settling_then: "keeps same_fence m \<Longrightarrow> settling t l k \<Longrightarrow> settling t l (tx_then m k)"
  unfolding settling_def by (blast intro: settle.keeps_then ensures_then settles_same)

lemma settling_bind: "keeps same_fence m \<Longrightarrow> (\<And>a. settling t l (k a)) \<Longrightarrow> settling t l (tx_bind m k)"
  unfolding settling_def by (blast intro: settle.keeps_bind ensures_bind settles_same)

lemma settling_option:
  "settling t l m \<Longrightarrow> (\<And>a. settling t l (k a)) \<Longrightarrow> settling t l (case x of None \<Rightarrow> m | Some a \<Rightarrow> k a)"
  by (cases x) auto

lemma settling_prod: "(\<And>a b. settling t l (k a b)) \<Longrightarrow> settling t l (case p of (a, b) \<Rightarrow> k a b)"
  by (cases p) auto

lemmas settling_intros = settling_close settling_then settling_bind settling_option settling_prod

lemma settled_by:
  assumes "tx_then (require_lease t l) m db = Inr (a, db')" "task_keys_distinct db" "settling t l m"
  shows "task_keys_distinct db' \<and> task_running db (t, tl_task l) \<and> tl_attempt l = task_attempt db (t, tl_task l)
    \<and> task_attempt db' = task_attempt db \<and> task_running db' = (task_running db)((t, tl_task l) := False)"
  using settled_fence [OF assms(1,2)] assms(3) by (simp add: settling_def)

lemma settled_reconstruction:
  assumes "complete_reconstruction t l events days coverage state roles correlation query issues now ids db = Inr (a, db')
      \<or> fail_reconstruction t l err retryable now ids db = Inr (st, db')" "task_keys_distinct db"
  shows "task_keys_distinct db' \<and> task_running db (t, tl_task l) \<and> tl_attempt l = task_attempt db (t, tl_task l)
    \<and> task_attempt db' = task_attempt db \<and> task_running db' = (task_running db)((t, tl_task l) := False)"
  using assms(1)
proof
  assume "complete_reconstruction t l events days coverage state roles correlation query issues now ids db = Inr (a, db')"
  then show ?thesis
    unfolding complete_reconstruction_def finish_reconstruction_def Let_def
    by (rule settled_by [OF _ assms(2)])
      (intro settling_intros fence_persist fence_announce fence_rule_task fence_intros)
next
  assume "fail_reconstruction t l err retryable now ids db = Inr (st, db')"
  then show ?thesis
    unfolding fail_reconstruction_def Let_def
    by (rule settled_by [OF _ assms(2)]) (intro settling_intros fence_intros keeps_identity_summary)
qed

lemma settled_rule:
  assumes "complete_rule t l q candidates decision now ids db = Inr (a, db')
      \<or> fail_rule t l err retryable now ids db = Inr (st, db')" "task_keys_distinct db"
  shows "task_keys_distinct db' \<and> task_running db (t, tl_task l) \<and> tl_attempt l = task_attempt db (t, tl_task l)
    \<and> task_attempt db' = task_attempt db \<and> task_running db' = (task_running db)((t, tl_task l) := False)"
  using assms(1)
proof
  assume "complete_rule t l q candidates decision now ids db = Inr (a, db')"
  then show ?thesis
    unfolding complete_rule_def finish_rule_def Let_def
    by (rule settled_by [OF _ assms(2)])
      (intro settling_intros fence_search fence_rule fence_judgment_task fence_announce_rule fence_intros)
next
  assume "fail_rule t l err retryable now ids db = Inr (st, db')"
  then show ?thesis
    unfolding fail_rule_def Let_def
    by (rule settled_by [OF _ assms(2)]) (intro settling_intros fence_intros keeps_identity_summary)
qed

lemma settling_freeze: "settling t l (freeze_recommendation t l r row now ids)"
  unfolding freeze_recommendation_def finish_judgment_def
  by (intro settling_intros fence_judgment_rows fence_announce_recommendation fence_held fence_intros)

lemma settled_judgment:
  assumes "complete_judgment t l inputs now ids db = Inr (a, db') \<or> fail_judgment t l err now db = Inr (st, db')"
    "task_keys_distinct db"
  shows "task_keys_distinct db' \<and> task_running db (t, tl_task l) \<and> tl_attempt l = task_attempt db (t, tl_task l)
    \<and> task_attempt db' = task_attempt db \<and> task_running db' = (task_running db)((t, tl_task l) := False)"
  using assms(1)
proof
  assume c: "complete_judgment t l inputs now ids db = Inr (a, db')"
  then obtain r where "resolve_recommendation inputs = Inr r"
    by (auto simp: complete_judgment_def tx_simps split: sum.splits)
  with c show ?thesis
    unfolding complete_judgment_def finish_judgment_def Let_def sum.case
    by (intro settled_by [OF _ assms(2)]) (simp, intro settling_left [OF settling_freeze] settling_intros fence_intros)
next
  assume "fail_judgment t l err now db = Inr (st, db')"
  then show ?thesis
    unfolding fail_judgment_def
    by (rule settled_by [OF _ assms(2)]) (intro settling_intros fence_intros keeps_identity_summary)
qed

lemma finish_access_fence:
  assumes "finish_access t l now db = Inr (u, db')"
  shows "task_fence db' = (if access_held t l db
      then (task_fence db)((t, tl_task l) := (task_attempt db (t, tl_task l), None)) else task_fence db)
    \<and> (task_keys_distinct db \<longrightarrow> task_keys_distinct db')"
proof -
  let ?f = "\<lambda>w. w\<lparr>tk_state := TaskCompleted, tk_completed := Some now, tk_owner := None, tk_expires := None, tk_updated := now\<rparr>"
  from assms have rows: "db_tasks db' = update_rows (owned_row t l) ?f (db_tasks db)"
    by (auto simp: finish_access_def tx_simps)
  have at: "task_at k db' = map_option (\<lambda>w. if owned_row t l w then ?f w else w) (task_at k db)" for k
    using task_at_update [OF _ rows] by (simp add: task_pk_def)
  have "task_fence db' k = (if access_held t l db
      then (task_fence db)((t, tl_task l) := (task_attempt db (t, tl_task l), None)) else task_fence db) k" for k
  proof (cases "task_at k db")
    case None
    then show ?thesis by (auto simp: task_fence_def at access_held_def split: option.splits)
  next
    case (Some w)
    from task_at_Some [OF this] have "task_pk w = k" by simp
    with Some show ?thesis
      by (cases "k = (t, tl_task l)") (auto simp: task_fence_def task_attempt_def at access_held_def owned_row_def)
  qed
  moreover have "task_keys_distinct db \<longrightarrow> task_keys_distinct db'"
    using distinct_update [OF _ rows] by (auto simp: task_pk_def)
  ultimately show ?thesis by auto
qed

lemma access_held_fence: "access_held t l db \<longleftrightarrow> snd (task_fence db (t, tl_task l)) = Some (Some (tl_worker l))"
  by (auto simp: access_held_def task_fence_def split: option.splits)

lemma fence_verification:
  "keeps same_fence (tx_insert ''access_verif_task_snapshot_idx'' db_verifications db_verifications_update verification_key v)"
  "keeps same_fence (bind_snapshot t ref)" "keeps same_fence (announce_binding t l now e)"
  "keeps same_fence (emit_reconstruction_task t l i now)"
  unfolding bind_snapshot_def announce_binding_def emit_reconstruction_task_def
  by (intro fence_intros; simp)+

lemma complete_access_ends:
  assumes "complete_access_binding t l now ids db = Inr (a, db')"
  shows "access_held t l db \<and> (\<exists>db1 u. same_fence db db1 \<and> finish_access t l now db1 = Inr (u, db'))"
proof -
  note after = fence.keepsD [OF fence_verification(1)] fence.keepsD [OF fence_verification(2)]
    fence.keepsD [OF fence_verification(3)] fence.keepsD [OF fence_verification(4)]
  from assms have held: "access_held t l db"
    by (auto simp: complete_access_binding_def require_access_lease_def tx_simps)
  from assms consider
    u where "finish_access t l now db = Inr (u, db')"
  | v db1 u u' where "tx_insert ''access_verif_task_snapshot_idx'' db_verifications db_verifications_update
      verification_key v db = Inr (u, db1)" "finish_access t l now db1 = Inr (u', db')"
  | v db1 u db2 u2 db3 u3 db4 u4 u' where "tx_insert ''access_verif_task_snapshot_idx'' db_verifications
      db_verifications_update verification_key v db = Inr (u, db1)" "bind_snapshot t (al_snapshot l) db1 = Inr (u2, db2)"
      "announce_binding t l now (ids 1) db2 = Inr (u3, db3)" "emit_reconstruction_task t l (ids 2) now db3 = Inr (u4, db4)"
      "finish_access t l now db4 = Inr (u', db')"
    unfolding complete_access_binding_def require_access_lease_def Let_def
    by (auto simp: tx_then_Inr tx_bind_Inr tx_read_Inr tx_return_Inr tx_raise_Inr tx_require_Inr
        split: option.splits sum.splits if_splits simp del: One_nat_def)
  then show ?thesis
  proof cases
    case 1
    with held fence.frame_refl show ?thesis by blast
  next
    case 2
    with held after(1) show ?thesis by blast
  next
    case 3
    from after(1) [OF 3(1)] after(2) [OF 3(2)] after(3) [OF 3(3)] after(4) [OF 3(4)]
    have "same_fence db db4" by (blast intro: fence.frame_trans)
    with held 3(5) show ?thesis by blast
  qed
qed

lemma settled_access:
  assumes "complete_access_binding t l now ids db = Inr (a, db')" "task_keys_distinct db"
  shows "task_keys_distinct db' \<and> task_running db (t, tl_task l)
    \<and> task_attempt db' = task_attempt db \<and> task_running db' = (task_running db)((t, tl_task l) := False)"
proof -
  from complete_access_ends [OF assms(1)] obtain db1 u where held: "access_held t l db"
    and same: "same_fence db db1" and fin: "finish_access t l now db1 = Inr (u, db')" by blast
  then have "access_held t l db1" by (simp add: access_held_fence same_fence_def)
  with finish_access_fence [OF fin] same assms(2)
  have "task_fence db' = (task_fence db)((t, tl_task l) := (task_attempt db (t, tl_task l), None))" "task_keys_distinct db'"
    by (auto simp: same_fence_def fence_attempt)
  with held show ?thesis by (auto simp: fence_attempt fence_running access_held_fence fun_eq_iff)
qed

lemma worker_settle_law:
  assumes "task_keys_distinct db" "worker_settles db l db'"
  shows "task_keys_distinct db' \<and> task_running db (fst l) \<and> snd l = task_attempt db (fst l)
    \<and> task_attempt db' = task_attempt db \<and> task_running db' = (task_running db)(fst l := False)"
  using assms(2)
proof cases
  case (1 t xl validation response ref now ids c1)
  then have "extraction_settles db (t, xl) db'" by (simp add: extraction_settles_def) blast
  from settle_fencing [OF assms(1) this] 1 show ?thesis by (simp add: leased_task_def leased_attempt_def)
next
  case (2 t xl err retryable now ids st)
  then have "extraction_settles db (t, xl) db'" by (simp add: extraction_settles_def) blast
  from settle_fencing [OF assms(1) this] 2 show ?thesis by (simp add: leased_task_def leased_attempt_def)
next
  case 3
  from settled_reconstruction [OF disjI1 [OF 3(2)] assms(1)] 3(1) show ?thesis by simp
next
  case 4
  from settled_reconstruction [OF disjI2 [OF 4(2)] assms(1)] 4(1) show ?thesis by simp
next
  case 5
  from settled_rule [OF disjI1 [OF 5(2)] assms(1)] 5(1) show ?thesis by simp
next
  case 6
  from settled_rule [OF disjI2 [OF 6(2)] assms(1)] 6(1) show ?thesis by simp
next
  case 7
  from settled_judgment [OF disjI1 [OF 7(2)] assms(1)] 7(1) show ?thesis by simp
next
  case 8
  from settled_judgment [OF disjI2 [OF 8(2)] assms(1)] 8(1) show ?thesis by simp
next
  case 9
  from settled_access [OF 9(2) assms(1)] 9(1) show ?thesis by simp
qed

lemma fence_finalize: "keeps same_fence (insert_received i s (new_task t w v ty TaskPending u a c refs sm now) e)"
  unfolding insert_received_def by (intro fence_new fence_intros) auto

lemma quiet_fences:
  "keeps same_fence (reserve_ingestion t key hash actor display invoice source)"
  "keeps same_fence (record_source_stored t key hash stored)"
  "keeps same_fence (complete_duplicate_ingestion t key hash invoice source sha snapshot)"
  "keeps same_fence (finalize_received_invoice t c now ids)"
  "keeps same_fence (approve_and_seal t rec_id version digest key user display kind outcome now ids)"
  "keeps same_fence (draft_from_sealed t seal_id prose ids)"
  "keeps same_fence (send_transaction t draft_id key approver checks answer now ids)"
  "keeps same_fence (relay_outbox_batch t pk locked limit now)"
  unfolding reserve_ingestion_def insert_ingestion_def record_source_stored_def with_ingestion_def update_ingestion_def
    complete_duplicate_ingestion_def stored_snapshot_def finalize_received_invoice_def approve_and_seal_def
    seal_recommendation_def insert_approval_def insert_seal_def advance_and_emit_def
    draft_from_sealed_def send_transaction_def prepare_send_def insert_send_def insert_gate_runs_def emit_send_event_def
    record_outcome_def relay_outbox_batch_def deliver_def Let_def
  by (auto intro!: fence_finalize fence_intros split: option.splits prod.splits sum.splits)

lemma fence_release_access: "keeps same_fence (release_access_evidence t invoice now)"
proof -
  let ?f = "\<lambda>w. w\<lparr>tk_state := TaskPending, tk_updated := now\<rparr>"
  have "same_fence db db'" if "db' = db_tasks_update (update_rows (held_task t invoice) ?f) db" for db db'
  proof -
    have rows: "db_tasks db' = update_rows (held_task t invoice) ?f (db_tasks db)" using that by simp
    have at: "task_at k db' = map_option (\<lambda>w. if held_task t invoice w then ?f w else w) (task_at k db)" for k
      using task_at_update [OF _ rows] by (simp add: task_pk_def)
    show ?thesis
      using distinct_update [OF _ rows]
      by (auto simp: same_fence_def task_fence_def at held_task_def task_pk_def fun_eq_iff split: option.splits)
  qed
  then show ?thesis
    unfolding release_access_evidence_def
    by (intro fence.keeps_intros) (simp add: keeps_def tx_update_Inr)
qed

lemma worker_quiet_law:
  assumes "task_keys_distinct db" "worker_quiet db db'"
  shows "task_keys_distinct db' \<and> task_attempt db' = task_attempt db \<and> task_running db' = task_running db"
proof (cases "\<exists>t i key expected u a now ids r. retry_extraction_task t i key expected u a now ids db = Inr (r, db')")
  case True
  then have "extraction_quiet db db'" by (simp add: extraction_quiet_def)
  from quiet_fencing [OF assms(1) this] show ?thesis .
next
  case False
  with assms(2) have "same_fence db db'"
    by cases (auto dest: fence.keepsD [OF quiet_fences(1)] fence.keepsD [OF quiet_fences(2)] fence.keepsD [OF quiet_fences(3)]
      fence.keepsD [OF quiet_fences(4)] fence.keepsD [OF quiet_fences(5)] fence.keepsD [OF quiet_fences(6)]
      fence.keepsD [OF quiet_fences(7)] fence.keepsD [OF quiet_fences(8)] fence.keepsD [OF fence_release_access]
      intro: fence.frame_refl)
  with assms(1) show ?thesis by (auto simp: same_fence_def fence_attempt fence_running fun_eq_iff)
qed

interpretation workers: fenced_lease task_keys_distinct task_attempt task_running worker_claims worker_settles worker_quiet fst snd
  by unfold_locales (use worker_claim_law worker_settle_law worker_quiet_law in blast)+

section \<open>Sending is such a transaction\<close>

lemma approve_and_send_db:
  "\<exists>answer. fst (approve_and_send t draft_id key approver checks now ids (db, ib))
     = send_transaction t draft_id key approver checks answer now ids db"
proof (cases "prepare_send t draft_id key approver checks now ids db")
  case (Inl e)
  then show ?thesis by (simp add: approve_and_send_def send_transaction_def tx_bind_def)
next
  case (Inr p)
  then show ?thesis
    by (cases p; cases "fst p") (auto simp: approve_and_send_def send_transaction_def tx_bind_def tx_return_def
        split: prod.splits sum.splits)
qed

section \<open>Samples\<close>

definition sample_work :: "task_type \<Rightarrow> json list \<Rightarrow> task_row" where
  "sample_work ty refs =
     \<lparr>tk_tenant = ''t'', tk_id = ''w'', tk_invoice = ''i'', tk_type = ty, tk_version = 1, tk_state = TaskPending,
      tk_initiated = None, tk_actor = ''a'', tk_cutoff = 0, tk_fingerprint = ''p'', tk_inputs = refs, tk_attempt = 0,
      tk_owner = None, tk_expires = None, tk_not_before = None, tk_started = None, tk_completed = None,
      tk_summary = None, tk_error = None, tk_created = 0, tk_updated = 0\<rparr>"

definition working_db :: "task_type \<Rightarrow> json list \<Rightarrow> db" where
  "working_db ty refs = empty_db\<lparr>db_invoices := [sample_invoice], db_tasks := [sample_work ty refs]\<rparr>"

definition work_id :: "nat \<Rightarrow> string" where
  "work_id n = ''n'' @ show_nat n"

definition claimed_work :: "(reconstruction_lease option \<times> db) option" where
  "claimed_work =
     (case claim_next_reconstruction_task ''t'' ''me'' 1 (\<lambda>_. False) 0 work_id (working_db StartReconstruction []) of
        Inl e \<Rightarrow> None | Inr r \<Rightarrow> Some r)"

lemma sample_worker_history:
  obtains l db1 db2 where
    "claim_next_reconstruction_task ''t'' ''me'' 1 (\<lambda>_. False) 0 work_id (working_db StartReconstruction []) = Inr (Some l, db1)"
    "fail_reconstruction ''t'' l ''MCP_EMPTY'' True 0 work_id db1 = Inr (TaskRetryWait, db2)"
    "map lg_sequence (db_events db2) = [1, 2]" "tl_task l = ''w''" "tl_attempt l = 1"
proof -
  have "case claimed_work of Some (Some l, db) \<Rightarrow> tl_task l = ''w'' \<and> tl_attempt l = 1
      \<and> (case fail_reconstruction ''t'' l ''MCP_EMPTY'' True 0 work_id db of Inl e \<Rightarrow> False
         | Inr (st, db2) \<Rightarrow> st = TaskRetryWait \<and> map lg_sequence (db_events db2) = [1, 2]) | _ \<Rightarrow> False"
    by code_simp
  then obtain l db1 where c: "claimed_work = Some (Some l, db1)"
    and l: "tl_task l = ''w''" "tl_attempt l = 1"
    and r: "case fail_reconstruction ''t'' l ''MCP_EMPTY'' True 0 work_id db1 of Inl e \<Rightarrow> False
         | Inr (st, db2) \<Rightarrow> st = TaskRetryWait \<and> map lg_sequence (db_events db2) = [1, 2]"
    by (auto split: option.splits prod.splits)
  from r obtain db2 where f: "fail_reconstruction ''t'' l ''MCP_EMPTY'' True 0 work_id db1 = Inr (TaskRetryWait, db2)"
    and s: "map lg_sequence (db_events db2) = [1, 2]"
    by (simp split: sum.split_asm prod.split_asm)
  from c have "claim_next_reconstruction_task ''t'' ''me'' 1 (\<lambda>_. False) 0 work_id (working_db StartReconstruction [])
      = Inr (Some l, db1)"
    by (simp add: claimed_work_def split: sum.split_asm)
  from that [OF this f s l] show ?thesis .
qed

section \<open>What every history keeps\<close>


lemma working_ready: "events_dense (working_db ty refs)" "log_presentable (working_db ty refs)" "task_keys_distinct (working_db ty refs)"
  by (simp_all add: working_db_def sample_invoice_def events_dense_def event_sequence_def log_presentable_def
      task_keys_distinct_def)

lemma step_of:
  fixes m :: "'a tx"
  assumes "transaction t (forget m)" "m db = Inr (a, db')"
  shows "pipeline_step t db db'"
proof -
  have "forget m db = Inr ((), db')" using assms(2) by (simp add: forget_def tx_bind_def tx_return_def)
  then show ?thesis
    unfolding pipeline_step_def
    by (intro exI [of _ "\<lambda>n :: nat. forget m"] exI [of _ "[]"] exI [of _ "Inr ()"]) (simp add: assms(1))
qed

lemma sample_run:
  obtains db' where "(pipeline_step ''t'')\<^sup>*\<^sup>* (working_db StartReconstruction []) db'" "map lg_sequence (db_events db') = [1, 2]"
proof (rule sample_worker_history)
  fix l db1 db2
  assume claim: "claim_next_reconstruction_task ''t'' ''me'' 1 (\<lambda>_. False) 0 work_id (working_db StartReconstruction []) = Inr (Some l, db1)"
    and fail: "fail_reconstruction ''t'' l ''MCP_EMPTY'' True 0 work_id db1 = Inr (TaskRetryWait, db2)"
    and seq: "map lg_sequence (db_events db2) = [1, 2]"
  have "pipeline_step ''t'' (working_db StartReconstruction []) db1"
    by (rule step_of [OF transaction.intros(9) claim])
  moreover have "pipeline_step ''t'' db1 db2"
    by (rule step_of [OF transaction.intros(11) fail])
  ultimately have run: "(pipeline_step ''t'')\<^sup>*\<^sup>* (working_db StartReconstruction []) db2" by auto
  from that [OF this seq] show ?thesis .
qed




end
