(* ===== verification/Shapes.thy ===== *)
theory Shapes
  imports Pipeline
begin

text \<open>
  The shape of the rows: which values the columns of tasks, attempts and invoices take together, in
  every history of the pipeline.
\<close>

section \<open>Well-shaped rows\<close>

text \<open>
  A task is owned exactly while it runs; it has been attempted unless it waits for its first claim;
  only bindings of evidence are held back; nothing is ever merely leased.
\<close>

definition task_shaped :: "task_row \<Rightarrow> bool" where
  "task_shaped w =
     ((tk_owner w \<noteq> None \<longleftrightarrow> tk_state w = TaskRunning) \<and> (tk_expires w \<noteq> None \<longleftrightarrow> tk_state w = TaskRunning)
      \<and> (tk_attempt w = 0 \<longleftrightarrow> tk_state w = TaskPending \<or> tk_state w = TaskHeld)
      \<and> (tk_state w = TaskHeld \<longrightarrow> tk_type w = BindAccessEvidence)
      \<and> (tk_state w = TaskRetryWait \<longrightarrow> tk_not_before w \<noteq> None \<and> tk_attempt w < max_automatic_attempts)
      \<and> (tk_state w = TaskCompleted \<longrightarrow> tk_completed w \<noteq> None)
      \<and> (tk_attempt w \<noteq> 0 \<longrightarrow> tk_started w \<noteq> None)
      \<and> tk_state w \<noteq> TaskLeased)"

definition attempt_shaped :: "attempt_row \<Rightarrow> bool" where
  "attempt_shaped a =
     (0 < at_number a \<and> at_owner a \<noteq> None \<and> at_expires a \<noteq> None \<and> at_started a \<noteq> None
      \<and> (at_completed a = None \<longleftrightarrow> at_state a = TaskRunning)
      \<and> at_state a \<in> {TaskRunning, TaskCompleted, TaskRetryWait, TaskBlocked, TaskFailed})"

definition intake_states :: "string set" where
  "intake_states = range intake_value"

definition aggregate_states :: "string set" where
  "aggregate_states =
     {''RECEIVED'', ''INITIAL_PROCESSING'', ''RECONSTRUCTING'', ''NEEDS_EVIDENCE'', ''BLOCKED'',
      ''READY_FOR_REVIEW'', ''DISPUTED'', ''APPROVED_FOR_PAYMENT'', ''READY_TO_SEND'', ''SEND_FAILED''}"

definition invoice_shaped :: "invoice_row \<Rightarrow> bool" where
  "invoice_shaped r =
     (in_intake_state r \<in> intake_states \<and> in_aggregate r \<in> aggregate_states \<and> in_status r = in_aggregate r)"

definition well_shaped :: "db \<Rightarrow> bool" where
  "well_shaped db =
     ((\<forall>w \<in> set (db_tasks db). task_shaped w) \<and> (\<forall>a \<in> set (db_attempts db). attempt_shaped a)
      \<and> (\<forall>r \<in> set (db_invoices db). invoice_shaped r))"

lemma intake_states [simp]:
  "''RECEIVED'' \<in> intake_states" "''INITIAL_PROCESSING'' \<in> intake_states"
  "''READY_FOR_RECONSTRUCTION'' \<in> intake_states" "''REQUIRED_FIELD_MISSING'' \<in> intake_states"
  "''EXTRACTION_FAILED'' \<in> intake_states" "''BLOCKED_SOURCE_VERSION_UNAVAILABLE'' \<in> intake_states"
  unfolding intake_states_def
  using intake_value.simps by (metis rangeI)+

lemma aggregate_states [simp]:
  "''RECEIVED'' \<in> aggregate_states" "''INITIAL_PROCESSING'' \<in> aggregate_states"
  "''RECONSTRUCTING'' \<in> aggregate_states" "''NEEDS_EVIDENCE'' \<in> aggregate_states" "''BLOCKED'' \<in> aggregate_states"
  "''READY_FOR_REVIEW'' \<in> aggregate_states" "''SEND_FAILED'' \<in> aggregate_states"
  "outcome_status ty \<in> aggregate_states"
  by (simp_all add: aggregate_states_def outcome_status_def)

section \<open>Statements that keep the shape\<close>

abbreviation shapes :: "db \<Rightarrow> db \<Rightarrow> bool" where
  "shapes \<equiv> maintains well_shaped"

lemma set_update_rows: "x \<in> set (update_rows p f xs) \<Longrightarrow> \<exists>y \<in> set xs. x = (if p y then f y else y)"
  by (auto simp: update_rows_def)

lemma shape_task_update:
  "(\<And>w. task_shaped w \<Longrightarrow> p w \<Longrightarrow> task_shaped (f w)) \<Longrightarrow> keeps shapes (tx_update db_tasks_update p f)"
  by (auto simp: keeps_def maintains_def well_shaped_def tx_simps dest!: set_update_rows)

lemma shape_attempt_update:
  "(\<And>a. attempt_shaped a \<Longrightarrow> p a \<Longrightarrow> attempt_shaped (f a)) \<Longrightarrow> keeps shapes (tx_update db_attempts_update p f)"
  by (auto simp: keeps_def maintains_def well_shaped_def tx_simps dest!: set_update_rows)

lemma shape_task: "task_shaped w \<Longrightarrow> keeps shapes (tx_append db_tasks_update w)"
  by (auto simp: keeps_def maintains_def well_shaped_def tx_simps)

lemma shape_attempt: "attempt_shaped a \<Longrightarrow> keeps shapes (tx_append db_attempts_update a)"
  by (auto simp: keeps_def maintains_def well_shaped_def tx_simps)

lemma shape_invoice: "invoice_shaped r \<Longrightarrow> keeps shapes (tx_append db_invoices_update r)"
  by (auto simp: keeps_def maintains_def well_shaped_def tx_simps)

lemma shape_event: "keeps shapes (insert_event e)"
  by (auto simp: keeps_def maintains_def well_shaped_def insert_event_Inr)

lemma shape_lock:
  assumes "st \<in> intake_states" "ag \<in> aggregate_states"
  shows "keeps shapes (lock_invoice_and_advance t i st ag ag k now cs)"
  using assms by (auto simp: keeps_def maintains_def well_shaped_def lock_Inr invoice_shaped_def dest!: set_update_rows)

lemma shape_append:
  "(\<And>g db. db_tasks (upd g db) = db_tasks db \<and> db_attempts (upd g db) = db_attempts db
     \<and> db_invoices (upd g db) = db_invoices db) \<Longrightarrow> keeps shapes (tx_append upd row)"
  by (auto simp: keeps_def maintains_def well_shaped_def tx_simps)

lemma shape_update:
  "(\<And>g db. db_tasks (upd g db) = db_tasks db \<and> db_attempts (upd g db) = db_attempts db
     \<and> db_invoices (upd g db) = db_invoices db) \<Longrightarrow> keeps shapes (tx_update upd p f)"
  by (auto simp: keeps_def maintains_def well_shaped_def tx_simps)

lemma keeps_prod: "(\<And>a b. keeps R (k a b)) \<Longrightarrow> keeps R (case p of (a, b) \<Rightarrow> k a b)"
  by (cases p) simp

lemmas shape_intros = keeps_prod shape_task_update shape_attempt_update shape_task shape_attempt shape_invoice shape_event
  shape_lock inv_frame.keeps_intros shape_append shape_update

lemma shape_forget: "keeps shapes m \<Longrightarrow> keeps shapes (forget m)"
  unfolding forget_def by (intro shape_intros)

section \<open>Leases\<close>

lemma new_task_shaped [simp]:
  "st = TaskPending \<or> st = TaskHeld \<and> ty = BindAccessEvidence \<Longrightarrow> task_shaped (new_task t i v ty st u a c refs s now)"
  by (auto simp: task_shaped_def new_task_def)

lemma shape_begin: "keeps shapes (begin_attempt w worker secs now)"
  unfolding begin_attempt_def
  by (intro shape_intros) (auto simp: task_shaped_def attempt_shaped_def split: option.splits)

lemma shape_finish: "keeps shapes (finish_task t l s now)"
  unfolding finish_task_def
  by (intro shape_intros) (auto simp: task_shaped_def attempt_shaped_def leased_row_def)

lemma shape_release:
  assumes "\<And>w. task_shaped w \<Longrightarrow> task_shaped (f w)"
  shows "keeps shapes (release_lease t l err r f now)"
  unfolding release_lease_def
  by (intro shape_intros assms)
    (auto simp: task_shaped_def attempt_shaped_def leased_row_def released_state_def retries_def)

lemma summarised_shaped [simp]: "task_shaped (summarised s w) = task_shaped w"
  by (simp add: task_shaped_def summarised_def)

lemma shape_enqueue: "task_shaped w \<Longrightarrow> keeps shapes (enqueue_task w)"
  unfolding enqueue_task_def by (intro shape_intros)

lemma shape_require: "keeps shapes (require_lease t l)"
  unfolding require_lease_def by (intro shape_intros)

lemma shape_next:
  assumes "\<And>w. keeps shapes (k (Some w))" "keeps shapes (k None)"
  shows "keeps shapes (tx_bind (tx_read f) k)"
  using assms by (intro shape_intros) (metis option.exhaust)

lemmas shape_work = shape_begin shape_finish shape_release shape_enqueue shape_require shape_intros

section \<open>Transactions\<close>

lemma shape_receipts:
  "keeps shapes (reserve_ingestion t key hash actor display invoice source)"
  "keeps shapes (record_source_stored t key hash stored)"
  "keeps shapes (complete_duplicate_ingestion t key hash invoice source sha snapshot)"
  "keeps shapes (finalize_received_invoice t c now ids)"
  unfolding reserve_ingestion_def insert_ingestion_def record_source_stored_def with_ingestion_def update_ingestion_def
    complete_duplicate_ingestion_def stored_snapshot_def finalize_received_invoice_def insert_received_def
  by (intro shape_intros; simp add: received_invoice_def invoice_shaped_def)+

lemma failed_intake_state [simp]: "failed_intake_state l err r \<in> intake_states"
  by (simp add: failed_intake_state_def)

lemma shape_extraction_leases:
  "keeps shapes (start_attempt t (lease_of worker expires w s) now)"
  "keeps shapes (close_task t xl s' now)" "keeps shapes (release_task t xl err r now)"
  "keeps shapes (assert_current_lease t xl)"
  unfolding start_attempt_def close_task_def release_task_def assert_current_lease_def
  by (intro shape_intros; auto simp: task_shaped_def attempt_shaped_def lease_task_def failed_state_def will_retry_def
      lease_of_def split: option.splits)+

lemma task_shaped_waiting [simp]:
  "task_shaped (reconstruction_task t xl i refs now)" "task_shaped (retried_task t i user a w now k)"
  by (simp_all add: task_shaped_def reconstruction_task_def retried_task_def)

lemma shape_extraction:
  "keeps shapes (claim_next_extraction_task t worker secs locked now ids)"
  "keeps shapes (complete_extraction t xl validation response ref now ids)"
  "keeps shapes (fail_extraction t xl err retryable now ids)"
  "keeps shapes (retry_extraction_task t invoice key expected user display now ids)"
  unfolding claim_next_extraction_task_def complete_extraction_def insert_run_def insert_claim_set_def
    hand_to_reconstruction_def ask_for_evidence_def fail_extraction_def retry_extraction_task_def reserve_retry_def
    requeue_def Let_def
  by (intro shape_extraction_leases shape_work; auto)+

lemma shape_reconstruction:
  "keeps shapes (claim_next_reconstruction_task t worker secs locked now ids)"
  "keeps shapes (complete_reconstruction t cl events days coverage state roles correlation query issues now ids)"
  "keeps shapes (fail_reconstruction t cl err retryable now ids)"
  unfolding claim_next_reconstruction_task_def complete_reconstruction_def persist_version_def insert_reconstruction_def
    insert_event_version_def insert_day_def insert_coverage_def announce_version_def emit_rule_task_def
    finish_reconstruction_def fail_reconstruction_def Let_def
  by (auto intro!: shape_work split: option.splits prod.splits sum.splits)

lemma shape_rule:
  "keeps shapes (claim_next_rule_task t worker secs locked now ids)"
  "keeps shapes (complete_rule t ul q candidates decision now ids)"
  "keeps shapes (fail_rule t ul err retryable now ids)"
  unfolding claim_next_rule_task_def complete_rule_def insert_search_def insert_applicable_rule_def finish_rule_def
    emit_judgment_task_def announce_rule_def fail_rule_def Let_def
  by (auto intro!: shape_work split: option.splits prod.splits)

lemma shape_judgment:
  "keeps shapes (claim_next_judgment_task t worker secs locked now)"
  "keeps shapes (complete_judgment t jl inputs now ids)"
  "keeps shapes (fail_judgment t jl err now)"
  unfolding claim_next_judgment_task_def complete_judgment_def freeze_recommendation_def insert_recommendation_def
    insert_judgments_def finish_judgment_def announce_recommendation_def enqueue_held_access_binding_def
    fail_judgment_def Let_def
  by (auto intro!: shape_work split: option.splits prod.splits sum.splits)

lemma shape_access_leases:
  "keeps shapes (finish_access t al now)" "keeps shapes (release_access_evidence t invoice now)"
  unfolding finish_access_def release_access_evidence_def
  by (intro shape_intros; auto simp: task_shaped_def owned_row_def held_task_def)+

lemma shape_access:
  "keeps shapes (claim_next_access_evidence_task t worker secs locked now)"
  "keeps shapes (complete_access_binding t al now ids)"
  "keeps shapes (release_access_evidence t invoice now)"
  unfolding claim_next_access_evidence_task_def complete_access_binding_def require_access_lease_def
    bind_snapshot_def announce_binding_def emit_reconstruction_task_def Let_def
  by (auto intro!: shape_access_leases shape_work split: option.splits sum.splits)

lemma shape_send_event: "keeps shapes (emit_send_event t i ty st actor err message now e)"
proof -
  have "shapes db db'" if "emit_send_event t i ty st actor err message now e db = Inr (u, db')" for db db' u
  proof -
    from that obtain ag s db1 where
      ag: "ag = (if ty = ''correspondence.sent'' then (case find_invoice t i db of None \<Rightarrow> ''READY_TO_SEND''
        | Some r \<Rightarrow> in_status r) else ''SEND_FAILED'')"
      and lock: "lock_invoice_and_advance t i ''READY_FOR_RECONSTRUCTION'' ag ag 1 now None db = Inr (s, db1)"
      and ev: "\<exists>x. insert_event x db1 = Inr (u, db')"
      by (auto simp: emit_send_event_def tx_bind_Inr tx_read_Inr simp del: One_nat_def)
    have "ag \<in> aggregate_states" if "well_shaped db"
      using that ag outcome_status_def aggregate_states(8)
      by (auto simp: well_shaped_def invoice_shaped_def find_invoice_def aggregate_states_def dest!: find_SomeD
          split: option.splits if_splits)
    then have "shapes db db1" using inv_frame.keepsD [OF shape_lock lock] by (simp add: maintains_def)
    moreover from ev have "shapes db1 db'" using inv_frame.keepsD [OF shape_event] by blast
    ultimately show ?thesis by (simp add: maintains_def)
  qed
  then show ?thesis by (auto simp: keeps_def)
qed

lemma shape_decision:
  "keeps shapes (approve_and_seal t rec_id version digest key user display kind outcome now ids)"
  "keeps shapes (draft_from_sealed t seal_id prose ids)"
  "keeps shapes (send_transaction t draft_id key approver checks answer now ids)"
  unfolding approve_and_seal_def seal_recommendation_def insert_approval_def insert_seal_def advance_and_emit_def
    draft_from_sealed_def send_transaction_def prepare_send_def insert_send_def insert_gate_runs_def
    record_outcome_def Let_def
  by (auto intro!: shape_send_event shape_intros split: option.splits prod.splits sum.splits)

lemma transaction_shapes: "transaction t m \<Longrightarrow> keeps shapes m"
  by (induction rule: transaction.induct)
    (intro shape_forget shape_receipts shape_extraction shape_reconstruction shape_rule shape_judgment shape_access
      shape_decision)+

section \<open>Every history\<close>

text \<open>
  C25: the columns of a row agree in every history. If tasks, attempts and invoices are well shaped,
  they are after any number of committed or restarted transactions: a task has an owner and an
  expiry exactly while it runs, an attempt count of zero exactly while it waits for its first claim
  or is held, a time to wait for and attempts left while it waits for a retry; only evidence
  bindings are held; an attempt is open exactly while it runs; an invoice has an intake state of
  the enumeration, and one of ten aggregate statuses, shown twice.
\<close>

theorem pipeline_well_shaped:
  assumes "(pipeline_step t)\<^sup>*\<^sup>* db db'"
    and "\<forall>w \<in> set (db_tasks db). task_shaped w" "\<forall>a \<in> set (db_attempts db). attempt_shaped a"
    and "\<forall>r \<in> set (db_invoices db). invoice_shaped r"
  shows "(\<forall>w \<in> set (db_tasks db'). task_shaped w) \<and> (\<forall>a \<in> set (db_attempts db'). attempt_shaped a)
    \<and> (\<forall>r \<in> set (db_invoices db'). invoice_shaped r)"
proof -
  have "shapes db db'"
    by (rule keeps_run [of shapes, OF inv_frame.frame_refl _ transaction_shapes assms(1)]) (rule inv_frame.frame_trans)
  with assms(2-4) show ?thesis by (simp add: maintains_def well_shaped_def)
qed

theorem pipeline_well_shaped_witness:
  "\<exists>db'. (pipeline_step ''t'')\<^sup>*\<^sup>* (working_db StartReconstruction []) db' \<and> map lg_sequence (db_events db') = [1, 2]
     \<and> (\<forall>w \<in> set (db_tasks db'). task_shaped w)"
proof -
  obtain db' where run: "(pipeline_step ''t'')\<^sup>*\<^sup>* (working_db StartReconstruction []) db'"
    "map lg_sequence (db_events db') = [1, 2]" by (rule sample_run)
  have "\<forall>w \<in> set (db_tasks (working_db StartReconstruction [])). task_shaped w"
    "\<forall>a \<in> set (db_attempts (working_db StartReconstruction [])). attempt_shaped a"
    "\<forall>r \<in> set (db_invoices (working_db StartReconstruction [])). invoice_shaped r"
    by (simp_all add: working_db_def sample_work_def sample_invoice_def empty_db_def task_shaped_def invoice_shaped_def)
  from pipeline_well_shaped [OF run(1) this] have "\<forall>w \<in> set (db_tasks db'). task_shaped w" ..
  with run show ?thesis by (intro exI [of _ db'] conjI)
qed

text \<open>
  The transitions are not those of \<open>require_transition\<close>: completed claims take an invoice from
  \<open>INITIAL_PROCESSING\<close> past \<open>CLAIMS_EXTRACTED\<close>, which the table does not allow.
\<close>

lemma claims_extracted_is_skipped:
  "require_transition InitialProcessing ReadyForReconstruction \<noteq> Inr ()"
  "require_transition InitialProcessing RequiredFieldMissing \<noteq> Inr ()"
  by (simp_all add: require_transition_def guard_else_def)

end
