(* ===== verification/VersionFacts.thy ===== *)
theory VersionFacts
  imports Shapes
begin

text \<open>
  What a committed completion of each stage leaves in the tables it writes: one frozen
  recommendation for the same inputs, a rule only where one was verified, evidence bound only where
  it was verified, one invoice for one upload.
\<close>

section \<open>Unchanged tables\<close>

abbreviation same :: "(db \<Rightarrow> 'a) \<Rightarrow> db \<Rightarrow> db \<Rightarrow> bool" where
  "same f db db' \<equiv> f db' = f db"

interpretation same: tx_frame "same f" for f :: "db \<Rightarrow> 'a"
  by unfold_locales auto

lemma same_lock: "(\<And>g db. f (db_invoices_update g db) = f db) \<Longrightarrow> keeps (same f) (lock_invoice_and_advance t i st ag su k now cs)"
  by (auto simp: keeps_def lock_Inr)

lemma same_event:
  "(\<And>g db. f (db_events_update g db) = f db) \<Longrightarrow> (\<And>g db. f (db_outbox_update g db) = f db) \<Longrightarrow> keeps (same f) (insert_event e)"
  by (auto simp: keeps_def insert_event_Inr)

lemma same_append: "(\<And>g db. f (upd g db) = f db) \<Longrightarrow> keeps (same f) (tx_append upd row)"
  by (auto simp: keeps_def tx_simps)

lemma same_update: "(\<And>g db. f (upd g db) = f db) \<Longrightarrow> keeps (same f) (tx_update upd p h)"
  by (auto simp: keeps_def tx_simps)

lemmas same_intros = keeps_prod same.keeps_intros same_lock same_event same_append same_update

section \<open>The frozen recommendation\<close>

definition decided :: "db \<Rightarrow> recommendation_row list \<times> judgment_row list \<times> day_row list" where
  "decided db = (db_recs db, db_judgments db, db_days db)"

lemma decided_rest:
  "keeps (same decided) (finish_judgment t l now)"
  "keeps (same decided) (announce_recommendation t l r i v now e)"
  "keeps (same decided) (enqueue_held_access_binding t l i now)"
  "keeps (same decided) (require_lease t l)"
  unfolding finish_judgment_def finish_task_def announce_recommendation_def enqueue_held_access_binding_def
    enqueue_task_def require_lease_def Let_def
  by (intro same_intros; simp add: decided_def)+

definition judgment_rows ::
  "string \<Rightarrow> judgment_lease \<Rightarrow> string \<Rightarrow> string option \<Rightarrow> day_judgment list \<Rightarrow> day_row list \<Rightarrow> judgment_row list" where
  "judgment_rows t l i rule js days =
     [judgment_row_of t l i rule j d.
       j \<leftarrow> js, d \<leftarrow> filter (\<lambda>d. dy_tenant d = t \<and> dy_reconstruction d = jl_reconstruction l \<and> dy_date d = dj_date j) days]"

lemma append_judgments:
  "tx_for ds (\<lambda>d. tx_insert ix db_judgments db_judgments_update judgment_key (g d)) db = Inr (u, db') \<Longrightarrow>
     db' = db_judgments_update (\<lambda>rows. rows @ map g ds) db"
proof (induction ds arbitrary: db)
  case (Cons d ds)
  let ?db = "db_judgments_update (\<lambda>rows. rows @ [g d]) db"
  from Cons.prems have "tx_for ds (\<lambda>d. tx_insert ix db_judgments db_judgments_update judgment_key (g d)) ?db = Inr (u, db')"
    by (simp add: tx_simps)
  from Cons.IH [OF this] show ?case by (simp add: comp_def)
qed (simp add: tx_simps)

lemma insert_judgments_rows:
  "insert_judgments t l i rule js db = Inr (u, db') \<Longrightarrow>
     db' = db_judgments_update (\<lambda>rows. rows @ judgment_rows t l i rule js (db_days db)) db"
  unfolding insert_judgments_def
proof (induction js arbitrary: db)
  case Nil
  then show ?case by (simp add: tx_simps judgment_rows_def)
next
  case (Cons j js)
  from Cons.prems obtain u1 db1 where
    one: "tx_for (filter (\<lambda>d. dy_tenant d = t \<and> dy_reconstruction d = jl_reconstruction l \<and> dy_date d = dj_date j) (db_days db))
      (\<lambda>d. tx_insert ''judgment_day_version_idx'' db_judgments db_judgments_update judgment_key
        (judgment_row_of t l i rule j d)) db = Inr (u1, db1)"
    and rest: "tx_for js (\<lambda>j. tx_bind (tx_read (\<lambda>db. filter (\<lambda>d. dy_tenant d = t \<and> dy_reconstruction d = jl_reconstruction l
           \<and> dy_date d = dj_date j) (db_days db)))
         (\<lambda>rows. tx_for rows (\<lambda>d. tx_insert ''judgment_day_version_idx'' db_judgments db_judgments_update judgment_key
             (judgment_row_of t l i rule j d)))) db1 = Inr (u, db')"
    by (auto simp: tx_simps)
  from Cons.IH [OF rest] append_judgments [OF one] show ?case by (simp add: judgment_rows_def comp_def)
qed

lemma frozen_rows:
  assumes "freeze_recommendation t l r row now ids db = Inr (u, db')"
    and "recommendation_print row \<notin> recommendation_print ` set (db_recs db)"
  shows "db_recs db' = db_recs db @ [row]"
    "db_judgments db' = db_judgments db @ judgment_rows t l (re_id row) (re_rule row) (rec_judgments r) (db_days db)"
proof -
  from assms obtain db1 db2 db3 where
    i: "db1 = db_recs_update (\<lambda>rows. rows @ [row]) db"
    and j: "insert_judgments t l (re_id row) (re_rule row) (rec_judgments r) db1 = Inr ((), db2)"
    and k: "tx_then (finish_judgment t l now)
     (tx_then (announce_recommendation t l r (re_id row) (re_version row) now (ids 1))
     (if holds_access_task r then enqueue_held_access_binding t l (ids 2) now else tx_return ())) db2 = Inr (u, db')"
    by (auto simp: freeze_recommendation_def insert_recommendation_def tx_bind_Inr tx_then_Inr [of _ _ db]
        tx_read_Inr tx_insert_Inr tx_then_Inr [of "insert_judgments _ _ _ _ _"])
  have "keeps (same decided) (tx_then (finish_judgment t l now)
     (tx_then (announce_recommendation t l r (re_id row) (re_version row) now (ids 1))
     (if holds_access_task r then enqueue_held_access_binding t l (ids 2) now else tx_return ())))"
    by (intro same_intros decided_rest)
  from same.keepsD [OF this k] insert_judgments_rows [OF j] i
  show "db_recs db' = db_recs db @ [row]"
    "db_judgments db' = db_judgments db @ judgment_rows t l (re_id row) (re_rule row) (rec_judgments r) (db_days db)"
    by (simp_all add: decided_def)
qed

lemma completed_judgment:
  assumes "complete_judgment t l days now ids db = Inr (c, db')"
  obtains r where "resolve_recommendation days = Inr r"
    "(case List.find (\<lambda>x. recommendation_print x = (t, jl_reconstruction l, recommendation_fingerprint days)) (db_recs db) of
        Some x \<Rightarrow> c = judgment_completion_of x \<and> decided db' = decided db
      | None \<Rightarrow>
          let row = make_recommendation t l (ids 0) (next_recommendation_version t (jl_reconstruction l) db)
            (verified_rule_id t (jl_reconstruction l) db) (recommendation_fingerprint days) r
          in c = judgment_completion_of row \<and> db_recs db' = db_recs db @ [row]
            \<and> db_judgments db' = db_judgments db @ judgment_rows t l (re_id row) (re_rule row) (rec_judgments r) (db_days db))"
proof -
  from assms obtain r where r: "resolve_recommendation days = Inr r"
    by (auto simp: complete_judgment_def tx_simps split: sum.splits)
  let ?f = "List.find (\<lambda>x. recommendation_print x = (t, jl_reconstruction l, recommendation_fingerprint days)) (db_recs db)"
  let ?row = "make_recommendation t l (ids 0) (next_recommendation_version t (jl_reconstruction l) db)
            (verified_rule_id t (jl_reconstruction l) db) (recommendation_fingerprint days) r"
  show ?thesis
  proof (cases ?f)
    case (Some x)
    with assms r have "finish_judgment t l now db = Inr ((), db')" "c = judgment_completion_of x"
      by (auto simp: complete_judgment_def tx_simps require_lease_Inr)
    with same.keepsD [OF decided_rest(1)] Some r that show ?thesis by simp
  next
    case None
    with assms r have f: "freeze_recommendation t l r ?row now ids db = Inr ((), db')" "c = judgment_completion_of ?row"
      by (auto simp: complete_judgment_def tx_simps require_lease_Inr Let_def)
    have "recommendation_print ?row \<notin> recommendation_print ` set (db_recs db)"
      using None by (auto simp: find_None_iff recommendation_print_def make_recommendation_def)
    from frozen_rows [OF f(1) this] f(2) None r that show ?thesis by (simp add: Let_def)
  qed
qed

text \<open>What completing leaves: the recommendation that was there, or a new version of it.\<close>

definition frozen_as ::
  "string \<Rightarrow> judgment_lease \<Rightarrow> recommendation \<Rightarrow> recommendation_row \<Rightarrow> db \<Rightarrow> db \<Rightarrow> bool" where
  "frozen_as t l r x db db' =
     (if \<exists>y \<in> set (db_recs db). recommendation_print y = recommendation_print x
       then db_recs db' = db_recs db \<and> db_judgments db' = db_judgments db
       else db_recs db' = db_recs db @ [x]
         \<and> (\<forall>y \<in> set (db_recs db). re_tenant y = t \<and> re_reconstruction y = jl_reconstruction l \<longrightarrow> re_version y < re_version x)
         \<and> re_state x = ''FROZEN'' \<and> re_type x = recommendation_value (rec_type r) \<and> re_digest x = rec_digest r
         \<and> (re_claimed x, re_supported x, re_disputed x) = (rec_claimed r, rec_supported r, rec_disputed r)
         \<and> re_rule x = verified_rule_id t (jl_reconstruction l) db
         \<and> db_judgments db' = db_judgments db @ judgment_rows t l (re_id x) (re_rule x) (rec_judgments r) (db_days db))"

lemma le_foldr_max_int: "(x :: int) \<in> set xs \<Longrightarrow> x \<le> foldr max xs a"
  by (induction xs) auto

lemma next_recommendation_above:
  "y \<in> set (db_recs db) \<Longrightarrow> re_tenant y = t \<Longrightarrow> re_reconstruction y = i \<Longrightarrow> re_version y < next_recommendation_version t i db"
proof -
  assume "y \<in> set (db_recs db)" "re_tenant y = t" "re_reconstruction y = i"
  then have "re_version y \<le> foldr max (map re_version (filter (\<lambda>r. re_tenant r = t \<and> re_reconstruction r = i) (db_recs db))) 0"
    by (intro le_foldr_max_int) auto
  then show ?thesis by (simp add: next_recommendation_version_def)
qed

lemma judgment_freezes:
  assumes "complete_judgment t l days now ids db = Inr (c, db')"
  shows "\<exists>r x. resolve_recommendation days = Inr r \<and> c = judgment_completion_of x \<and> frozen_as t l r x db db'
    \<and> List.find (\<lambda>x. recommendation_print x = (t, jl_reconstruction l, recommendation_fingerprint days)) (db_recs db') = Some x"
proof -
  let ?p = "(t, jl_reconstruction l, recommendation_fingerprint days)"
  let ?find = "\<lambda>db. List.find (\<lambda>x. recommendation_print x = ?p) (db_recs db)"
  from assms obtain r where r: "resolve_recommendation days = Inr r"
    and res: "(case ?find db of Some x \<Rightarrow> c = judgment_completion_of x \<and> decided db' = decided db
      | None \<Rightarrow> let row = make_recommendation t l (ids 0) (next_recommendation_version t (jl_reconstruction l) db)
            (verified_rule_id t (jl_reconstruction l) db) (recommendation_fingerprint days) r
          in c = judgment_completion_of row \<and> db_recs db' = db_recs db @ [row]
            \<and> db_judgments db' = db_judgments db @ judgment_rows t l (re_id row) (re_rule row) (rec_judgments r) (db_days db))"
    by (rule completed_judgment)
  show ?thesis
  proof (cases "?find db")
    case (Some x)
    from find_SomeD [OF this] have "x \<in> set (db_recs db)" "recommendation_print x = ?p" by auto
    with Some res r show ?thesis by (auto simp: frozen_as_def decided_def)
  next
    case None
    let ?x = "make_recommendation t l (ids 0) (next_recommendation_version t (jl_reconstruction l) db)
            (verified_rule_id t (jl_reconstruction l) db) (recommendation_fingerprint days) r"
    have p: "recommendation_print ?x = ?p" by (simp add: make_recommendation_def recommendation_print_def)
    from None have new: "\<not> (\<exists>y \<in> set (db_recs db). recommendation_print y = ?p)" by (auto simp: find_None_iff)
    from None res have rows: "c = judgment_completion_of ?x" "db_recs db' = db_recs db @ [?x]"
      "db_judgments db' = db_judgments db @ judgment_rows t l (re_id ?x) (re_rule ?x) (rec_judgments r) (db_days db)"
      by (simp_all add: Let_def)
    from new rows(2,3) have "frozen_as t l r ?x db db'"
      unfolding frozen_as_def p by (simp add: make_recommendation_def next_recommendation_above)
    moreover have "?find db' = Some ?x" using None p by (simp add: rows(2) find_append)
    ultimately show ?thesis using r rows(1) by blast
  qed
qed


section \<open>Rules\<close>

definition ruled :: "db \<Rightarrow> rule_row list \<times> day_row list \<times> reconstruction_row list" where
  "ruled db = (db_rules db, db_days db, db_recons db)"

definition task_keys :: "db \<Rightarrow> (string \<times> string) list" where
  "task_keys db = map task_pk (db_tasks db)"

lemma same_task_update: "(\<And>w. task_pk (f w) = task_pk w) \<Longrightarrow> keeps (same task_keys) (tx_update db_tasks_update p f)"
  by (auto simp: keeps_def tx_simps task_keys_def map_update_rows)

lemmas key_intros = same_task_update same_intros

lemma ruled_rest:
  "keeps (same ruled) (insert_search t l q candidates decision run now)" "keeps (same ruled) (finish_rule t l now)"
  "keeps (same ruled) (emit_judgment_task t l i now)" "keeps (same ruled) (announce_rule t l run decision rule now e)"
  unfolding insert_search_def finish_rule_def finish_task_def emit_judgment_task_def enqueue_task_def announce_rule_def Let_def
  by (intro same_intros; simp add: ruled_def)+

lemma rule_keys:
  "keeps (same task_keys) (insert_search t l q candidates decision run now)" "keeps (same task_keys) (finish_rule t l now)"
  "keeps (same task_keys) (announce_rule t l run decision rule now e)"
  "keeps (same task_keys) (insert_applicable_rule t ul run v i now)"
  unfolding insert_search_def finish_rule_def finish_task_def announce_rule_def insert_applicable_rule_def Let_def
  by (intro key_intros; simp add: task_keys_def task_pk_def)+

lemma inserted_rule:
  assumes "insert_applicable_rule t l run v i now db = Inr (rate, db')"
  shows "\<exists>from_day. cv_rate_minor v = Some rate \<and> rc_effective_from (cv_candidate v) = Some from_day
    \<and> db_rules db' = db_rules db @ (if (t, ul_reconstruction l) \<in> rule_recon_key ` set (db_rules db) then []
        else [rule_row_of t l run v i now rate from_day])
    \<and> db_days db' = update_rows (\<lambda>d. dy_tenant d = t \<and> dy_reconstruction d = ul_reconstruction l)
        (\<lambda>d. d\<lparr>dy_applicable_rate := Some rate\<rparr>) (db_days db)
    \<and> db_recons db' = db_recons db"
proof -
  from assms obtain from_day where some: "cv_rate_minor v = Some rate" "rc_effective_from (cv_candidate v) = Some from_day"
    by (auto simp: insert_applicable_rule_def tx_simps split: option.splits)
  let ?row = "rule_row_of t l run v i now rate from_day"
  let ?days = "update_rows (\<lambda>d. dy_tenant d = t \<and> dy_reconstruction d = ul_reconstruction l)
        (\<lambda>d. d\<lparr>dy_applicable_rate := Some rate\<rparr>)"
  let ?db = "db_days_update ?days
      (if rule_recon_key ?row \<in> rule_recon_key ` set (db_rules db) then db else db_rules_update (\<lambda>rows. rows @ [?row]) db)"
  let ?tail = "tx_bind (tx_read (\<lambda>db. (filter (\<lambda>d. dy_tenant d = t \<and> dy_reconstruction d = ul_reconstruction l) (db_days db),
              \<exists>r \<in> set (db_rules db). ru_tenant r = t \<and> ru_id r = i))) (\<lambda>(days, known).
            tx_then (tx_require (days = [] \<or> known) ''cd_rule_binding_rule_fk'')
            (tx_then (tx_for days (\<lambda>d. tx_insert_absent db_day_rules db_day_rules_update day_rule_key
                \<lparr>dl_tenant = t, dl_day = dy_id d, dl_rule = i\<rparr>))
            (tx_return rate)))"
  have "?tail ?db = Inr (rate, db')"
    using assms by (simp add: insert_applicable_rule_def some tx_then_Inr tx_insert_absent_Inr tx_update_Inr split del: if_split)
  moreover have "keeps (same ruled) ?tail" by (intro same_intros) (simp add: ruled_def)
  ultimately have "ruled db' = ruled ?db" by (rule same.keepsD [rotated])
  with some show ?thesis by (simp add: ruled_def rule_recon_key_def rule_row_of_def)
qed

text \<open>The rule of a completion, and whether it hands on.\<close>

definition rule_effect :: "string \<Rightarrow> rule_lease \<Rightarrow> applicability_decision \<Rightarrow> rule_completion \<Rightarrow> int \<Rightarrow> db \<Rightarrow> db \<Rightarrow> bool" where
  "rule_effect t l decision c now db db' =
     (case (if ad_state decision = RuleVerified then ad_accepted decision else None) of
        None \<Rightarrow> uc_rule c = None \<and> uc_rate c = None \<and> db_rules db' = db_rules db \<and> db_days db' = db_days db
      | Some v \<Rightarrow> \<exists>i rate from_day. uc_rule c = Some i \<and> uc_rate c = Some rate
          \<and> cv_rate_minor v = Some rate \<and> rc_effective_from (cv_candidate v) = Some from_day
          \<and> db_rules db' = db_rules db @ (if (t, ul_reconstruction l) \<in> rule_recon_key ` set (db_rules db) then []
              else [rule_row_of t l (uc_run c) v i now rate from_day])
          \<and> db_days db' = update_rows (\<lambda>d. dy_tenant d = t \<and> dy_reconstruction d = ul_reconstruction l)
              (\<lambda>d. d\<lparr>dy_applicable_rate := Some rate\<rparr>) (db_days db))"

lemma option_tag: "(\<exists>y. (if a = None then None else Some x) = Some y) \<longleftrightarrow> (\<exists>y. a = Some y)"
  by auto

lemma rule_steps:
  assumes "complete_rule t l q candidates decision now ids db = Inr (c, db')"
    and "\<forall>r \<in> set (db_searches db). search_key r \<noteq> (t, ul_reconstruction l, qy_fingerprint q)"
  obtains db1 rate db2 db3 db4 where
    "insert_search t l q candidates decision (ids 0) now db = Inr ((), db1)"
    "(case verified_choice decision of
        None \<Rightarrow> rate = None \<and> db2 = db1
      | Some v \<Rightarrow> \<exists>x. rate = Some x \<and> insert_applicable_rule t l (ids 0) v (ids 1) now db1 = Inr (x, db2))"
    "finish_rule t l now db2 = Inr ((), db3)"
    "(if rate \<noteq> None \<or> coverage_complete t (ul_reconstruction l) db3
      then emit_judgment_task t l (ids 2) now else tx_return ()) db3 = Inr ((), db4)"
    "announce_rule t l (ids 0) decision (if rate = None then None else Some (ids 1)) now (ids 3) db4 = Inr ((), db')"
    "uc_run c = ids 0" "uc_rule c = (if rate = None then None else Some (ids 1))" "uc_rate c = rate"
proof -
  have none: "List.find (\<lambda>r. search_key r = (t, ul_reconstruction l, qy_fingerprint q)) (db_searches db) = None"
    using assms(2) by (simp add: find_None_iff)
  from assms(1) none obtain db1 rate db2 db3 db4 where
    s1: "insert_search t l q candidates decision (ids 0) now db = Inr ((), db1)"
    and r: "(case verified_choice decision of
                 None \<Rightarrow> tx_return None
               | Some v \<Rightarrow> tx_bind (insert_applicable_rule t l (ids 0) v (ids 1) now) (\<lambda>rate. tx_return (Some rate))) db1 = Inr (rate, db2)"
    and s3: "finish_rule t l now db2 = Inr ((), db3)"
      "(if rate \<noteq> None \<or> coverage_complete t (ul_reconstruction l) db3
      then emit_judgment_task t l (ids 2) now else tx_return ()) db3 = Inr ((), db4)"
    "announce_rule t l (ids 0) decision (if rate = None then None else Some (ids 1)) now (ids 3) db4 = Inr ((), db')"
    "uc_run c = ids 0" "uc_rule c = (if rate = None then None else Some (ids 1))" "uc_rate c = rate"
    by (auto simp: complete_rule_def Let_def tx_bind_Inr tx_then_Inr tx_read_Inr tx_return_Inr require_lease_Inr option_tag
        simp del: One_nat_def split del: if_split)
  from r have s2: "(case verified_choice decision of None \<Rightarrow> rate = None \<and> db2 = db1
      | Some v \<Rightarrow> \<exists>x. rate = Some x \<and> insert_applicable_rule t l (ids 0) v (ids 1) now db1 = Inr (x, db2))"
    by (auto simp: tx_simps simp del: One_nat_def split: option.splits)
  from s1 s2 s3 show ?thesis by (rule that)
qed

lemma rule_effects:
  assumes "complete_rule t l q candidates decision now ids db = Inr (c, db')"
    and "\<forall>r \<in> set (db_searches db). search_key r \<noteq> (t, ul_reconstruction l, qy_fingerprint q)"
  shows "rule_effect t l decision c now db db'"
    and "if uc_rule c \<noteq> None \<or> coverage_complete t (ul_reconstruction l) db
      then \<exists>w \<in> set (db_tasks db'). task_identity w = (t, tl_invoice l, JudgeDays, 1, task_input_fingerprint JudgeDays
        [object_ref ''reconstruction'' (ul_reconstruction l) 1])
      else task_keys db' = task_keys db"
proof -
  from assms obtain db1 rate db2 db3 db4 where
    s1: "insert_search t l q candidates decision (ids 0) now db = Inr ((), db1)"
    and s2: "(case verified_choice decision of
        None \<Rightarrow> rate = None \<and> db2 = db1
      | Some v \<Rightarrow> \<exists>x. rate = Some x \<and> insert_applicable_rule t l (ids 0) v (ids 1) now db1 = Inr (x, db2))"
    and s3: "finish_rule t l now db2 = Inr ((), db3)"
    and s4: "(if rate \<noteq> None \<or> coverage_complete t (ul_reconstruction l) db3
      then emit_judgment_task t l (ids 2) now else tx_return ()) db3 = Inr ((), db4)"
    and s5: "announce_rule t l (ids 0) decision (if rate = None then None else Some (ids 1)) now (ids 3) db4 = Inr ((), db')"
    and c: "uc_run c = ids 0" "uc_rule c = (if rate = None then None else Some (ids 1))" "uc_rate c = rate"
    by (rule rule_steps)
  have "keeps (same ruled) (if rate \<noteq> None \<or> coverage_complete t (ul_reconstruction l) db3
      then emit_judgment_task t l (ids 2) now else tx_return ())"
    by (intro same_intros ruled_rest)
  note k4 = same.keepsD [OF this s4]
  note k1 = same.keepsD [OF ruled_rest(1) s1] and k3 = same.keepsD [OF ruled_rest(2) s3]
    and k5 = same.keepsD [OF ruled_rest(4) s5]
  show "rule_effect t l decision c now db db'"
  proof (cases "verified_choice decision")
    case None
    with s2 k1 k3 k4 k5 c show ?thesis by (simp add: rule_effect_def ruled_def flip: verified_choice_def)
  next
    case (Some v)
    with s2 obtain x where x: "rate = Some x" "insert_applicable_rule t l (ids 0) v (ids 1) now db1 = Inr (x, db2)" by auto
    from inserted_rule [OF x(2)] Some x(1) k1 k3 k4 k5 c show ?thesis
      by (auto simp: rule_effect_def ruled_def simp flip: verified_choice_def)
  qed
  have "db_recons db2 = db_recons db1"
    using s2 by (auto split: option.splits dest!: inserted_rule)
  then have covered: "coverage_complete t (ul_reconstruction l) db3 = coverage_complete t (ul_reconstruction l) db"
    using k1 k3 by (simp add: coverage_complete_def ruled_def)
  show "if uc_rule c \<noteq> None \<or> coverage_complete t (ul_reconstruction l) db
      then \<exists>w \<in> set (db_tasks db'). task_identity w = (t, tl_invoice l, JudgeDays, 1, task_input_fingerprint JudgeDays
        [object_ref ''reconstruction'' (ul_reconstruction l) 1])
      else task_keys db' = task_keys db"
  proof (cases "rate \<noteq> None \<or> coverage_complete t (ul_reconstruction l) db")
    case True
    with s4 covered have "emit_judgment_task t l (ids 2) now db3 = Inr ((), db4)" by simp
    then have "\<exists>w \<in> set (db_tasks db4). task_identity w = (t, tl_invoice l, JudgeDays, 1, task_input_fingerprint JudgeDays
        [object_ref ''reconstruction'' (ul_reconstruction l) 1])"
      by (auto simp: emit_judgment_task_def enqueue_task_def tx_simps new_task_def task_identity_def split: if_splits)
    moreover have "keeps (same db_tasks) (announce_rule t l (ids 0) decision (if rate = None then None else Some (ids 1)) now (ids 3))"
      unfolding announce_rule_def Let_def by (intro same_intros; simp)
    from same.keepsD [OF this s5] have "db_tasks db' = db_tasks db4" .
    ultimately show ?thesis using True c(2) by (cases rate) simp_all
  next
    case False
    with s4 covered have "db4 = db3" by (simp add: tx_simps)
    moreover have "task_keys db2 = task_keys db1"
      using s2 same.keepsD [OF rule_keys(4)] by (auto split: option.splits)
    ultimately show ?thesis
      using False c(2) same.keepsD [OF rule_keys(1) s1] same.keepsD [OF rule_keys(2) s3] same.keepsD [OF rule_keys(3) s5] by simp
  qed
qed

lemma rule_replayed:
  assumes "complete_rule t l q candidates decision now ids db = Inr (c, db')"
    and "\<exists>r \<in> set (db_searches db). search_key r = (t, ul_reconstruction l, qy_fingerprint q)"
  shows "db_rules db' = db_rules db" "db_days db' = db_days db" "task_keys db' = task_keys db"
proof -
  from assms(2) obtain run where
    "List.find (\<lambda>r. search_key r = (t, ul_reconstruction l, qy_fingerprint q)) (db_searches db) = Some run"
    by (cases "List.find (\<lambda>r. search_key r = (t, ul_reconstruction l, qy_fingerprint q)) (db_searches db)")
      (auto simp: find_None_iff)
  with assms(1) have "finish_rule t l now db = Inr ((), db')"
    by (auto simp: complete_rule_def tx_simps require_lease_Inr)
  from same.keepsD [OF ruled_rest(2) this] same.keepsD [OF rule_keys(2) this]
  show "db_rules db' = db_rules db" "db_days db' = db_days db" "task_keys db' = task_keys db" by (simp_all add: ruled_def)
qed

text \<open>
  C28: a rule exists only where one was verified. Completing the search of a reconstruction for the
  first time records the accepted candidate of a verified decision, with its rate, and gives that rate to
  every charged day; with any other decision no rule is recorded and no day is rated. The judgment is
  handed on exactly when there is a rule or the coverage of the reconstruction is complete;
  otherwise no task is added. A search that was completed before changes nothing of this.
\<close>

theorem rule_only_if_verified:
  assumes "complete_rule t l q candidates decision now ids db = Inr (c, db')"
  shows "if \<exists>r \<in> set (db_searches db). search_key r = (t, ul_reconstruction l, qy_fingerprint q)
    then db_rules db' = db_rules db \<and> db_days db' = db_days db \<and> task_keys db' = task_keys db
    else rule_effect t l decision c now db db'
      \<and> (if uc_rule c \<noteq> None \<or> coverage_complete t (ul_reconstruction l) db
         then \<exists>w \<in> set (db_tasks db'). task_identity w = (t, tl_invoice l, JudgeDays, 1, task_input_fingerprint JudgeDays
           [object_ref ''reconstruction'' (ul_reconstruction l) 1])
         else task_keys db' = task_keys db)"
  using rule_replayed [OF assms] rule_effects [OF assms] by auto

section \<open>Evidence\<close>

definition evidence :: "db \<Rightarrow> memory_row list \<times> verification_row list" where
  "evidence db = (db_memory db, db_verifications db)"

lemma evidence_rest:
  "keeps (same evidence) (finish_access t l now)" "keeps (same evidence) (announce_binding t l now e)"
  "keeps (same evidence) (emit_reconstruction_task t l i now)"
  unfolding finish_access_def announce_binding_def emit_reconstruction_task_def enqueue_task_def
  by (intro same_intros; simp add: evidence_def)+

lemma finish_access_keys: "keeps (same task_keys) (finish_access t l now)"
  unfolding finish_access_def by (intro key_intros; simp add: task_keys_def task_pk_def)+

text \<open>The rows of the memory after a binding: the snapshot of the lease is verified if it was pending.\<close>

definition bound :: "string \<Rightarrow> string \<Rightarrow> memory_row list \<Rightarrow> memory_row list" where
  "bound t ref = update_rows (\<lambda>m. mm_tenant m = t \<and> mm_public_ref m = ref \<and> mm_state m = ''PENDING'')
     (\<lambda>m. m\<lparr>mm_state := ''VERIFIED''\<rparr>)"

lemma access_first:
  assumes "complete_access_binding t l now ids db = Inr (r, db')"
    and "\<forall>v \<in> set (db_verifications db). verification_key v \<noteq> (t, tl_task l, al_snapshot l)"
  shows "\<exists>facts. load_snapshot_facts t (al_snapshot l) db = Inr facts
    \<and> (let checked = verify_access_snapshot facts (al_container l) (al_date l);
           v = verification_of t l (ids 0) facts checked
       in db_verifications db' = db_verifications db @ [v] \<and> ax_outcome r = vf_outcome v \<and> ax_requeued r = fst checked
         \<and> db_memory db' = (if fst checked then bound t (al_snapshot l) (db_memory db) else db_memory db)
         \<and> (\<not> fst checked \<longrightarrow> task_keys db' = task_keys db))"
proof -
  have none: "List.find (\<lambda>v. verification_key v = (t, tl_task l, al_snapshot l)) (db_verifications db) = None"
    using assms(2) by (simp add: find_None_iff)
  from assms(1) none obtain facts where f: "load_snapshot_facts t (al_snapshot l) db = Inr facts"
    by (auto simp: complete_access_binding_def require_access_lease_def tx_simps split: sum.splits)
  let ?checked = "verify_access_snapshot facts (al_container l) (al_date l)"
  let ?v = "verification_of t l (ids 0) facts ?checked"
  let ?db = "db_verifications_update (\<lambda>rows. rows @ [?v]) db"
  show ?thesis
  proof (cases "fst ?checked")
    case False
    with assms(1) none f have r: "ax_outcome r = vf_outcome ?v" "ax_requeued r = False"
      and fin: "finish_access t l now ?db = Inr ((), db')"
      by (auto simp: complete_access_binding_def require_access_lease_def tx_simps Let_def)
    from same.keepsD [OF evidence_rest(1) fin] same.keepsD [OF finish_access_keys fin] r False f show ?thesis
      by (simp add: evidence_def task_keys_def Let_def)
  next
    case True
    with assms(1) none f obtain db1 db2 db3 where r: "ax_outcome r = vf_outcome ?v" "ax_requeued r = True"
      and s: "bind_snapshot t (al_snapshot l) ?db = Inr ((), db1)"
        "announce_binding t l now (ids 1) db1 = Inr ((), db2)"
        "emit_reconstruction_task t l (ids 2) now db2 = Inr ((), db3)" "finish_access t l now db3 = Inr ((), db')"
      by (auto simp: complete_access_binding_def require_access_lease_def Let_def tx_then_Inr tx_bind_Inr tx_read_Inr
          tx_require_Inr tx_return_Inr tx_insert_Inr simp del: One_nat_def)
    from s(1) have "evidence db1 = (bound t (al_snapshot l) (db_memory db), db_verifications db @ [?v])"
      by (auto simp: bind_snapshot_def tx_simps evidence_def bound_def)
    with same.keepsD [OF evidence_rest(2) s(2)] same.keepsD [OF evidence_rest(3) s(3)] same.keepsD [OF evidence_rest(1) s(4)]
      r True f
    show ?thesis by (simp add: evidence_def Let_def)
  qed
qed

lemma access_again:
  assumes "complete_access_binding t l now ids db = Inr (r, db')"
    and "List.find (\<lambda>v. verification_key v = (t, tl_task l, al_snapshot l)) (db_verifications db) = Some v"
  shows "ax_outcome r = vf_outcome v \<and> \<not> ax_requeued r \<and> evidence db' = evidence db \<and> task_keys db' = task_keys db"
proof -
  from assms have r: "ax_outcome r = vf_outcome v" "\<not> ax_requeued r" and fin: "finish_access t l now db = Inr ((), db')"
    by (auto simp: complete_access_binding_def require_access_lease_def tx_simps)
  from same.keepsD [OF evidence_rest(1) fin] same.keepsD [OF finish_access_keys fin] r show ?thesis by simp
qed

lemma outcome_verified: "vf_outcome (verification_of t l i facts checked) = ''VERIFIED'' \<longleftrightarrow> fst checked"
  by (simp add: verification_of_def)


section \<open>Receipts\<close>

lemma finalized:
  assumes "finalize_received_invoice t c now ids db = Inr (s, db')"
  shows "\<exists>g. find_ingestion t (fr_key c) db = Some g \<and> ig_hash g = fr_hash c \<and>
    (if ig_state g = ''COMPLETED'' then db' = db \<and> ig_snapshot g = Some s
     else ig_stored g = Some (fr_stored c) \<and> s = receipt_snapshot (ig_invoice g) (ig_source g) c now
      \<and> (\<forall>r \<in> set (db_invoices db). in_tenant r = t \<longrightarrow> in_id r \<noteq> ig_invoice g \<and> in_sha256 r \<noteq> ss_sha256 (fr_stored c))
      \<and> db_invoices db' = db_invoices db @ [received_invoice t (ig_invoice g) c now]
      \<and> db_sources db' = db_sources db @ [received_source t (ig_invoice g) (ig_source g) c now]
      \<and> db_events db' = db_events db @ [received_event t (ig_invoice g) (ig_source g) c now (ids 1)]
      \<and> (\<exists>w. db_tasks db' = db_tasks db @ [w] \<and> tk_type w = ExtractInvoiceClaims \<and> tk_invoice w = ig_invoice g
           \<and> tk_state w = TaskPending \<and> tk_inputs w = [object_ref ''invoice_source'' (ig_source g) 1])
      \<and> db_ingestions db' = update_rows (\<lambda>x. ingestion_key x = (t, fr_key c))
          (\<lambda>x. x\<lparr>ig_state := ''COMPLETED'', ig_snapshot := Some s\<rparr>) (db_ingestions db))"
proof -
  from assms obtain g where g: "find_ingestion t (fr_key c) db = Some g" "ig_hash g = fr_hash c"
    by (auto simp: finalize_received_invoice_def with_ingestion_def tx_simps split: option.splits)
  show ?thesis
  proof (cases "ig_state g = ''COMPLETED''")
    case True
    with assms g show ?thesis
      by (auto simp: finalize_received_invoice_def with_ingestion_def stored_snapshot_def tx_simps split: option.splits)
  next
    case False
    with assms g show ?thesis
      by (intro exI [of _ g])
        (auto simp: finalize_received_invoice_def with_ingestion_def insert_received_def update_ingestion_def tx_simps
          insert_event_Inr new_task_def received_invoice_def invoice_key_def sha_key_def image_iff split: if_splits)
  qed
qed

lemma find_updated:
  "List.find p (update_rows q f xs) = map_option (\<lambda>x. if q x then f x else x) (List.find p xs)"
  if "\<And>x. p (f x) = p x" for p q f xs
  by (induction xs) (auto simp: update_rows_def that)

text \<open>
  C27: an upload becomes one invoice, once. Finalizing a request answers from its snapshot if it was
  completed, and then changes nothing. Otherwise the stored source is the one that was recorded, no
  invoice of the tenant has its hash or its identifier, and exactly one invoice, one source, one event and one
  pending extraction task of that source are appended, the invoice with the reserved identifier
  and hash. Finalizing again, at any time, gives the same answer and changes nothing.
\<close>

theorem receipt_finalized_once:
  assumes "finalize_received_invoice t c now ids db = Inr (s, db')"
  shows "(\<exists>g. find_ingestion t (fr_key c) db = Some g \<and> ig_hash g = fr_hash c \<and>
      (if ig_state g = ''COMPLETED'' then db' = db \<and> ig_snapshot g = Some s
       else ig_stored g = Some (fr_stored c) \<and> s = receipt_snapshot (ig_invoice g) (ig_source g) c now
        \<and> (\<forall>r \<in> set (db_invoices db). in_tenant r = t \<longrightarrow> in_id r \<noteq> ig_invoice g \<and> in_sha256 r \<noteq> ss_sha256 (fr_stored c))
        \<and> db_invoices db' = db_invoices db @ [received_invoice t (ig_invoice g) c now]
        \<and> db_sources db' = db_sources db @ [received_source t (ig_invoice g) (ig_source g) c now]
        \<and> db_events db' = db_events db @ [received_event t (ig_invoice g) (ig_source g) c now (ids 1)]
        \<and> (\<exists>w. db_tasks db' = db_tasks db @ [w] \<and> tk_type w = ExtractInvoiceClaims \<and> tk_invoice w = ig_invoice g
             \<and> tk_state w = TaskPending \<and> tk_inputs w = [object_ref ''invoice_source'' (ig_source g) 1])))
    \<and> finalize_received_invoice t c now2 ids2 db' = Inr (s, db')"
proof -
  from finalized [OF assms] obtain g where g: "find_ingestion t (fr_key c) db = Some g" "ig_hash g = fr_hash c"
    and eff: "if ig_state g = ''COMPLETED'' then db' = db \<and> ig_snapshot g = Some s
       else db_ingestions db' = update_rows (\<lambda>x. ingestion_key x = (t, fr_key c))
          (\<lambda>x. x\<lparr>ig_state := ''COMPLETED'', ig_snapshot := Some s\<rparr>) (db_ingestions db)"
    by (auto split: if_splits)
  have "ingestion_key g = (t, fr_key c)" using g(1) by (auto simp: find_ingestion_def dest: find_SomeD)
  with g eff obtain g' where g': "find_ingestion t (fr_key c) db' = Some g'" "ig_hash g' = fr_hash c"
    "ig_state g' = ''COMPLETED''" "ig_snapshot g' = Some s"
    by (cases "ig_state g = ''COMPLETED''") (auto simp: find_ingestion_def find_updated ingestion_key_def)
  then have "finalize_received_invoice t c now2 ids2 db' = Inr (s, db')"
    by (simp add: finalize_received_invoice_def with_ingestion_def stored_snapshot_def tx_run)
  with finalized [OF assms] show ?thesis by (auto split: if_splits)
qed

section \<open>Samples\<close>

definition held_db :: "task_type \<Rightarrow> json list \<Rightarrow> db" where
  "held_db ty refs = (working_db ty refs)\<lparr>db_tasks :=
     [(sample_work ty refs)\<lparr>tk_state := TaskRunning, tk_attempt := 1, tk_owner := Some ''me'', tk_expires := Some 9\<rparr>]\<rparr>"

definition sample_judgment_lease :: judgment_lease where
  "sample_judgment_lease =
     \<lparr>tl_task = ''w'', tl_invoice = ''i'', tl_attempt = 1, tl_worker = ''me'', tl_initiated = None, tl_actor = ''a'',
      jl_reconstruction = ''r'', jl_fingerprint = ''p''\<rparr>"

definition sample_ledger :: day_row where
  "sample_ledger =
     \<lparr>dy_tenant = ''t'', dy_id = ''d'', dy_reconstruction = ''r'', dy_invoice = ''i'', dy_date = Date 2026 6 8,
      dy_chargeability = ''CHARGEABLE'', dy_coverage = ''PRESENT_VERIFIED'', dy_state = ''SOURCE_COMPLETE'',
      dy_invoice_rate = 300, dy_applicable_rate = Some 200, dy_currency = ''USD'', dy_missing = []\<rparr>"

definition judged_db :: db where
  "judged_db = (held_db JudgeDays [])\<lparr>db_days := [sample_ledger]\<rparr>"

lemmas sample_state = held_db_def working_db_def empty_db_def sample_work_def sample_invoice_def
lemmas lease_run = require_lease_def holds_def task_at_def task_pk_def finish_task_def lock_invoice_and_advance_def
  insert_event_def insert_row_def find_invoice_def invoice_key_def update_rows_def

lemma sample_decision:
  obtains r where "resolve_recommendation [day_input_of sample_ledger] = Inr r" "rec_type r = DISPUTE"
    "map dj_date (rec_judgments r) = [Date 2026 6 8]" "map dj_discrepancy (rec_judgments r) = [100]"
proof -
  let ?r = "decide_days [day_input_of sample_ledger]"
  have "resolve_recommendation [day_input_of sample_ledger] = Inr ?r" by (simp add: resolve_recommendation_def)
  moreover have "rec_type ?r = DISPUTE" "map dj_date (rec_judgments ?r) = [Date 2026 6 8]"
    "map dj_discrepancy (rec_judgments ?r) = [100]"
    by (simp_all add: decide_days_def Let_def judge_day_def day_input_of_def sample_ledger_def)
  ultimately show ?thesis by (rule that)
qed

lemma sample_judged:
  assumes r: "resolve_recommendation days = Inr r" "rec_type r = DISPUTE" "map dj_date (rec_judgments r) = [Date 2026 6 8]"
  shows "\<exists>c db'. complete_judgment ''t'' sample_judgment_lease days 0 work_id judged_db = Inr (c, db')"
proof -
  from r(3) obtain j where j: "rec_judgments r = [j]" "dj_date j = Date 2026 6 8" by auto
  show ?thesis
    by (simp add: complete_judgment_def r(1,2) j judged_db_def sample_state sample_judgment_lease_def tx_run lease_run
        freeze_recommendation_def insert_recommendation_def insert_judgments_def sample_ledger_def
        finish_judgment_def announce_recommendation_def make_recommendation_def judgment_row_of_def judgment_key_def Let_def
        holds_access_task_def recommendation_print_def recommendation_version_key_def next_recommendation_version_def
        verified_rule_id_def judgment_completion_of_def event_key_def)
qed


text \<open>A rate verified for one charged day: the rule is recorded, the day rated, the judgment asked for.\<close>

definition sample_candidate :: rule_candidate where
  "sample_candidate =
     \<lparr>rc_clause_id = ''c'', rc_public_ref = ''p'', rc_clause_ref = ''1'', rc_rank = 1, rc_distance = 0,
      rc_clause_text = ''x'', rc_display_excerpt = ''x'', rc_rate_amount = None, rc_rate_currency = None,
      rc_rate_unit = None, rc_effective_from = Some (Date 2026 1 1), rc_effective_to = None,
      rc_scope_code = ''s'', rc_equipment_type = None, rc_route_code = None, rc_service_context = None,
      rc_verification_status = ''VERIFIED'', rc_source_locator = ''l'', rc_superseded = False\<rparr>"

definition sample_accepted :: candidate_validation where
  "sample_accepted =
     \<lparr>cv_candidate = sample_candidate, cv_state = ACCEPTED, cv_results = [], cv_rejection_code = None,
      cv_rate_minor = Some 200\<rparr>"

definition sample_rule_lease :: rule_lease where
  "sample_rule_lease =
     \<lparr>tl_task = ''w'', tl_invoice = ''i'', tl_attempt = 1, tl_worker = ''me'', tl_initiated = None, tl_actor = ''a'',
      ul_reconstruction = ''r'', ul_cutoff = 0, ul_fingerprint = ''p'', ul_carrier = ''c'', ul_scope = ''s'',
      ul_dates = [], ul_currency = ''USD''\<rparr>"

definition sample_query :: rule_query where
  "sample_query = \<lparr>qy_text = ''q'', qy_fingerprint = ''f'', qy_model = ''m'', qy_input_sha256 = ''h'', qy_index = ''x''\<rparr>"

definition sample_rule_decision :: applicability_decision where
  "sample_rule_decision =
     \<lparr>ad_state = RuleVerified, ad_accepted = Some sample_accepted, ad_validations = [sample_accepted], ad_public_error = None\<rparr>"

definition rated_db :: db where
  "rated_db = (held_db FindApplicableRule [])\<lparr>db_days := [sample_ledger\<lparr>dy_applicable_rate := None\<rparr>]\<rparr>"

lemma sample_rule_run:
  "\<exists>c db'. complete_rule ''t'' sample_rule_lease sample_query [sample_candidate] sample_rule_decision 0 work_id rated_db = Inr (c, db')"
  by (simp add: complete_rule_def rated_db_def sample_state sample_rule_lease_def sample_query_def sample_rule_decision_def
      sample_accepted_def sample_candidate_def tx_run lease_run insert_search_def candidate_row_of_def validation_of_def
      candidate_key_def search_key_def verified_choice_def insert_applicable_rule_def rule_row_of_def rule_recon_key_def
      day_rule_key_def sample_ledger_def finish_rule_def coverage_complete_def emit_judgment_task_def enqueue_task_def
      announce_rule_def Let_def new_task_def task_identity_def work_id_def event_key_def)

theorem rule_only_if_verified_witness:
  "\<exists>c db'. complete_rule ''t'' sample_rule_lease sample_query [sample_candidate] sample_rule_decision 0 work_id rated_db = Inr (c, db')
     \<and> uc_rate c = Some 200 \<and> map ru_rate (db_rules db') = [200] \<and> map dy_applicable_rate (db_days db') = [Some 200]
     \<and> JudgeDays \<in> tk_type ` set (db_tasks db')"
proof -
  from sample_rule_run obtain c db' where
    s: "complete_rule ''t'' sample_rule_lease sample_query [sample_candidate] sample_rule_decision 0 work_id rated_db = Inr (c, db')"
    by blast
  have e: "db_searches rated_db = []" "db_rules rated_db = []" "db_days rated_db = [sample_ledger\<lparr>dy_applicable_rate := None\<rparr>]"
    by (simp_all add: rated_db_def sample_state)
  from rule_only_if_verified [OF s] e have eff: "rule_effect ''t'' sample_rule_lease sample_rule_decision c 0 rated_db db'"
    and task: "uc_rule c \<noteq> None \<Longrightarrow> \<exists>w \<in> set (db_tasks db'). task_identity w = (''t'', ''i'', JudgeDays, 1,
      task_input_fingerprint JudgeDays [object_ref ''reconstruction'' ''r'' 1])"
    by (simp_all add: sample_rule_lease_def)
  from eff e have r: "uc_rule c \<noteq> None" "uc_rate c = Some 200" "map ru_rate (db_rules db') = [200]"
    "map dy_applicable_rate (db_days db') = [Some 200]"
    by (auto simp: rule_effect_def verified_choice_def sample_rule_decision_def sample_accepted_def sample_candidate_def
        rule_row_of_def sample_rule_lease_def sample_ledger_def update_rows_def)
  from task [OF r(1)] have "JudgeDays \<in> tk_type ` set (db_tasks db')" by (force simp: task_identity_def)
  with s r(2-4) show ?thesis by (intro exI [of _ c] exI [of _ db'] conjI)
qed

text \<open>A snapshot of another container: the binding is refused, and recorded as refused.\<close>

definition sample_access_lease :: access_lease where
  "sample_access_lease =
     \<lparr>tl_task = ''w'', tl_invoice = ''i'', tl_attempt = 1, tl_worker = ''me'', tl_initiated = None, tl_actor = ''a'',
      al_cutoff = 0, al_snapshot = ''m'', al_container = ''k'', al_date = Date 2026 6 8\<rparr>"

definition sample_memory :: "string \<Rightarrow> memory_row" where
  "sample_memory container =
     \<lparr>mm_tenant = ''t'', mm_public_ref = ''m'', mm_container = container, mm_type = ''ACCESS_SNAPSHOT'', mm_source = ''a'',
      mm_state = ''PENDING'', mm_from = Some (Date 2026 6 8),
      mm_facts = [(''access_status'', JStr ''AVAILABLE''), (''gate_status'', JStr ''OPEN''), (''blocking_hold'', JStr ''NONE'')]\<rparr>"

definition evidence_db :: "string \<Rightarrow> db" where
  "evidence_db container = (held_db BindAccessEvidence [])\<lparr>db_memory := [sample_memory container],
     db_artifacts := [\<lparr>ar_tenant = ''t'', ar_id = ''a'', ar_public_ref = ''a'', ar_version = ''v'', ar_verification = ''VERIFIED''\<rparr>]\<rparr>"

lemma sample_access_run:
  "\<exists>r db'. complete_access_binding ''t'' sample_access_lease 0 work_id (evidence_db ''k'') = Inr (r, db')"
  by (simp add: complete_access_binding_def require_access_lease_def access_held_def evidence_db_def sample_state
      sample_access_lease_def sample_memory_def tx_run lease_run load_snapshot_facts_def find_snapshot_def source_state_def
      fact_text_def verify_access_snapshot_def verification_key_def verification_of_def bind_snapshot_def announce_binding_def
      emit_reconstruction_task_def prior_refs_def enqueue_task_def new_task_def task_identity_def finish_access_def
      owned_row_def work_id_def event_key_def Let_def)


text \<open>A stored upload becomes an invoice.\<close>

definition sample_stored :: stored_source where
  "sample_stored = \<lparr>ss_bucket = ''b'', ss_key = ''o'', ss_version = ''v'', ss_sha256 = ''h'', ss_bytes = 9\<rparr>"

definition sample_receipt :: finalize_receipt where
  "sample_receipt =
     \<lparr>fr_key = ''q'', fr_hash = ''p'', fr_carrier = ''c'', fr_display = ''f'', fr_mime = ''application/pdf'',
      fr_stored = sample_stored, fr_actor = None, fr_actor_display = ''a'', fr_provenance = ''SYNTHETIC'', fr_disclosure = []\<rparr>"

definition uploaded_db :: db where
  "uploaded_db = empty_db\<lparr>db_ingestions :=
     [\<lparr>ig_tenant = ''t'', ig_key = ''q'', ig_hash = ''p'', ig_state = ''SOURCE_STORED_DB_PENDING'', ig_initiated = None,
       ig_actor = ''a'', ig_invoice = ''i'', ig_source = ''s'', ig_stored = Some sample_stored, ig_snapshot = None,
       ig_duplicate = None\<rparr>]\<rparr>"

lemma sample_receipt_run:
  "\<exists>s db'. finalize_received_invoice ''t'' sample_receipt 0 work_id uploaded_db = Inr (s, db')"
  by (simp add: finalize_received_invoice_def with_ingestion_def find_ingestion_def uploaded_db_def sample_receipt_def
      ingestion_key_def tx_run insert_received_def insert_event_def insert_row_def update_ingestion_def)

theorem receipt_finalized_once_witness:
  "\<exists>s db'. finalize_received_invoice ''t'' sample_receipt 0 work_id uploaded_db = Inr (s, db')
     \<and> map in_id (db_invoices db') = [''i''] \<and> map so_id (db_sources db') = [''s''] \<and> map tk_invoice (db_tasks db') = [''i'']
     \<and> finalize_received_invoice ''t'' sample_receipt 5 work_id db' = Inr (s, db')"
proof -
  from sample_receipt_run obtain s db' where
    r: "finalize_received_invoice ''t'' sample_receipt 0 work_id uploaded_db = Inr (s, db')" by blast
  have g: "find_ingestion ''t'' (fr_key sample_receipt) uploaded_db = Some g \<Longrightarrow> ig_invoice g = ''i'' \<and> ig_source g = ''s''
    \<and> ig_state g = ''SOURCE_STORED_DB_PENDING''" for g
    by (auto simp: find_ingestion_def uploaded_db_def sample_receipt_def ingestion_key_def)
  have e: "db_invoices uploaded_db = []" "db_sources uploaded_db = []" "db_tasks uploaded_db = []"
    by (simp_all add: uploaded_db_def)
  note p = receipt_finalized_once [OF r, of 5 work_id]
  from p [THEN conjunct1] e g have "map in_id (db_invoices db') = [''i'']" "map so_id (db_sources db') = [''s'']"
    "map tk_invoice (db_tasks db') = [''i'']"
    by (auto simp: received_invoice_def received_source_def)
  with r p [THEN conjunct2] show ?thesis by (intro exI [of _ s] exI [of _ db'] conjI)
qed

end
