(* ===== verification/Handoff.thy ===== *)
theory Handoff
  imports Pipeline IntakeTaskFacts
begin

text \<open>
  What one stage writes and the next one reads: the claims of a validated invoice become the
  container, the rate and the charged days of its reconstruction.
\<close>

section \<open>Calendar days in a row\<close>

lemma days_before_year_mono:
  assumes "y \<le> z"
  shows "days_before_year y \<le> days_before_year z"
  using assms by (induction z rule: int_ge_induct) (auto simp: days_before_year_Suc)

lemma days_before_month_mono:
  assumes "m \<le> n" "1 \<le> m" "n \<le> 12"
  shows "days_before_month y m \<le> days_before_month y n"
  using assms(1,3)
proof (induction n rule: int_ge_induct)
  case (step n)
  with assms(2) have "days_before_month y (n + 1) = days_before_month y n + days_in_month y n"
    by (intro days_before_month_Suc) auto
  with step days_in_month_pos [of y n] show ?case by simp
qed simp

lemma day_of_year:
  assumes "valid_date (Date y m d)"
  shows "1 \<le> days_before_month y m + d" "days_before_month y m + d \<le> (if is_leap y then 366 else 365)"
proof -
  from assms have m: "1 \<le> m" "m \<le> 12" and d: "1 \<le> d" "d \<le> days_in_month y m" by simp_all
  have "0 \<le> days_before_month y m" by (simp add: days_before_month_def)
  with d show "1 \<le> days_before_month y m + d" by simp
  have "days_before_month y m + days_in_month y m \<le> (if is_leap y then 366 else 365)"
    using month_cases [OF m] by (elim disjE) (simp_all add: days_before_month_def days_in_month_def)
  with d show "days_before_month y m + d \<le> (if is_leap y then 366 else 365)" by simp
qed

lemma toordinal_less:
  assumes "valid_date a" "valid_date b" "a < b"
  shows "toordinal a < toordinal b"
proof -
  obtain y m d where a: "a = Date y m d" by (cases a)
  obtain y' m' d' where b: "b = Date y' m' d'" by (cases b)
  from assms(3) consider "y + 1 \<le> y'" | "y = y'" "m + 1 \<le> m'" | "y = y'" "m = m'" "d < d'"
    by (auto simp: a b)
  then show ?thesis
  proof cases
    case 1
    have "toordinal a \<le> days_before_year (y + 1)"
      using day_of_year(2) [of y m d] assms(1) by (simp add: a days_before_year_Suc split: if_splits)
    also have "\<dots> \<le> days_before_year y'" using days_before_year_mono [OF 1] .
    finally show ?thesis using day_of_year(1) [of y' m' d'] assms(2) by (simp add: b)
  next
    case 2
    from assms(1,2) have "1 \<le> m" "m' \<le> 12" "d \<le> days_in_month y m" "1 \<le> d'" by (simp_all add: a b)
    with 2 days_before_month_Suc [of m y] days_before_month_mono [of "m + 1" m' y] show ?thesis
      by (simp add: a b)
  next
    case 3
    then show ?thesis by (simp add: a b)
  qed
qed

lemma toordinal_inj: "valid_date a \<Longrightarrow> valid_date b \<Longrightarrow> toordinal a = toordinal b \<Longrightarrow> a = b"
  using toordinal_less by (metis less_irrefl linorder_neqE)

lemma toordinal_le_iff: "valid_date a \<Longrightarrow> valid_date b \<Longrightarrow> toordinal a \<le> toordinal b \<longleftrightarrow> a \<le> b"
  using toordinal_less toordinal_inj by (metis linorder_not_le order_le_less)

lemma following_days:
  assumes "valid_date start" "valid_date stop" "toordinal start + int n \<le> toordinal stop"
  shows "valid_date ((next_day ^^ n) start) \<and> toordinal ((next_day ^^ n) start) = toordinal start + int n"
  using assms(3)
proof (induction n)
  case (Suc n)
  let ?d = "(next_day ^^ n) start"
  from Suc have d: "valid_date ?d" "toordinal ?d = toordinal start + int n" by simp_all
  with Suc.prems have "toordinal ?d < toordinal stop" by simp
  with d(1) assms(2) have "?d < stop" using toordinal_le_iff [of stop ?d] by simp
  also have "stop \<le> Date 9999 12 31" using assms(2) days_in_month_le by (cases stop) (force simp: days_in_month_def split: if_splits)
  finally have "valid_date (next_day ?d)" by (rule valid_next_day [OF d(1)])
  with toordinal_next_day [OF d(1)] d(2) show ?case by simp
qed (use assms in simp)

definition days_from :: "date \<Rightarrow> int \<Rightarrow> date list" where
  "days_from start k = map (\<lambda>i. (next_day ^^ i) start) [0..<nat k]"

lemma dates_from_days: "dates_from start (nat k) = map date_iso (days_from start k)"
  by (simp add: dates_from_def days_from_def)

lemma days_of_period:
  assumes "valid_date start" "valid_date stop" "start \<le> stop" "k = days_between stop start + 1"
  shows "length (days_from start k) = nat k" "hd (days_from start k) = start" "last (days_from start k) = stop"
    "set (days_from start k) = {d. valid_date d \<and> start \<le> d \<and> d \<le> stop}" "sorted (days_from start k)"
proof -
  let ?n = "nat k"
  have le: "toordinal start \<le> toordinal stop" using assms(1-3) toordinal_le_iff by blast
  with assms(4) have n: "0 < ?n" "int ?n = toordinal stop - toordinal start + 1" by (auto simp: days_between_def)
  have day: "valid_date ((next_day ^^ i) start)" "toordinal ((next_day ^^ i) start) = toordinal start + int i" if "i < ?n" for i
    using following_days [OF assms(1,2), of i] that n(2) by simp_all
  show "length (days_from start k) = nat k" by (simp add: days_from_def)
  show "hd (days_from start k) = start" using n(1) by (simp add: days_from_def upt_conv_Cons)
  have "toordinal ((next_day ^^ (?n - 1)) start) = toordinal stop" using day(2) [of "?n - 1"] n by simp
  with day(1) [of "?n - 1"] n(1) assms(2) have "(next_day ^^ (?n - 1)) start = stop" by (intro toordinal_inj) auto
  with n(1) show "last (days_from start k) = stop" by (simp add: days_from_def last_map)
  show "set (days_from start k) = {d. valid_date d \<and> start \<le> d \<and> d \<le> stop}"
  proof (intro set_eqI iffI)
    fix d assume "d \<in> set (days_from start k)"
    then obtain i where i: "i < ?n" "d = (next_day ^^ i) start" by (auto simp: days_from_def)
    from i(1) n(2) have "toordinal start + int i \<le> toordinal stop" by linarith
    with day [OF i(1)] i(2) have "valid_date d" "toordinal start \<le> toordinal d" "toordinal d \<le> toordinal stop" by simp_all
    with assms(1,2) toordinal_le_iff show "d \<in> {d. valid_date d \<and> start \<le> d \<and> d \<le> stop}" by blast
  next
    fix d assume d: "d \<in> {d. valid_date d \<and> start \<le> d \<and> d \<le> stop}"
    then have "toordinal start \<le> toordinal d" "toordinal d \<le> toordinal stop"
      using assms(1,2) toordinal_le_iff by blast+
    then obtain i where i: "toordinal d = toordinal start + int i" "i < ?n"
      using n(2) that [of "nat (toordinal d - toordinal start)"] by linarith
    with day [OF i(2)] d have "d = (next_day ^^ i) start" by (intro toordinal_inj) auto
    with i(2) show "d \<in> set (days_from start k)" by (auto simp: days_from_def)
  qed
  show "sorted (days_from start k)"
    unfolding days_from_def sorted_wrt_map sorted_map
    by (rule sorted_wrt_mono_rel [OF _ sorted_wrt_upt]) (use day in \<open>auto simp: toordinal_le_iff [symmetric]\<close>)
qed

section \<open>From claims to the reconstruction\<close>

lemma map_of_named:
  assumes "map vc_field cs = names" "distinct names" "claim_named cs f = Some c"
  shows "map_of (rev (map (\<lambda>c. (vc_field c, c)) cs)) f = Some c"
proof -
  from find_SomeD [OF assms(3) [unfolded claim_named_def]] have "c \<in> set cs" "vc_field c = f" by auto
  moreover have "distinct (map fst (rev (map (\<lambda>c. (vc_field c, c)) cs)))"
    using assms(1,2) by (simp add: rev_map [symmetric] comp_def)
  ultimately show ?thesis by (intro map_of_is_SomeI) auto
qed

lemma one_hit:
  "(\<And>s. s \<in> set xs \<Longrightarrow> \<not> p s) \<Longrightarrow>
     concat (map (\<lambda>s. if p s then [f] else []) (xs @ [y])) = (if p y then [f] else [])"
  by (induction xs) auto

text \<open>
  Claims that were there before under the identifier of the set have other fields, so that they
  hide none of the new ones.
\<close>

lemma completed_set_claims:
  assumes "complete_extraction t l v response ref now ids db = Inr (c, db')"
  shows "\<exists>old. set_claims t (le_invoice l) (ec_version c) db' = old @ map (\<lambda>x. (vc_field x, x)) (cl_claims v)
    \<and> fst ` set old \<inter> vc_field ` set (cl_claims v) = {}"
proof -
  let ?i = "ec_claim_set c"
  note rows = completed_claim_rows [OF assms]
  have sets: "[f. s \<leftarrow> db_claim_sets db', cl_tenant x = t \<and> cs_tenant s = cl_tenant x \<and> cs_id s = cl_set x
        \<and> cs_invoice s = le_invoice l \<and> cs_version s = ec_version c]
      = (if cl_tenant x = t \<and> cl_set x = ?i then [f] else [])" for x :: claim_row and f :: "string \<times> validated_claim"
  proof -
    let ?p = "\<lambda>s. cl_tenant x = t \<and> cs_tenant s = cl_tenant x \<and> cs_id s = cl_set x
        \<and> cs_invoice s = le_invoice l \<and> cs_version s = ec_version c"
    have miss: "\<not> ?p s" if "s \<in> set (db_claim_sets db)" for s
    proof
      assume p: "?p s"
      with bspec [OF rows(4) that] have "cs_version s < ec_version c" by blast
      with p show False by linarith
    qed
    show ?thesis
      unfolding rows(1)
      by (rule trans [OF one_hit [where p = ?p, OF miss] arg_cong [where f = "\<lambda>b. if b then [f] else []"]])
        (assumption, metis claim_set_row.select_convs(1,2,3,4))
  qed
  have "set_claims t (le_invoice l) (ec_version c) db'
      = concat (map (\<lambda>x. if cl_tenant x = t \<and> cl_set x = ?i then [(vc_field (cl_claim x), cl_claim x)] else []) (db_claims db'))"
    unfolding set_claims_def sets ..
  also have "\<dots> = concat (map (\<lambda>x. if cl_tenant x = t \<and> cl_set x = ?i then [(vc_field (cl_claim x), cl_claim x)] else []) (db_claims db))
      @ map (\<lambda>x. (vc_field x, x)) (cl_claims v)"
    by (simp add: rows(2) comp_def concat_map_singleton)
  finally have eq: "set_claims t (le_invoice l) (ec_version c) db' = \<dots>" .
  have "fst ` set (concat (map (\<lambda>x. if cl_tenant x = t \<and> cl_set x = ?i then [(vc_field (cl_claim x), cl_claim x)] else []) (db_claims db)))
      \<inter> vc_field ` set (cl_claims v) = {}"
    using rows(3) by (auto simp: claim_key_def split: if_splits)
  with eq show ?thesis by blast
qed

lemma stored_claim:
  assumes "complete_extraction t l v response ref now ids db = Inr (c, db')"
    and "map vc_field (cl_claims v) = required_claim_fields" "claim_named (cl_claims v) f = Some x"
  shows "map_of (rev (set_claims t (le_invoice l) (ec_version c) db')) f = Some x"
proof -
  from completed_set_claims [OF assms(1)] obtain old where
    eq: "set_claims t (le_invoice l) (ec_version c) db' = old @ map (\<lambda>x. (vc_field x, x)) (cl_claims v)" by blast
  from map_of_named [OF assms(2) required_fields_distinct assms(3)] show ?thesis
    by (simp add: eq map_add_def)
qed

lemma not_Nil [simp]: "date_iso d \<noteq> []"
  by (simp add: date_iso_def)

lemma container_not_Nil: "container_ok n \<Longrightarrow> n \<noteq> []"
  by (auto simp: container_ok_def)

text \<open>
  C26: what was validated is what is reconstructed. When claims that passed are stored, the
  reconstruction of that claim set reads back: the container as it was normalised, the daily rate to
  the minor unit in USD, and as charge dates exactly the calendar days of the period, in order,
  as many as the invoice charged, the first and the last as quoted, each written so that it parses
  to itself.
\<close>

theorem claims_reach_reconstruction:
  assumes "\<And>s d. parse s = Some d \<Longrightarrow> valid_date d"
    and "validate_extracted_claims parse raw pages = Inr v" "claims_passed v"
    and "complete_extraction t l v response ref now ids db = Inr (c, db')"
  shows "let read = set_claims t (le_invoice l) (claimed_version (reconstruction_refs l (ec_claim_set c) (ec_version c))) db' in
    \<exists>n d r start stop days.
      claim_named (cl_claims v) ''container_number'' = Some n \<and> NText (claim_container read) = vc_normal n
    \<and> claim_named (cl_claims v) ''daily_rate'' = Some r \<and> vc_amount r = Some (claim_rate read)
    \<and> vc_currency r = Some (claim_currency read)
    \<and> claim_named (cl_claims v) ''charged_days'' = Some d \<and> vc_normal d = NCount (int (length days))
    \<and> expand_charge_dates read = Inr (map date_iso days) \<and> map date_fromiso (map date_iso days) = map Some days
    \<and> sorted days \<and> set days = {x. valid_date x \<and> start \<le> x \<and> x \<le> stop}
    \<and> map_option vc_normal (claim_named (cl_claims v) ''period_start'') = Some (NText (date_iso (hd days)))
    \<and> map_option vc_normal (claim_named (cl_claims v) ''period_end'') = Some (NText (date_iso (last days)))"
proof -
  from assms(1-3) obtain s e d r y start stop k rate where vals:
    "claim_named (cl_claims v) ''period_start'' = Some s" "vc_normal s = NText (date_iso start)" "valid_date start"
    "claim_named (cl_claims v) ''period_end'' = Some e" "vc_normal e = NText (date_iso stop)" "valid_date stop"
    "claim_named (cl_claims v) ''charged_days'' = Some d" "vc_normal d = NCount k" "1 \<le> k"
    "claim_named (cl_claims v) ''daily_rate'' = Some r" "vc_amount r = Some rate" "vc_currency r = Some ''USD''"
    "start \<le> stop" "days_between stop start + 1 = k"
    by (rule passed_values)
  from assms(2,3) obtain n name where n: "claim_named (cl_claims v) ''container_number'' = Some n"
    "vc_normal n = NText name" "container_ok name"
    by (rule passed_container)
  let ?read = "set_claims t (le_invoice l) (ec_version c) db'"
  have version: "claimed_version (reconstruction_refs l (ec_claim_set c) (ec_version c)) = ec_version c"
    by (simp add: claimed_version_def reconstruction_refs_def ref_of_type_def object_ref_def json_get_def)
  note stored = stored_claim [OF assms(4) passed_names [OF assms(2,3)]]
  note days = days_of_period [OF vals(3,6,13) vals(14) [symmetric]]
  have one: "claim_container ?read = name" "claim_rate ?read = rate" "claim_currency ?read = ''USD''"
    using stored [OF n(1)] stored [OF vals(10)] n vals container_not_Nil [OF n(3)]
    by (simp_all add: claim_container_def claim_value_of_def claim_rate_def claim_currency_def normal_truthy_def normal_str_def)
  from vals(13) have "\<not> stop < start" by simp
  then have two: "expand_charge_dates ?read = Inr (map date_iso (days_from start k))"
    using stored [OF vals(1)] stored [OF vals(4)] vals
    by (simp add: expand_charge_dates_def claim_value_of_def normal_truthy_def normal_str_def date_iso_roundtrip
        dates_from_days [symmetric] days_between_def)
  have three: "map date_fromiso (map date_iso (days_from start k)) = map Some (days_from start k)"
    using days(4) by (auto simp: date_iso_roundtrip)
  show ?thesis
    unfolding Let_def version
    by (rule exI [of _ n], rule exI [of _ d], rule exI [of _ r], rule exI [of _ start],
        rule exI [of _ stop], rule exI [of _ "days_from start k"])
      (use n vals one two three days in \<open>simp\<close>)
qed

lemma required_names_distinct: "distinct (map vc_field (cl_claims v))"
  if "validate_extracted_claims parse raw pages = Inr v" "claims_passed v"
  using passed_names [OF that] required_fields_distinct by simp

theorem claims_reach_reconstruction_witness:
  "\<exists>v c db'. validate_extracted_claims date_fromiso (Some (\<lambda>f. Some (sample_entry f))) [sample_page] = Inr v
     \<and> complete_extraction ''t'' (sample_lease ''w1'' 1 7) v ''h'' None 5 some_ids (sample_db [sample_running]) = Inr (c, db')
     \<and> (\<exists>days. expand_charge_dates (set_claims ''t'' (le_invoice (sample_lease ''w1'' 1 7)) 1 db') = Inr (map date_iso days) \<and> sorted days)"
proof -
  from sample_passes obtain v where
    v: "validate_extracted_claims date_fromiso (Some (\<lambda>f. Some (sample_entry f))) [sample_page] = Inr v"
      "claims_passed v" by blast
  from sample_completion [OF v(2) required_names_distinct [OF v]] obtain c db' where
    s: "complete_extraction ''t'' (sample_lease ''w1'' 1 7) v ''h'' None 5 some_ids (sample_db [sample_running]) = Inr (c, db')"
      "ec_version c = 1" by blast
  have "claimed_version (reconstruction_refs (sample_lease ''w1'' 1 7) (ec_claim_set c) (ec_version c)) = 1"
    by (simp add: s(2) claimed_version_def reconstruction_refs_def ref_of_type_def object_ref_def json_get_def)
  with claims_reach_reconstruction [of date_fromiso, OF _ v s(1)] date_fromiso_valid
  have "\<exists>days. expand_charge_dates (set_claims ''t'' (le_invoice (sample_lease ''w1'' 1 7)) 1 db') = Inr (map date_iso days) \<and> sorted days"
    unfolding Let_def by metis
  with v(1) s(1) show ?thesis by blast
qed

end
