(* ===== verification/MemoryRead.thy ===== *)
theory MemoryRead
  imports Reconstruction Json
begin

text \<open>
  \<open>src/external/reconstruction_mcp.py\<close>: the one query a reconstruction reads its events with, sent
  to the MCP server or, if that is unusable, to the database itself. The server and the
  database are arguments: what they answer to a query.
\<close>

section \<open>Errors of the server\<close>

text \<open>
  The classes of \<open>cockroach_mcp.py\<close> that the callers tell apart; a 401 is also a permission error. The
  last one is an \<open>OAuthTokenError\<close>, raised before there is a client.
\<close>

datatype mcp_error = McpUnavailable | McpPermission | McpAuthentication | McpProtocol | TokenError

definition is_retryable_mcp :: "mcp_error \<Rightarrow> bool" where
  "is_retryable_mcp e = (e \<notin> {McpPermission, McpAuthentication, McpProtocol})"

definition safe_mcp_code :: "mcp_error \<Rightarrow> string" where
  "safe_mcp_code e =
     (case e of McpAuthentication \<Rightarrow> ''MCP_UNAUTHENTICATED'' | McpPermission \<Rightarrow> ''MCP_UNAUTHORIZED''
      | McpProtocol \<Rightarrow> ''MCP_MALFORMED'' | _ \<Rightarrow> ''MCP_UNAVAILABLE'')"

section \<open>The query\<close>

definition memory_view :: string where
  "memory_view = ''mcp_reconstruction_memory_v1''"

definition select_columns :: "string list" where
  "select_columns =
     [''public_ref'', ''event_type'', ''shipment_ref'', ''container_ref'', ''source_public_ref'',
      ''source_verification_state'', ''display_anchor'', ''provenance_classification'', ''occurred_at'',
      ''recorded_at'', ''observed_at'', ''effective_from'', ''effective_to'']"

definition unsafe_in_literal :: "char \<Rightarrow> bool" where
  "unsafe_in_literal c = (code c \<in> {39, 59, 92, 10})"

definition quote :: string where
  "quote = [CHR 39]"

definition quote_literal :: "string \<Rightarrow> mcp_error + string" where
  "quote_literal v =
     (if list_ex unsafe_in_literal v then Inl McpProtocol else Inr (quote @ v @ quote))"

definition build_reconstruction_query :: "string \<Rightarrow> string \<Rightarrow> string \<Rightarrow> mcp_error + string" where
  "build_reconstruction_query shipment container cutoff =
     rbind (quote_literal shipment) (\<lambda>s. rbind (quote_literal container) (\<lambda>c.
     rbind (quote_literal cutoff) (\<lambda>k. Inr
       (''SELECT '' @ join '', '' select_columns @ '' FROM '' @ memory_view @ '' WHERE shipment_ref = '' @ s
         @ '' AND container_ref = '' @ c @ '' AND recorded_at <= '' @ k
         @ '' ORDER BY occurred_at, public_ref''))))"

section \<open>Rows\<close>

text \<open>\<open>repr\<close> and \<open>str\<close> of a decoded JSON value.\<close>

definition repr_char :: "char \<Rightarrow> char \<Rightarrow> string" where
  "repr_char delim c =
     (let n = code c in
      if c = delim \<or> n = 92 then [CHR 92, c]
      else if n = 9 then [CHR 92, CHR ''t''] else if n = 10 then [CHR 92, CHR ''n'']
      else if n = 13 then [CHR 92, CHR ''r'']
      else if n < 32 \<or> 126 < n \<and> n < 161 \<or> n = 173 then CHR 92 # ''x'' @ [hex_digit (n div 16), hex_digit (n mod 16)]
      else [c])"

definition repr_str :: "string \<Rightarrow> string" where
  "repr_str s =
     (let delim = (if CHR 39 \<in> set s \<and> CHR 34 \<notin> set s then CHR 34 else CHR 39)
      in [delim] @ concat (map (repr_char delim) s) @ [delim])"

fun py_repr :: "json \<Rightarrow> string" where
  "py_repr JNull = ''None''"
| "py_repr (JBool b) = (if b then ''True'' else ''False'')"
| "py_repr (JInt n) = show_int n"
| "py_repr (JStr s) = repr_str s"
| "py_repr (JList xs) = ''['' @ join '', '' (map py_repr xs) @ '']''"
| "py_repr (JObj kvs) = ''{'' @ join '', '' (map (\<lambda>(k, v). repr_str k @ '': '' @ py_repr v) kvs) @ ''}''"

definition py_str :: "json \<Rightarrow> string" where
  "py_str v = (case v of JStr s \<Rightarrow> s | _ \<Rightarrow> py_repr v)"

definition row_field :: "(string \<times> json) list \<Rightarrow> string \<Rightarrow> string option" where
  "row_field row key =
     (case map_of row key of None \<Rightarrow> None | Some JNull \<Rightarrow> None | Some v \<Rightarrow> Some (py_str v))"

definition required_field :: "(string \<times> json) list \<Rightarrow> string \<Rightarrow> mcp_error + string" where
  "required_field row key =
     (case row_field row key of None \<Rightarrow> Inl McpProtocol | Some v \<Rightarrow> if v = '''' then Inl McpProtocol else Inr v)"

definition raw_row_of :: "(string \<times> json) list \<Rightarrow> mcp_error + raw_event_row" where
  "raw_row_of row =
     rbind (rmap (required_field row) (take 10 select_columns)) (\<lambda>v. Inr
       \<lparr>rw_public_ref = v ! 0, rw_type = v ! 1, rw_shipment_ref = v ! 2, rw_container_ref = v ! 3,
        rw_source_ref = v ! 4, rw_verification_state = v ! 5, rw_display_anchor = v ! 6, rw_provenance = v ! 7,
        rw_occurred_at = v ! 8, rw_recorded_at = v ! 9, rw_observed_at = row_field row ''observed_at'',
        rw_effective_from = row_field row ''effective_from'', rw_effective_to = row_field row ''effective_to'',
        rw_facts = []\<rparr>)"

record memory_result =
  mr_rows :: "raw_event_row list"
  mr_correlation :: string
  mr_elapsed :: int
  mr_count :: nat
  mr_request :: "string option"

text \<open>What the server returns for a query: rows of any JSON, and its trace.\<close>

record mcp_answer =
  ma_rows :: "json list"
  ma_correlation :: string
  ma_elapsed :: int
  ma_count :: nat
  ma_request :: "string option"

definition object_of :: "json \<Rightarrow> mcp_error + (string \<times> json) list" where
  "object_of v = (case v of JObj kvs \<Rightarrow> Inr kvs | _ \<Rightarrow> Inl McpProtocol)"

definition read_reconstruction_memory ::
  "(string \<Rightarrow> mcp_error + mcp_answer) \<Rightarrow> string \<Rightarrow> string \<Rightarrow> string \<Rightarrow> mcp_error + memory_result" where
  "read_reconstruction_memory select shipment container cutoff =
     rbind (build_reconstruction_query shipment container cutoff) (\<lambda>query.
     rbind (select query) (\<lambda>answer.
     rbind (rmap (\<lambda>v. rbind (object_of v) raw_row_of) (ma_rows answer)) (\<lambda>rows. Inr
       \<lparr>mr_rows = rows, mr_correlation = ma_correlation answer, mr_elapsed = ma_elapsed answer,
        mr_count = ma_count answer, mr_request = ma_request answer\<rparr>)))"

text \<open>Over the driver a value may be a native date or time, which is printed as the server prints it.\<close>

datatype driver_value = Native json | Timestamp datetime | Calendar date

definition driver_json :: "driver_value \<Rightarrow> json" where
  "driver_json v = (case v of Native j \<Rightarrow> j | Timestamp t \<Rightarrow> JStr (isoformat t) | Calendar d \<Rightarrow> JStr (date_iso d))"

definition driver_row :: "string list \<Rightarrow> driver_value list \<Rightarrow> (string \<times> json) list" where
  "driver_row names values = zip names (map driver_json values)"

text \<open>The names and rows the database returns for a query; an error of the database, or \<open>zip\<close> with \<open>strict\<close> on rows of another length, is \<open>None\<close>.\<close>

definition read_reconstruction_memory_via_driver ::
  "(string \<Rightarrow> (string list \<times> driver_value list list) option) \<Rightarrow> string \<Rightarrow> string \<Rightarrow> string \<Rightarrow> string
     \<Rightarrow> memory_result option" where
  "read_reconstruction_memory_via_driver run shipment container cutoff correlation =
     (case build_reconstruction_query shipment container cutoff of
        Inl e \<Rightarrow> None
      | Inr query \<Rightarrow> (case run query of
          None \<Rightarrow> None
        | Some (names, fetched) \<Rightarrow>
            if \<exists>values \<in> set fetched. length values \<noteq> length names then None
            else (case rmap (\<lambda>values. raw_row_of (driver_row names values)) fetched of
               Inl e \<Rightarrow> None
             | Inr rows \<Rightarrow> Some \<lparr>mr_rows = rows, mr_correlation = correlation, mr_elapsed = 0,
                 mr_count = length rows, mr_request = None\<rparr>)))"

section \<open>What was asked\<close>

text \<open>How SQL reads the query back: the pieces between the quotes, every other one a literal.\<close>

fun split_quotes :: "string \<Rightarrow> string list" where
  "split_quotes [] = ['''']"
| "split_quotes (c # cs) =
     (if c = CHR 39 then '''' # split_quotes cs
      else case split_quotes cs of [] \<Rightarrow> [[c]] | p # ps \<Rightarrow> (c # p) # ps)"

lemma split_quotes_plain: "CHR 39 \<notin> set s \<Longrightarrow> split_quotes (s @ CHR 39 # rest) = s # split_quotes rest"
  by (induction s) auto

lemma split_quotes_end: "CHR 39 \<notin> set s \<Longrightarrow> split_quotes s = [s]"
  by (induction s) auto

lemma quote_literal_Inr:
  "quote_literal v = Inr q \<longleftrightarrow> q = CHR 39 # v @ [CHR 39] \<and> (\<forall>c \<in> set v. \<not> unsafe_in_literal c)"
  by (auto simp: quote_literal_def quote_def list_ex_iff)

lemma safe_no_quote: "\<forall>c \<in> set v. \<not> unsafe_in_literal c \<Longrightarrow> CHR 39 \<notin> set v"
  by (auto simp: unsafe_in_literal_def code_def)

definition query_frame :: "string list" where
  "query_frame =
     [''SELECT '' @ join '', '' select_columns @ '' FROM '' @ memory_view @ '' WHERE shipment_ref = '',
      '' AND container_ref = '', '' AND recorded_at <= '', '' ORDER BY occurred_at, public_ref'']"

lemma frame_plain: "list_all (\<lambda>s. CHR 39 \<notin> set s) query_frame"
  by (simp add: query_frame_def select_columns_def memory_view_def)

lemma query_pieces:
  "build_reconstruction_query s c k = Inr q \<longleftrightarrow>
     (\<forall>x \<in> set (s @ c @ k). \<not> unsafe_in_literal x)
     \<and> q = query_frame ! 0 @ CHR 39 # s @ CHR 39 # query_frame ! 1 @ CHR 39 # c @ CHR 39 # query_frame ! 2
         @ CHR 39 # k @ CHR 39 # query_frame ! 3"
  by (auto simp: build_reconstruction_query_def rbind_Inr_iff quote_literal_Inr query_frame_def)

lemma query_read_back:
  assumes "build_reconstruction_query s c k = Inr q"
  shows "split_quotes q = [query_frame ! 0, s, query_frame ! 1, c, query_frame ! 2, k, query_frame ! 3]"
proof -
  from assms have safe: "CHR 39 \<notin> set s" "CHR 39 \<notin> set c" "CHR 39 \<notin> set k"
    using safe_no_quote [of s] safe_no_quote [of c] safe_no_quote [of k] by (simp_all add: query_pieces)
  from assms have q: "q = query_frame ! 0 @ CHR 39 # s @ CHR 39 # query_frame ! 1 @ CHR 39 # c @ CHR 39 # query_frame ! 2
         @ CHR 39 # k @ CHR 39 # query_frame ! 3"
    by (simp add: query_pieces)
  have "CHR 39 \<notin> set (query_frame ! i)" if "i < 4" for i
    using frame_plain that by (auto simp: list_all_length query_frame_def)
  then show ?thesis
    unfolding q by (simp add: split_quotes_plain split_quotes_end safe)
qed

end
