(* ===== verification/WorkerLoops.thy ===== *)
theory WorkerLoops
  imports Pipeline MemoryRead
begin

text \<open>
  The workers of \<open>src/platform/\<close>: \<open>intake_worker.py\<close>, \<open>reconstruction_worker.py\<close>,
  \<open>applicable_rule_worker.py\<close>, \<open>judgment_worker.py\<close> and \<open>access_evidence_worker.py\<close>. One iteration leases a
  task, computes with the functions of \<open>src/core/\<close>, and completes or fails the task; each
  transaction runs on its own, under the retry loop, and others commit in between.
\<close>

section \<open>Processes\<close>

text \<open>
  A process takes a database to what it returns or raises and to the database it leaves. What surrounds its \<open>k\<close>-th access to
  the database: what the other processes committed before it, the restarts, the clock, the fresh
  identifiers and the rows locked by others. All of it is arbitrary.
\<close>

type_synonym 'a process = "db \<Rightarrow> (tx_error + 'a) \<times> db"

record surroundings =
  wd_others :: "nat \<Rightarrow> db \<Rightarrow> db"
  wd_restarts :: "nat \<Rightarrow> bool list"
  wd_now :: "nat \<Rightarrow> nat \<Rightarrow> int"
  wd_ids :: "nat \<Rightarrow> nat \<Rightarrow> nat \<Rightarrow> string"
  wd_locked :: "nat \<Rightarrow> string \<Rightarrow> bool"

definition transact :: "surroundings \<Rightarrow> nat \<Rightarrow> (int \<Rightarrow> (nat \<Rightarrow> string) \<Rightarrow> 'a tx) \<Rightarrow> 'a process" where
  "transact w k body db =
     run_with_retry default_max_retries (wd_restarts w k) 0 (\<lambda>n. body (wd_now w k n) (wd_ids w k n)) (wd_others w k db)"

definition lease_seconds :: int where
  "lease_seconds = 90"

text \<open>Lease a task and work on it; without a task there is nothing to do.\<close>

definition leased :: "'l option process \<Rightarrow> ('l \<Rightarrow> 'a option process) \<Rightarrow> 'a option process" where
  "leased claim work db =
     (case claim db of
        (Inl e, db1) \<Rightarrow> (Inl e, db1)
      | (Inr None, db1) \<Rightarrow> (Inr None, db1)
      | (Inr (Some l), db1) \<Rightarrow> work l db1)"

text \<open>Record a failure and return \<open>None\<close>; complete and return the completion.\<close>

definition failing :: "'s process \<Rightarrow> 'a option process" where
  "failing fail db = (case fail db of (Inl e, db1) \<Rightarrow> (Inl e, db1) | (Inr _, db1) \<Rightarrow> (Inr None, db1))"

definition completing :: "'a process \<Rightarrow> 'a option process" where
  "completing work db = (case work db of (Inl e, db1) \<Rightarrow> (Inl e, db1) | (Inr c, db1) \<Rightarrow> (Inr (Some c), db1))"

text \<open>\<open>try\<close>: complete; whatever is raised is recorded as a failure.\<close>

definition or_failing :: "'a process \<Rightarrow> (tx_error \<Rightarrow> 's process) \<Rightarrow> 'a option process" where
  "or_failing work fail db =
     (case work db of (Inl e, db1) \<Rightarrow> failing (fail e) db1 | (Inr c, db1) \<Rightarrow> (Inr (Some c), db1))"

definition raising :: "string \<Rightarrow> 'a process" where
  "raising e db = (Inl (Raised e), db)"

section \<open>Judging\<close>

text \<open>
  The days are read outside a transaction. \<open>complete_judgment\<close> raises a \<open>ValueError\<close> exactly where
  \<open>resolve_recommendation\<close> does; any other exception escapes.
\<close>

definition judge_leased :: "string \<Rightarrow> surroundings \<Rightarrow> judgment_lease \<Rightarrow> judgment_completion option process" where
  "judge_leased tenant w l db =
     (let db1 = wd_others w 1 db; days = load_day_inputs tenant (jl_reconstruction l) db1
      in if days = [] then failing (transact w 2 (\<lambda>now ids. fail_judgment tenant l ''NO_CHARGED_DAYS'' now)) db1
         else (case resolve_recommendation days of
            Inl e \<Rightarrow> failing (transact w 2 (\<lambda>now ids. fail_judgment tenant l (judgment_error_text e) now)) db1
          | Inr _ \<Rightarrow> completing (transact w 2 (\<lambda>now ids. complete_judgment tenant l days now ids)) db1))"

definition run_one_judgment_task :: "string \<Rightarrow> string \<Rightarrow> surroundings \<Rightarrow> judgment_completion option process" where
  "run_one_judgment_task tenant worker w =
     leased (transact w 0 (\<lambda>now ids. claim_next_judgment_task tenant worker lease_seconds (wd_locked w 0) now))
       (judge_leased tenant w)"

section \<open>Binding evidence\<close>

definition run_one_access_evidence_task :: "string \<Rightarrow> string \<Rightarrow> surroundings \<Rightarrow> access_result option process" where
  "run_one_access_evidence_task tenant worker w =
     leased (transact w 0 (\<lambda>now ids. claim_next_access_evidence_task tenant worker lease_seconds (wd_locked w 0) now))
       (\<lambda>l. completing (transact w 1 (\<lambda>now ids. complete_access_binding tenant l now ids)))"

section \<open>Finding a rule\<close>

text \<open>The fields of a \<open>ClauseVectorHit\<close> a candidate is made of.\<close>

record vector_hit =
  vh_clause_id :: string
  vh_clause_ref :: string
  vh_clause_text :: string
  vh_rate_amount :: "decimal option"
  vh_rate_currency :: "string option"
  vh_rate_unit :: "string option"
  vh_locator :: "string option"
  vh_effective_from :: "date option"
  vh_effective_to :: "date option"
  vh_equipment :: "string option"
  vh_route :: "string option"
  vh_service :: "string option"
  vh_verification :: string
  vh_distance :: rat

definition or_unknown :: "string option \<Rightarrow> string" where
  "or_unknown s = (if truthy s then the s else ''UNKNOWN'')"

definition scope_code :: "vector_hit \<Rightarrow> string" where
  "scope_code h = ''DEMURRAGE:'' @ or_unknown (vh_route h) @ '':'' @ or_unknown (vh_equipment h)"

definition clause_excerpt :: "string \<Rightarrow> string" where
  "clause_excerpt text = take 120 (join '' '' (py_split text))"

definition hit_to_candidate :: "vector_hit \<Rightarrow> int \<Rightarrow> rule_candidate" where
  "hit_to_candidate h rank =
     \<lparr>rc_clause_id = vh_clause_id h, rc_public_ref = ''RULE-'' @ vh_clause_ref h, rc_clause_ref = vh_clause_ref h,
      rc_rank = rank, rc_distance = vh_distance h, rc_clause_text = vh_clause_text h,
      rc_display_excerpt = clause_excerpt (vh_clause_text h), rc_rate_amount = vh_rate_amount h,
      rc_rate_currency = vh_rate_currency h, rc_rate_unit = vh_rate_unit h,
      rc_effective_from = vh_effective_from h, rc_effective_to = vh_effective_to h, rc_scope_code = scope_code h,
      rc_equipment_type = vh_equipment h, rc_route_code = vh_route h, rc_service_context = vh_service h,
      rc_verification_status = vh_verification h, rc_source_locator = or_empty (vh_locator h),
      rc_superseded = False\<rparr>"

definition rank_hits :: "vector_hit list \<Rightarrow> rule_candidate list" where
  "rank_hits hits = map (\<lambda>(h, k). hit_to_candidate h (int k)) (zip hits [1..<Suc (length hits)])"

text \<open>
  The embedding model and the vector search, for a query text and a carrier: what either raises, or the
  digest of the embedded text with the hits.
\<close>

datatype search_outcome = SearchFailed | EmbedFailed | Found string "vector_hit list"

definition applicability_query_of :: "rule_lease \<Rightarrow> date list \<Rightarrow> applicability_query" where
  "applicability_query_of l dates =
     \<lparr>aq_charged_dates = dates, aq_invoice_currency = ul_currency l, aq_expected_unit = ''CALENDAR_DAY'',
      aq_scope_code = ul_scope l, aq_expected_rate_phrase = ''$250'', aq_equipment_type = Some ''DRY'',
      aq_route_code = Some ''USOAK''\<rparr>"

definition titan_model :: string where
  "titan_model = ''amazon.titan-embed-text-v2:0''"

definition rule_query_of :: "rule_lease \<Rightarrow> string \<Rightarrow> string \<Rightarrow> rule_query" where
  "rule_query_of l text input_sha256 =
     \<lparr>qy_text = text,
      qy_fingerprint = sha256_hexdigest (utf8_encode (dumps_sorted
        (JObj [(''q'', JStr text), (''recon'', JStr (ul_reconstruction l))]))),
      qy_model = titan_model, qy_input_sha256 = input_sha256, qy_index = ''tariff_clause_embedding_search_idx''\<rparr>"

definition parse_dates :: "string list \<Rightarrow> string + date list" where
  "parse_dates = rmap (\<lambda>d. case date_fromiso d of None \<Rightarrow> Inl ''ValueError'' | Some x \<Rightarrow> Inr x)"

definition find_rule_leased ::
  "string \<Rightarrow> surroundings \<Rightarrow> (string \<Rightarrow> string \<Rightarrow> search_outcome) \<Rightarrow> rule_lease \<Rightarrow> rule_completion option process" where
  "find_rule_leased tenant w search l =
     (if ul_dates l = [] then failing (transact w 1 (\<lambda>now ids. fail_rule tenant l ''NO_CHARGE_DATES'' False now ids))
      else (case parse_dates (ul_dates l) of
        Inl e \<Rightarrow> raising e
      | Inr dates \<Rightarrow> (case build_hero_query_text ''US Oakland dry demurrage'' dates of
          None \<Rightarrow> raising ''ValueError''
        | Some text \<Rightarrow> (case search text (ul_carrier l) of
            SearchFailed \<Rightarrow> failing (transact w 1 (\<lambda>now ids. fail_rule tenant l ''VECTOR_RETRIEVAL_UNAVAILABLE'' True now ids))
          | EmbedFailed \<Rightarrow> failing (transact w 1 (\<lambda>now ids. fail_rule tenant l ''VECTOR_EMBED_UNAVAILABLE'' True now ids))
          | Found input_sha256 hits \<Rightarrow>
              (case decide_applicable_rule (rank_hits hits) (applicability_query_of l dates) of
                 Inl e \<Rightarrow> raising ''DecimalError''
               | Inr decision \<Rightarrow> completing (transact w 1 (\<lambda>now ids.
                   complete_rule tenant l (rule_query_of l text input_sha256) (rank_hits hits) decision now ids)))))))"

definition run_one_rule_task ::
  "string \<Rightarrow> string \<Rightarrow> surroundings \<Rightarrow> (string \<Rightarrow> string \<Rightarrow> search_outcome) \<Rightarrow> rule_completion option process" where
  "run_one_rule_task tenant worker w search =
     leased (transact w 0 (\<lambda>now ids. claim_next_rule_task tenant worker lease_seconds (wd_locked w 0) now ids))
       (find_rule_leased tenant w search)"

section \<open>Reconstructing\<close>

definition effective_timezone :: string where
  "effective_timezone = ''America/Los_Angeles''"

definition utc_datetime :: "int \<Rightarrow> datetime" where
  "utc_datetime now = DateTime (shift_days (now div day_us - 1) (Date 1 1 1)) (now mod day_us) (Some 0)"

definition iso_z :: "datetime \<Rightarrow> string" where
  "iso_z t = replace_all ''+00:00'' ''Z'' (isoformat t)"

definition day_event_roles :: "charged_day_result list \<Rightarrow> normalized_event list \<Rightarrow> day_roles" where
  "day_event_roles days events =
     [(date_iso (cd_date d),
       [(''AVAILABILITY_BOUNDARY'', map ev_public_ref (of_type AVAILABLE events)),
        (''FREE_TIME_BOUNDARY'', map ev_public_ref (of_type FREE_TIME_END events)),
        (''CHARGE_END'', map ev_public_ref (of_type GATE_OUT events))]).
      d \<leftarrow> days, cd_state d \<in> {DaySourceComplete, DayExcludedNotChargeable}]"

text \<open>
  Reading the memory: through the server, and if that is unusable through the driver, once the
  substitution could be marked in the query log. \<open>Inl\<close> is the error of the server when the driver failed as well.
\<close>

record memory_sources =
  ms_select :: "string \<Rightarrow> mcp_error + mcp_answer"
  ms_marked :: bool
  ms_run :: "string \<Rightarrow> (string list \<times> driver_value list list) option"

definition read_memory :: "memory_sources \<Rightarrow> reconstruction_lease \<Rightarrow> mcp_error + memory_result" where
  "read_memory src l =
     (let cutoff = iso_z (utc_datetime (rl_cutoff l))
      in case read_reconstruction_memory (ms_select src) (rl_shipment l) (rl_container l) cutoff of
        Inr m \<Rightarrow> Inr m
      | Inl e \<Rightarrow>
          (if \<not> ms_marked src then Inl e
           else case read_reconstruction_memory_via_driver (ms_run src) (rl_shipment l) (rl_container l) cutoff (tl_task l) of
             None \<Rightarrow> Inl e
           | Some m \<Rightarrow> Inr m))"

definition failing_reconstruction ::
  "string \<Rightarrow> surroundings \<Rightarrow> nat \<Rightarrow> reconstruction_lease \<Rightarrow> string \<Rightarrow> bool \<Rightarrow> row_state process" where
  "failing_reconstruction tenant w k l err retryable =
     transact w k (\<lambda>now ids. fail_reconstruction tenant l err retryable now ids)"

text \<open>What is written for validated events: the days, the coverage, the state, the roles.\<close>

definition complete_or_raise ::
  "(string \<Rightarrow> int \<Rightarrow> int) \<Rightarrow> string \<Rightarrow> surroundings \<Rightarrow> reconstruction_lease \<Rightarrow> memory_result \<Rightarrow> event_validation
     \<Rightarrow> date list \<Rightarrow> reconstruction_completion process" where
  "complete_or_raise tz tenant w l memory validation dates =
     (let events = va_accepted validation;
          days = adjudicate_charged_days dates (rl_rate l) (rl_currency l) events
            (resolve_charge_boundary tz effective_timezone events);
          coverage = classify_coverage events True (rl_container l \<noteq> '''') (rl_dates l \<noteq> []) (0 < rl_rate l);
          reference = (if truthy (mr_request memory) then the (mr_request memory) else mr_correlation memory)
      in transact w 1 (\<lambda>now ids. complete_reconstruction tenant l events days coverage (resolve_terminal_state days)
           (day_event_roles days events) (mr_correlation memory) reference (issue_codes validation) now ids))"

definition completion_error_code :: "tx_error \<Rightarrow> string" where
  "completion_error_code e =
     (if e = Raised ''MISSING_SOURCE_ARTIFACT'' then ''MISSING_SOURCE_ARTIFACT'' else ''RECONSTRUCTION_COMPLETION_FAILED'')"

definition reconstruct_leased ::
  "(string \<Rightarrow> int \<Rightarrow> int) \<Rightarrow> string \<Rightarrow> surroundings \<Rightarrow> memory_sources \<Rightarrow> reconstruction_lease
     \<Rightarrow> reconstruction_completion option process" where
  "reconstruct_leased tz tenant w src l =
     (if rl_dates l = [] then failing (failing_reconstruction tenant w 1 l ''PRIOR_MEMORY_EMPTY'' False)
      else (case read_memory src l of
        Inl e \<Rightarrow> failing (failing_reconstruction tenant w 1 l (safe_mcp_code e) (is_retryable_mcp e))
      | Inr memory \<Rightarrow>
          (let validation = validate_events (mr_rows memory) (utc_datetime (rl_cutoff l)) (rl_shipment l) (rl_container l)
           in if va_accepted validation = []
              then failing (failing_reconstruction tenant w 1 l ''PRIOR_MEMORY_EMPTY'' False)
              else (case parse_dates (rl_dates l) of
                 Inl e \<Rightarrow> raising e
               | Inr dates \<Rightarrow> or_failing (complete_or_raise tz tenant w l memory validation dates)
                   (\<lambda>e. failing_reconstruction tenant w 2 l (completion_error_code e) False)))))"

definition run_one_reconstruction_task ::
  "(string \<Rightarrow> int \<Rightarrow> int) \<Rightarrow> string \<Rightarrow> string \<Rightarrow> surroundings \<Rightarrow> memory_sources \<Rightarrow> reconstruction_completion option process" where
  "run_one_reconstruction_task tz tenant worker w src =
     leased (transact w 0 (\<lambda>now ids. claim_next_reconstruction_task tenant worker lease_seconds (wd_locked w 0) now ids))
       (reconstruct_leased tz tenant w src)"

section \<open>Extracting\<close>

text \<open>
  The exact source, or the code of its error; the pages of the document with the answer of the
  model, or how either failed.
\<close>

record extraction_result =
  bx_claims :: "(string \<rightharpoonup> claim_entry) option"
  bx_response_sha256 :: string
  bx_request_ref :: "string option"

datatype extraction_failure = SchemaInvalid | DependencyFailed

definition safe_error_code :: "extraction_failure \<Rightarrow> string" where
  "safe_error_code e =
     (case e of SchemaInvalid \<Rightarrow> ''BEDROCK_SCHEMA_INVALID'' | DependencyFailed \<Rightarrow> ''EXTRACTION_DEPENDENCY_UNAVAILABLE'')"

definition failing_extraction ::
  "string \<Rightarrow> surroundings \<Rightarrow> nat \<Rightarrow> extraction_lease \<Rightarrow> string \<Rightarrow> bool \<Rightarrow> row_state process" where
  "failing_extraction tenant w k l err retryable =
     transact w k (\<lambda>now ids. fail_extraction tenant l err retryable now ids)"

definition extract_leased ::
  "(string \<Rightarrow> date option) \<Rightarrow> string \<Rightarrow> surroundings \<Rightarrow> (stored_source \<Rightarrow> string + string)
     \<Rightarrow> (string \<Rightarrow> extraction_failure + pdf_page list \<times> extraction_result) \<Rightarrow> extraction_lease
     \<Rightarrow> extraction_completion option process" where
  "extract_leased parse tenant w get_exact extract l =
     (case get_exact (le_stored l) of
        Inl err \<Rightarrow> failing (failing_extraction tenant w 1 l err False)
      | Inr body \<Rightarrow> (case extract body of
          Inl e \<Rightarrow> failing (failing_extraction tenant w 1 l (safe_error_code e) True)
        | Inr (pages, answer) \<Rightarrow> (case validate_extracted_claims parse (bx_claims answer) pages of
            Inl e \<Rightarrow> failing (failing_extraction tenant w 1 l (safe_error_code DependencyFailed) True)
          | Inr v \<Rightarrow> or_failing
              (transact w 1 (\<lambda>now ids. complete_extraction tenant l v (bx_response_sha256 answer) (bx_request_ref answer) now ids))
              (\<lambda>e. failing_extraction tenant w 2 l (safe_error_code DependencyFailed) True))))"

definition run_one_intake_task ::
  "(string \<Rightarrow> date option) \<Rightarrow> string \<Rightarrow> string \<Rightarrow> surroundings \<Rightarrow> (stored_source \<Rightarrow> string + string)
     \<Rightarrow> (string \<Rightarrow> extraction_failure + pdf_page list \<times> extraction_result) \<Rightarrow> extraction_completion option process" where
  "run_one_intake_task parse tenant worker w get_exact extract =
     leased (transact w 0 (\<lambda>now ids. claim_next_extraction_task tenant worker lease_seconds (wd_locked w 0) now ids))
       (extract_leased parse tenant w get_exact extract)"

section \<open>What a process leaves\<close>

lemma transact_Inr:
  "transact w k body db = (Inr a, db') \<Longrightarrow> \<exists>now ids. body now ids (wd_others w k db) = Inr (a, db')"
  unfolding transact_def by (drule run_with_retry_Inr) blast

lemma transact_Inl: "transact w k body db = (Inl e, db') \<Longrightarrow> db' = wd_others w k db"
  unfolding transact_def by (rule run_with_retry_Inl)

lemma leased_Inr:
  "leased claim work db = (Inr r, db') \<longleftrightarrow>
     claim db = (Inr None, db') \<and> r = None
     \<or> (\<exists>l db1. claim db = (Inr (Some l), db1) \<and> work l db1 = (Inr r, db'))"
  by (auto simp: leased_def split: prod.splits sum.splits option.splits)

lemma failing_Inr: "failing m db = (Inr r, db') \<longleftrightarrow> r = None \<and> (\<exists>s. m db = (Inr s, db'))"
  by (auto simp: failing_def split: prod.splits sum.splits)

lemma completing_Inr: "completing m db = (Inr r, db') \<longleftrightarrow> (\<exists>c. r = Some c \<and> m db = (Inr c, db'))"
  by (auto simp: completing_def split: prod.splits sum.splits)

lemma or_failing_Inr:
  "or_failing m f db = (Inr r, db') \<longleftrightarrow>
     (\<exists>c. r = Some c \<and> m db = (Inr c, db'))
     \<or> r = None \<and> (\<exists>e db1 s. m db = (Inl e, db1) \<and> f e db1 = (Inr s, db'))"
  by (auto simp: or_failing_def failing_Inr split: prod.splits sum.splits)

lemma raising_Inr [simp]: "raising e db \<noteq> (Inr r, db')"
  by (simp add: raising_def)

lemmas process_Inr = failing_Inr completing_Inr or_failing_Inr

section \<open>Every iteration settles its lease\<close>

text \<open>The other processes keep the primary key of the tasks.\<close>

definition tidy :: "surroundings \<Rightarrow> bool" where
  "tidy w = (\<forall>k db. task_keys_distinct db \<longrightarrow> task_keys_distinct (wd_others w k db))"

text \<open>
  The contract of a worker: if working on a leased task returns, the last thing it did was to
  settle that task.
\<close>

locale settling_worker =
  fixes others :: surroundings
    and name :: "'l \<Rightarrow> string \<times> string"
    and work :: "'l \<Rightarrow> 'a option process"
  assumes work_settles: "tidy others \<Longrightarrow> task_keys_distinct db \<Longrightarrow> work l db = (Inr r, db') \<Longrightarrow>
    \<exists>db1 n. task_keys_distinct db1 \<and> worker_settles db1 (name l, n) db'"
begin

lemma work_ends: "tidy others \<Longrightarrow> task_keys_distinct db \<Longrightarrow> work l db = (Inr r, db') \<Longrightarrow> \<not> task_running db' (name l)"
proof -
  assume "tidy others" "task_keys_distinct db" "work l db = (Inr r, db')"
  from work_settles [OF this] obtain db1 n where s: "task_keys_distinct db1" "worker_settles db1 (name l, n) db'" by blast
  from worker_settle_law [OF s] have "task_running db' = (task_running db1)(name l := False)" by simp
  then show ?thesis by simp
qed

lemma iteration_settles:
  assumes "tidy others" "leased claim work db = (Inr r, db')"
    and "\<And>l db1. claim db = (Inr (Some l), db1) \<Longrightarrow> task_keys_distinct db1"
  shows "case fst (claim db) of Inl e \<Rightarrow> False | Inr None \<Rightarrow> r = None | Inr (Some l) \<Rightarrow> \<not> task_running db' (name l)"
  using assms(2) work_ends [OF assms(1)] assms(3) by (auto simp: leased_Inr)

end

lemma tidyD: "tidy w \<Longrightarrow> task_keys_distinct db \<Longrightarrow> task_keys_distinct (wd_others w k db)"
  by (simp add: tidy_def)

lemma settled_twice:
  "tidy w \<Longrightarrow> task_keys_distinct db \<Longrightarrow> transact w k m db = (Inl e, db1) \<Longrightarrow> task_keys_distinct db1"
  by (auto dest: transact_Inl intro: tidyD)

lemma judge_leased_settles:
  assumes "tidy w" "task_keys_distinct db" "judge_leased t w l db = (Inr r, db')"
  shows "\<exists>db1 n. task_keys_distinct db1 \<and> worker_settles db1 ((t, tl_task l), n) db'"
proof -
  let ?db1 = "wd_others w 2 (wd_others w 1 db)"
  have "task_keys_distinct ?db1" using assms(1,2) by (intro tidyD)
  moreover have "worker_settles ?db1 ((t, tl_task l), tl_attempt l) db'"
    using assms(3) by (auto simp: judge_leased_def Let_def process_Inr split: if_splits sum.splits
        dest!: transact_Inr intro: worker_settles.intros)
  ultimately show ?thesis by blast
qed

lemma find_rule_leased_settles:
  assumes "tidy w" "task_keys_distinct db" "find_rule_leased t w search l db = (Inr r, db')"
  shows "\<exists>db1 n. task_keys_distinct db1 \<and> worker_settles db1 ((t, tl_task l), n) db'"
proof -
  have "worker_settles (wd_others w 1 db) ((t, tl_task l), tl_attempt l) db'"
    using assms(3) by (auto simp: find_rule_leased_def process_Inr
        split: if_splits sum.splits option.splits search_outcome.splits
        dest!: transact_Inr intro: worker_settles.intros)
  with tidyD [OF assms(1,2)] show ?thesis by blast
qed

lemma reconstruct_leased_settles:
  assumes "tidy w" "task_keys_distinct db" "reconstruct_leased tz t w src l db = (Inr r, db')"
  shows "\<exists>db1 n. task_keys_distinct db1 \<and> worker_settles db1 ((t, tl_task l), n) db'"
proof -
  have fail: "worker_settles (wd_others w k db1) ((t, tl_task l), tl_attempt l) db'"
    if "failing_reconstruction t w k l err b db1 = (Inr s, db')" for k err b s db1
    using that unfolding failing_reconstruction_def by (auto dest!: transact_Inr intro: worker_settles.intros)
  from assms(3) consider
      k err b s where "failing_reconstruction t w k l err b db = (Inr s, db')"
    | m v ds c where "complete_or_raise tz t w l m v ds db = (Inr c, db')"
    | m v ds e db1 err s where "complete_or_raise tz t w l m v ds db = (Inl e, db1)"
        "failing_reconstruction t w 2 l err False db1 = (Inr s, db')"
    by (auto simp: reconstruct_leased_def Let_def process_Inr split: if_splits sum.splits)
  then show ?thesis
  proof cases
    case 1
    with fail tidyD [OF assms(1,2)] show ?thesis by blast
  next
    case 2
    then have "worker_settles (wd_others w 1 db) ((t, tl_task l), tl_attempt l) db'"
      unfolding complete_or_raise_def Let_def by (auto dest!: transact_Inr intro: worker_settles.intros)
    with tidyD [OF assms(1,2)] show ?thesis by blast
  next
    case 3
    then have "task_keys_distinct db1"
      using assms(1,2) by (auto simp: complete_or_raise_def Let_def intro: settled_twice)
    with fail [OF 3(2)] tidyD [OF assms(1)] show ?thesis by blast
  qed
qed

lemma extract_leased_settles:
  assumes "tidy w" "task_keys_distinct db" "extract_leased parse t w get_exact extract l db = (Inr r, db')"
  shows "\<exists>db1 n. task_keys_distinct db1 \<and> worker_settles db1 ((t, le_task l), n) db'"
proof -
  have fail: "worker_settles (wd_others w k db1) ((t, le_task l), le_attempt l) db'"
    if "failing_extraction t w k l err b db1 = (Inr s, db')" for k err b s db1
    using that unfolding failing_extraction_def by (auto dest!: transact_Inr intro: worker_settles.intros)
  let ?done = "\<lambda>v (a :: extraction_result) now ids. complete_extraction t l v (bx_response_sha256 a) (bx_request_ref a) now ids"
  from assms(3) consider
      k err b s where "failing_extraction t w k l err b db = (Inr s, db')"
    | v a c where "transact w 1 (?done v a) db = (Inr c, db')"
    | v a e db1 err s where "transact w 1 (?done v a) db = (Inl e, db1)"
        "failing_extraction t w 2 l err True db1 = (Inr s, db')"
    by (auto simp: extract_leased_def process_Inr split: sum.splits)
  then show ?thesis
  proof cases
    case 1
    with fail tidyD [OF assms(1,2)] show ?thesis by blast
  next
    case 2
    then have "worker_settles (wd_others w 1 db) ((t, le_task l), le_attempt l) db'"
      by (auto dest!: transact_Inr intro: worker_settles.intros)
    with tidyD [OF assms(1,2)] show ?thesis by blast
  next
    case 3
    with assms(1,2) have "task_keys_distinct db1" by (auto intro: settled_twice)
    with fail [OF 3(2)] tidyD [OF assms(1)] show ?thesis by blast
  qed
qed

lemma bind_leased_settles:
  assumes "tidy w" "task_keys_distinct db"
    "completing (transact w 1 (\<lambda>now ids. complete_access_binding t l now ids)) db = (Inr r, db')"
  shows "\<exists>db1 n. task_keys_distinct db1 \<and> worker_settles db1 ((t, tl_task l), n) db'"
proof -
  have "worker_settles (wd_others w 1 db) ((t, tl_task l), task_attempt (wd_others w 1 db) (t, tl_task l)) db'"
    using assms(3) by (auto simp: process_Inr dest!: transact_Inr intro: worker_settles.intros)
  with tidyD [OF assms(1,2)] show ?thesis by blast
qed

interpretation judging: settling_worker w "\<lambda>l. (t, tl_task l)" "judge_leased t w" for t w
  by unfold_locales (rule judge_leased_settles)

interpretation rating: settling_worker w "\<lambda>l. (t, tl_task l)" "find_rule_leased t w search" for t w search
  by unfold_locales (rule find_rule_leased_settles)

interpretation reconstructing: settling_worker w "\<lambda>l. (t, tl_task l)" "reconstruct_leased tz t w src" for tz t w src
  by unfold_locales (rule reconstruct_leased_settles)

interpretation extracting: settling_worker w "\<lambda>l. (t, le_task l)" "extract_leased parse t w get_exact model"
  for parse t w get_exact model
  by unfold_locales (rule extract_leased_settles)

interpretation binding: settling_worker w "\<lambda>l. (t, tl_task l)"
  "\<lambda>l. completing (transact w 1 (\<lambda>now ids. complete_access_binding t l now ids))" for t w
  by unfold_locales (rule bind_leased_settles)

end
