(* ===== verification/EndToEnd.thy ===== *)
theory EndToEnd
  imports WorkerLoops VersionFacts
begin

text \<open>
  What whole iterations of the workers do, from the lease to the last commit, whatever the other processes,
  the search, the servers and the model answer.
\<close>

section \<open>Leases\<close>

definition hand_out :: "surroundings \<Rightarrow> (int \<Rightarrow> (nat \<Rightarrow> string) \<Rightarrow> 'l option tx) \<Rightarrow> db \<Rightarrow> 'l option" where
  "hand_out w claim db = (case fst (transact w 0 claim db) of Inl e \<Rightarrow> None | Inr l \<Rightarrow> l)"

lemma claimed_keys:
  assumes "tidy w" "task_keys_distinct db" "transact w 0 claim db = (Inr (Some l), db1)"
    and "\<And>now ids db1. claim now ids (wd_others w 0 db) = Inr (Some l, db1) \<Longrightarrow>
      worker_claims (wd_others w 0 db) (name, attempt) db1"
  shows "task_keys_distinct db1"
  using transact_Inr [OF assms(3)] assms(4) worker_claim_law tidyD [OF assms(1,2)] by blast

lemma handed_out:
  "case fst (transact w 0 claim db) of Inl e \<Rightarrow> False | Inr None \<Rightarrow> r = None | Inr (Some l) \<Rightarrow> P l \<Longrightarrow>
     case hand_out w claim db of None \<Rightarrow> r = None | Some l \<Rightarrow> P l"
  by (auto simp: hand_out_def split: sum.splits option.splits)

text \<open>
  C34: no worker returns with its lease still running. Whenever one iteration of a worker returns, with
  a completion or with nothing, the task it was handed is no longer running: it was completed, or its
  failure was recorded, by the last transaction of the iteration. An iteration that was
  handed no task returns nothing. This holds whatever the sources, the server, the
  search and the model answer, and whatever other processes commit in between, as long as they keep the key of the tasks.
\<close>

theorem iteration_settles_lease:
  assumes "tidy w" "task_keys_distinct db"
  shows "(run_one_intake_task parse t worker w get_exact model db = (Inr r1, db1) \<longrightarrow>
      (case hand_out w (\<lambda>now ids. claim_next_extraction_task t worker lease_seconds (wd_locked w 0) now ids) db of
         None \<Rightarrow> r1 = None | Some l \<Rightarrow> \<not> task_running db1 (t, le_task l)))
    \<and> (run_one_reconstruction_task tz t worker w src db = (Inr r2, db2) \<longrightarrow>
      (case hand_out w (\<lambda>now ids. claim_next_reconstruction_task t worker lease_seconds (wd_locked w 0) now ids) db of
         None \<Rightarrow> r2 = None | Some l \<Rightarrow> \<not> task_running db2 (t, tl_task l)))
    \<and> (run_one_rule_task t worker w search db = (Inr r3, db3) \<longrightarrow>
      (case hand_out w (\<lambda>now ids. claim_next_rule_task t worker lease_seconds (wd_locked w 0) now ids) db of
         None \<Rightarrow> r3 = None | Some l \<Rightarrow> \<not> task_running db3 (t, tl_task l)))
    \<and> (run_one_judgment_task t worker w db = (Inr r4, db4) \<longrightarrow>
      (case hand_out w (\<lambda>now ids. claim_next_judgment_task t worker lease_seconds (wd_locked w 0) now) db of
         None \<Rightarrow> r4 = None | Some l \<Rightarrow> \<not> task_running db4 (t, tl_task l)))
    \<and> (run_one_access_evidence_task t worker w db = (Inr r5, db5) \<longrightarrow>
      (case hand_out w (\<lambda>now ids. claim_next_access_evidence_task t worker lease_seconds (wd_locked w 0) now) db of
         None \<Rightarrow> r5 = None | Some l \<Rightarrow> \<not> task_running db5 (t, tl_task l)))"
  unfolding run_one_intake_task_def run_one_reconstruction_task_def run_one_rule_task_def run_one_judgment_task_def
    run_one_access_evidence_task_def
  by (intro conjI impI handed_out)
    (rule extracting.iteration_settles [OF assms(1)] reconstructing.iteration_settles [OF assms(1)]
       rating.iteration_settles [OF assms(1)] judging.iteration_settles [OF assms(1)] binding.iteration_settles [OF assms(1)],
     assumption, erule claimed_keys [OF assms], erule worker_claims.intros)+

section \<open>Rates\<close>

text \<open>What a hit must be to set a rate: verified, its text with the phrase, its scope and dates those of the charge.\<close>

definition governs :: "rule_lease \<Rightarrow> date list \<Rightarrow> vector_hit \<Rightarrow> int \<Rightarrow> bool" where
  "governs l dates h rate =
     (vh_verification h = ''VERIFIED'' \<and> rate_minor (vh_rate_amount h) = Inr (Some rate)
      \<and> contains (rule_normalize ''$250'') (rule_normalize (vh_clause_text h))
      \<and> py_upper (or_empty (vh_rate_currency h)) = py_upper (ul_currency l)
      \<and> norm_unit (vh_rate_unit h) = norm_unit (Some ''CALENDAR_DAY'')
      \<and> scope_code h = ul_scope l \<and> vh_equipment h \<in> {None, Some ''DRY''} \<and> vh_route h \<in> {None, Some ''USOAK''}
      \<and> (\<exists>start. vh_effective_from h = Some start \<and> (\<forall>d \<in> set dates. start \<le> d
           \<and> (\<forall>end. vh_effective_to h = Some end \<longrightarrow> d \<le> end))))"

lemma accepted_governs:
  assumes "decide_applicable_rule (rank_hits hits) (applicability_query_of l dates) = Inr decision"
    and "verified_choice decision = Some v" "cv_rate_minor v = Some rate"
  obtains h where "h \<in> set hits" "governs l dates h rate" "cv_candidate v = hit_to_candidate h (rc_rank (cv_candidate v))"
proof -
  let ?q = "applicability_query_of l dates"
  from assms(1) obtain vs where vs: "rmap (\<lambda>c. validate_candidate c ?q) (rank_hits hits) = Inr vs"
    and d: "decision = decide_validations vs"
    by (auto simp: decide_applicable_rule_def rbind_Inr_iff)
  from assms(2) have "ad_accepted (decide_validations vs) = Some v"
    by (simp add: verified_choice_def d split: if_splits)
  from best_accepted(1) [OF this] have v: "v \<in> set vs" "cv_state v = ACCEPTED" by (simp_all add: accepted_of_def)
  from rmap_Inr_set [OF vs] v(1) obtain c where c: "c \<in> set (rank_hits hits)" "validate_candidate c ?q = Inr v" by blast
  note sel = validated_sel [OF c(2)]
  from c(1) obtain h k where h: "h \<in> set hits" "c = hit_to_candidate h k"
    by (auto simp: rank_hits_def dest: set_zip_leftD)
  have ok: "check_ok (c, ?q, Some rate) x" if "x \<in> set validators" for x
    using sel(3) v(2) assms(3) rule_gate.pass_all that by simp
  have "rc_verification_status c = ''VERIFIED''" "contains (rule_normalize ''$250'') (rule_normalize (rc_clause_text c))"
    "py_upper (or_empty (rc_rate_currency c)) = py_upper (ul_currency l)"
    "norm_unit (rc_rate_unit c) = norm_unit (Some ''CALENDAR_DAY'')" "covers_all_dates c dates" "scope_matches c ?q"
    using ok [of "''source_version''"] ok [of "''exact_text''"] ok [of "''currency''"] ok [of "''unit''"]
      ok [of "''effective_date''"] ok [of "''scope''"]
    by (simp_all only: check_ok_simps) (simp_all add: validators_def applicability_query_of_def)
  moreover have "covers_all_dates c dates \<longleftrightarrow> (\<exists>start. rc_effective_from c = Some start
      \<and> (\<forall>d \<in> set dates. start \<le> d \<and> (\<forall>end. rc_effective_to c = Some end \<longrightarrow> d \<le> end)))"
    by (auto simp: covers_all_dates_def list_all_iff not_less split: option.splits)
  ultimately have "governs l dates h rate"
    using sel(4) assms(3) unfolding governs_def h(2)
    by (intro conjI; simp add: hit_to_candidate_def applicability_query_of_def scope_matches_def truthy_def)
  with h sel(1) that show ?thesis by (simp add: hit_to_candidate_def)
qed

lemma fail_rule_ruled: "keeps (same ruled) (fail_rule t l err retryable now ids)"
  unfolding fail_rule_def release_lease_def require_lease_def Let_def
  by (intro same_intros; simp add: ruled_def)

lemma handed_run:
  assumes "leased (transact w 0 claim) work db = (Inr r, db')" "hand_out w claim db = Some l"
  obtains db1 where "snd (transact w 0 claim db) = db1" "work l db1 = (Inr r, db')"
  using assms by (auto simp: leased_Inr hand_out_def)

text \<open>
  C35: a rate reaches the ledger only from a clause that governs the charge. When an iteration of the rule
  worker returns, either no rule was recorded and no day rated, or the search found a clause that
  is verified, contains the expected phrase, has the currency, the unit and the scope of the invoice,
  and was in force on every charged date; then every day of the reconstruction has exactly the rate of
  that clause, in minor units, and at most one rule was added, which names that clause and carries that rate.
\<close>

theorem rates_only_from_governing_clauses:
  assumes "run_one_rule_task t worker w search db = (Inr r, db')"
    and "hand_out w (\<lambda>now ids. claim_next_rule_task t worker lease_seconds (wd_locked w 0) now ids) db = Some l"
    and "db1 = wd_others w 1 (snd (transact w 0 (\<lambda>now ids.
      claim_next_rule_task t worker lease_seconds (wd_locked w 0) now ids) db))"
  shows "(db_rules db' = db_rules db1 \<and> db_days db' = db_days db1)
    \<or> (\<exists>dates text sha hits h rate row. parse_dates (ul_dates l) = Inr dates \<and> search text (ul_carrier l) = Found sha hits
        \<and> h \<in> set hits \<and> governs l dates h rate
        \<and> db_rules db' \<in> {db_rules db1, db_rules db1 @ [row]} \<and> ru_rate row = rate \<and> ru_clause row = vh_clause_id h
        \<and> ru_reconstruction row = ul_reconstruction l
        \<and> db_days db' = update_rows (\<lambda>d. dy_tenant d = t \<and> dy_reconstruction d = ul_reconstruction l)
            (\<lambda>d. d\<lparr>dy_applicable_rate := Some rate\<rparr>) (db_days db1))"
proof -
  from handed_run [OF assms(1) [unfolded run_one_rule_task_def] assms(2)] assms(3) obtain db0 where
    db1: "db1 = wd_others w 1 db0" and work: "find_rule_leased t w search l db0 = (Inr r, db')"
    by metis
  from work consider
      err b s where "transact w 1 (\<lambda>now ids. fail_rule t l err b now ids) db0 = (Inr s, db')"
    | dates qt sha hits decision c where "parse_dates (ul_dates l) = Inr dates" "search qt (ul_carrier l) = Found sha hits"
        "decide_applicable_rule (rank_hits hits) (applicability_query_of l dates) = Inr decision"
        "transact w 1 (\<lambda>now ids. complete_rule t l (rule_query_of l qt sha) (rank_hits hits) decision now ids) db0 = (Inr c, db')"
    by (auto simp: find_rule_leased_def process_Inr split: if_splits sum.splits option.splits search_outcome.splits)
  then show ?thesis
  proof cases
    case 1
    then obtain now ids where "fail_rule t l err b now ids db1 = Inr (s, db')" using db1 by (auto dest: transact_Inr)
    from same.keepsD [OF fail_rule_ruled this] show ?thesis by (simp add: ruled_def)
  next
    case 2
    then obtain now ids where fin: "complete_rule t l (rule_query_of l qt sha) (rank_hits hits) decision now ids db1 = Inr (c, db')"
      using db1 by (auto dest: transact_Inr)
    show ?thesis
    proof (cases "\<exists>r \<in> set (db_searches db1). search_key r = (t, ul_reconstruction l, qy_fingerprint (rule_query_of l qt sha))")
      case True
      from rule_replayed(1,2) [OF fin this] show ?thesis by blast
    next
      case False
      with rule_effects(1) [OF fin] have eff: "rule_effect t l decision c now db1 db'" by blast
      show ?thesis
      proof (cases "verified_choice decision")
        case None
        with eff show ?thesis by (simp add: rule_effect_def flip: verified_choice_def)
      next
        case (Some v)
        with eff obtain i rate from_day where e: "cv_rate_minor v = Some rate"
          "db_rules db' = db_rules db1 @ (if (t, ul_reconstruction l) \<in> rule_recon_key ` set (db_rules db1) then []
              else [rule_row_of t l (uc_run c) v i now rate from_day])"
          "db_days db' = update_rows (\<lambda>d. dy_tenant d = t \<and> dy_reconstruction d = ul_reconstruction l)
              (\<lambda>d. d\<lparr>dy_applicable_rate := Some rate\<rparr>) (db_days db1)"
          by (auto simp: rule_effect_def simp flip: verified_choice_def)
        from accepted_governs [OF 2(3) Some e(1)] obtain h where h: "h \<in> set hits" "governs l dates h rate"
          "cv_candidate v = hit_to_candidate h (rc_rank (cv_candidate v))" by blast
        have "rc_clause_id (cv_candidate v) = vh_clause_id h" by (subst h(3)) (simp add: hit_to_candidate_def)
        then have "ru_clause (rule_row_of t l (uc_run c) v i now rate from_day) = vh_clause_id h"
          "ru_rate (rule_row_of t l (uc_run c) v i now rate from_day) = rate"
          "ru_reconstruction (rule_row_of t l (uc_run c) v i now rate from_day) = ul_reconstruction l"
          by (simp_all add: rule_row_of_def)
        moreover have "db_rules db' \<in> {db_rules db1, db_rules db1 @ [rule_row_of t l (uc_run c) v i now rate from_day]}"
          using e(2) by simp
        ultimately show ?thesis using 2(1,2) h(1,2) e(3) by blast
      qed
    qed
  qed
qed

section \<open>Days\<close>

text \<open>The tables of a reconstruction: the version, its events, its days.\<close>

definition timeline :: "db \<Rightarrow> reconstruction_row list \<times> event_version_row list \<times> day_row list" where
  "timeline db = (db_recons db, db_event_versions db, db_days db)"

lemma versions_appended:
  "tx_for ks (\<lambda>k. insert_event_version t l recon (g k) k (es ! k)) db = Inr (u, db') \<Longrightarrow>
     \<exists>rows. db' = db_event_versions_update (\<lambda>rs. rs @ rows) db \<and> map rv_public_ref rows = map (\<lambda>k. ev_public_ref (es ! k)) ks
       \<and> (\<forall>r \<in> set rows. rv_reconstruction r = recon)"
proof (induction ks arbitrary: db)
  case Nil
  then show ?case by (auto simp: tx_simps intro: exI [of _ "[]"])
next
  case (Cons k ks)
  from Cons.prems obtain a where
    "tx_for ks (\<lambda>k. insert_event_version t l recon (g k) k (es ! k))
      (db_event_versions_update (\<lambda>rs. rs @ [event_version t l recon (g k) k (es ! k) a]) db) = Inr (u, db')"
    by (auto simp: insert_event_version_def tx_simps split: option.splits)
  from Cons.IH [OF this] obtain rows where
    "db' = db_event_versions_update (\<lambda>rs. rs @ rows) (db_event_versions_update (\<lambda>rs. rs @ [event_version t l recon (g k) k (es ! k) a]) db)"
    "map rv_public_ref rows = map (\<lambda>k. ev_public_ref (es ! k)) ks" "\<forall>r \<in> set rows. rv_reconstruction r = recon" by blast
  then show ?case
    by (intro exI [of _ "event_version t l recon (g k) k (es ! k) a # rows"]) (simp add: comp_def event_version_def)
qed

lemma days_appended:
  "tx_for ks (\<lambda>k. insert_day t l recon known roles (g k) (days ! k)) db = Inr (u, db') \<Longrightarrow>
     timeline db' = (db_recons db, db_event_versions db,
       db_days db @ map (\<lambda>k. charged_day_row t l recon (g k) (days ! k)) ks)"
proof (induction ks arbitrary: db)
  case Nil
  then show ?case by (simp add: tx_simps timeline_def)
next
  case (Cons k ks)
  let ?db = "db_days_update (\<lambda>rs. rs @ [charged_day_row t l recon (g k) (days ! k)]) db"
  from Cons.prems obtain u1 db1 where
    b: "tx_for (day_bindings t (g k) known (roles_of_day roles (cd_date (days ! k))))
       (tx_insert_absent db_day_events db_day_events_update day_event_key) ?db = Inr (u1, db1)"
    and rest: "tx_for ks (\<lambda>k. insert_day t l recon known roles (g k) (days ! k)) db1 = Inr (u, db')"
    by (auto simp: insert_day_def tx_for.simps tx_then_Inr tx_insert_Inr)
  have "keeps (same timeline) (tx_for (day_bindings t (g k) known (roles_of_day roles (cd_date (days ! k))))
       (tx_insert_absent db_day_events db_day_events_update day_event_key))"
    by (intro same_intros) (simp add: timeline_def)
  from same.keepsD [OF this b] have "timeline db1 = timeline ?db" .
  with Cons.IH [OF rest] show ?case by (simp add: timeline_def)
qed

lemma timeline_rest:
  "keeps (same timeline) (insert_coverage t l recon coverage)" "keeps (same timeline) (finish_reconstruction t l state now)"
  "keeps (same timeline) (emit_rule_task t l recon version i now)" "keeps (same timeline) (announce_version t l r state now ids)"
  "keeps (same timeline) (fail_reconstruction t l err b now ids)"
  unfolding insert_coverage_def finish_reconstruction_def finish_task_def emit_rule_task_def enqueue_task_def announce_version_def
    fail_reconstruction_def release_lease_def require_lease_def Let_def
  by (intro same_intros; simp add: timeline_def)+

lemma completed_timeline:
  assumes "complete_reconstruction t l events days coverage state roles correlation query issues now ids db = Inr (c, db')"
  shows "timeline db' = timeline db
    \<or> (\<exists>r version rows. r = make_reconstruction t l (ids 0) version events days state correlation query issues now
        \<and> timeline db' = (db_recons db @ [r], db_event_versions db @ rows,
            db_days db @ map (\<lambda>k. charged_day_row t l (rn_id r) (event_row_id ids (length events + k)) (days ! k)) [0..<length days])
        \<and> map rv_public_ref rows = map ev_public_ref events \<and> c = completion_of r)"
proof (cases "List.find (\<lambda>r. reconstruction_print r = (t, tl_invoice l, rl_fingerprint l)) (db_recons db)")
  case (Some r)
  with assms have "finish_reconstruction t l state now db = Inr ((), db')"
    by (auto simp: complete_reconstruction_def tx_simps require_lease_Inr)
  from same.keepsD [OF timeline_rest(2) this] show ?thesis ..
next
  case None
  define r where "r = make_reconstruction t l (ids 0) (next_reconstruction_version t (tl_invoice l) db) events days state
    correlation query issues now"
  from assms None obtain db1 db2 where
    p: "persist_version t l r events days coverage roles ids db = Inr ((), db1)"
    and rest: "tx_then (finish_reconstruction t l state now)
         (tx_then (if hands_to_rule state then emit_rule_task t l (ids 0) (next_reconstruction_version t (tl_invoice l) db) (ids 1) now
                   else tx_return ()) (announce_version t l r state now ids)) db1 = Inr ((), db')" and c: "c = completion_of r"
    by (auto simp: complete_reconstruction_def Let_def tx_then_Inr tx_bind_Inr tx_read_Inr tx_return_Inr require_lease_Inr r_def)
  have k: "keeps (same timeline) (tx_then (finish_reconstruction t l state now)
         (tx_then (if hands_to_rule state then emit_rule_task t l (ids 0) (next_reconstruction_version t (tl_invoice l) db) (ids 1) now
                   else tx_return ()) (announce_version t l r state now ids)))"
    by (intro same_intros timeline_rest)
  from p obtain db3 db4 u1 u2 where
    e: "tx_for [0..<length events] (\<lambda>k. insert_event_version t l (rn_id r) (event_row_id ids k) k (events ! k))
        (db_recons_update (\<lambda>rs. rs @ [r]) db) = Inr (u1, db3)"
    and d: "tx_for [0..<length days] (\<lambda>k. insert_day t l (rn_id r) (event_ids ids events) roles
         (event_row_id ids (length events + k)) (days ! k)) db3 = Inr (u2, db4)"
    and g: "insert_coverage t l (rn_id r) coverage db4 = Inr ((), db1)"
    by (auto simp: persist_version_def insert_reconstruction_def tx_then_Inr tx_insert_Inr tx_unique_Inr)
  from versions_appended [OF e] obtain rows where
    rows: "db3 = db_event_versions_update (\<lambda>rs. rs @ rows) (db_recons_update (\<lambda>rs. rs @ [r]) db)"
    "map rv_public_ref rows = map (\<lambda>k. ev_public_ref (events ! k)) [0..<length events]" by blast
  have "map (\<lambda>k. ev_public_ref (events ! k)) [0..<length events] = map ev_public_ref events"
    by (rule nth_equalityI) simp_all
  with rows same.keepsD [OF k rest] same.keepsD [OF timeline_rest(1) g] days_appended [OF d] c r_def
  show ?thesis by (intro disjI2 exI [of _ r] exI [of _ "next_reconstruction_version t (tl_invoice l) db"] exI [of _ rows])
    (simp add: timeline_def)
qed

lemma failed_timeline:
  "failing_reconstruction t w k l err b db = (Inr s, db') \<Longrightarrow> timeline db' = timeline (wd_others w k db)"
  unfolding failing_reconstruction_def using same.keepsD [OF timeline_rest(5)] by (blast dest: transact_Inr)

lemma day_state_complete: "day_state_text s = ''SOURCE_COMPLETE'' \<longleftrightarrow> s = DaySourceComplete"
  by (simp add: day_state_text_def split: charged_day_state.split)

lemma reconstruction_complete: "reconstruction_state_text s = ''COMPLETE'' \<longleftrightarrow> s = Complete"
  by (simp add: reconstruction_state_text_def split: reconstruction_state.split)

lemma adjudicated_state:
  "cd_state (adjudicate_day rate currency events boundary d) = DaySourceComplete \<longleftrightarrow>
     day_sourced events d \<and> in_window boundary d"
  by (cases boundary) (simp_all add: day_state in_window_def)

lemma adjudicated_rows:
  assumes "days = adjudicate_charged_days dates rate currency events boundary"
    and "rows = map (\<lambda>k. charged_day_row t l recon (g k) (days ! k)) [0..<length days]"
  shows "map dy_date rows = dates"
    and "d \<in> set rows \<Longrightarrow> dy_reconstruction d = recon \<and> dy_applicable_rate d = None
      \<and> (dy_state d = ''SOURCE_COMPLETE'' \<longleftrightarrow> day_sourced events (dy_date d) \<and> in_window boundary (dy_date d))"
proof -
  have "map (\<lambda>k. cd_date (days ! k)) [0..<length days] = map cd_date days"
    by (rule nth_equalityI) simp_all
  also have "\<dots> = dates" by (simp add: assms(1) adjudicate_charged_days_def comp_def)
  finally show "map dy_date rows = dates" by (simp add: assms(2) comp_def charged_day_row_def)
  have sourced: "cd_state (days ! k) = DaySourceComplete \<longleftrightarrow> day_sourced events (cd_date (days ! k)) \<and> in_window boundary (cd_date (days ! k))"
    if "k < length days" for k
    using that by (simp add: assms(1) adjudicate_charged_days_def adjudicated_state)
  show "dy_reconstruction d = recon \<and> dy_applicable_rate d = None
      \<and> (dy_state d = ''SOURCE_COMPLETE'' \<longleftrightarrow> day_sourced events (dy_date d) \<and> in_window boundary (dy_date d))"
    if "d \<in> set rows"
  proof -
    from that assms(2) obtain k where "k < length days" "d = charged_day_row t l recon (g k) (days ! k)" by auto
    with sourced [of k] show ?thesis by (simp add: charged_day_row_def day_state_complete)
  qed
qed

lemma adjudicated_complete:
  "resolve_terminal_state (adjudicate_charged_days dates rate currency events boundary) = Complete \<longleftrightarrow>
     dates \<noteq> [] \<and> (\<forall>d \<in> set dates. day_sourced events d \<and> in_window boundary d)"
  by (simp add: terminal_Complete adjudicate_charged_days_def adjudicated_state)

text \<open>What a version says, given the rows that were read: nothing but their validated events.\<close>

definition version_of ::
  "(string \<Rightarrow> int \<Rightarrow> int) \<Rightarrow> reconstruction_lease \<Rightarrow> raw_event_row list \<Rightarrow> reconstruction_row \<Rightarrow> event_version_row list
     \<Rightarrow> day_row list \<Rightarrow> bool" where
  "version_of tz l read r versions days =
     (let events = va_accepted (validate_events read (utc_datetime (rl_cutoff l)) (rl_shipment l) (rl_container l));
          ok = (\<lambda>d. day_sourced events d \<and> in_window (resolve_charge_boundary tz effective_timezone events) d)
      in events \<noteq> [] \<and> map rv_public_ref versions = map ev_public_ref events
        \<and> (\<forall>d \<in> set days. dy_reconstruction d = rn_id r \<and> dy_applicable_rate d = None
             \<and> (dy_state d = ''SOURCE_COMPLETE'' \<longleftrightarrow> ok (dy_date d)))
        \<and> (rn_state r = ''COMPLETE'' \<longleftrightarrow> (\<forall>d \<in> set days. ok (dy_date d))))"

text \<open>
  C36: days are charged only on verified evidence. When an iteration of the reconstruction worker returns
  a completion, either the version of these inputs was there and the timeline is unchanged, or one version was
  added, made of what the server or the driver returned to the fixed query: its events are exactly
  those that pass validation, and there is at least one; its days are the charged dates of the claims; a day
  is sourced exactly when the events that it requires are present and it lies in the window they define;
  it has no rate yet; and the version is complete exactly when every day is sourced. An iteration that
  returns nothing adds no version, no event and no day.
\<close>

theorem days_only_on_verified_evidence:
  assumes "run_one_reconstruction_task tz t worker w src db = (Inr result, db')"
    and "hand_out w (\<lambda>now ids. claim_next_reconstruction_task t worker lease_seconds (wd_locked w 0) now ids) db = Some l"
    and "db1 = wd_others w 1 (snd (transact w 0 (\<lambda>now ids.
      claim_next_reconstruction_task t worker lease_seconds (wd_locked w 0) now ids) db))"
  shows "case result of
      None \<Rightarrow> timeline db' \<in> {timeline db1, timeline (wd_others w 2 db1)}
    | Some c \<Rightarrow> timeline db' = timeline db1
        \<or> (\<exists>memory r versions days. read_memory src l = Inr memory \<and> c = completion_of r
            \<and> timeline db' = (db_recons db1 @ [r], db_event_versions db1 @ versions, db_days db1 @ days)
            \<and> parse_dates (rl_dates l) = Inr (map dy_date days) \<and> version_of tz l (mr_rows memory) r versions days)"
proof -
  from handed_run [OF assms(1) [unfolded run_one_reconstruction_task_def] assms(2)] assms(3) obtain db0 where
    db1: "db1 = wd_others w 1 db0" and work: "reconstruct_leased tz t w src l db0 = (Inr result, db')"
    by metis
  let ?v = "\<lambda>m. validate_events (mr_rows m) (utc_datetime (rl_cutoff l)) (rl_shipment l) (rl_container l)"
  from work consider
      err b s where "result = None" "failing_reconstruction t w 1 l err b db0 = (Inr s, db')"
    | m dates c where "read_memory src l = Inr m" "va_accepted (?v m) \<noteq> []" "parse_dates (rl_dates l) = Inr dates"
        "result = Some c" "rl_dates l \<noteq> []" "complete_or_raise tz t w l m (?v m) dates db0 = (Inr c, db')"
    | m dates e db2 err s where "result = None" "complete_or_raise tz t w l m (?v m) dates db0 = (Inl e, db2)"
        "failing_reconstruction t w 2 l err False db2 = (Inr s, db')"
    by (auto simp: reconstruct_leased_def Let_def process_Inr split: if_splits sum.splits)
  then show ?thesis
  proof cases
    case 1
    with failed_timeline db1 show ?thesis by simp
  next
    case 3
    then have "db2 = db1" using db1 by (simp add: complete_or_raise_def Let_def transact_Inl)
    with failed_timeline [OF 3(3)] 3(1) show ?thesis by simp
  next
    case 2
    define events where "events = va_accepted (?v m)"
    define boundary where "boundary = resolve_charge_boundary tz effective_timezone events"
    define days where "days = adjudicate_charged_days dates (rl_rate l) (rl_currency l) events boundary"
    from 2(6) db1 obtain coverage roles correlation query issues now ids where
      "complete_reconstruction t l events days coverage (resolve_terminal_state days) roles correlation query issues now ids db1
        = Inr (c, db')"
      by (auto simp: complete_or_raise_def Let_def events_def boundary_def days_def dest!: transact_Inr)
    from completed_timeline [OF this] show ?thesis
    proof
      assume "timeline db' = timeline db1"
      with 2(4) show ?thesis by simp
    next
      assume "\<exists>r version rows. r = make_reconstruction t l (ids 0) version events days (resolve_terminal_state days) correlation query
            issues now
        \<and> timeline db' = (db_recons db1 @ [r], db_event_versions db1 @ rows,
            db_days db1 @ map (\<lambda>k. charged_day_row t l (rn_id r) (event_row_id ids (length events + k)) (days ! k)) [0..<length days])
        \<and> map rv_public_ref rows = map ev_public_ref events \<and> c = completion_of r"
      then obtain r version rows where
        r: "r = make_reconstruction t l (ids 0) version events days (resolve_terminal_state days) correlation query issues now"
        and tl: "timeline db' = (db_recons db1 @ [r], db_event_versions db1 @ rows,
            db_days db1 @ map (\<lambda>k. charged_day_row t l (rn_id r) (event_row_id ids (length events + k)) (days ! k)) [0..<length days])"
        and refs: "map rv_public_ref rows = map ev_public_ref events" and c: "c = completion_of r" by blast
      define drows where "drows = map (\<lambda>k. charged_day_row t l (rn_id r) (event_row_id ids (length events + k)) (days ! k)) [0..<length days]"
      note adj = adjudicated_rows [OF days_def drows_def]
      note dates = adj(1)
      have sourced: "\<forall>d \<in> set drows. dy_reconstruction d = rn_id r \<and> dy_applicable_rate d = None
          \<and> (dy_state d = ''SOURCE_COMPLETE'' \<longleftrightarrow> day_sourced events (dy_date d) \<and> in_window boundary (dy_date d))"
        using adj(2) by blast
      have "length dates = length (rl_dates l)" using 2(3) by (auto simp: parse_dates_def dest: rmap_Inr_length)
      with 2(5) have "dates \<noteq> []" by auto
      moreover have "rn_state r = reconstruction_state_text (resolve_terminal_state days)" by (simp add: r make_reconstruction_def)
      ultimately have "rn_state r = ''COMPLETE'' \<longleftrightarrow> (\<forall>d \<in> set drows. day_sourced events (dy_date d) \<and> in_window boundary (dy_date d))"
        using dates by (auto simp: reconstruction_complete days_def adjudicated_complete)
      with sourced refs 2(2) have "version_of tz l (mr_rows m) r rows drows"
        unfolding version_of_def Let_def by (simp add: boundary_def flip: events_def)
      with tl [folded drows_def] 2(1,3,4) c dates show ?thesis by auto
    qed
  qed
qed

section \<open>Samples\<close>

definition alone :: surroundings where
  "alone = \<lparr>wd_others = \<lambda>k db. db, wd_restarts = \<lambda>k. [], wd_now = \<lambda>k n. 0, wd_ids = \<lambda>k n. work_id, wd_locked = \<lambda>k i. False\<rparr>"

lemma alone_sel [simp]:
  "wd_others alone k db = db" "wd_restarts alone k = []" "wd_now alone k n = 0" "wd_ids alone k n = work_id"
  "wd_locked alone k = (\<lambda>i. False)"
  by (simp_all add: alone_def)

lemma tidy_alone: "tidy alone"
  by (simp add: tidy_def)

lemma transact_alone: "transact alone k body db = (case body 0 work_id db of Inl e \<Rightarrow> (Inl e, db) | Inr (a, db') \<Rightarrow> (Inr a, db'))"
  by (simp add: transact_def)

lemma none_judged:
  "case run_one_judgment_task ''t'' ''me'' alone (working_db JudgeDays []) of (Inr None, db') \<Rightarrow> True | _ \<Rightarrow> False"
  "case hand_out alone (\<lambda>now ids. claim_next_judgment_task ''t'' ''me'' lease_seconds (wd_locked alone 0) now)
     (working_db JudgeDays []) of None \<Rightarrow> False | Some l \<Rightarrow> tl_task l = ''w''"
  by code_simp+

theorem iteration_settles_lease_witness:
  "\<exists>db'. run_one_judgment_task ''t'' ''me'' alone (working_db JudgeDays []) = (Inr None, db') \<and> \<not> task_running db' (''t'', ''w'')"
proof -
  from none_judged(1) obtain db' where run: "run_one_judgment_task ''t'' ''me'' alone (working_db JudgeDays []) = (Inr None, db')"
    by (auto split: prod.splits sum.splits option.splits)
  from none_judged(2) obtain l where l: "hand_out alone (\<lambda>now ids. claim_next_judgment_task ''t'' ''me'' lease_seconds (wd_locked alone 0) now)
     (working_db JudgeDays []) = Some l" "tl_task l = ''w''"
    by (auto split: option.splits)
  from iteration_settles_lease [OF tidy_alone working_ready(3), THEN conjunct2, THEN conjunct2, THEN conjunct2, THEN conjunct1,
      THEN mp, OF run] l
  have "\<not> task_running db' (''t'', ''w'')" by simp
  with run show ?thesis by (intro exI [of _ db'] conjI)
qed

definition no_memory :: memory_sources where
  "no_memory = \<lparr>ms_select = \<lambda>q. Inl McpAuthentication, ms_marked = False, ms_run = \<lambda>q. None\<rparr>"

lemma none_reconstructed:
  "case run_one_reconstruction_task (\<lambda>z i. 0) ''t'' ''me'' alone no_memory (working_db StartReconstruction []) of
     (Inr None, db') \<Rightarrow> True | _ \<Rightarrow> False"
  "case transact alone 0 (\<lambda>now ids. claim_next_reconstruction_task ''t'' ''me'' lease_seconds (wd_locked alone 0) now ids)
     (working_db StartReconstruction []) of (Inr (Some l), db1) \<Rightarrow> db_recons db1 = [] \<and> db_event_versions db1 = [] \<and> db_days db1 = []
     | _ \<Rightarrow> False"
  by code_simp+

theorem days_only_on_verified_evidence_witness:
  "\<exists>db'. run_one_reconstruction_task (\<lambda>z i. 0) ''t'' ''me'' alone no_memory (working_db StartReconstruction []) = (Inr None, db')
     \<and> timeline db' = ([], [], [])"
proof -
  let ?claim = "\<lambda>now ids. claim_next_reconstruction_task ''t'' ''me'' lease_seconds (wd_locked alone 0) now ids"
  from none_reconstructed(1) obtain db' where
    run: "run_one_reconstruction_task (\<lambda>z i. 0) ''t'' ''me'' alone no_memory (working_db StartReconstruction []) = (Inr None, db')"
    by (auto split: prod.splits sum.splits option.splits)
  from none_reconstructed(2) obtain l db1 where c: "transact alone 0 ?claim (working_db StartReconstruction []) = (Inr (Some l), db1)"
    and e: "db_recons db1 = [] \<and> db_event_versions db1 = [] \<and> db_days db1 = []"
    by (auto split: prod.splits sum.splits option.splits)
  then have "hand_out alone ?claim (working_db StartReconstruction []) = Some l"
    "db1 = wd_others alone 1 (snd (transact alone 0 ?claim (working_db StartReconstruction [])))" by (simp_all add: hand_out_def)
  from days_only_on_verified_evidence [OF run this] e have "timeline db' = ([], [], [])" by (simp add: timeline_def)
  with run show ?thesis by (intro exI [of _ db'] conjI)
qed

definition sample_hit :: vector_hit where
  "sample_hit =
     \<lparr>vh_clause_id = ''c'', vh_clause_ref = ''1'', vh_clause_text = ''$250'', vh_rate_amount = Some (Dec False 250 0),
      vh_rate_currency = Some ''USD'', vh_rate_unit = Some ''CALENDAR_DAY'', vh_locator = None,
      vh_effective_from = Some (Date 2026 1 1), vh_effective_to = None, vh_equipment = Some ''DRY'',
      vh_route = Some ''USOAK'', vh_service = None, vh_verification = ''VERIFIED'', vh_distance = 0\<rparr>"

definition sample_applicability :: applicability_query where
  "sample_applicability =
     \<lparr>aq_charged_dates = [Date 2026 6 8], aq_invoice_currency = ''USD'', aq_expected_unit = ''CALENDAR_DAY'',
      aq_scope_code = ''DEMURRAGE:USOAK:DRY'', aq_expected_rate_phrase = ''$250'', aq_equipment_type = Some ''DRY'',
      aq_route_code = Some ''USOAK''\<rparr>"

definition sample_validation :: candidate_validation where
  "sample_validation =
     \<lparr>cv_candidate = hit_to_candidate sample_hit 1, cv_state = ACCEPTED,
      cv_results = validator_results (hit_to_candidate sample_hit 1) sample_applicability (Some 25000),
      cv_rejection_code = None, cv_rate_minor = Some 25000\<rparr>"

lemma sample_hit_decided:
  "decide_applicable_rule (rank_hits [sample_hit]) sample_applicability =
     Inr \<lparr>ad_state = RuleVerified, ad_accepted = Some sample_validation, ad_validations = [sample_validation],
       ad_public_error = None\<rparr>"
proof -
  let ?c = "hit_to_candidate sample_hit 1"
  have "failed_validators (validator_results ?c sample_applicability (Some 25000)) = []" by code_simp
  moreover have "rate_minor (rc_rate_amount ?c) = Inr (Some 25000)"
    using rate_minor_exact [of 0 250] by (simp add: hit_to_candidate_def sample_hit_def)
  ultimately have "validate_candidate ?c sample_applicability = Inr sample_validation"
    by (simp add: validate_candidate_def sample_validation_def Let_def)
  then show ?thesis
    by (simp add: decide_applicable_rule_def rank_hits_def decide_validations_def sample_validation_def Let_def)
qed

definition rule_refs :: "json list" where
  "rule_refs = [object_ref ''reconstruction'' ''r'' 1]"

definition unrated_db :: db where
  "unrated_db = (working_db FindApplicableRule rule_refs)
     \<lparr>db_days := [sample_ledger\<lparr>dy_applicable_rate := None\<rparr>]\<rparr>"

lemma sample_parsed: "parse_dates [date_iso (Date 2026 6 8)] = Inr [Date 2026 6 8]"
  by (simp add: parse_dates_def date_iso_roundtrip days_in_month_def)

definition unrated_lease :: rule_lease where
  "unrated_lease =
     \<lparr>tl_task = ''w'', tl_invoice = ''i'', tl_attempt = 1, tl_worker = ''me'', tl_initiated = None, tl_actor = ''a'',
      ul_reconstruction = ''r'', ul_cutoff = 0, ul_fingerprint = ''p'', ul_carrier = in_carrier sample_invoice,
      ul_scope = ''DEMURRAGE:USOAK:DRY'', ul_dates = [date_iso (Date 2026 6 8)], ul_currency = ''USD''\<rparr>"

lemma unrated_ref: "ref_id ''reconstruction'' rule_refs = ''r''"
  by code_simp

lemma unrated_next: "next_task ''t'' FindApplicableRule 0 (\<lambda>i. False) unrated_db = Some (sample_work FindApplicableRule rule_refs)"
  by (simp add: next_task_def runnable_tasks_def runnable_def unrated_db_def working_db_def empty_db_def sample_work_def)

lemma unrated_claimed:
  "\<exists>db1. db_rules db1 = [] \<and> db_days db1 = [sample_ledger\<lparr>dy_applicable_rate := None\<rparr>]
     \<and> claim_next_rule_task ''t'' ''me'' lease_seconds (\<lambda>i. False) 0 work_id unrated_db = Inr (Some unrated_lease, db1)
     \<and> (\<exists>c db'. complete_rule ''t'' unrated_lease (rule_query_of unrated_lease text ''h'') (rank_hits [sample_hit])
          \<lparr>ad_state = RuleVerified, ad_accepted = Some sample_validation, ad_validations = [sample_validation],
       ad_public_error = None\<rparr> 0 work_id db1 = Inr (c, db') \<and> map ru_rate (db_rules db') = [25000])"
  apply (simp add: claim_next_rule_task_def unrated_next tx_run rule_lease_of_def)
  apply (simp add: begin_attempt_def tx_run unrated_db_def sample_state update_rows_def
      task_pk_def attempt_key_def lock_invoice_and_advance_def find_invoice_def invoice_key_def insert_event_def insert_row_def
      rule_event_def event_key_def days_of_def sample_ledger_def unrated_ref task_lease_of_def task_lease.defs rule_lease.defs
      unrated_lease_def Let_def)
  apply (simp add: complete_rule_def)
  apply (simp add: tx_run lease_run insert_search_def candidate_row_of_def validation_of_def rank_hits_def hit_to_candidate_def sample_hit_def sample_validation_def
      candidate_key_def search_key_def verified_choice_def insert_applicable_rule_def rule_row_of_def rule_recon_key_def
      day_rule_key_def finish_rule_def coverage_complete_def emit_judgment_task_def enqueue_task_def
      announce_rule_def Let_def new_task_def task_identity_def work_id_def event_key_def)
  done

lemma sample_rated:
  obtains c db1 db' where
    "db_rules db1 = []" "db_days db1 = [sample_ledger\<lparr>dy_applicable_rate := None\<rparr>]"
    "transact alone 0 (\<lambda>now ids. claim_next_rule_task ''t'' ''me'' lease_seconds (wd_locked alone 0) now ids) unrated_db
       = (Inr (Some unrated_lease), db1)"
    "run_one_rule_task ''t'' ''me'' alone (\<lambda>text carrier. Found ''h'' [sample_hit]) unrated_db = (Inr (Some c), db')"
    "map ru_rate (db_rules db') = [25000]"
proof -
  obtain qt where qt: "build_hero_query_text ''US Oakland dry demurrage'' [Date 2026 6 8] = Some qt"
    by (simp add: build_hero_query_text_def)
  from unrated_claimed [of qt] obtain db1 c db' where
    e: "db_rules db1 = []" "db_days db1 = [sample_ledger\<lparr>dy_applicable_rate := None\<rparr>]"
    and claim: "claim_next_rule_task ''t'' ''me'' lease_seconds (\<lambda>i. False) 0 work_id unrated_db = Inr (Some unrated_lease, db1)"
    and run: "complete_rule ''t'' unrated_lease (rule_query_of unrated_lease qt ''h'') (rank_hits [sample_hit])
          \<lparr>ad_state = RuleVerified, ad_accepted = Some sample_validation, ad_validations = [sample_validation],
       ad_public_error = None\<rparr> 0 work_id db1 = Inr (c, db')" "map ru_rate (db_rules db') = [25000]"
    by (elim exE conjE) (rule that)
  have q: "applicability_query_of unrated_lease [Date 2026 6 8] = sample_applicability"
    by (simp add: applicability_query_of_def sample_applicability_def unrated_lease_def)
  have d: "ul_dates unrated_lease = [date_iso (Date 2026 6 8)]" by (simp add: unrated_lease_def)
  show ?thesis
    by (rule that [of db1 c db'])
      (simp_all add: transact_alone claim run_one_rule_task_def leased_def find_rule_leased_def sample_parsed d qt q
        sample_hit_decided completing_def run e)
qed

theorem rates_only_from_governing_clauses_witness:
  "\<exists>c db'. run_one_rule_task ''t'' ''me'' alone (\<lambda>text carrier. Found ''h'' [sample_hit]) unrated_db = (Inr (Some c), db')
     \<and> map ru_rate (db_rules db') = [25000] \<and> map dy_applicable_rate (db_days db') = [Some 25000]"
proof (rule sample_rated)
  let ?claim = "\<lambda>now ids. claim_next_rule_task ''t'' ''me'' lease_seconds (wd_locked alone 0) now ids"
  fix c db1 db'
  assume db1: "db_rules db1 = []" "db_days db1 = [sample_ledger\<lparr>dy_applicable_rate := None\<rparr>]"
    and claim: "transact alone 0 ?claim unrated_db = (Inr (Some unrated_lease), db1)"
    and run: "run_one_rule_task ''t'' ''me'' alone (\<lambda>text carrier. Found ''h'' [sample_hit]) unrated_db = (Inr (Some c), db')"
    and rate: "map ru_rate (db_rules db') = [25000]"
  from claim have "hand_out alone ?claim unrated_db = Some unrated_lease"
    "db1 = wd_others alone 1 (snd (transact alone 0 ?claim unrated_db))" by (simp_all add: hand_out_def)
  from rates_only_from_governing_clauses [OF run this] db1 rate have "map dy_applicable_rate (db_days db') = [Some 25000]"
    by (auto simp: update_rows_def sample_ledger_def unrated_lease_def)
  with run rate show ?thesis by (intro exI [of _ c] exI [of _ db'] conjI)
qed

end
