(* ===== verification/VectorRetrieval.thy ===== *)
theory VectorRetrieval
  imports Complex_Main Digest PyNum PyTime "HOL-Library.Product_Lexorder"
begin

text \<open>
  \<open>src/core/vector_retrieval.py\<close>: the clauses of a scope are ranked by the distance of their embeddings, and the
  first one that passes every deterministic filter is selected. The distance is binary floating point
  and an argument here, any function of the two embeddings; everything else is exact.
\<close>

section \<open>Text\<close>

text \<open>\<open>bytes.decode("utf-8")\<close>, strict: code points, or \<open>None\<close> for a \<open>UnicodeDecodeError\<close>.\<close>

definition utf8_tail :: "nat \<Rightarrow> bool" where
  "utf8_tail b = (128 \<le> b \<and> b < 192)"

fun utf8_decode :: "nat list \<Rightarrow> nat list option" where
  "utf8_decode [] = Some []"
| "utf8_decode (b # bs) =
     (if b < 128 then map_option (Cons b) (utf8_decode bs)
      else if 194 \<le> b \<and> b < 224 then (case bs of
          c # r \<Rightarrow> if utf8_tail c then map_option (Cons ((b - 192) * 64 + (c - 128))) (utf8_decode r) else None
        | _ \<Rightarrow> None)
      else if 224 \<le> b \<and> b < 240 then (case bs of
          c # d # r \<Rightarrow>
            if utf8_tail c \<and> utf8_tail d \<and> (b = 224 \<longrightarrow> 160 \<le> c) \<and> (b = 237 \<longrightarrow> c < 160)
            then map_option (Cons ((b - 224) * 4096 + (c - 128) * 64 + (d - 128))) (utf8_decode r) else None
        | _ \<Rightarrow> None)
      else if 240 \<le> b \<and> b < 245 then (case bs of
          c # d # e # r \<Rightarrow>
            if utf8_tail c \<and> utf8_tail d \<and> utf8_tail e \<and> (b = 240 \<longrightarrow> 144 \<le> c) \<and> (b = 244 \<longrightarrow> c < 144)
            then map_option (Cons ((b - 240) * 262144 + (c - 128) * 4096 + (d - 128) * 64 + (e - 128))) (utf8_decode r)
            else None
        | _ \<Rightarrow> None)
      else None)"

text \<open>\<open>_normalize_text\<close> on code points; the white space of Unicode.\<close>

definition unicode_space :: "nat \<Rightarrow> bool" where
  "unicode_space n =
     (n \<in> {9, 10, 11, 12, 13, 28, 29, 30, 31, 32, 133, 160, 5760, 8232, 8233, 8239, 8287, 12288} \<or> 8192 \<le> n \<and> n \<le> 8202)"

fun squeeze :: "nat list \<Rightarrow> nat list" where
  "squeeze [] = []"
| "squeeze (n # ns) =
     (if unicode_space n then 32 # squeeze (dropWhile unicode_space ns) else n # squeeze ns)"

definition normalize_text :: "nat list \<Rightarrow> nat list" where
  "normalize_text s = rev (dropWhile unicode_space (rev (dropWhile unicode_space (squeeze s))))"

definition code_points :: "string \<Rightarrow> nat list" where
  "code_points s = map code s"

section \<open>Documents and requests\<close>

record 'e clause_document =
  vd_clause_id :: string
  vd_tenant :: string
  vd_carrier :: string
  vd_family :: string
  vd_capture_id :: string
  vd_source_version :: string
  vd_source_sha256 :: string
  vd_clause_sha256 :: string
  vd_effective_from :: date
  vd_effective_to :: "date option"
  vd_equipment :: string
  vd_route :: string
  vd_service :: string
  vd_rate_amount :: decimal
  vd_rate_currency :: string
  vd_rate_unit :: string
  vd_clause_text :: string
  vd_embedding :: 'e
  vd_integrity :: bool
  vd_source_bytes :: "string option"

definition blank :: "string \<Rightarrow> bool" where
  "blank s = (py_strip s = '''')"

text \<open>\<open>__post_init__\<close>: what it raises; comparing a NaN raises \<open>InvalidOperation\<close>.\<close>

definition document_error :: "'e clause_document \<Rightarrow> string option" where
  "document_error d =
     (if list_ex blank [vd_clause_id d, vd_tenant d, vd_carrier d, vd_family d, vd_capture_id d, vd_source_version d,
        vd_source_sha256 d, vd_clause_sha256 d, vd_equipment d, vd_route d, vd_service d, vd_rate_currency d,
        vd_rate_unit d, vd_clause_text d]
      then Some ''clause identity, context, and source fields are required''
      else if (case vd_effective_to d of None \<Rightarrow> False | Some e \<Rightarrow> e < vd_effective_from d)
      then Some ''effective_to must not precede effective_from''
      else case dec_less_zero (vd_rate_amount d) of
        Inl _ \<Rightarrow> Some ''InvalidOperation''
      | Inr negative \<Rightarrow> if negative then Some ''rate_amount must not be negative'' else None)"

record 'e retrieval_request =
  vq_tenant :: string
  vq_carrier :: string
  vq_family :: string
  vq_charge_date :: date
  vq_equipment :: string
  vq_route :: string
  vq_service :: string
  vq_embedding :: 'e

definition has_scope_prefix :: "'e retrieval_request \<Rightarrow> bool" where
  "has_scope_prefix q = list_all (\<lambda>s. \<not> blank s) [vq_tenant q, vq_carrier q, vq_family q]"

definition has_charge_context :: "'e retrieval_request \<Rightarrow> bool" where
  "has_charge_context q = list_all (\<lambda>s. \<not> blank s) [vq_equipment q, vq_route q, vq_service q]"

record candidate_evaluation =
  ce_clause_id :: string
  ce_tenant :: string
  ce_carrier :: string
  ce_family :: string
  ce_capture_id :: string
  ce_source_version :: string
  ce_equipment :: string
  ce_route :: string
  ce_service :: string
  ce_rate_amount :: decimal
  ce_rate_currency :: string
  ce_rate_unit :: string
  ce_integrity :: bool
  ce_distance :: "rat option"
  ce_temporal :: string
  ce_source :: string
  ce_selected :: bool
  ce_rejections :: "string list"

record retrieval_result =
  vr_candidates :: "candidate_evaluation list"
  vr_selected :: "candidate_evaluation option"
  vr_abstention :: "string list"

section \<open>The filters\<close>

definition temporal_status :: "'e clause_document \<Rightarrow> date \<Rightarrow> string" where
  "temporal_status d day =
     (if day < vd_effective_from d then ''not_yet_effective''
      else case vd_effective_to d of
        None \<Rightarrow> ''applies''
      | Some e \<Rightarrow> if e < day then ''expired'' else ''applies'')"

definition required_dates :: "'e clause_document \<Rightarrow> string list" where
  "required_dates d =
     date_iso (vd_effective_from d) # (case vd_effective_to d of None \<Rightarrow> [] | Some e \<Rightarrow> [date_iso e])"

definition exact_source_status :: "'e clause_document \<Rightarrow> string" where
  "exact_source_status d =
     (case vd_source_bytes d of
        None \<Rightarrow> ''missing''
      | Some body \<Rightarrow>
          if sha256_hexdigest (utf8_encode (vd_clause_text d)) \<noteq> vd_clause_sha256 d then ''clause_hash_mismatch''
          else if sha256_hexdigest body \<noteq> vd_source_sha256 d then ''hash_mismatch''
          else case utf8_decode (map code body) of
            None \<Rightarrow> ''not_utf8''
          | Some source \<Rightarrow>
              if \<not> sublist (normalize_text (code_points (vd_clause_text d))) (normalize_text source) then ''clause_absent''
              else if list_ex (\<lambda>r. \<not> sublist (code_points r) source) (required_dates d) then ''effective_date_absent''
              else ''verified'')"

definition rejection_reasons ::
  "rat option \<Rightarrow> string \<Rightarrow> string \<Rightarrow> 'e clause_document \<Rightarrow> 'e retrieval_request \<Rightarrow> string list" where
  "rejection_reasons distance temporal source d q =
     (if distance = None then [''invalid_embedding''] else [])
     @ (if \<not> vd_integrity d then [''embedding_hash_mismatch''] else [])
     @ (if vd_equipment d \<noteq> vq_equipment q then [''equipment_mismatch''] else [])
     @ (if vd_route d \<noteq> vq_route q then [''route_mismatch''] else [])
     @ (if vd_service d \<noteq> vq_service q then [''service_mismatch''] else [])
     @ (if temporal \<noteq> ''applies'' then [''temporal_'' @ temporal] else [])
     @ (if source \<noteq> ''verified'' then [''exact_source_'' @ source] else [])"

definition evaluate :: "('e \<Rightarrow> 'e \<Rightarrow> rat option) \<Rightarrow> 'e clause_document \<Rightarrow> 'e retrieval_request \<Rightarrow> candidate_evaluation" where
  "evaluate l2 d q =
     (let distance = l2 (vq_embedding q) (vd_embedding d);
          temporal = temporal_status d (vq_charge_date q);
          source = exact_source_status d;
          reasons = rejection_reasons distance temporal source d q
      in \<lparr>ce_clause_id = vd_clause_id d, ce_tenant = vd_tenant d, ce_carrier = vd_carrier d, ce_family = vd_family d,
          ce_capture_id = vd_capture_id d, ce_source_version = vd_source_version d, ce_equipment = vd_equipment d,
          ce_route = vd_route d, ce_service = vd_service d, ce_rate_amount = vd_rate_amount d,
          ce_rate_currency = vd_rate_currency d, ce_rate_unit = vd_rate_unit d, ce_integrity = vd_integrity d,
          ce_distance = distance, ce_temporal = temporal, ce_source = source, ce_selected = (reasons = []),
          ce_rejections = reasons\<rparr>)"

section \<open>Ranking\<close>

type_synonym scope = "string \<times> string \<times> string"

definition document_scope :: "'e clause_document \<Rightarrow> scope" where
  "document_scope d = (vd_tenant d, vd_carrier d, vd_family d)"

definition request_scope :: "'e retrieval_request \<Rightarrow> scope" where
  "request_scope q = (vq_tenant q, vq_carrier q, vq_family q)"

text \<open>The sort key; the infinity that stands for a missing distance is never compared with a distance.\<close>

definition rank_key :: "candidate_evaluation \<Rightarrow> bool \<times> rat \<times> string \<times> string \<times> string" where
  "rank_key c =
     (ce_distance c = None, (case ce_distance c of None \<Rightarrow> 0 | Some x \<Rightarrow> x), ce_clause_id c, ce_capture_id c,
      ce_source_version c)"

definition ranked_evaluations ::
  "('e \<Rightarrow> 'e \<Rightarrow> rat option) \<Rightarrow> 'e clause_document list \<Rightarrow> 'e retrieval_request \<Rightarrow> candidate_evaluation list" where
  "ranked_evaluations l2 docs q =
     sort_key rank_key (map (\<lambda>d. evaluate l2 d q) (filter (\<lambda>d. document_scope d = request_scope q) docs))"

definition result_from ::
  "('e \<Rightarrow> 'e \<Rightarrow> rat option) \<Rightarrow> 'e clause_document list \<Rightarrow> 'e retrieval_request \<Rightarrow> retrieval_result" where
  "result_from l2 docs q =
     (if \<not> has_scope_prefix q then \<lparr>vr_candidates = [], vr_selected = None,
        vr_abstention = [''missing_tenant_carrier_or_document_family_scope'']\<rparr>
      else if \<not> has_charge_context q then \<lparr>vr_candidates = [], vr_selected = None,
        vr_abstention = [''missing_charge_context'']\<rparr>
      else
        (let candidates = ranked_evaluations l2 docs q; selected = List.find ce_selected candidates
         in \<lparr>vr_candidates = candidates, vr_selected = selected,
             vr_abstention = (if selected \<noteq> None then []
               else if candidates = [] then [''no_scoped_candidates''] else [''no_candidate_passed_postfilters''])\<rparr>))"

definition retrieve_brute_force ::
  "('e \<Rightarrow> 'e \<Rightarrow> rat option) \<Rightarrow> 'e clause_document list \<Rightarrow> 'e retrieval_request \<Rightarrow> retrieval_result" where
  "retrieve_brute_force l2 docs q = result_from l2 docs q"

section \<open>The index\<close>

text \<open>A dict of lists; \<open>setdefault(key, []).append(document)\<close> keeps the order of the first appearance.\<close>

type_synonym 'e clause_index = "(scope \<times> 'e clause_document list) list"

fun group_append :: "scope \<Rightarrow> 'e clause_document \<Rightarrow> 'e clause_index \<Rightarrow> 'e clause_index" where
  "group_append k d [] = [(k, [d])]"
| "group_append k d ((k', ds) # rest) =
     (if k' = k then (k', ds @ [d]) # rest else (k', ds) # group_append k d rest)"

definition build_index :: "'e clause_document list \<Rightarrow> 'e clause_index" where
  "build_index docs = foldl (\<lambda>grouped d. group_append (document_scope d) d grouped) [] docs"

definition retrieve ::
  "('e \<Rightarrow> 'e \<Rightarrow> rat option) \<Rightarrow> 'e clause_index \<Rightarrow> 'e retrieval_request \<Rightarrow> retrieval_result" where
  "retrieve l2 index q =
     (if \<not> has_scope_prefix q then result_from l2 [] q
      else result_from l2 (case map_of index (request_scope q) of None \<Rightarrow> [] | Some ds \<Rightarrow> ds) q)"

section \<open>Evaluation on a fixture\<close>

record 'e evaluation_query =
  eq_query_id :: string
  eq_request :: "'e retrieval_request"
  eq_expected :: "string option"

record evaluation_summary =
  es_queries :: nat
  es_top1 :: nat
  es_top_k :: nat
  es_selection :: nat
  es_abstention :: nat

definition count_query :: "('q \<Rightarrow> retrieval_result) \<Rightarrow> nat \<Rightarrow> ('q \<times> string option) \<Rightarrow> evaluation_summary \<Rightarrow> evaluation_summary" where
  "count_query answer top_k q s =
     (let r = answer (fst q); s' = s\<lparr>es_queries := es_queries s + 1\<rparr>
      in case snd q of
        None \<Rightarrow> s'\<lparr>es_abstention := es_abstention s + of_bool (vr_selected r = None)\<rparr>
      | Some expected \<Rightarrow> s'\<lparr>
          es_selection := es_selection s + of_bool (map_option ce_clause_id (vr_selected r) = Some expected),
          es_top1 := es_top1 s
            + of_bool (case vr_candidates r of [] \<Rightarrow> False | c # _ \<Rightarrow> ce_clause_id c = expected),
          es_top_k := es_top_k s
            + of_bool (expected \<in> ce_clause_id ` set (take top_k (vr_candidates r)))\<rparr>)"

definition evaluate_fixture ::
  "('e \<Rightarrow> 'e \<Rightarrow> rat option) \<Rightarrow> 'e clause_index \<Rightarrow> 'e evaluation_query list \<Rightarrow> int \<Rightarrow> string + evaluation_summary" where
  "evaluate_fixture l2 index queries top_k =
     (if top_k \<le> 0 then Inl ''top_k must be positive''
      else Inr (foldl (\<lambda>s q. count_query (retrieve l2 index) (nat top_k) (eq_request q, eq_expected q) s)
        \<lparr>es_queries = 0, es_top1 = 0, es_top_k = 0, es_selection = 0, es_abstention = 0\<rparr> queries))"

section \<open>The index answers as the reference does\<close>

lemma group_append_lookup:
  "map_of (group_append k d index) k' =
     (if k' = k then Some ((case map_of index k of None \<Rightarrow> [] | Some ds \<Rightarrow> ds) @ [d]) else map_of index k')"
  by (induction k d index rule: group_append.induct) auto

lemma index_lookup:
  "(case map_of (foldl (\<lambda>g d. group_append (document_scope d) d g) index docs) k of None \<Rightarrow> [] | Some ds \<Rightarrow> ds) =
     (case map_of index k of None \<Rightarrow> [] | Some ds \<Rightarrow> ds) @ filter (\<lambda>d. document_scope d = k) docs"
  by (induction docs arbitrary: index) (auto simp: group_append_lookup)

lemma result_from_scoped: "result_from l2 (filter (\<lambda>d. document_scope d = request_scope q) docs) q = result_from l2 docs q"
  by (simp add: result_from_def ranked_evaluations_def)

text \<open>
  C37: the index is an optimisation only. For every collection of documents, every request and every
  distance, retrieving from the index built of the documents gives the result of the reference
  implementation on all of them: the same candidates in the same order, the same selection and the same reasons to
  abstain. The documents of any other tenant, carrier or family are without influence.
\<close>

theorem index_equals_brute_force:
  "retrieve l2 (build_index docs) q = retrieve_brute_force l2 docs q
   \<and> retrieve_brute_force l2 docs q =
       retrieve_brute_force l2 (filter (\<lambda>d. document_scope d = request_scope q) docs) q"
  using index_lookup [of "[]" docs "request_scope q"]
  by (simp add: retrieve_def build_index_def retrieve_brute_force_def result_from_scoped)
    (simp add: result_from_def)

section \<open>What is selected\<close>

text \<open>A document that may govern the charge, whatever its rank.\<close>

definition usable :: "('e \<Rightarrow> 'e \<Rightarrow> rat option) \<Rightarrow> 'e retrieval_request \<Rightarrow> 'e clause_document \<Rightarrow> bool" where
  "usable l2 q d =
     (document_scope d = request_scope q \<and> l2 (vq_embedding q) (vd_embedding d) \<noteq> None \<and> vd_integrity d
      \<and> vd_equipment d = vq_equipment q \<and> vd_route d = vq_route q \<and> vd_service d = vq_service q
      \<and> vd_effective_from d \<le> vq_charge_date q
      \<and> (\<forall>e. vd_effective_to d = Some e \<longrightarrow> vq_charge_date q \<le> e)
      \<and> (\<exists>body source. vd_source_bytes d = Some body \<and> utf8_decode (map code body) = Some source
           \<and> sha256_hexdigest body = vd_source_sha256 d
           \<and> sha256_hexdigest (utf8_encode (vd_clause_text d)) = vd_clause_sha256 d
           \<and> sublist (normalize_text (code_points (vd_clause_text d))) (normalize_text source)
           \<and> (\<forall>r \<in> set (required_dates d). sublist (code_points r) source)))"

lemma exact_source_verified:
  "exact_source_status d = ''verified'' \<longleftrightarrow>
     (\<exists>body source. vd_source_bytes d = Some body \<and> utf8_decode (map code body) = Some source
       \<and> sha256_hexdigest body = vd_source_sha256 d
       \<and> sha256_hexdigest (utf8_encode (vd_clause_text d)) = vd_clause_sha256 d
       \<and> sublist (normalize_text (code_points (vd_clause_text d))) (normalize_text source)
       \<and> (\<forall>r \<in> set (required_dates d). sublist (code_points r) source))"
  by (auto simp: exact_source_status_def list_ex_iff split: option.splits)

lemma temporal_applies:
  "temporal_status d day = ''applies'' \<longleftrightarrow>
     vd_effective_from d \<le> day \<and> (\<forall>e. vd_effective_to d = Some e \<longrightarrow> day \<le> e)"
  by (auto simp: temporal_status_def not_less split: option.splits)

lemma usable_iff:
  "usable l2 q d \<longleftrightarrow>
     document_scope d = request_scope q \<and> l2 (vq_embedding q) (vd_embedding d) \<noteq> None \<and> vd_integrity d
     \<and> vd_equipment d = vq_equipment q \<and> vd_route d = vq_route q \<and> vd_service d = vq_service q
     \<and> temporal_status d (vq_charge_date q) = ''applies'' \<and> exact_source_status d = ''verified''"
  unfolding usable_def temporal_applies exact_source_verified by (simp only: conj_assoc)

lemma evaluate_selected:
  "document_scope d = request_scope q \<Longrightarrow> ce_selected (evaluate l2 d q) \<longleftrightarrow> usable l2 q d"
  by (simp add: evaluate_def Let_def rejection_reasons_def usable_iff)

lemma find_sorted_least:
  assumes "sorted (map f xs)" "List.find p xs = Some x" "y \<in> set xs" "p y"
  shows "f x \<le> f y"
proof -
  from assms(2) obtain us vs where xs: "xs = us @ x # vs" and us: "\<forall>u \<in> set us. \<not> p u"
    by (auto dest: find_first_split)
  from assms(3,4) xs us have "y = x \<or> y \<in> set vs" by auto
  with assms(1) xs show ?thesis by (auto simp: sorted_append)
qed

definition may_govern :: "('e \<Rightarrow> 'e \<Rightarrow> rat option) \<Rightarrow> 'e clause_document list \<Rightarrow> 'e retrieval_request \<Rightarrow> 'e clause_document \<Rightarrow> bool" where
  "may_govern l2 docs q d = (has_scope_prefix q \<and> has_charge_context q \<and> d \<in> set docs \<and> usable l2 q d)"

text \<open>
  C38: the clause that is selected is the nearest one that may govern the charge, and there is an abstention exactly when
  there is none. Whatever the distance function answers, a selected clause has the scope, the equipment, the
  route and the service of the request, is in force on the charge date, and its text and its dates occur in the
  retained source, whose digest is the stated one; every other clause that may govern is ranked no better.
\<close>

theorem selection_is_nearest_usable:
  "(vr_selected (retrieve_brute_force l2 docs q) = None \<longleftrightarrow> (\<nexists>d. may_govern l2 docs q d))
    \<and> (vr_abstention (retrieve_brute_force l2 docs q) = [] \<longleftrightarrow> (\<exists>d. may_govern l2 docs q d))
    \<and> (\<forall>c. vr_selected (retrieve_brute_force l2 docs q) = Some c \<longrightarrow>
        (\<exists>d. may_govern l2 docs q d \<and> c = evaluate l2 d q
          \<and> (\<forall>d'. may_govern l2 docs q d' \<longrightarrow> rank_key c \<le> rank_key (evaluate l2 d' q))))"
proof (cases "has_scope_prefix q \<and> has_charge_context q")
  case False
  then show ?thesis by (auto simp: retrieve_brute_force_def result_from_def may_govern_def)
next
  case True
  let ?cs = "ranked_evaluations l2 docs q"
  have r: "vr_selected (retrieve_brute_force l2 docs q) = List.find ce_selected ?cs"
    "vr_abstention (retrieve_brute_force l2 docs q) = [] \<longleftrightarrow> List.find ce_selected ?cs \<noteq> None"
    using True by (simp_all add: retrieve_brute_force_def result_from_def Let_def)
  have cs: "set ?cs = (\<lambda>d. evaluate l2 d q) ` {d \<in> set docs. document_scope d = request_scope q}"
    by (auto simp: ranked_evaluations_def)
  have cand: "may_govern l2 docs q d \<longleftrightarrow> d \<in> set docs \<and> document_scope d = request_scope q \<and> ce_selected (evaluate l2 d q)" for d
    using True evaluate_selected [of d q l2] by (auto simp: may_govern_def usable_def)
  have none: "List.find ce_selected ?cs = None \<longleftrightarrow> (\<nexists>d. may_govern l2 docs q d)"
    using cs cand by (auto simp: find_None_iff)
  moreover have "\<exists>d. may_govern l2 docs q d \<and> c = evaluate l2 d q
      \<and> (\<forall>d'. may_govern l2 docs q d' \<longrightarrow> rank_key c \<le> rank_key (evaluate l2 d' q))"
    if c: "List.find ce_selected ?cs = Some c" for c
  proof -
    from find_SomeD [OF c] cs cand obtain d where d: "may_govern l2 docs q d" "c = evaluate l2 d q" by auto
    have "rank_key c \<le> rank_key (evaluate l2 d' q)" if "may_govern l2 docs q d'" for d'
    proof (rule find_sorted_least [OF _ c])
      show "sorted (map rank_key ?cs)" by (simp add: ranked_evaluations_def)
      show "evaluate l2 d' q \<in> set ?cs" "ce_selected (evaluate l2 d' q)" using that cs cand by auto
    qed
    with d show ?thesis by blast
  qed
  ultimately show ?thesis using r by auto
qed

text \<open>The counts of a fixture: no more first than among the first, and nothing counted twice.\<close>

lemma fixture_counts:
  assumes "evaluate_fixture l2 index queries top_k = Inr s"
  shows "es_queries s = length queries" "es_top1 s \<le> es_top_k s" "es_top_k s + es_abstention s \<le> es_queries s"
    "es_selection s + es_abstention s \<le> es_queries s"
proof -
  let ?step = "\<lambda>s q. count_query (retrieve l2 index) (nat top_k) (eq_request q, eq_expected q) s"
  from assms have k: "0 < top_k" by (simp add: evaluate_fixture_def split: if_splits)
  have "es_queries (foldl ?step s0 queries) = es_queries s0 + length queries
      \<and> (es_top1 s0 \<le> es_top_k s0 \<longrightarrow> es_top1 (foldl ?step s0 queries) \<le> es_top_k (foldl ?step s0 queries))
      \<and> (es_top_k s0 + es_abstention s0 \<le> es_queries s0 \<longrightarrow>
           es_top_k (foldl ?step s0 queries) + es_abstention (foldl ?step s0 queries) \<le> es_queries (foldl ?step s0 queries))
      \<and> (es_selection s0 + es_abstention s0 \<le> es_queries s0 \<longrightarrow>
           es_selection (foldl ?step s0 queries) + es_abstention (foldl ?step s0 queries) \<le> es_queries (foldl ?step s0 queries))"
    for s0
  proof (induction queries arbitrary: s0)
    case (Cons x xs)
    have "es_queries (?step s0 x) = Suc (es_queries s0)"
      "es_top1 s0 \<le> es_top_k s0 \<longrightarrow> es_top1 (?step s0 x) \<le> es_top_k (?step s0 x)"
      "es_top_k s0 + es_abstention s0 \<le> es_queries s0 \<longrightarrow>
         es_top_k (?step s0 x) + es_abstention (?step s0 x) \<le> es_queries (?step s0 x)"
      "es_selection s0 + es_abstention s0 \<le> es_queries s0 \<longrightarrow>
         es_selection (?step s0 x) + es_abstention (?step s0 x) \<le> es_queries (?step s0 x)"
      using k by (auto simp: count_query_def Let_def take_Cons' of_bool_def split: option.splits list.splits)
    with Cons.IH [of "?step s0 x"] show ?case by (intro conjI impI) auto
  qed simp
  from this [of "\<lparr>es_queries = 0, es_top1 = 0, es_top_k = 0, es_selection = 0, es_abstention = 0\<rparr>"] assms
  show "es_queries s = length queries" "es_top1 s \<le> es_top_k s" "es_top_k s + es_abstention s \<le> es_queries s"
    "es_selection s + es_abstention s \<le> es_queries s"
    by (auto simp: evaluate_fixture_def split: if_splits)
qed

section \<open>Samples\<close>

lemma utf8_decode_encode: "utf8_decode (map code (utf8_encode s)) = Some (code_points s)"
proof (induction s)
  case Nil
  then show ?case by (simp add: utf8_encode_def code_points_def)
next
  case (Cons c cs)
  have enc: "utf8_encode (c # cs) = utf8_char c @ utf8_encode cs" by (simp add: utf8_encode_def)
  show ?case
  proof (cases "code c < 128")
    case True
    with Cons show ?thesis by (simp add: enc utf8_char_def code_points_def)
  next
    case False
    have "code c div 64 < 4" by (simp add: less_mult_imp_div_less)
    moreover have "128 div 64 \<le> code c div 64" using False by (intro div_le_mono) simp
    ultimately have d: "code c div 64 \<in> {2, 3}" by auto
    have m: "code c mod 64 < 64" by simp
    have "192 + code c div 64 < 256" "128 + code c mod 64 < 256" using d m by auto
    then have "map code (utf8_char c) = [192 + code c div 64, 128 + code c mod 64]"
      using False by (simp add: utf8_char_def Let_def)
    moreover have "(192 + code c div 64 - 192) * 64 + (128 + code c mod 64 - 128) = code c" by simp
    ultimately show ?thesis using Cons d m by (auto simp: enc code_points_def utf8_tail_def)
  qed
qed

definition sample_text :: string where
  "sample_text = ''2026-01-01: USD 250''"

definition sample_body :: string where
  "sample_body = utf8_encode sample_text"

definition sample_clause :: "nat clause_document" where
  "sample_clause =
     \<lparr>vd_clause_id = ''c'', vd_tenant = ''t'', vd_carrier = ''k'', vd_family = ''f'', vd_capture_id = ''p'',
      vd_source_version = ''v'', vd_source_sha256 = sha256_hexdigest sample_body,
      vd_clause_sha256 = sha256_hexdigest (utf8_encode ''USD 250''), vd_effective_from = Date 2026 1 1,
      vd_effective_to = None, vd_equipment = ''DRY'', vd_route = ''USOAK'', vd_service = ''s'',
      vd_rate_amount = Dec False 250 0, vd_rate_currency = ''USD'', vd_rate_unit = ''per_day'',
      vd_clause_text = ''USD 250'', vd_embedding = 0, vd_integrity = True, vd_source_bytes = Some sample_body\<rparr>"

definition sample_request :: "nat retrieval_request" where
  "sample_request =
     \<lparr>vq_tenant = ''t'', vq_carrier = ''k'', vq_family = ''f'', vq_charge_date = Date 2026 6 8, vq_equipment = ''DRY'',
      vq_route = ''USOAK'', vq_service = ''s'', vq_embedding = 0\<rparr>"

lemma normal_samples:
  "normalize_text (code_points ''USD 250'') = code_points ''USD 250''"
  "normalize_text (code_points sample_text) = code_points sample_text"
  by (simp_all add: normalize_text_def code_points_def sample_text_def code_def unicode_space_def)

lemma sample_occurrences:
  "sublist (normalize_text (code_points ''USD 250'')) (normalize_text (code_points sample_text))"
  "sublist (code_points (date_iso (Date 2026 1 1))) (code_points sample_text)"
proof -
  have d: "date_iso (Date 2026 1 1) = ''2026-01-01''" by code_simp
  have s: "code_points sample_text = code_points ''2026-01-01: '' @ code_points ''USD 250''"
    "code_points sample_text = code_points (date_iso (Date 2026 1 1)) @ code_points '': USD 250''"
    by (simp_all add: code_points_def sample_text_def d)
  show "sublist (normalize_text (code_points ''USD 250'')) (normalize_text (code_points sample_text))"
    unfolding normal_samples by (subst s(1)) (rule sublist_append_leftI)
  show "sublist (code_points (date_iso (Date 2026 1 1))) (code_points sample_text)"
    unfolding s(2) by (rule sublist_append_rightI)
qed

lemma sample_source: "exact_source_status sample_clause = ''verified''"
  unfolding exact_source_verified
proof (intro exI conjI)
  show "vd_source_bytes sample_clause = Some sample_body" by (simp add: sample_clause_def)
  show "utf8_decode (map code sample_body) = Some (code_points sample_text)"
    unfolding sample_body_def by (rule utf8_decode_encode)
  show "sha256_hexdigest sample_body = vd_source_sha256 sample_clause"
    "sha256_hexdigest (utf8_encode (vd_clause_text sample_clause)) = vd_clause_sha256 sample_clause"
    by (simp_all only: sample_clause_def clause_document.simps)
  show "sublist (normalize_text (code_points (vd_clause_text sample_clause))) (normalize_text (code_points sample_text))"
    using sample_occurrences(1) by (simp only: sample_clause_def clause_document.simps)
  show "\<forall>r \<in> set (required_dates sample_clause). sublist (code_points r) (code_points sample_text)"
    using sample_occurrences(2) by (simp only: sample_clause_def clause_document.simps required_dates_def option.case list.set ball_simps)
qed

lemma sample_sel:
  "document_scope sample_clause = request_scope sample_request" "vd_integrity sample_clause"
  "vd_equipment sample_clause = vq_equipment sample_request" "vd_route sample_clause = vq_route sample_request"
  "vd_service sample_clause = vq_service sample_request" "vd_effective_from sample_clause = Date 2026 1 1"
  "vd_effective_to sample_clause = None" "vq_charge_date sample_request = Date 2026 6 8" "vd_clause_id sample_clause = ''c''"
  by (simp_all only: sample_clause_def sample_request_def document_scope_def request_scope_def clause_document.simps
      retrieval_request.simps)

lemma sample_usable: "usable (\<lambda>x y. Some 0) sample_request sample_clause"
  unfolding usable_iff by (simp add: sample_source sample_sel temporal_status_def)

theorem selection_is_nearest_usable_witness:
  "\<exists>c. vr_selected (retrieve_brute_force (\<lambda>x y. Some 0) [sample_clause] sample_request) = Some c \<and> ce_clause_id c = ''c''"
proof -
  have ok: "has_scope_prefix sample_request" "has_charge_context sample_request"
    by (simp_all add: has_scope_prefix_def has_charge_context_def sample_request_def blank_def py_strip_def lstrip_by_def
        rstrip_by_def is_space_def code_def)
  note sel = selection_is_nearest_usable [of "\<lambda>x y. Some 0" "[sample_clause]" sample_request]
  have "may_govern (\<lambda>x y. Some 0) [sample_clause] sample_request sample_clause"
    using ok sample_usable by (simp add: may_govern_def)
  with sel obtain c where c: "vr_selected (retrieve_brute_force (\<lambda>x y. Some 0) [sample_clause] sample_request) = Some c"
    by (cases "vr_selected (retrieve_brute_force (\<lambda>x y. Some 0) [sample_clause] sample_request)") auto
  with sel have "c = evaluate (\<lambda>x y. Some 0) sample_clause sample_request" by (auto simp: may_govern_def)
  with c show ?thesis by (simp add: evaluate_def Let_def sample_sel)
qed

end
