(* ===== verification/JsonParse.thy ===== *)
theory JsonParse
  imports Json
begin

text \<open>
  \<open>json.loads\<close>: the decoder of Python's library, with its extensions (\<open>NaN\<close>, \<open>Infinity\<close>, the last of two equal
  keys wins). Numbers that are no integers and characters beyond the 256 of this model are what the
  caller's two functions say; the theorems hold for all of them.
\<close>

section \<open>Text\<close>

record json_limits =
  jl_float :: "string \<Rightarrow> json"
  jl_wide :: "nat \<Rightarrow> string"

definition json_space :: "char \<Rightarrow> bool" where
  "json_space c = (code c \<in> {9, 10, 13, 32})"

definition skip_space :: "string \<Rightarrow> string" where
  "skip_space s = dropWhile json_space s"

definition unescape :: "char \<Rightarrow> char option" where
  "unescape e =
     (let n = code e in
      if n \<in> {34, 92, 47} then Some e
      else if n = 98 then Some (char_of (8 :: nat)) else if n = 102 then Some (char_of (12 :: nat))
      else if n = 110 then Some (char_of (10 :: nat)) else if n = 114 then Some (char_of (13 :: nat))
      else if n = 116 then Some (char_of (9 :: nat)) else None)"

definition hex_value :: "char \<Rightarrow> nat option" where
  "hex_value c =
     (let n = code c in
      if 48 \<le> n \<and> n \<le> 57 then Some (n - 48) else if 97 \<le> n \<and> n \<le> 102 then Some (n - 87)
      else if 65 \<le> n \<and> n \<le> 70 then Some (n - 55) else None)"

fun hex_number :: "string \<Rightarrow> nat option" where
  "hex_number [] = Some 0"
| "hex_number (c # cs) =
     (case (hex_value c, hex_number cs) of (Some d, Some m) \<Rightarrow> Some (d * 16 ^ length cs + m) | _ \<Rightarrow> None)"

definition show_code :: "json_limits \<Rightarrow> nat \<Rightarrow> string" where
  "show_code lim n = (if n < 256 then [char_of n] else jl_wide lim n)"

text \<open>The low half of a surrogate pair, right after the high one.\<close>

definition low_half :: "string \<Rightarrow> nat option" where
  "low_half s =
     (case s of
        b # u # h1 # h2 # h3 # h4 # r \<Rightarrow>
          (if code b = 92 \<and> u = CHR ''u'' then
             (case hex_number [h1, h2, h3, h4] of
                Some m \<Rightarrow> if 56320 \<le> m \<and> m < 57344 then Some m else None
              | None \<Rightarrow> None)
           else None)
      | _ \<Rightarrow> None)"

text \<open>A string, after its opening quote: its characters and what follows the closing quote.\<close>

function parse_string :: "json_limits \<Rightarrow> string \<Rightarrow> (string \<times> string) option" where
  "parse_string lim [] = None"
| "parse_string lim (c # cs) =
     (if code c = 34 then Some ([], cs)
      else if code c = 92 then
        (case cs of
           [] \<Rightarrow> None
         | e # es \<Rightarrow>
             (case unescape e of
                Some d \<Rightarrow> map_option (\<lambda>(u, rest). (d # u, rest)) (parse_string lim es)
              | None \<Rightarrow>
                  if e \<noteq> CHR ''u'' then None
                  else (case hex_number (take 4 es) of
                     None \<Rightarrow> None
                   | Some n \<Rightarrow>
                       if length es < 4 then None
                       else if 55296 \<le> n \<and> n < 56320 \<and> low_half (drop 4 es) \<noteq> None
                       then map_option (\<lambda>(u, rest). (jl_wide lim (65536 + (n - 55296) * 1024 + (the (low_half (drop 4 es)) - 56320)) @ u, rest))
                              (parse_string lim (drop 10 es))
                       else map_option (\<lambda>(u, rest). (show_code lim n @ u, rest)) (parse_string lim (drop 4 es)))))
      else if code c < 32 then None
      else map_option (\<lambda>(u, rest). (c # u, rest)) (parse_string lim cs))"
  by pat_completeness auto
termination by (relation "measure (\<lambda>(lim, s). length s)") auto

section \<open>Numbers\<close>

text \<open>
  The longest number at the front: the integer part without superfluous zeros, a fraction if a digit
  follows the point, an exponent if a digit follows it and its sign.
\<close>

definition int_part :: "string \<Rightarrow> string option" where
  "int_part s =
     (case s of
        [] \<Rightarrow> None
      | c # r \<Rightarrow> if c = CHR ''0'' then Some [c] else if is_digit c then Some (takeWhile is_digit s) else None)"

definition fraction_part :: "string \<Rightarrow> string" where
  "fraction_part s =
     (case s of
        p # d # r \<Rightarrow> if p = CHR ''.'' \<and> is_digit d then p # takeWhile is_digit (d # r) else []
      | _ \<Rightarrow> [])"

definition exponent_part :: "string \<Rightarrow> string" where
  "exponent_part s =
     (case s of
        [] \<Rightarrow> []
      | e # r \<Rightarrow>
          (let sgn = (case r of x # _ \<Rightarrow> if x = CHR ''+'' \<or> x = CHR ''-'' then [x] else [] | [] \<Rightarrow> []);
               ds = takeWhile is_digit (drop (length sgn) r)
           in if (e = CHR ''e'' \<or> e = CHR ''E'') \<and> ds \<noteq> [] then e # sgn @ ds else []))"

definition parse_number :: "json_limits \<Rightarrow> string \<Rightarrow> (json \<times> string) option" where
  "parse_number lim s =
     (let neg = (s \<noteq> [] \<and> hd s = CHR ''-''); body = (if neg then tl s else s) in
      case int_part body of
        None \<Rightarrow> None
      | Some ds \<Rightarrow>
          (let r = drop (length ds) body; f = fraction_part r; e = exponent_part (drop (length f) r);
               rest = drop (length e) (drop (length f) r);
               n = int (read_digits ds)
           in if f = [] \<and> e = [] then Some (JInt (if neg then - n else n), rest)
              else Some (jl_float lim ((if neg then ''-'' else []) @ ds @ f @ e), rest)))"

section \<open>Values\<close>

text \<open>A dict: a key that is there keeps its place and gets the new value.\<close>

fun dict_put :: "(string \<times> 'v) list \<Rightarrow> string \<Rightarrow> 'v \<Rightarrow> (string \<times> 'v) list" where
  "dict_put [] k v = [(k, v)]"
| "dict_put ((k', v') # kvs) k v = (if k' = k then (k, v) # kvs else (k', v') # dict_put kvs k v)"

definition json_words :: "json_limits \<Rightarrow> (string \<times> json) list" where
  "json_words lim =
     [(''null'', JNull), (''true'', JBool True), (''false'', JBool False), (''NaN'', jl_float lim ''NaN''),
      (''Infinity'', jl_float lim ''Infinity''), (''-Infinity'', jl_float lim ''-Infinity'')]"

definition parse_word :: "json_limits \<Rightarrow> string \<Rightarrow> (json \<times> string) option" where
  "parse_word lim s =
     (case List.find (\<lambda>(w, v). starts_with w s) (json_words lim) of
        None \<Rightarrow> parse_number lim s
      | Some (w, v) \<Rightarrow> Some (v, drop (length w) s))"

text \<open>The value at the front, the elements of a list and the members of an object, with fuel.\<close>

fun parse_value :: "json_limits \<Rightarrow> nat \<Rightarrow> string \<Rightarrow> (json \<times> string) option"
and parse_items :: "json_limits \<Rightarrow> nat \<Rightarrow> json list \<Rightarrow> string \<Rightarrow> (json \<times> string) option"
and parse_members :: "json_limits \<Rightarrow> nat \<Rightarrow> (string \<times> json) list \<Rightarrow> string \<Rightarrow> (json \<times> string) option" where
  "parse_value lim 0 s = None"
| "parse_value lim (Suc n) s =
     (case s of
        [] \<Rightarrow> None
      | c # r \<Rightarrow>
          if code c = 34 then map_option (\<lambda>(t, rest). (JStr t, rest)) (parse_string lim r)
          else if c = CHR ''['' then
            (case skip_space r of
               [] \<Rightarrow> None
             | d # q \<Rightarrow> if d = CHR '']'' then Some (JList [], q) else parse_items lim n [] (d # q))
          else if c = CHR ''{'' then
            (case skip_space r of
               [] \<Rightarrow> None
             | d # q \<Rightarrow> if d = CHR ''}'' then Some (JObj [], q) else parse_members lim n [] (d # q))
          else parse_word lim s)"
| "parse_items lim 0 acc s = None"
| "parse_items lim (Suc n) acc s =
     (case parse_value lim n s of
        None \<Rightarrow> None
      | Some (v, r) \<Rightarrow>
          (case skip_space r of
             [] \<Rightarrow> None
           | d # q \<Rightarrow>
               if d = CHR '']'' then Some (JList (acc @ [v]), q)
               else if d = CHR '','' then parse_items lim n (acc @ [v]) (skip_space q)
               else None))"
| "parse_members lim 0 acc s = None"
| "parse_members lim (Suc n) acc s =
     (case s of
        [] \<Rightarrow> None
      | c # r \<Rightarrow>
          if code c \<noteq> 34 then None
          else (case parse_string lim r of
             None \<Rightarrow> None
           | Some (k, r1) \<Rightarrow>
               (case skip_space r1 of
                  [] \<Rightarrow> None
                | p # r2 \<Rightarrow>
                    if p \<noteq> CHR '':'' then None
                    else (case parse_value lim n (skip_space r2) of
                       None \<Rightarrow> None
                     | Some (v, r3) \<Rightarrow>
                         (case skip_space r3 of
                            [] \<Rightarrow> None
                          | d # q \<Rightarrow>
                              if d = CHR ''}'' then Some (JObj (dict_put acc k v), q)
                              else if d = CHR '','' then parse_members lim n (dict_put acc k v) (skip_space q)
                              else None)))))"

text \<open>\<open>json.loads(s)\<close>; \<open>None\<close> is a \<open>JSONDecodeError\<close>.\<close>

definition json_loads :: "json_limits \<Rightarrow> string \<Rightarrow> json option" where
  "json_loads lim s =
     (case parse_value lim (2 * length s + 2) (skip_space s) of
        None \<Rightarrow> None
      | Some (v, r) \<Rightarrow> if skip_space r = [] then Some v else None)"

section \<open>The fuel is enough\<close>

lemma skip_space_length: "length (skip_space s) \<le> length s"
  by (simp add: skip_space_def length_dropWhile_le)

lemma parse_string_shorter: "parse_string lim s = Some (t, r) \<Longrightarrow> length r < length s"
proof (induction lim s arbitrary: t r rule: parse_string.induct)
  case (2 lim c cs)
  then show ?case
    by (auto simp: Let_def split: if_splits list.splits option.splits; fastforce)
qed simp

lemma int_part_front: "int_part s = Some ds \<Longrightarrow> ds \<noteq> [] \<and> length ds \<le> length s"
  by (auto simp: int_part_def length_takeWhile_le split: list.splits if_splits)

lemma parse_number_shorter: "parse_number lim s = Some (v, r) \<Longrightarrow> length r < length s"
  by (cases s) (auto simp: parse_number_def Let_def split: option.splits if_splits dest!: int_part_front)

lemma parse_word_shorter: "parse_word lim s = Some (v, r) \<Longrightarrow> length r < length s"
  by (auto simp: parse_word_def json_words_def starts_with_def parse_number_shorter prefix_def split: if_splits option.splits)

lemma skip_space_Cons: "skip_space s = d # q \<Longrightarrow> length q < length s"
  using skip_space_length [of s] by simp

lemma skip_space_less: "length r < length (skip_space s) \<Longrightarrow> length r < length s"
  using skip_space_length [of s] by simp

lemma parse_shorter:
  "(\<forall>s v r. parse_value lim n s = Some (v, r) \<longrightarrow> length r < length s)
   \<and> (\<forall>acc s v r. parse_items lim n acc s = Some (v, r) \<longrightarrow> length r < length s)
   \<and> (\<forall>acc s v r. parse_members lim n acc s = Some (v, r) \<longrightarrow> length r < length s)"
proof (induction n)
  case (Suc n)
  then have v: "\<And>s v r. parse_value lim n s = Some (v, r) \<Longrightarrow> length r < length s"
    and i: "\<And>acc s v r. parse_items lim n acc s = Some (v, r) \<Longrightarrow> length r < length s"
    and m: "\<And>acc s v r. parse_members lim n acc s = Some (v, r) \<Longrightarrow> length r < length s" by blast+
  have "length r < length s" if "parse_value lim (Suc n) s = Some (x, r)" for s x r
    using that
    by (auto split: list.splits if_splits dest!: skip_space_Cons parse_string_shorter parse_word_shorter i m)
  moreover have "length r < length s" if "parse_items lim (Suc n) acc s = Some (x, r)" for acc s x r
    using that by (auto split: list.splits if_splits option.splits dest!: skip_space_Cons v i skip_space_less)
  moreover have "length r < length s" if "parse_members lim (Suc n) acc s = Some (x, r)" for acc s x r
    using that
    by (auto split: list.splits if_splits option.splits dest!: skip_space_Cons v m parse_string_shorter skip_space_less)
  ultimately show ?case by blast
qed simp

lemma skip_space_ConsD: "skip_space s = d # q \<Longrightarrow> Suc (length q) \<le> length s"
  using skip_space_length [of s] by simp

lemma parse_fuel_step:
  "(\<forall>s. 2 * length s < n \<longrightarrow> parse_value lim (Suc n) s = parse_value lim n s)
   \<and> (\<forall>acc s. 2 * length s + 1 < n \<longrightarrow> parse_items lim (Suc n) acc s = parse_items lim n acc s)
   \<and> (\<forall>acc s. 2 * length s + 1 < n \<longrightarrow> parse_members lim (Suc n) acc s = parse_members lim n acc s)"
proof (induction n)
  case (Suc n)
  then have v: "\<And>s. 2 * length s < n \<Longrightarrow> parse_value lim (Suc n) s = parse_value lim n s"
    and i: "\<And>acc s. 2 * length s + 1 < n \<Longrightarrow> parse_items lim (Suc n) acc s = parse_items lim n acc s"
    and m: "\<And>acc s. 2 * length s + 1 < n \<Longrightarrow> parse_members lim (Suc n) acc s = parse_members lim n acc s" by blast+
  note shorter = parse_shorter [of lim n, THEN conjunct1, rule_format]
  have tail: "2 * length (skip_space q) + 1 < n" if "skip_space r = d # q" "length r < length s" "2 * length s < Suc n" for r d q s
    using that skip_space_ConsD [OF that(1)] skip_space_length [of q] by linarith
  have "parse_value lim (Suc (Suc n)) s = parse_value lim (Suc n) s" if "2 * length s < Suc n" for s
  proof (cases s)
    case (Cons c r)
    have q: "2 * length (d # q) + 1 < n" if "skip_space r = d # q" for d q
      using skip_space_ConsD [OF that] \<open>2 * length s < Suc n\<close> Cons by simp
    show ?thesis
      unfolding parse_value.simps Cons list.case
      using i [OF q] m [OF q]
      by (auto simp del: parse_items.simps parse_members.simps split: list.split)
  qed simp
  moreover have "parse_items lim (Suc (Suc n)) acc s = parse_items lim (Suc n) acc s" if len: "2 * length s + 1 < Suc n" for acc s
  proof -
    have "parse_value lim (Suc n) s = parse_value lim n s" using len by (intro v) simp
    moreover have "parse_items lim (Suc n) acc' (skip_space q) = parse_items lim n acc' (skip_space q)"
      if "parse_value lim n s = Some (x, r)" "skip_space r = d # q" for x r d q acc'
      using tail [OF that(2) shorter [OF that(1)]] len by (intro i) simp
    ultimately show ?thesis
      unfolding parse_items.simps(2) [of lim "Suc n" acc s] parse_items.simps(2) [of lim n acc s]
      by (auto simp del: parse_items.simps parse_value.simps split: option.split list.split)
  qed
  moreover have "parse_members lim (Suc (Suc n)) acc s = parse_members lim (Suc n) acc s" if len: "2 * length s + 1 < Suc n" for acc s
  proof (cases s)
    case (Cons c r)
    have one: "parse_value lim (Suc n) (skip_space r2) = parse_value lim n (skip_space r2)"
      if "parse_string lim r = Some (k, r1)" "skip_space r1 = p # r2" for k r1 p r2
      using parse_string_shorter [OF that(1)] skip_space_ConsD [OF that(2)] skip_space_length [of r2] len Cons by (intro v) simp
    have members: "parse_members lim (Suc n) acc' (skip_space q) = parse_members lim n acc' (skip_space q)"
      if "parse_string lim r = Some (k, r1)" "skip_space r1 = p # r2" "parse_value lim n (skip_space r2) = Some (x, r3)"
        "skip_space r3 = d # q" for k r1 p r2 x r3 d q acc'
    proof (rule m, rule tail [OF that(4)])
      show "length r3 < length s"
        using parse_string_shorter [OF that(1)] skip_space_ConsD [OF that(2)] shorter [OF that(3)] skip_space_length [of r2] Cons
        by simp
      show "2 * length s < Suc n" using len by simp
    qed
    show ?thesis
      unfolding Cons parse_members.simps(2) [of lim "Suc n" acc "c # r"] parse_members.simps(2) [of lim n acc "c # r"]
      by (auto simp: one members simp del: parse_members.simps parse_value.simps split: option.split list.split)
  qed (simp add: parse_members.simps)
  ultimately show ?case by blast
qed simp

lemma parse_fuel:
  assumes "2 * length s < n" "n \<le> m"
  shows "parse_value lim m s = parse_value lim n s"
  using assms(2) by (induction m rule: dec_induct) (use assms(1) parse_fuel_step in auto)

section \<open>Reading what was printed\<close>

fun wf_json :: "json \<Rightarrow> bool" where
  "wf_json (JList xs) = (\<forall>x \<in> set xs. wf_json x)"
| "wf_json (JObj kvs) = (distinct (map fst kvs) \<and> (\<forall>kv \<in> set kvs. wf_json (snd kv)))"
| "wf_json j = True"

lemma hex_value_digit: "d < 16 \<Longrightarrow> hex_value (hex_digit d) = Some d"
  by (simp add: hex_value_def hex_digit_def)

lemma char_of_code [simp]: "char_of (code c) = c"
  by (simp add: code_def)

lemma char_of_marks: "char_of (34 :: nat) = CHR 34" "char_of (92 :: nat) = CHR 92"
  by code_simp+

lemma unescape_short: "short_escape (code c) = Some e \<Longrightarrow> unescape e = Some c"
proof -
  have "short_escape n = Some e \<Longrightarrow> unescape e = Some (char_of n)" for n
    by (auto simp: short_escape_def unescape_def code_def char_of_marks split: if_splits)
  from this [of "code c"] show "short_escape (code c) = Some e \<Longrightarrow> unescape e = Some c" by simp
qed

lemma parse_escaped:
  "parse_string lim (esc_char a c @ r) = map_option (\<lambda>(u, rest). (c # u, rest)) (parse_string lim r)"
proof (cases a c rule: esc_char_cases)
  case (short e)
  from unescape_short [OF short(1)] short(2) show ?thesis by (simp add: code_def)
next
  case long
  let ?n = "code c"
  have d: "?n div 16 < 16" using code_less [of c] by (simp add: less_mult_imp_div_less)
  have "hex_number [CHR ''0'', CHR ''0'', hex_digit (?n div 16), hex_digit (?n mod 16)] = Some ?n"
    using hex_value_digit [OF d] hex_value_digit [of "?n mod 16"] by (simp add: hex_value_def code_def)
  moreover have "code c < 55296" using code_less [of c] by linarith
  then have "(55296 \<le> code c) = False" by (simp only: not_le [symmetric] simp_thms)
  ultimately show ?thesis
    by (simp only: long(2) esc_u_Cons) (simp add: unescape_def show_code_def del: hex_number.simps)
next
  case plain
  have "\<not> code c < 32"
  proof
    assume "code c < 32"
    with plain(3) show False by (auto simp: esc_char_def esc_u_Cons Let_def split: if_splits)
  qed
  with plain show ?thesis by simp
qed

lemma parse_printed_string: "parse_string lim (concat (map (esc_char a) s) @ CHR 34 # rest) = Some (s, rest)"
  by (induction s) (simp_all add: parse_escaped)

lemma show_nat_zero: "hd (show_nat n) = CHR ''0'' \<Longrightarrow> n = 0"
proof (induction n rule: show_nat.induct)
  case (1 n)
  show ?case
  proof (cases "n < 10")
    case True
    have "CHR ''0'' = digit_char 0" by code_simp
    with 1(2) True have "digit_char n = digit_char 0" by (simp add: show_nat.simps [of n])
    with True show ?thesis by (metis digit_val_digit_char zero_less_numeral)
  next
    case False
    with 1(2) have "hd (show_nat (n div 10)) = CHR ''0''" by (simp add: show_nat.simps [of n])
    with 1(1) False have "n div 10 = 0" by simp
    with False show ?thesis by simp
  qed
qed

lemma hd_show_nat_digit: "is_digit (hd (show_nat n))"
  using show_nat_digits [of "hd (show_nat n)" n] by simp

lemma int_part_show:
  assumes "delimited rest"
  shows "int_part (show_nat n @ rest) = Some (show_nat n)"
proof -
  obtain c cs where s: "show_nat n = c # cs" by (cases "show_nat n") auto
  have "takeWhile is_digit (show_nat n @ rest) = show_nat n"
    using show_nat_digits delimited_no_digit [OF assms] by (cases rest) (auto simp: takeWhile_append2)
  moreover have "is_digit c" using hd_show_nat_digit [of n] s by simp
  moreover have "c = CHR ''0'' \<Longrightarrow> cs = []"
    using show_nat_zero [of n] s by (auto simp: show_nat.simps [of 0])
  ultimately show ?thesis by (auto simp: int_part_def s)
qed

lemma delimited_ends: "delimited rest \<Longrightarrow> fraction_part rest = [] \<and> exponent_part rest = []"
  by (auto simp: delimited_def fraction_part_def exponent_part_def Let_def split: list.split)

lemma parse_number_int: "delimited rest \<Longrightarrow> parse_number lim (show_int i @ rest) = Some (JInt i, rest)"
proof -
  assume d: "delimited rest"
  have "hd (show_nat n @ rest) \<noteq> CHR ''-''" for n
    using hd_show_nat_digit [of n] minus_not_digit by (cases "show_nat n") auto
  then show ?thesis
    using delimited_ends [OF d] int_part_show [OF d]
    by (simp add: parse_number_def show_int_def Let_def)
qed

lemma parse_int: "delimited rest \<Longrightarrow> parse_word lim (show_int i @ rest) = Some (JInt i, rest)"
proof -
  assume d: "delimited rest"
  have "\<not> starts_with w (show_int i @ rest)" if "(w, v) \<in> set (json_words lim)" for w v
  proof -
    obtain c cs where c: "show_nat (nat \<bar>i\<bar>) = c # cs" "is_digit c"
      using hd_show_nat_digit [of "nat \<bar>i\<bar>"] by (cases "show_nat (nat \<bar>i\<bar>)") auto
    let ?letters = "{CHR ''n'', CHR ''t'', CHR ''f'', CHR ''N'', CHR ''I''}"
    have ch: "c \<notin> ?letters" "c \<noteq> CHR ''-''" using c(2) by (auto simp: is_digit_def code_def)
    have s: "show_int i = c # cs \<or> show_int i = CHR ''-'' # c # cs"
      using c(1) by (auto simp: show_int_def)
    from that have "(\<exists>x u. w = x # u \<and> x \<in> ?letters) \<or> (\<exists>u. w = CHR ''-'' # CHR ''I'' # u)"
      by (simp add: json_words_def) blast
    then show ?thesis
    proof (elim disjE exE conjE)
      fix x u assume "w = x # u" "x \<in> ?letters"
      with s ch show ?thesis by (auto simp: starts_with_def)
    next
      fix u assume "w = CHR ''-'' # CHR ''I'' # u"
      with s ch show ?thesis by (auto simp: starts_with_def)
    qed
  qed
  then have "List.find (\<lambda>(w, v). starts_with w (show_int i @ rest)) (json_words lim) = None"
    by (auto simp: find_None_iff)
  with parse_number_int [OF d] show ?thesis by (simp add: parse_word_def)
qed

lemma parse_words:
  "parse_word lim (''null'' @ r) = Some (JNull, r)" "parse_word lim (''true'' @ r) = Some (JBool True, r)"
  "parse_word lim (''false'' @ r) = Some (JBool False, r)"
  by (simp_all add: parse_word_def json_words_def starts_with_def)

text \<open>The two styles that the sources print: separators with or without a space.\<close>

definition spaced :: "bool \<Rightarrow> bool \<Rightarrow> style" where
  "spaced a wide = (a, '','' @ (if wide then '' '' else []), '':'' @ (if wide then '' '' else []))"

lemma print_json_head:
  "\<exists>c cs. print_json (spaced a wide) v = c # cs \<and> \<not> json_space c \<and> c \<noteq> CHR '']''"
proof -
  have "\<exists>c cs. show_int i = c # cs \<and> \<not> json_space c \<and> c \<noteq> CHR '']''" for i
  proof -
    obtain c cs where "show_int i = c # cs" by (cases "show_int i") (auto simp: show_int_def split: if_splits)
    with hd_show_int [of i] have "c = CHR ''-'' \<or> is_digit c" "show_int i = c # cs" by auto
    then show ?thesis by (auto simp: json_space_def is_digit_def code_def)
  qed
  then show ?thesis
    by (cases v) (auto simp: spaced_def print_str_def json_space_def code_def)
qed

lemma skip_print [simp]: "skip_space (print_json (spaced a wide) v @ r) = print_json (spaced a wide) v @ r"
  using print_json_head [of a wide v] by (auto simp: skip_space_def)

lemma skip_delimited:
  "d \<in> {CHR '','', CHR '']'', CHR ''}'', CHR '':'', CHR 34, CHR '' ''} \<Longrightarrow>
     skip_space (d # r) = (if d = CHR '' '' then skip_space r else d # r)"
  by (auto simp: skip_space_def json_space_def code_def)

definition reads_back :: "json_limits \<Rightarrow> style \<Rightarrow> json \<Rightarrow> bool" where
  "reads_back lim st v = (\<forall>n rest. delimited rest \<longrightarrow> 2 * length (print_json st v @ rest) < n
     \<longrightarrow> parse_value lim n (print_json st v @ rest) = Some (v, rest))"

lemma items_read_back:
  assumes "\<forall>x \<in> set xs. reads_back lim (spaced a wide) x" "xs \<noteq> []"
    and "2 * length (join ('','' @ (if wide then '' '' else [])) (map (print_json (spaced a wide)) xs) @ CHR '']'' # rest) + 1 < n"
  shows "parse_items lim n acc (join ('','' @ (if wide then '' '' else [])) (map (print_json (spaced a wide)) xs) @ CHR '']'' # rest)
     = Some (JList (acc @ xs), rest)"
  using assms
proof (induction xs arbitrary: acc n)
  case (Cons x xs)
  let ?p = "print_json (spaced a wide)" and ?sep = "'','' @ (if wide then '' '' else [])"
  let ?tail = "(if xs = [] then [] else ?sep @ join ?sep (map ?p xs)) @ CHR '']'' # rest"
  have shape: "join ?sep (map ?p (x # xs)) @ CHR '']'' # rest = ?p x @ ?tail" by (simp add: join_Cons)
  from Cons.prems(3) obtain m where n: "n = Suc m" by (cases n) auto
  have "delimited ?tail" by (simp add: delimited_def)
  moreover have "2 * length (?p x @ ?tail) < m" using Cons.prems(3) n unfolding shape by simp
  ultimately have v: "parse_value lim m (?p x @ ?tail) = Some (x, ?tail)"
    using Cons.prems(1) by (simp add: reads_back_def)
  show ?case
  proof (cases "xs = []")
    case True
    with v show ?thesis unfolding shape by (simp add: n skip_delimited)
  next
    case False
    obtain y ys where ys: "xs = y # ys" using False by (cases xs) auto
    have sk: "skip_space ((if wide then '' '' else []) @ join ?sep (map ?p xs) @ CHR '']'' # rest)
        = join ?sep (map ?p xs) @ CHR '']'' # rest"
      by (simp add: ys join_Cons skip_delimited)
    have "2 * length (join ?sep (map ?p xs) @ CHR '']'' # rest) + 1 < m"
      using Cons.prems(3) n False unfolding shape by simp
    from Cons.IH [OF _ False this] Cons.prems(1)
    have "parse_items lim m (acc @ [x]) (join ?sep (map ?p xs) @ CHR '']'' # rest) = Some (JList (acc @ x # xs), rest)"
      by simp
    with v sk False show ?thesis unfolding shape by (simp add: n skip_delimited)
  qed
qed simp

lemma dict_put_new: "k \<notin> fst ` set kvs \<Longrightarrow> dict_put kvs k v = kvs @ [(k, v)]"
  by (induction kvs k v rule: dict_put.induct) auto

definition print_member :: "bool \<Rightarrow> bool \<Rightarrow> string \<times> json \<Rightarrow> string" where
  "print_member a wide kv =
     print_str a (fst kv) @ '':'' @ (if wide then '' '' else []) @ print_json (spaced a wide) (snd kv)"

lemma members_read_back:
  assumes "\<forall>kv \<in> set kvs. reads_back lim (spaced a wide) (snd kv)" "kvs \<noteq> []" "distinct (map fst (acc @ kvs))"
    and "2 * length (join ('','' @ (if wide then '' '' else [])) (map (print_member a wide) kvs) @ CHR ''}'' # rest) + 1 < n"
  shows "parse_members lim n acc (join ('','' @ (if wide then '' '' else [])) (map (print_member a wide) kvs) @ CHR ''}'' # rest)
     = Some (JObj (acc @ kvs), rest)"
  using assms
proof (induction kvs arbitrary: acc n)
  case (Cons kv kvs)
  let ?sp = "if wide then '' '' else []" and ?p = "print_member a wide"
  let ?sep = "'','' @ ?sp"
  let ?tail = "(if kvs = [] then [] else ?sep @ join ?sep (map ?p kvs)) @ CHR ''}'' # rest"
  obtain k v where kv: "kv = (k, v)" by (cases kv)
  let ?v = "print_json (spaced a wide) v"
  have shape: "join ?sep (map ?p (kv # kvs)) @ CHR ''}'' # rest
      = CHR 34 # concat (map (esc_char a) k) @ CHR 34 # CHR '':'' # ?sp @ ?v @ ?tail"
    by (simp add: join_Cons print_member_def print_str_def kv)
  from Cons.prems(4) obtain m where n: "n = Suc m" by (cases n) auto
  have "delimited ?tail" by (simp add: delimited_def)
  moreover have "2 * length (?v @ ?tail) < m" using Cons.prems(4) n unfolding shape by simp
  ultimately have v: "parse_value lim m (?v @ ?tail) = Some (v, ?tail)"
    using Cons.prems(1) by (simp add: reads_back_def kv)
  have sv: "skip_space (?sp @ ?v @ ?tail) = ?v @ ?tail" by (simp add: skip_delimited)
  have k: "parse_string lim (concat (map (esc_char a) k) @ CHR 34 # CHR '':'' # ?sp @ ?v @ ?tail) = Some (k, CHR '':'' # ?sp @ ?v @ ?tail)"
    by (rule parse_printed_string)
  have put: "dict_put acc k v = acc @ [kv]" using Cons.prems(3) by (simp add: dict_put_new kv)
  have c34: "code (CHR 34) = 34" by simp
  have step: "parse_members lim n acc (join ?sep (map ?p (kv # kvs)) @ CHR ''}'' # rest) =
      (case skip_space ?tail of [] \<Rightarrow> None
       | d # q \<Rightarrow> if d = CHR ''}'' then Some (JObj (acc @ [kv]), q)
           else if d = CHR '','' then parse_members lim m (acc @ [kv]) (skip_space q) else None)"
    unfolding shape n parse_members.simps list.case k option.case prod.case
    by (simp add: skip_delimited sv [simplified] v [simplified] put)
  show ?case
  proof (cases "kvs = []")
    case True
    then show ?thesis unfolding step by (simp add: skip_delimited)
  next
    case False
    obtain y ys where ys: "kvs = y # ys" using False by (cases kvs) auto
    have sk: "skip_space (?sp @ join ?sep (map ?p kvs) @ CHR ''}'' # rest) = join ?sep (map ?p kvs) @ CHR ''}'' # rest"
      by (simp add: ys join_Cons print_member_def print_str_def skip_delimited)
    have "2 * length (join ?sep (map ?p kvs) @ CHR ''}'' # rest) + 1 < m"
      using Cons.prems(4) n False unfolding shape by simp
    from Cons.IH [OF _ False _ this] Cons.prems(1,3)
    have "parse_members lim m (acc @ [kv]) (join ?sep (map ?p kvs) @ CHR ''}'' # rest) = Some (JObj (acc @ kv # kvs), rest)"
      by simp
    with sk False show ?thesis unfolding step by (simp add: skip_delimited)
  qed
qed simp

lemma code_34: "code c = 34 \<longleftrightarrow> c = CHR 34"
  using code_inj [of c "CHR 34"] by simp

lemma plain_value:
  "0 < n \<Longrightarrow> s = c # r \<Longrightarrow> c \<notin> {CHR 34, CHR ''['', CHR ''{''} \<Longrightarrow> parse_value lim n s = parse_word lim s"
  by (cases n) (auto simp: code_34)

lemma spaced_sel:
  "print_json (spaced a wide) (JList xs) =
     ''['' @ join ('','' @ (if wide then '' '' else [])) (map (print_json (spaced a wide)) xs) @ '']''"
  "print_json (spaced a wide) (JObj kvs) =
     ''{'' @ join ('','' @ (if wide then '' '' else [])) (map (print_member a wide) kvs) @ ''}''"
  by (simp_all add: spaced_def print_member_def [abs_def] case_prod_unfold)

lemma all_read_back: "wf_json v \<Longrightarrow> reads_back lim (spaced a wide) v"
proof (induction v)
  case JNull
  show ?case
    unfolding reads_back_def using parse_words(1) [of lim] by (simp add: spaced_def plain_value)
next
  case (JBool b)
  show ?case
    unfolding reads_back_def using parse_words(2,3) [of lim] by (simp add: spaced_def plain_value)
next
  case (JInt i)
  obtain c cs where c: "show_int i = c # cs" "c \<notin> {CHR 34, CHR ''['', CHR ''{''}"
  proof (cases "show_int i")
    case (Cons c cs)
    with hd_show_int [of i] have "c \<notin> {CHR 34, CHR ''['', CHR ''{''}" by (auto simp: is_digit_def code_def)
    with Cons that show ?thesis by blast
  qed (auto simp: show_int_def split: if_splits)
  show ?case
    unfolding reads_back_def using parse_int [of _ lim i] c by (simp add: spaced_def plain_value)
next
  case (JStr s)
  have "parse_value lim n (print_str a s @ rest) = Some (JStr s, rest)" if "0 < n" for n rest
    using that parse_printed_string [of lim a s rest] by (cases n) (auto simp: print_str_def)
  then show ?case by (simp add: reads_back_def spaced_def)
next
  case (JList xs)
  then have xs: "\<forall>x \<in> set xs. reads_back lim (spaced a wide) x" by simp
  show ?case
    unfolding reads_back_def
  proof (intro allI impI)
    fix n rest
    assume len: "2 * length (print_json (spaced a wide) (JList xs) @ rest) < n"
    then obtain m where n: "n = Suc m" by (cases n) auto
    let ?sep = "'','' @ (if wide then '' '' else [])"
    let ?body = "join ?sep (map (print_json (spaced a wide)) xs) @ CHR '']'' # rest"
    have shape: "print_json (spaced a wide) (JList xs) @ rest = CHR ''['' # ?body" by (simp add: spaced_sel)
    show "parse_value lim n (print_json (spaced a wide) (JList xs) @ rest) = Some (JList xs, rest)"
    proof (cases xs)
      case Nil
      then show ?thesis unfolding shape n by (simp add: skip_delimited code_def)
    next
      case (Cons x ys)
      have m: "2 * length ?body + 1 < m" using len n unfolding shape by simp
      obtain c cs where c: "?body = c # cs" "c \<noteq> CHR '']''" "\<not> json_space c"
      proof -
        obtain c cs where "print_json (spaced a wide) x = c # cs" "\<not> json_space c" "c \<noteq> CHR '']''"
          using print_json_head by blast
        then show ?thesis using that Cons by (simp add: join_Cons)
      qed
      then have sk: "skip_space (c # cs) = c # cs" by (simp add: skip_space_def)
      have "parse_value lim (Suc m) (CHR ''['' # ?body) = parse_items lim m [] ?body"
        by (simp only: parse_value.simps list.case c(1) sk) (simp add: code_def c(2))
      with items_read_back [OF xs _ m] Cons show ?thesis unfolding shape n by simp
    qed
  qed
next
  case (JObj kvs)
  then have kvs: "\<forall>kv \<in> set kvs. reads_back lim (spaced a wide) (snd kv)" "distinct (map fst ([] @ kvs))" by auto
  show ?case
    unfolding reads_back_def
  proof (intro allI impI)
    fix n rest
    assume len: "2 * length (print_json (spaced a wide) (JObj kvs) @ rest) < n"
    then obtain m where n: "n = Suc m" by (cases n) auto
    let ?sep = "'','' @ (if wide then '' '' else [])"
    let ?body = "join ?sep (map (print_member a wide) kvs) @ CHR ''}'' # rest"
    have shape: "print_json (spaced a wide) (JObj kvs) @ rest = CHR ''{'' # ?body" by (simp add: spaced_sel)
    show "parse_value lim n (print_json (spaced a wide) (JObj kvs) @ rest) = Some (JObj kvs, rest)"
    proof (cases kvs)
      case Nil
      then show ?thesis unfolding shape n by (simp add: skip_delimited code_def)
    next
      case (Cons kv ys)
      have m: "2 * length ?body + 1 < m" using len n unfolding shape by simp
      obtain cs where c: "?body = CHR 34 # cs" by (simp add: Cons join_Cons print_member_def print_str_def)
      have sk: "skip_space (CHR 34 # cs) = CHR 34 # cs" by (simp add: skip_delimited)
      have "parse_value lim (Suc m) (CHR ''{'' # ?body) = parse_members lim m [] ?body"
        by (simp only: parse_value.simps list.case c sk) (simp add: code_def)
      with members_read_back [OF kvs(1) _ kvs(2) m] Cons show ?thesis unfolding shape n by simp
    qed
  qed
qed

text \<open>Decoding what \<open>json.dumps\<close> printed gives the value back, with its dicts in their order.\<close>

theorem loads_printed:
  assumes "wf_json v"
  shows "json_loads lim (print_json (spaced a wide) v) = Some v"
proof -
  have "parse_value lim (2 * length (print_json (spaced a wide) v) + 2) (print_json (spaced a wide) v @ []) = Some (v, [])"
    using all_read_back [OF assms, of lim a wide, unfolded reads_back_def, rule_format, of "[]"]
    by (simp add: delimited_def del: parse_value.simps)
  with skip_print [of a wide v "[]"] show ?thesis
    by (simp add: json_loads_def skip_space_def del: parse_value.simps)
qed

end
