(* ===== verification/Projection.thy ===== *)
theory Projection
  imports IntakeReceipts RuleTasks JsonParse
begin

text \<open>
  What the public APIs read: \<open>load_invoice_projection\<close> and its helpers of \<open>src/platform/intake_api.py\<close>, and
  \<open>src/platform/reconstruction_api.py\<close>. Connections commit every statement by itself, so the
  statements of one projection may see different databases: \<open>views k\<close> is what the \<open>k\<close>-th one sees.
\<close>

section \<open>Reading columns\<close>

definition JText :: "string option \<Rightarrow> json" where
  "JText v = JOpt JStr v"

text \<open>\<open>_json_value\<close>: a text is decoded as JSON once more, where it can be.\<close>

definition json_value :: "json_limits \<Rightarrow> json \<Rightarrow> json" where
  "json_value jl v =
     (case v of JStr s \<Rightarrow> (case json_loads jl s of None \<Rightarrow> JStr s | Some j \<Rightarrow> j) | _ \<Rightarrow> v)"

definition normal_json :: "claim_normal \<Rightarrow> json" where
  "normal_json n =
     (case n of NText s \<Rightarrow> JStr s | NCount k \<Rightarrow> JInt k
      | NMoney a c \<Rightarrow> JObj [(''amount_minor'', JInt a), (''currency'', JStr c)])"

text \<open>\<open>_REASON_TEXT\<close> and \<open>_unresolved_reason\<close>; the reasons are a list already.\<close>

definition reason_text :: "(string \<times> string) list" where
  "reason_text =
     [(''RULE_NOT_VERIFIED'', ''Governing tariff not verified''),
      (''MISSING_DAY_SOURCE'', ''Charged day source incomplete''),
      (''MISSING_DAY_ACCESS_EVIDENCE'', ''Required terminal-access snapshot not yet bound''),
      (''SOURCE_VERSION_UNAVAILABLE'', ''Exact source version unavailable''),
      (''SOURCE_INTEGRITY_FAILED'', ''Source integrity check failed'')]"

fun unresolved_reason :: "string list \<Rightarrow> string option" where
  "unresolved_reason [] = None"
| "unresolved_reason (c # cs) =
     (case map_of reason_text c of Some t \<Rightarrow> Some t | None \<Rightarrow> unresolved_reason cs)"

definition latest_recommendation :: "(recommendation_row \<Rightarrow> bool) \<Rightarrow> db \<Rightarrow> recommendation_row option" where
  "latest_recommendation p db =
     (case filter p (db_recs db) of [] \<Rightarrow> None | r # rs \<Rightarrow> Some (min_by (\<lambda>r. - re_version r) r rs))"

section \<open>The invoice\<close>

definition invoice_source_rows :: "string \<Rightarrow> string \<Rightarrow> db \<Rightarrow> (invoice_row \<times> source_row) list" where
  "invoice_source_rows tenant invoice db =
     [(i, s). i \<leftarrow> db_invoices db, in_tenant i = tenant \<and> in_id i = invoice,
              s \<leftarrow> db_sources db, so_tenant s = in_tenant i \<and> so_invoice s = in_id i \<and> so_type s = ''INVOICE_PDF'']"

definition claim_projection :: "json_limits \<Rightarrow> (rat \<Rightarrow> json) \<Rightarrow> validated_claim \<Rightarrow> json" where
  "claim_projection jl num c =
     JObj [(''value_type'', JStr (vc_type c)), (''value'', json_value jl (normal_json (vc_normal c))),
       (''amount_minor'', JOpt JInt (vc_amount c)), (''currency'', JText (vc_currency c)),
       (''validation_state'', JStr ''VALIDATED''),
       (''anchor'', JObj
          [(''page_number'', JInt (an_page (vc_anchor c))),
           (''bounding_box'', JObj [(''x0'', num (an_x0 (vc_anchor c))), (''top'', num (an_top (vc_anchor c))),
              (''x1'', num (an_x1 (vc_anchor c))), (''bottom'', num (an_bottom (vc_anchor c)))]),
           (''text_excerpt'', JStr (an_excerpt (vc_anchor c)))])]"

definition active_claims :: "string \<Rightarrow> string \<Rightarrow> nat option \<Rightarrow> db \<Rightarrow> validated_claim list" where
  "active_claims tenant invoice version db =
     sort_key vc_field
       [cl_claim c. c \<leftarrow> db_claims db, cl_tenant c = tenant,
          s \<leftarrow> db_claim_sets db, cs_tenant s = cl_tenant c \<and> cs_id s = cl_set c \<and> cs_invoice s = invoice
            \<and> Some (cs_version s) = version]"

definition claims_dict :: "json_limits \<Rightarrow> (rat \<Rightarrow> json) \<Rightarrow> validated_claim list \<Rightarrow> json" where
  "claims_dict jl num cs = JObj (foldl (\<lambda>d c. dict_put d (vc_field c) (claim_projection jl num c)) [] cs)"

definition task_projection :: "task_row \<Rightarrow> json" where
  "task_projection w =
     JObj [(''task_id'', JStr (tk_id w)), (''task_type'', JStr (task_type_value (tk_type w))),
       (''state'', JStr (task_state_text (tk_state w))), (''attempt'', JInt (int (tk_attempt w))),
       (''summary'', JText (tk_summary w))]"

definition invoice_tasks :: "string \<Rightarrow> string \<Rightarrow> db \<Rightarrow> task_row list" where
  "invoice_tasks tenant invoice db =
     sort_key (\<lambda>w. (tk_created w, tk_id w)) (filter (\<lambda>w. tk_tenant w = tenant \<and> tk_invoice w = invoice) (db_tasks db))"

definition recommendation_summary :: "recommendation_row \<Rightarrow> json" where
  "recommendation_summary r =
     JObj [(''recommendation_type'', JStr (re_type r)), (''disputed_amount_minor'', JInt (re_disputed r)),
       (''currency'', JStr (re_currency r)), (''reason_codes'', JList (map JStr (re_reasons r))),
       (''unresolved_reason'', JText (unresolved_reason (re_reasons r)))]"

definition invoice_links :: "string \<Rightarrow> string \<Rightarrow> json" where
  "invoice_links invoice source =
     JObj [(''self'', JStr (''/api/invoices/'' @ invoice)), (''workbench'', JStr (''/invoices/'' @ invoice)),
       (''events'', JStr (''/api/invoices/'' @ invoice @ ''/events'')),
       (''source'', JStr (''/api/invoices/'' @ invoice @ ''/sources/'' @ source @ ''/content''))]"

definition invoice_snapshot ::
  "json_limits \<Rightarrow> invoice_row \<Rightarrow> source_row \<Rightarrow> string \<Rightarrow> json \<Rightarrow> task_row list \<Rightarrow> recommendation_row option \<Rightarrow> json" where
  "invoice_snapshot jl i s invoice claims tasks rec =
     JObj
      [(''classification'', JStr (''SYNTHETIC DEMO '' @ jl_wide jl 8212 @ '' FICTIONAL DATA'')),
       (''invoice'', JObj
         [(''invoice_id'', JStr invoice), (''display_name'', JStr (in_display i)), (''status'', JStr (in_status i)),
          (''status_sequence'', JInt (int (in_sequence i))), (''received_at'', JStr (utc_iso (in_received i))),
          (''intake_state'', JStr (in_intake_state i)), (''aggregate_status'', JStr (in_aggregate i)),
          (''active_claim_set_version'', JOpt (JInt \<circ> int) (in_claim_set i)),
          (''invoice_source'', JObj
             [(''source_id'', JStr (so_id s)), (''filename'', JStr (so_filename s)), (''mime_type'', JStr (so_mime s)),
              (''preservation_status'', JStr (so_preservation s))]),
          (''claims'', claims), (''tasks'', JList (map task_projection tasks)),
          (''recommendation'', JOpt recommendation_summary rec),
          (''unresolved_reason'', JText (case rec of None \<Rightarrow> None | Some r \<Rightarrow> unresolved_reason (re_reasons r))),
          (''next_action'', JNull)]),
       (''links'', invoice_links invoice (so_id s))]"

text \<open>The snapshot with the row version, or \<open>404 INVOICE_NOT_FOUND\<close>.\<close>

definition load_invoice_projection ::
  "json_limits \<Rightarrow> (rat \<Rightarrow> json) \<Rightarrow> (nat \<Rightarrow> db) \<Rightarrow> string \<Rightarrow> string \<Rightarrow> string + json \<times> nat" where
  "load_invoice_projection jl num views tenant invoice =
     (case invoice_source_rows tenant invoice (views 0) of
        [] \<Rightarrow> Inl ''INVOICE_NOT_FOUND''
      | (i, s) # _ \<Rightarrow>
          Inr (invoice_snapshot jl i s invoice
            (claims_dict jl num (active_claims tenant invoice (in_claim_set i) (views 1)))
            (invoice_tasks tenant invoice (views 2))
            (latest_recommendation (\<lambda>r. re_tenant r = tenant \<and> re_invoice r = invoice) (views 3)),
            in_row_version i))"

section \<open>The reconstruction\<close>

definition latest_reconstruction :: "string \<Rightarrow> string \<Rightarrow> db \<Rightarrow> reconstruction_row option" where
  "latest_reconstruction tenant invoice db =
     (case filter (\<lambda>r. rn_tenant r = tenant \<and> rn_invoice r = invoice) (db_recons db) of
        [] \<Rightarrow> None
      | r # rs \<Rightarrow> Some (min_by (\<lambda>r. - rn_version r) r rs))"

definition event_projection :: "event_version_row \<Rightarrow> json" where
  "event_projection e =
     JObj [(''event_ref'', JStr (rv_public_ref e)), (''type'', JStr (rv_type e)),
       (''occurred_at'', JStr (utc_iso (rv_occurred e))), (''recorded_at'', JStr (utc_iso (rv_recorded e))),
       (''recorded_before_invoice'', JBool (rv_before_cutoff e)), (''verification_state'', JStr ''VERIFIED''),
       (''anchor'', JStr (rv_anchor e)), (''provenance_class'', JStr (rv_provenance e))]"

definition timeline_projection :: "string \<Rightarrow> string \<Rightarrow> db \<Rightarrow> json list" where
  "timeline_projection tenant recon db =
     map event_projection (sort_key rv_sequence
       (filter (\<lambda>e. rv_tenant e = tenant \<and> rv_reconstruction e = recon) (db_event_versions db)))"

text \<open>The public references bound to a day, as a sorted set.\<close>

definition bound_refs :: "string \<Rightarrow> string \<Rightarrow> string \<Rightarrow> db \<Rightarrow> string list" where
  "bound_refs tenant recon day db =
     sort (remdups [rv_public_ref e. b \<leftarrow> db_day_events db,
         de_tenant b = tenant \<and> de_day b = day \<and> day \<in> dy_id ` set (days_of tenant recon db),
       e \<leftarrow> db_event_versions db, rv_tenant e = de_tenant b \<and> rv_id e = de_event b])"

text \<open>The outcome and the dispute of a day are written once, as \<open>PENDING\<close> and \<open>NULL\<close>.\<close>

definition day_projection :: "(string \<Rightarrow> string list) \<Rightarrow> day_row \<Rightarrow> json" where
  "day_projection refs d =
     JObj [(''date'', JStr (date_iso (dy_date d))), (''chargeability'', JStr (dy_chargeability d)),
       (''coverage'', JStr (dy_coverage d)), (''state'', JStr (dy_state d)),
       (''invoice_rate_minor'', JInt (dy_invoice_rate d)),
       (''applicable_rate_minor'', JOpt JInt (dy_applicable_rate d)), (''currency'', JStr (dy_currency d)),
       (''outcome'', JStr ''PENDING''), (''dispute_amount_minor'', JNull),
       (''event_refs'', JList (map JStr (refs (dy_id d)))),
       (''missing_requirements'', JList (map JStr (dy_missing d)))]"

definition coverage_projection :: "string \<Rightarrow> string \<Rightarrow> db \<Rightarrow> json list" where
  "coverage_projection tenant recon db =
     map (\<lambda>c. JObj [(''requirement'', JStr (cg_requirement c)), (''state'', JStr (cg_state c)), (''detail'', JNull)])
       (sort_key cg_requirement (filter (\<lambda>c. cg_tenant c = tenant \<and> cg_reconstruction c = recon) (db_coverage db)))"

definition rule_projection :: "rule_row \<Rightarrow> json" where
  "rule_projection r =
     JObj [(''rule_ref'', JStr (ru_public_ref r)), (''clause_ref'', JText (ru_clause_ref r)),
       (''display_excerpt'', JStr (ru_excerpt r)), (''rate_minor'', JInt (ru_rate r)), (''currency'', JStr (ru_currency r)),
       (''unit'', JStr (ru_unit r)), (''effective_from'', JStr (date_iso (ru_from r))),
       (''effective_to'', JOpt (JStr \<circ> date_iso) (ru_to r)), (''scope_code'', JStr (ru_scope r)),
       (''validation_state'', JStr (ru_validation r)),
       (''retrieval'', JObj [(''tool'', JStr ''CockroachDB Distributed Vector Indexing''), (''state'', JStr ''RETRIEVED'')])]"

definition recommendation_projection :: "recommendation_row \<Rightarrow> json" where
  "recommendation_projection r =
     JObj [(''recommendation_id'', JStr (re_id r)), (''version'', JInt (re_version r)),
       (''recommendation_type'', JStr (re_type r)), (''disputed_amount_minor'', JInt (re_disputed r)),
       (''supported_amount_minor'', JInt (re_supported r)), (''claimed_amount_minor'', JInt (re_claimed r)),
       (''currency'', JStr (re_currency r)), (''days_total'', JInt (int (re_days_total r))),
       (''days_covered'', JInt (int (re_days_covered r))), (''evidence_coverage'', JStr (re_coverage r)),
       (''state'', JStr (re_state r)), (''summary'', JStr (re_summary r)), (''digest'', JStr (re_digest r)),
       (''reason_codes'', JList (map JStr (re_reasons r))),
       (''unresolved_reason'', JText (unresolved_reason (re_reasons r))),
       (''approval_etag'', JStr (CHR 34 # ''rec-'' @ re_id r @ ''-v'' @ show_int (re_version r) @ ''-'' @ re_digest r @ [CHR 34]))]"

definition reconstruction_projection ::
  "reconstruction_row \<Rightarrow> json list \<Rightarrow> day_row list \<Rightarrow> (string \<Rightarrow> string list) \<Rightarrow> json list \<Rightarrow> rule_row option
     \<Rightarrow> recommendation_row option \<Rightarrow> json" where
  "reconstruction_projection r events days refs coverage rule rec =
     JObj
      [(''reconstruction_id'', JStr (rn_id r)), (''version'', JInt (rn_version r)), (''state'', JStr (rn_state r)),
       (''knowledge_cutoff'', JStr (utc_iso (rn_cutoff r))), (''effective_timezone'', JStr ''America/Los_Angeles''),
       (''source_disclosure'', JStr ''Representative demonstration data''), (''summary'', JStr (rn_summary r)),
       (''timeline'', JList events), (''charged_days'', JList (map (day_projection refs) days)),
       (''applicable_rule'', JOpt rule_projection rule), (''recommendation'', JOpt recommendation_projection rec),
       (''coverage'', JObj
         [(''days_complete'', JInt (int (rn_days_complete r))), (''days_total'', JInt (int (rn_days_total r))),
          (''requirements'', JList coverage),
          (''missing_requirements'', JList (map JStr (sort (remdups (concat (map dy_missing days))))))])]"

definition load_reconstruction_projection :: "(nat \<Rightarrow> db) \<Rightarrow> string \<Rightarrow> string \<Rightarrow> json option" where
  "load_reconstruction_projection views tenant invoice =
     (case latest_reconstruction tenant invoice (views 0) of
        None \<Rightarrow> None
      | Some r \<Rightarrow>
          (let recon = rn_id r
           in Some (reconstruction_projection r (timeline_projection tenant recon (views 1)) (days_of tenant recon (views 2))
             (\<lambda>day. bound_refs tenant recon day (views 3)) (coverage_projection tenant recon (views 4))
             (List.find (\<lambda>u. ru_tenant u = tenant \<and> ru_reconstruction u = recon \<and> ru_validation u = ''VERIFIED'')
               (db_rules (views 5)))
             (latest_recommendation (\<lambda>x. re_tenant x = tenant \<and> re_reconstruction x = recon) (views 6)))))"

section \<open>What the public cannot see\<close>

text \<open>
  A database without what is private: where a source is stored and what it hashes to, the model runs,
  the queries and servers a reconstruction used, the vector search, the locators of clauses, who approved
  and what was sent, the memory, the artifacts, and the other tenants.
\<close>

definition hide_source :: "source_row \<Rightarrow> source_row" where
  "hide_source s = s\<lparr>so_bucket := '''', so_key := '''', so_version := '''', so_sha256 := '''', so_bytes := 0\<rparr>"

definition hide_event :: "event_version_row \<Rightarrow> event_version_row" where
  "hide_event e = e\<lparr>rv_artifact := '''', rv_version := '''', rv_shipment := '''', rv_container := '''', rv_facts := []\<rparr>"

definition hide_reconstruction :: "reconstruction_row \<Rightarrow> reconstruction_row" where
  "hide_reconstruction r = r\<lparr>rn_correlation := '''', rn_query := '''', rn_fingerprint := '''', rn_task := ''''\<rparr>"

definition hide_rule :: "rule_row \<Rightarrow> rule_row" where
  "hide_rule r = r\<lparr>ru_locator := '''', ru_run := '''', ru_clause := '''', ru_results := []\<rparr>"

definition hide_claim :: "claim_row \<Rightarrow> claim_row" where
  "hide_claim c = c\<lparr>cl_claim := (cl_claim c)\<lparr>vc_raw := '''', vc_anchor := (vc_anchor (cl_claim c))\<lparr>an_excerpt_sha256 := ''''\<rparr>\<rparr>\<rparr>"

definition hide_task :: "task_row \<Rightarrow> task_row" where
  "hide_task w = w\<lparr>tk_initiated := None, tk_actor := '''', tk_owner := None, tk_fingerprint := '''', tk_inputs := [],
     tk_error := None\<rparr>"

definition public_part :: "string \<Rightarrow> db \<Rightarrow> db" where
  "public_part tenant db = empty_db
     \<lparr>db_invoices := map (\<lambda>i. i\<lparr>in_sha256 := ''''\<rparr>) (filter (\<lambda>i. in_tenant i = tenant) (db_invoices db)),
      db_sources := map hide_source (filter (\<lambda>s. so_tenant s = tenant) (db_sources db)),
      db_tasks := map hide_task (filter (\<lambda>w. tk_tenant w = tenant) (db_tasks db)),
      db_claim_sets := filter (\<lambda>s. cs_tenant s = tenant) (db_claim_sets db),
      db_claims := map hide_claim (filter (\<lambda>c. cl_tenant c = tenant) (db_claims db)),
      db_recs := filter (\<lambda>r. re_tenant r = tenant) (db_recs db),
      db_rules := map hide_rule (filter (\<lambda>r. ru_tenant r = tenant) (db_rules db)),
      db_recons := map hide_reconstruction (filter (\<lambda>r. rn_tenant r = tenant) (db_recons db)),
      db_event_versions := map hide_event (filter (\<lambda>e. rv_tenant e = tenant) (db_event_versions db)),
      db_days := filter (\<lambda>d. dy_tenant d = tenant) (db_days db),
      db_day_events := filter (\<lambda>b. de_tenant b = tenant) (db_day_events db),
      db_coverage := filter (\<lambda>c. cg_tenant c = tenant) (db_coverage db)\<rparr>"

lemma filter_hidden:
  "(\<And>x. p (h x) = p x) \<Longrightarrow> (\<And>x. p x \<Longrightarrow> q x) \<Longrightarrow> filter p (map h (filter q xs)) = map h (filter p xs)"
  by (induction xs) auto

lemma sort_key_hidden: "(\<And>x. f (h x) = f x) \<Longrightarrow> sort_key f (map h xs) = map h (sort_key f xs)"
proof -
  assume h: "\<And>x. f (h x) = f x"
  have "insort_key f (h x) (map h xs) = map h (insort_key f x xs)" for x xs
    by (induction xs) (simp_all add: h)
  then show ?thesis by (induction xs) simp_all
qed

lemma min_by_hidden: "(\<And>x. f (h x) = f x) \<Longrightarrow> min_by f (h x) (map h xs) = h (min_by f x xs)"
  by (induction xs arbitrary: x) auto

lemma find_hidden: "(\<And>x. p (h x) = p x) \<Longrightarrow> (\<And>x. p x \<Longrightarrow> q x) \<Longrightarrow>
    List.find p (map h (filter q xs)) = map_option h (List.find p xs)"
  by (induction xs) auto

lemma public_tables:
  "db_invoices (public_part t db) = map (\<lambda>i. i\<lparr>in_sha256 := ''''\<rparr>) (filter (\<lambda>i. in_tenant i = t) (db_invoices db))"
  "db_sources (public_part t db) = map hide_source (filter (\<lambda>s. so_tenant s = t) (db_sources db))"
  "db_tasks (public_part t db) = map hide_task (filter (\<lambda>w. tk_tenant w = t) (db_tasks db))"
  "db_claim_sets (public_part t db) = filter (\<lambda>s. cs_tenant s = t) (db_claim_sets db)"
  "db_claims (public_part t db) = map hide_claim (filter (\<lambda>c. cl_tenant c = t) (db_claims db))"
  "db_recs (public_part t db) = filter (\<lambda>r. re_tenant r = t) (db_recs db)"
  "db_rules (public_part t db) = map hide_rule (filter (\<lambda>r. ru_tenant r = t) (db_rules db))"
  "db_recons (public_part t db) = map hide_reconstruction (filter (\<lambda>r. rn_tenant r = t) (db_recons db))"
  "db_event_versions (public_part t db) = map hide_event (filter (\<lambda>e. rv_tenant e = t) (db_event_versions db))"
  "db_days (public_part t db) = filter (\<lambda>d. dy_tenant d = t) (db_days db)"
  "db_day_events (public_part t db) = filter (\<lambda>b. de_tenant b = t) (db_day_events db)"
  "db_coverage (public_part t db) = filter (\<lambda>c. cg_tenant c = t) (db_coverage db)"
  by (simp_all add: public_part_def)

lemma hidden_columns [simp]:
  "so_tenant (hide_source s) = so_tenant s" "so_invoice (hide_source s) = so_invoice s" "so_type (hide_source s) = so_type s"
  "so_id (hide_source s) = so_id s" "so_filename (hide_source s) = so_filename s" "so_mime (hide_source s) = so_mime s"
  "so_preservation (hide_source s) = so_preservation s"
  "tk_tenant (hide_task w) = tk_tenant w" "tk_invoice (hide_task w) = tk_invoice w" "tk_created (hide_task w) = tk_created w"
  "tk_id (hide_task w) = tk_id w" "task_projection (hide_task w) = task_projection w"
  "cl_tenant (hide_claim c) = cl_tenant c" "cl_set (hide_claim c) = cl_set c"
  "ru_tenant (hide_rule u) = ru_tenant u" "ru_reconstruction (hide_rule u) = ru_reconstruction u"
  "ru_validation (hide_rule u) = ru_validation u" "rule_projection (hide_rule u) = rule_projection u"
  "rn_tenant (hide_reconstruction r) = rn_tenant r" "rn_invoice (hide_reconstruction r) = rn_invoice r"
  "rn_version (hide_reconstruction r) = rn_version r" "rn_id (hide_reconstruction r) = rn_id r"
  "rv_tenant (hide_event e) = rv_tenant e" "rv_reconstruction (hide_event e) = rv_reconstruction e"
  "rv_sequence (hide_event e) = rv_sequence e" "rv_id (hide_event e) = rv_id e"
  "rv_public_ref (hide_event e) = rv_public_ref e" "event_projection (hide_event e) = event_projection e"
  by (simp_all add: hide_source_def hide_task_def task_projection_def hide_claim_def hide_rule_def rule_projection_def
      hide_reconstruction_def hide_event_def event_projection_def)

lemma public_tasks: "map task_projection (invoice_tasks t i (public_part t db)) = map task_projection (invoice_tasks t i db)"
  unfolding invoice_tasks_def public_tables by (subst filter_hidden) (auto simp: sort_key_hidden)

lemma public_recs:
  assumes "\<And>r. p r \<Longrightarrow> re_tenant r = t"
  shows "latest_recommendation p (public_part t db) = latest_recommendation p db"
proof -
  have "filter p (filter (\<lambda>r. re_tenant r = t) xs) = filter p xs" for xs using assms by (induction xs) auto
  then show ?thesis by (simp add: latest_recommendation_def public_tables)
qed

lemma public_reconstruction:
  "latest_reconstruction t i (public_part t db) = map_option hide_reconstruction (latest_reconstruction t i db)"
  unfolding latest_reconstruction_def public_tables
  by (subst filter_hidden) (auto simp: min_by_hidden split: list.split)

lemma public_timeline: "timeline_projection t r (public_part t db) = timeline_projection t r db"
  unfolding timeline_projection_def public_tables by (subst filter_hidden) (auto simp: sort_key_hidden)

lemma public_days: "days_of t r (public_part t db) = days_of t r db"
proof -
  have "filter (\<lambda>d. dy_tenant d = t \<and> dy_reconstruction d = r) (filter (\<lambda>d. dy_tenant d = t) xs)
      = filter (\<lambda>d. dy_tenant d = t \<and> dy_reconstruction d = r) xs" for xs by (induction xs) auto
  then show ?thesis by (simp add: days_of_def public_tables)
qed

lemma public_coverage: "coverage_projection t r (public_part t db) = coverage_projection t r db"
proof -
  have "filter (\<lambda>c. cg_tenant c = t \<and> cg_reconstruction c = r) (filter (\<lambda>c. cg_tenant c = t) xs)
      = filter (\<lambda>c. cg_tenant c = t \<and> cg_reconstruction c = r) xs" for xs by (induction xs) auto
  then show ?thesis by (simp add: coverage_projection_def public_tables)
qed

lemma concat_hidden:
  "(\<And>x. q x \<Longrightarrow> g (h x) = g' x) \<Longrightarrow> (\<And>x. \<not> q x \<Longrightarrow> g' x = []) \<Longrightarrow>
     concat (map (g \<circ> h) (filter q xs)) = concat (map g' xs)"
  by (induction xs) auto

lemma concat_own: "(\<And>x. \<not> q x \<Longrightarrow> g x = []) \<Longrightarrow> concat (map g (filter q xs)) = concat (map g xs)"
  by (induction xs) auto

lemma public_sources:
  "invoice_source_rows t i (public_part t db) =
     map (\<lambda>(v, s). (v\<lparr>in_sha256 := ''''\<rparr>, hide_source s)) (invoice_source_rows t i db)"
proof -
  have inner: "concat (map ((\<lambda>s. if so_tenant s = u \<and> so_invoice s = x \<and> so_type s = y then [(v, s)] else []) \<circ> hide_source)
        (filter (\<lambda>s. so_tenant s = u) ss))
      = concat (map (\<lambda>s. if so_tenant s = u \<and> so_invoice s = x \<and> so_type s = y then [(v, hide_source s)] else []) ss)"
    for v :: invoice_row and u x y ss
    by (rule concat_hidden) auto
  have outer: "map (\<lambda>(v, s). (v\<lparr>in_sha256 := ''''\<rparr>, hide_source s))
        (concat (map (\<lambda>s. if so_tenant s = u \<and> so_invoice s = x \<and> so_type s = y then [(v, s)] else []) ss))
      = concat (map (\<lambda>s. if so_tenant s = u \<and> so_invoice s = x \<and> so_type s = y
          then [(v\<lparr>in_sha256 := ''''\<rparr>, hide_source s)] else []) ss)" for v u x y ss
    by (induction ss) auto
  show ?thesis
    unfolding invoice_source_rows_def public_tables map_concat map_map
    by (rule concat_hidden [where q = "\<lambda>v. in_tenant v = t"]) (auto simp: inner outer)
qed

lemma public_claims:
  "map (\<lambda>c. (vc_field c, claim_projection jl num c)) (active_claims t i n (public_part t db))
     = map (\<lambda>c. (vc_field c, claim_projection jl num c)) (active_claims t i n db)"
proof -
  let ?h = "\<lambda>c. c\<lparr>vc_raw := '''', vc_anchor := (vc_anchor c)\<lparr>an_excerpt_sha256 := ''''\<rparr>\<rparr>"
  let ?set = "\<lambda>c s. cs_tenant s = cl_tenant c \<and> cs_id s = cl_set c \<and> cs_invoice s = i \<and> Some (cs_version s) = n"
  have h: "cl_claim (hide_claim c) = ?h (cl_claim c)" for c by (simp add: hide_claim_def)
  have inner: "concat (map (\<lambda>s. if cs_tenant s = u \<and> cs_id s = x \<and> cs_invoice s = i \<and> Some (cs_version s) = n then [y] else [])
        (filter (\<lambda>s. cs_tenant s = u) ss))
      = concat (map (\<lambda>s. if cs_tenant s = u \<and> cs_id s = x \<and> cs_invoice s = i \<and> Some (cs_version s) = n then [y] else []) ss)"
    for u x ss and y :: validated_claim
    by (rule concat_own) auto
  have outer: "map ?h (concat (map (\<lambda>s. if ?set c s then [cl_claim c] else []) ss))
      = concat (map (\<lambda>s. if ?set c s then [?h (cl_claim c)] else []) ss)" for c ss
    by (induction ss) auto
  have "[cl_claim c. c \<leftarrow> db_claims (public_part t db), cl_tenant c = t, s \<leftarrow> db_claim_sets (public_part t db), ?set c s]
      = map ?h [cl_claim c. c \<leftarrow> db_claims db, cl_tenant c = t, s \<leftarrow> db_claim_sets db, ?set c s]"
    unfolding public_tables map_concat map_map
    by (rule concat_hidden [where q = "\<lambda>c. cl_tenant c = t"]) (auto simp: inner outer h cong: if_cong)
  then have "active_claims t i n (public_part t db) = map ?h (active_claims t i n db)"
    by (simp add: active_claims_def sort_key_hidden)
  then show ?thesis by (simp add: claim_projection_def)
qed

lemma public_refs: "bound_refs t r d (public_part t db) = bound_refs t r d db"
proof -
  have inner: "concat (map ((\<lambda>e. if rv_tenant e = u \<and> rv_id e = x then [rv_public_ref e] else []) \<circ> hide_event)
        (filter (\<lambda>e. rv_tenant e = u) es))
      = concat (map (\<lambda>e. if rv_tenant e = u \<and> rv_id e = x then [rv_public_ref e] else []) es)" for u x es
    by (rule concat_hidden) auto
  have "[rv_public_ref e. b \<leftarrow> db_day_events (public_part t db), de_tenant b = t \<and> de_day b = d \<and> q,
        e \<leftarrow> db_event_versions (public_part t db), rv_tenant e = de_tenant b \<and> rv_id e = de_event b]
      = [rv_public_ref e. b \<leftarrow> db_day_events db, de_tenant b = t \<and> de_day b = d \<and> q,
        e \<leftarrow> db_event_versions db, rv_tenant e = de_tenant b \<and> rv_id e = de_event b]" for q
    unfolding public_tables map_map by (subst concat_own) (auto simp: inner intro!: arg_cong [where f = concat])
  then show ?thesis unfolding bound_refs_def public_days by (rule arg_cong)
qed

text \<open>
  C39: what the public APIs show depends on nothing private. The projection of an invoice and the projection of
  its reconstruction are the same when they are computed from databases without the storage locations,
  versions and digests of sources, the raw claims, the runs of the model, the actors, leases and inputs of tasks, the
  query, correlation and fingerprint of a reconstruction, the artifacts, shipment and container of its events, the locator
  and the search of a clause, the approvals, seals, letters and the memory, and without every row of any other tenant.
\<close>

theorem projections_hide_private:
  "load_invoice_projection jl num (\<lambda>k. public_part t (views k)) t i = load_invoice_projection jl num views t i
   \<and> load_reconstruction_projection (\<lambda>k. public_part t (views k)) t i = load_reconstruction_projection views t i"
proof
  have claims: "claims_dict jl num (active_claims t i n (public_part t db)) = claims_dict jl num (active_claims t i n db)" for n db
  proof -
    have "claims_dict jl num cs = JObj (foldl (\<lambda>d p. dict_put d (fst p) (snd p)) []
        (map (\<lambda>c. (vc_field c, claim_projection jl num c)) cs))" for cs
      by (simp add: claims_dict_def foldl_map)
    then show ?thesis by (simp only: public_claims)
  qed
  have rec: "latest_recommendation (\<lambda>r. re_tenant r = t \<and> re_invoice r = i) (public_part t db)
      = latest_recommendation (\<lambda>r. re_tenant r = t \<and> re_invoice r = i) db" for db
    by (rule public_recs) simp
  show "load_invoice_projection jl num (\<lambda>k. public_part t (views k)) t i = load_invoice_projection jl num views t i"
    by (cases "invoice_source_rows t i (views 0)")
      (auto simp: load_invoice_projection_def public_sources claims rec invoice_snapshot_def public_tasks)
next
  have rec: "latest_recommendation (\<lambda>x. re_tenant x = t \<and> re_reconstruction x = r) (public_part t db)
      = latest_recommendation (\<lambda>x. re_tenant x = t \<and> re_reconstruction x = r) db" for r db
    by (rule public_recs) simp
  have rule: "JOpt rule_projection (List.find (\<lambda>u. ru_tenant u = t \<and> ru_reconstruction u = r \<and> ru_validation u = v) (db_rules (public_part t db)))
      = JOpt rule_projection (List.find (\<lambda>u. ru_tenant u = t \<and> ru_reconstruction u = r \<and> ru_validation u = v) (db_rules db))" for r v db
    unfolding public_tables by (subst find_hidden) (auto simp: JOpt_def split: option.split)
  have hidden: "rn_state (hide_reconstruction r) = rn_state r" "rn_cutoff (hide_reconstruction r) = rn_cutoff r"
    "rn_summary (hide_reconstruction r) = rn_summary r" "rn_days_complete (hide_reconstruction r) = rn_days_complete r"
    "rn_days_total (hide_reconstruction r) = rn_days_total r" for r
    by (simp_all add: hide_reconstruction_def)
  show "load_reconstruction_projection (\<lambda>k. public_part t (views k)) t i = load_reconstruction_projection views t i"
    by (cases "latest_reconstruction t i (views 0)")
      (simp_all add: load_reconstruction_projection_def public_reconstruction reconstruction_projection_def rec rule hidden
        public_timeline public_days public_coverage public_refs Let_def)
qed

section \<open>Decoded twice\<close>

text \<open>A claim that is a text of digits, like an invoice number, is shown as a number.\<close>

lemma numeric_text_retyped: "json_value jl (normal_json (NText (show_int n))) = JInt n"
  using loads_printed [of "JInt n" jl True True] by (simp add: json_value_def normal_json_def spaced_def)

end
