(* ===== verification/SourceStore.thy ===== *)
theory SourceStore
  imports Db Intake
begin

text \<open>
  \<open>src/external/invoice_source_store.py\<close>: an upload is put into a versioned bucket under its checksum and read
  back by its exact version. The bucket is an argument: what it answers to each call, \<open>None\<close> for an exception.
\<close>

section \<open>The checksum in base 64\<close>

definition base64_char :: "nat \<Rightarrow> char" where
  "base64_char n =
     (if n < 26 then char_of (65 + n) else if n < 52 then char_of (71 + n) else if n < 62 then char_of (n - 4)
      else if n = 62 then CHR ''+'' else CHR ''/'')"

definition base64_group :: "nat \<Rightarrow> nat \<Rightarrow> nat \<Rightarrow> string" where
  "base64_group a b c =
     map base64_char [a div 4, a mod 4 * 16 + b div 16, b mod 16 * 4 + c div 64, c mod 64]"

fun base64 :: "nat list \<Rightarrow> string" where
  "base64 [] = []"
| "base64 [a] = take 2 (base64_group a 0 0) @ ''==''"
| "base64 [a, b] = take 3 (base64_group a b 0) @ ''=''"
| "base64 (a # b # c # r) = base64_group a b c @ base64 r"

text \<open>\<open>hashlib.sha256(body).digest()\<close>: the bytes of the eight words.\<close>

definition word_bytes :: "w32 \<Rightarrow> nat list" where
  "word_bytes w = map (\<lambda>k. unat (drop_bit k w AND 255)) [24, 16, 8, 0]"

definition sha256_digest :: "string \<Rightarrow> nat list" where
  "sha256_digest body = concat (map word_bytes (sha256_words body))"

section \<open>The bucket\<close>

text \<open>
  \<open>put_object\<close> for a key, a body, a checksum and a digest answers with a version, if it is a text at all;
  \<open>head_object\<close> and \<open>get_object\<close> take a key and a version.
\<close>

record object_head =
  oh_version :: "string option"
  oh_length :: int
  oh_digest :: "string option"
  oh_checksum :: "string option"

record object_store =
  os_put :: "string \<Rightarrow> string \<Rightarrow> string \<Rightarrow> string \<Rightarrow> string option option"
  os_head :: "string \<Rightarrow> string \<Rightarrow> object_head option"
  os_get :: "string \<Rightarrow> string \<Rightarrow> string \<Rightarrow> string option"

definition strip_slashes :: "string \<Rightarrow> string" where
  "strip_slashes s = rstrip_by (\<lambda>c. c = CHR ''/'') (lstrip_by (\<lambda>c. c = CHR ''/'') s)"

definition source_key_of :: "string \<Rightarrow> string \<Rightarrow> string" where
  "source_key_of key_prefix source = strip_slashes key_prefix @ ''/'' @ source @ ''/invoice.pdf''"

definition preserve :: "object_store \<Rightarrow> string \<Rightarrow> string \<Rightarrow> string \<Rightarrow> string \<Rightarrow> string + stored_source" where
  "preserve store bucket key_prefix source body =
     (let digest = sha256_hexdigest body; checksum = base64 (sha256_digest body); key = source_key_of key_prefix source
      in case os_put store key body checksum digest of
        None \<Rightarrow> Inl ''SOURCE_PERSISTENCE_UNAVAILABLE''
      | Some answered \<Rightarrow>
          (case answered of
             None \<Rightarrow> Inl ''SOURCE_VERSION_MISSING''
           | Some version \<Rightarrow>
               if py_strip version = '''' then Inl ''SOURCE_VERSION_MISSING''
               else (case os_head store key version of
                  None \<Rightarrow> Inl ''SOURCE_PERSISTENCE_UNAVAILABLE''
                | Some head \<Rightarrow>
                    if oh_version head \<noteq> Some version then Inl ''SOURCE_VERSION_MISMATCH''
                    else if oh_length head \<noteq> int (length body) then Inl ''SOURCE_LENGTH_MISMATCH''
                    else if oh_digest head \<noteq> Some digest then Inl ''SOURCE_CHECKSUM_MISMATCH''
                    else if oh_checksum head \<noteq> None \<and> oh_checksum head \<noteq> Some checksum then Inl ''SOURCE_CHECKSUM_MISMATCH''
                    else Inr \<lparr>ss_bucket = bucket, ss_key = key, ss_version = version, ss_sha256 = digest,
                      ss_bytes = length body\<rparr>)))"

definition get_exact :: "object_store \<Rightarrow> stored_source \<Rightarrow> string + string" where
  "get_exact store source =
     (case os_get store (ss_bucket source) (ss_key source) (ss_version source) of
        None \<Rightarrow> Inl ''SOURCE_VERSION_UNAVAILABLE''
      | Some body \<Rightarrow>
          if length body \<noteq> ss_bytes source \<or> sha256_hexdigest body \<noteq> ss_sha256 source
          then Inl ''SOURCE_CHECKSUM_MISMATCH'' else Inr body)"

section \<open>What is kept is what was put\<close>

text \<open>A record of a source is that of a body when length and digest are the body's.\<close>

definition records_body :: "stored_source \<Rightarrow> string \<Rightarrow> bool" where
  "records_body s body = (ss_sha256 s = sha256_hexdigest body \<and> ss_bytes s = length body)"

lemma preserved_records:
  "preserve store bucket key_prefix source body = Inr s \<Longrightarrow>
     records_body s body \<and> ss_bucket s = bucket \<and> ss_key s = source_key_of key_prefix source"
  by (auto simp: preserve_def records_body_def Let_def split: option.splits if_splits)

lemma got_exact:
  "get_exact store s = Inr body' \<Longrightarrow> records_body s body \<Longrightarrow> body' = body \<or> sha_collision body' body"
  by (auto simp: get_exact_def records_body_def split: option.splits if_splits dest!: sha256_eq_or_collision)

lemma got_records: "get_exact store s = Inr body \<Longrightarrow> records_body s body"
  by (auto simp: get_exact_def records_body_def split: option.splits if_splits)

end
