(* ===== verification/Upload.thy ===== *)
theory Upload
  imports EndToEnd SourceStore Projection
begin

text \<open>
  The writing half of \<open>src/platform/intake_api.py\<close>: an upload is checked, reserved, preserved and finalized, each
  step its own transaction, and the routes that retry an extraction or serve the exact source.
\<close>

section \<open>The service\<close>

text \<open>The environment variables, empty where they are unset, and the bucket behind them.\<close>

record intake_service =
  sv_tenant :: string
  sv_bucket :: string
  sv_prefix :: string
  sv_store :: object_store

definition tenant_id :: "intake_service \<Rightarrow> string option" where
  "tenant_id sv = (let t = py_strip (sv_tenant sv) in if t = '''' then None else Some t)"

definition source_store :: "intake_service \<Rightarrow> string option" where
  "source_store sv = (let b = py_strip (sv_bucket sv) in if b = '''' then None else Some b)"

definition allowed_scenarios :: "string list" where
  "allowed_scenarios = [''locked-inv-1048'', ''locked-inv-1047'']"

definition allowed_import_sources :: "string list" where
  "allowed_import_sources = [''operator_import'', ''forwarded_email_simulation'']"

definition max_pdf_pages :: nat where
  "max_pdf_pages = 10"

definition max_pdf_parse_us :: int where
  "max_pdf_parse_us = 5000000"

definition maximum_pdf_bytes :: nat where
  "maximum_pdf_bytes = 15 * 1024 * 1024"

text \<open>
  What \<open>pdfplumber\<close> does with a body: it raises at once or while a page is read, a \<open>ValueError\<close> with a text or
  another exception; otherwise each page leaves the time elapsed since the start.
\<close>

datatype pdf_failure = PdfValueError string | PdfFailure

record pdf_reading =
  pr_open :: "pdf_failure + nat"
  pr_page :: "nat \<Rightarrow> pdf_failure + int"

definition pdf_failure_code :: "pdf_failure \<Rightarrow> string" where
  "pdf_failure_code e = (case e of PdfValueError c \<Rightarrow> c | PdfFailure \<Rightarrow> ''ENCRYPTED_OR_UNREADABLE_PDF'')"

fun read_pages :: "(nat \<Rightarrow> pdf_failure + int) \<Rightarrow> nat list \<Rightarrow> string + unit" where
  "read_pages page [] = Inr ()"
| "read_pages page (k # ks) =
     (case page k of
        Inl e \<Rightarrow> Inl (pdf_failure_code e)
      | Inr elapsed \<Rightarrow> if max_pdf_parse_us < elapsed then Inl ''PDF_PARSE_TIMEOUT'' else read_pages page ks)"

definition validate_supported_pdf :: "pdf_reading \<Rightarrow> string + unit" where
  "validate_supported_pdf r =
     (case pr_open r of
        Inl e \<Rightarrow> Inl (pdf_failure_code e)
      | Inr n \<Rightarrow> if max_pdf_pages < n then Inl ''PDF_PAGE_LIMIT_EXCEEDED'' else read_pages (pr_page r) [0..<n])"

section \<open>Receiving an invoice\<close>

record upload =
  up_body :: string
  up_scenario :: string
  up_source :: string

text \<open>The request an idempotency key stands for: the bytes, the scenario and the channel.\<close>

definition request_bytes :: "upload \<Rightarrow> string" where
  "request_bytes u = up_body u @ [CHR 0x00] @ utf8_encode (up_scenario u) @ [CHR 0x00] @ utf8_encode (up_source u)"

definition request_hash :: "upload \<Rightarrow> string" where
  "request_hash u = sha256_hexdigest (request_bytes u)"

definition with_import_source :: "string \<Rightarrow> json \<Rightarrow> json" where
  "with_import_source src snapshot =
     (case snapshot of
        JObj kvs \<Rightarrow> (case map_of kvs ''invoice'' of
            Some (JObj i) \<Rightarrow> JObj (dict_put kvs ''invoice'' (JObj (dict_put i ''import_source'' (JStr src))))
          | _ \<Rightarrow> snapshot)
      | _ \<Rightarrow> snapshot)"

definition snapshot_source :: "json \<Rightarrow> string" where
  "snapshot_source s =
     json_str (Option.bind (Option.bind (json_get ''invoice'' s) (json_get ''invoice_source'')) (json_get ''source_id''))"

text \<open>The errors, by the exception that carries them; \<open>Escapes\<close> is one that no handler names.\<close>

datatype upload_error =
  Conflict
| IngestionState string
| Persistence string
| Unavailable string
| InvoiceNotFound
| Escapes tx_error

definition ingestion_errors :: "string list" where
  "ingestion_errors =
     [''INGESTION_REQUEST_NOT_FOUND'', ''DUPLICATE_SOURCE_BINDING_MISMATCH'', ''SOURCE_BINDING_MISMATCH'']"

definition upload_error :: "tx_error \<Rightarrow> upload_error" where
  "upload_error e =
     (case e of
        Raised c \<Rightarrow>
          (if c = ''IDEMPOTENCY_CONFLICT'' then Conflict
           else if c \<in> set ingestion_errors \<or> starts_with ''INGESTION_NOT_FINALIZABLE:'' c then IngestionState c
           else Escapes e)
      | _ \<Rightarrow> Escapes e)"

type_synonym 'a step = "db \<Rightarrow> (upload_error + 'a) \<times> db"

definition in_tx :: "'a process \<Rightarrow> 'a step" where
  "in_tx p db = (case p db of (Inl e, db1) \<Rightarrow> (Inl (upload_error e), db1) | (Inr a, db1) \<Rightarrow> (Inr a, db1))"

definition and_then :: "'a step \<Rightarrow> ('a \<Rightarrow> 'b step) \<Rightarrow> 'b step" where
  "and_then m k db = (case m db of (Inl e, db1) \<Rightarrow> (Inl e, db1) | (Inr a, db1) \<Rightarrow> k a db1)"

definition giving :: "upload_error + 'a \<Rightarrow> 'a step" where
  "giving r db = (r, db)"

text \<open>What is read outside a transaction, when others have committed before the \<open>k\<close>-th access.\<close>

definition seeing :: "surroundings \<Rightarrow> nat \<Rightarrow> (db \<Rightarrow> 'a) \<Rightarrow> 'a step" where
  "seeing w k f db = (Inr (f (wd_others w k db)), wd_others w k db)"

fun seen :: "surroundings \<Rightarrow> nat \<Rightarrow> nat \<Rightarrow> db \<Rightarrow> db" where
  "seen w k 0 db = wd_others w k db"
| "seen w k (Suc n) db = wd_others w (k + Suc n) (seen w k n db)"

definition projecting ::
  "json_limits \<Rightarrow> (rat \<Rightarrow> json) \<Rightarrow> surroundings \<Rightarrow> nat \<Rightarrow> string \<Rightarrow> string \<Rightarrow> json step" where
  "projecting jl num w k tenant invoice db =
     (case load_invoice_projection jl num (\<lambda>n. seen w k n db) tenant invoice of
        Inl e \<Rightarrow> (Inl InvoiceNotFound, seen w k 0 db)
      | Inr (s, v) \<Rightarrow> (Inr s, seen w k 3 db))"

record request =
  rq_key :: string
  rq_upload :: upload
  rq_envelope :: pdf_envelope
  rq_actor :: "string option"
  rq_actor_display :: string

definition receive_duplicate ::
  "json_limits \<Rightarrow> (rat \<Rightarrow> json) \<Rightarrow> surroundings \<Rightarrow> string \<Rightarrow> request \<Rightarrow> string \<Rightarrow> string \<Rightarrow> (json \<times> bool) step" where
  "receive_duplicate jl num w tenant rq invoice source =
     and_then (projecting jl num w 2 tenant invoice) (\<lambda>s.
       if snapshot_source s \<noteq> source then giving (Inl (IngestionState ''DUPLICATE_SOURCE_BINDING_MISMATCH''))
       else and_then (in_tx (transact w 6 (\<lambda>now ids. complete_duplicate_ingestion tenant (rq_key rq)
           (request_hash (rq_upload rq)) invoice source (pe_sha256 (rq_envelope rq)) s)))
         (\<lambda>s. giving (Inr (with_import_source (up_source (rq_upload rq)) s, True))))"

definition preserving :: "intake_service \<Rightarrow> surroundings \<Rightarrow> string \<Rightarrow> request \<Rightarrow> string \<Rightarrow> stored_source step" where
  "preserving sv w tenant rq source =
     (case source_store sv of
        None \<Rightarrow> giving (Inl (Unavailable ''INTAKE_BUCKET_NOT_CONFIGURED''))
      | Some bucket \<Rightarrow>
          (case preserve (sv_store sv) bucket (sv_prefix sv) source (up_body (rq_upload rq)) of
             Inl e \<Rightarrow> giving (Inl (Persistence e))
           | Inr stored \<Rightarrow> and_then (in_tx (transact w 2 (\<lambda>now ids.
               record_source_stored tenant (rq_key rq) (request_hash (rq_upload rq)) stored)))
               (\<lambda>_. giving (Inr stored))))"

definition receipt_of :: "request \<Rightarrow> string \<Rightarrow> stored_source \<Rightarrow> finalize_receipt" where
  "receipt_of rq carrier stored =
     \<lparr>fr_key = rq_key rq, fr_hash = request_hash (rq_upload rq), fr_carrier = carrier,
      fr_display = pe_display_filename (rq_envelope rq), fr_mime = ''application/pdf'', fr_stored = stored,
      fr_actor = rq_actor rq, fr_actor_display = rq_actor_display rq, fr_provenance = ''SYNTHETIC_DEMO'',
      fr_disclosure = ''Fictional hackathon demonstration invoice.''\<rparr>"

text \<open>The carrier is read from a table of its own: \<open>None\<close> where it has no such row.\<close>

definition load_demo_carrier_id :: "(string \<Rightarrow> string option) \<Rightarrow> string \<Rightarrow> string step" where
  "load_demo_carrier_id carriers tenant =
     giving (case carriers tenant of None \<Rightarrow> Inl (Unavailable ''DEMO_CARRIER_NOT_CONFIGURED'') | Some c \<Rightarrow> Inr c)"

definition receive_new ::
  "intake_service \<Rightarrow> (string \<Rightarrow> string option) \<Rightarrow> surroundings \<Rightarrow> string \<Rightarrow> request \<Rightarrow> ingestion_reservation
     \<Rightarrow> (json \<times> bool) step" where
  "receive_new sv carriers w tenant rq r =
     and_then (case ir_stored r of Some stored \<Rightarrow> giving (Inr stored) | None \<Rightarrow> preserving sv w tenant rq (ir_source r))
       (\<lambda>stored. and_then (load_demo_carrier_id carriers tenant) (\<lambda>carrier.
          and_then (in_tx (transact w 4 (finalize_received_invoice tenant (receipt_of rq carrier stored))))
            (\<lambda>s. giving (Inr (with_import_source (up_source (rq_upload rq)) s, False)))))"

definition reserving :: "surroundings \<Rightarrow> string \<Rightarrow> request \<Rightarrow> ingestion_reservation step" where
  "reserving w tenant rq =
     in_tx (transact w 0 (\<lambda>now ids. reserve_ingestion tenant (rq_key rq) (request_hash (rq_upload rq)) (rq_actor rq)
       (rq_actor_display rq) (wd_ids w 0 0 0) (wd_ids w 0 0 1)))"

definition receive_invoice ::
  "json_limits \<Rightarrow> (rat \<Rightarrow> json) \<Rightarrow> intake_service \<Rightarrow> (string \<Rightarrow> string option) \<Rightarrow> surroundings \<Rightarrow> request
     \<Rightarrow> (json \<times> bool) step" where
  "receive_invoice jl num sv carriers w rq =
     (case tenant_id sv of
        None \<Rightarrow> giving (Inl (Unavailable ''INTAKE_TENANT_NOT_CONFIGURED''))
      | Some tenant \<Rightarrow>
          if up_source (rq_upload rq) \<notin> set allowed_import_sources then giving (Inl (Unavailable ''INVALID_IMPORT_SOURCE''))
          else and_then (reserving w tenant rq) (\<lambda>r.
            if ir_state r = ''COMPLETED''
            then giving (case ir_snapshot r of
                None \<Rightarrow> Inl (Unavailable ''INGESTION_SNAPSHOT_UNAVAILABLE'')
              | Some s \<Rightarrow> Inr (s, True))
            else if ir_state r = ''RESERVED'' \<and> \<not> ir_new r
            then giving (Inl (IngestionState ''REQUEST_IN_PROGRESS''))
            else and_then (seeing w 1 (find_invoice_by_sha tenant (pe_sha256 (rq_envelope rq)))) (\<lambda>known. case known of
                Some (invoice, source) \<Rightarrow> receive_duplicate jl num w tenant rq invoice source
              | None \<Rightarrow> receive_new sv carriers w tenant rq r)))"

section \<open>The routes\<close>

text \<open>An answer: its status with the error code, or with the document and the headers that depend on it.\<close>

datatype 'a answer = Refused int string | Answered int 'a | ServerError

definition client_statuses :: "(string \<times> int) list" where
  "client_statuses =
     [(''FILE_TOO_LARGE'', 413), (''UNSUPPORTED_FILE'', 415), (''EMPTY_FILE'', 415), (''ENCRYPTED_OR_UNREADABLE_PDF'', 422),
      (''PDF_PAGE_LIMIT_EXCEEDED'', 422), (''PDF_PARSE_TIMEOUT'', 422)]"

definition status_of :: "(string \<times> int) list \<Rightarrow> int \<Rightarrow> string \<Rightarrow> int" where
  "status_of table otherwise c = (case map_of table c of None \<Rightarrow> otherwise | Some n \<Rightarrow> n)"

definition before_colon :: "string \<Rightarrow> string" where
  "before_colon s = takeWhile (\<lambda>c. c \<noteq> CHR '':'') s"

definition refusal :: "upload_error \<Rightarrow> 'a answer" where
  "refusal e =
     (case e of
        Conflict \<Rightarrow> Refused 409 ''IDEMPOTENCY_CONFLICT''
      | IngestionState c \<Rightarrow>
          (let b = before_colon c in Refused (if b = ''REQUEST_IN_PROGRESS'' then 409 else 503) b)
      | Persistence c \<Rightarrow> Refused 503 c
      | Unavailable c \<Rightarrow> Refused 503 c
      | InvoiceNotFound \<Rightarrow> Refused 404 ''INVOICE_NOT_FOUND''
      | Escapes _ \<Rightarrow> ServerError)"

text \<open>\<open>POST /api/demo/invoices\<close>. At most one byte more than allowed is read of the file.\<close>

definition checked_upload :: "pdf_reading \<Rightarrow> string \<Rightarrow> string option \<Rightarrow> string + pdf_envelope" where
  "checked_upload reading body filename =
     (case validate_pdf_envelope body filename maximum_pdf_bytes of
        Inl e \<Rightarrow> Inl e
      | Inr envelope \<Rightarrow> (case validate_supported_pdf reading of Inl e \<Rightarrow> Inl e | Inr _ \<Rightarrow> Inr envelope))"

definition create_demo_invoice ::
  "json_limits \<Rightarrow> (rat \<Rightarrow> json) \<Rightarrow> intake_service \<Rightarrow> (string \<Rightarrow> string option) \<Rightarrow> surroundings
     \<Rightarrow> (string \<Rightarrow> pdf_reading) \<Rightarrow> string \<Rightarrow> string option \<Rightarrow> string \<Rightarrow> string \<Rightarrow> string option
     \<Rightarrow> string option \<Rightarrow> string \<Rightarrow> db \<Rightarrow> json answer \<times> db" where
  "create_demo_invoice jl num sv carriers w reading file filename scenario import_source key actor display db =
     (if \<not> truthy key \<or> py_strip (the key) = '''' then (Refused 400 ''IDEMPOTENCY_KEY_REQUIRED'', db)
      else if scenario \<notin> set allowed_scenarios then (Refused 422 ''INVALID_DEMO_SCENARIO'', db)
      else if import_source \<notin> set allowed_import_sources then (Refused 422 ''INVALID_IMPORT_SOURCE'', db)
      else let body = take (maximum_pdf_bytes + 1) file
           in (case checked_upload (reading body) body filename of
                 Inl c \<Rightarrow> (Refused (status_of client_statuses 422 c) c, db)
               | Inr envelope \<Rightarrow>
                   (case receive_invoice jl num sv carriers w
                      \<lparr>rq_key = py_strip (the key),
                       rq_upload = \<lparr>up_body = body, up_scenario = scenario, up_source = import_source\<rparr>,
                       rq_envelope = envelope, rq_actor = actor, rq_actor_display = display\<rparr> db of
                      (Inl e, db1) \<Rightarrow> (refusal e, db1)
                    | (Inr (s, replay), db1) \<Rightarrow> (Answered (if replay then 200 else 201) s, db1))))"

text \<open>\<open>_parse_invoice_etag\<close>: the version an \<open>If-Match\<close> header names.\<close>

definition parse_invoice_etag :: "string \<Rightarrow> string option \<Rightarrow> (int \<times> string) + int" where
  "parse_invoice_etag invoice header =
     (let prefix = CHR 34 # ''invoice-'' @ invoice @ ''-v''; v = (if truthy header then the header else '''')
      in if v = '''' \<or> \<not> starts_with prefix v \<or> last v \<noteq> CHR 34 then Inl (428, ''IF_MATCH_REQUIRED'')
         else (case py_int_of_string (butlast (drop (length prefix) v)) of
             None \<Rightarrow> Inl (400, ''INVALID_IF_MATCH'')
           | Some n \<Rightarrow> Inr n))"

definition retry_statuses :: "(string \<times> int) list" where
  "retry_statuses =
     [(''STALE_INVOICE_VERSION'', 412), (''INVOICE_NOT_FOUND'', 404), (''INVALID_STATE'', 409), (''IDEMPOTENCY_CONFLICT'', 409)]"

definition retry_invoice_intake ::
  "intake_service \<Rightarrow> surroundings \<Rightarrow> string \<Rightarrow> string option \<Rightarrow> string option \<Rightarrow> string option \<Rightarrow> string \<Rightarrow> db
     \<Rightarrow> retry_result answer \<times> db" where
  "retry_invoice_intake sv w invoice key if_match actor display db =
     (if \<not> truthy key then (Refused 400 ''IDEMPOTENCY_KEY_REQUIRED'', db)
      else (case parse_invoice_etag invoice if_match of
        Inl (n, c) \<Rightarrow> (Refused n c, db)
      | Inr version \<Rightarrow> (case tenant_id sv of
          None \<Rightarrow> (ServerError, db)
        | Some tenant \<Rightarrow>
              (case transact w 0 (retry_extraction_task tenant invoice (the key) version actor display) db of
                 (Inr r, db1) \<Rightarrow> (Answered (if rt_replay r then 200 else 202) r, db1)
               | (Inl (Raised c), db1) \<Rightarrow>
                   (case map_of retry_statuses c of None \<Rightarrow> ServerError | Some n \<Rightarrow> Refused n c, db1)
               | (Inl _, db1) \<Rightarrow> (ServerError, db1)))))"

definition release_evidence :: "intake_service \<Rightarrow> surroundings \<Rightarrow> string \<Rightarrow> db \<Rightarrow> bool answer \<times> db" where
  "release_evidence sv w invoice db =
     (case tenant_id sv of
        None \<Rightarrow> (ServerError, db)
      | Some tenant \<Rightarrow>
          (case transact w 0 (\<lambda>now ids. release_access_evidence tenant invoice now) db of
             (Inr released, db1) \<Rightarrow> (Answered 200 released, db1)
           | (Inl _, db1) \<Rightarrow> (ServerError, db1)))"

section \<open>Reading\<close>

text \<open>
  \<open>GET /api/invoices\<close>: the newest invoices first; the framework only lets limits from 1 to 50 through.
  \<open>views 0\<close> is what the query of the invoices sees.
\<close>

definition newest_invoices :: "string \<Rightarrow> nat \<Rightarrow> db \<Rightarrow> string list" where
  "newest_invoices tenant limit db =
     take limit (map in_id (rev (sort_key (\<lambda>i. (in_received i, in_id i))
       (filter (\<lambda>i. in_tenant i = tenant) (db_invoices db)))))"

fun project_all ::
  "json_limits \<Rightarrow> (rat \<Rightarrow> json) \<Rightarrow> (nat \<Rightarrow> db) \<Rightarrow> nat \<Rightarrow> string \<Rightarrow> string list \<Rightarrow> json list answer" where
  "project_all jl num views k tenant [] = Answered 200 []"
| "project_all jl num views k tenant (i # is) =
     (case load_invoice_projection jl num (\<lambda>n. views (k + n)) tenant i of
        Inl c \<Rightarrow> Refused 404 c
      | Inr (s, v) \<Rightarrow> (case project_all jl num views (k + 4) tenant is of
          Answered n ss \<Rightarrow> Answered n ((case json_get ''invoice'' s of None \<Rightarrow> JNull | Some j \<Rightarrow> j) # ss)
        | e \<Rightarrow> e))"

definition list_invoices ::
  "json_limits \<Rightarrow> (rat \<Rightarrow> json) \<Rightarrow> intake_service \<Rightarrow> (nat \<Rightarrow> db) \<Rightarrow> nat \<Rightarrow> json list answer" where
  "list_invoices jl num sv views limit =
     (case tenant_id sv of
        None \<Rightarrow> ServerError
      | Some tenant \<Rightarrow> project_all jl num views 1 tenant (newest_invoices tenant limit (views 0)))"

definition invoice_etag :: "string \<Rightarrow> nat \<Rightarrow> string" where
  "invoice_etag invoice version = CHR 34 # ''invoice-'' @ invoice @ ''-v'' @ show_int (int version) @ [CHR 34]"

definition get_invoice ::
  "json_limits \<Rightarrow> (rat \<Rightarrow> json) \<Rightarrow> intake_service \<Rightarrow> (nat \<Rightarrow> db) \<Rightarrow> string \<Rightarrow> (json \<times> string) answer" where
  "get_invoice jl num sv views invoice =
     (case tenant_id sv of
        None \<Rightarrow> ServerError
      | Some tenant \<Rightarrow> (case load_invoice_projection jl num views tenant invoice of
          Inl c \<Rightarrow> Refused 404 c
        | Inr (s, v) \<Rightarrow> Answered 200 (s, invoice_etag invoice v)))"

section \<open>The exact source\<close>

definition stored_of :: "source_row \<Rightarrow> stored_source" where
  "stored_of s =
     \<lparr>ss_bucket = so_bucket s, ss_key = so_key s, ss_version = so_version s, ss_sha256 = so_sha256 s, ss_bytes = so_bytes s\<rparr>"

definition load_source_binding :: "string \<Rightarrow> string \<Rightarrow> string \<Rightarrow> db \<Rightarrow> (stored_source \<times> string) option" where
  "load_source_binding tenant invoice source db =
     map_option (\<lambda>s. (stored_of s, so_filename s))
       (List.find (\<lambda>s. so_tenant s = tenant \<and> so_invoice s = invoice \<and> so_id s = source) (db_sources db))"

definition mark_source_unavailable :: "string \<Rightarrow> string \<Rightarrow> string \<Rightarrow> db \<Rightarrow> db" where
  "mark_source_unavailable tenant invoice source db =
     db_sources_update (update_rows (\<lambda>s. so_tenant s = tenant \<and> so_invoice s = invoice \<and> so_id s = source)
       (\<lambda>s. s\<lparr>so_preservation := ''VERSION_UNAVAILABLE''\<rparr>)) db"

text \<open>
  \<open>GET .../sources/<id>/content\<close>: the body with its \<open>Content-Disposition\<close>. Without a bucket nothing is
  marked: only an error of the store is caught.
\<close>

definition get_invoice_source ::
  "intake_service \<Rightarrow> surroundings \<Rightarrow> string \<Rightarrow> string \<Rightarrow> db \<Rightarrow> (string \<times> string) answer \<times> db" where
  "get_invoice_source sv w invoice source db =
     (case tenant_id sv of
        None \<Rightarrow> (ServerError, db)
      | Some tenant \<Rightarrow>
          (let db1 = wd_others w 0 db
           in (case load_source_binding tenant invoice source db1 of
                 None \<Rightarrow> (Refused 404 ''SOURCE_NOT_FOUND'', db1)
               | Some (stored, filename) \<Rightarrow>
                   if source_store sv = None then (ServerError, db1)
                   else (case get_exact (sv_store sv) stored of
                      Inl c \<Rightarrow> (Refused 503 c, mark_source_unavailable tenant invoice source (wd_others w 1 db1))
                    | Inr body \<Rightarrow> (Answered 200 (body,
                        ''inline; filename='' @ [CHR 34] @ filter (\<lambda>c. c \<noteq> CHR 34) filename @ [CHR 34]), db1)))))"

section \<open>A request stands for one upload\<close>

definition plain_upload :: "upload \<Rightarrow> bool" where
  "plain_upload u = (CHR 0x00 \<notin> set (utf8_encode (up_scenario u)) \<and> CHR 0x00 \<notin> set (utf8_encode (up_source u)))"

lemma last_split:
  "xs @ [z] @ a = ys @ [z] @ b \<Longrightarrow> z \<notin> set a \<Longrightarrow> z \<notin> set b \<Longrightarrow> xs = ys \<and> a = b"
proof (induction a arbitrary: b rule: rev_induct)
  case Nil then show ?case by (cases b rule: rev_cases) auto
next
  case (snoc x a) then show ?case by (cases b rule: rev_cases) auto
qed

lemma request_bytes_inj:
  assumes "request_bytes u = request_bytes v" "plain_upload u" "plain_upload v"
  shows "u = v"
proof -
  from assms have "(up_body u @ [CHR 0x00] @ utf8_encode (up_scenario u)) @ [CHR 0x00] @ utf8_encode (up_source u)
      = (up_body v @ [CHR 0x00] @ utf8_encode (up_scenario v)) @ [CHR 0x00] @ utf8_encode (up_source v)"
    by (simp add: request_bytes_def)
  from last_split [OF this] assms
  have src: "utf8_encode (up_source u) = utf8_encode (up_source v)"
    and r: "up_body u @ [CHR 0x00] @ utf8_encode (up_scenario u) = up_body v @ [CHR 0x00] @ utf8_encode (up_scenario v)"
    by (auto simp: plain_upload_def)
  from last_split [OF r] assms src show ?thesis
    by (simp add: plain_upload_def utf8_encode_inj)
qed

lemma allowed_names: "list_all (\<lambda>s. list_all (\<lambda>c. c \<noteq> CHR 0x00) (utf8_encode s)) (allowed_scenarios @ allowed_import_sources)"
  by code_simp

lemma allowed_plain:
  "up_scenario u \<in> set allowed_scenarios \<Longrightarrow> up_source u \<in> set allowed_import_sources \<Longrightarrow> plain_upload u"
  using allowed_names by (auto simp: plain_upload_def list_all_iff)

section \<open>Uploads are kept\<close>

text \<open>
  Among the uploads \<open>U\<close> there is one whose digest a request carries and whose body has the digest
  recorded for it: for the object that was preserved, and once the request is completed for the
  source of the invoice it was completed with.
\<close>

definition bound_ids :: "ingestion_row \<Rightarrow> string \<times> string" where
  "bound_ids g = (case ig_duplicate g of None \<Rightarrow> (ig_invoice g, ig_source g) | Some d \<Rightarrow> d)"

definition source_of :: "ingestion_row \<Rightarrow> source_row \<Rightarrow> bool" where
  "source_of g s = (so_tenant s = ig_tenant g \<and> so_type s = ''INVOICE_PDF'' \<and> (so_invoice s, so_id s) = bound_ids g)"

definition request_sound :: "upload set \<Rightarrow> source_row list \<Rightarrow> ingestion_row \<Rightarrow> bool" where
  "request_sound U sources g =
     ((\<forall>s. ig_stored g = Some s \<longrightarrow> (\<exists>u \<in> U. ig_hash g = request_hash u \<and> ss_sha256 s = sha256_hexdigest (up_body u)))
      \<and> (if ig_state g = ''COMPLETED''
         then \<exists>u \<in> U. ig_hash g = request_hash u
           \<and> (\<exists>s \<in> set sources. source_of g s \<and> so_sha256 s = sha256_hexdigest (up_body u))
         else ig_duplicate g = None))"

definition uploads_sound :: "upload set \<Rightarrow> db \<Rightarrow> bool" where
  "uploads_sound U db =
     (distinct (map ingestion_key (db_ingestions db))
      \<and> (\<forall>g \<in> set (db_ingestions db). request_sound U (db_sources db) g))"

abbreviation soundly :: "upload set \<Rightarrow> db \<Rightarrow> db \<Rightarrow> bool" where
  "soundly U \<equiv> maintains (uploads_sound U)"

lemma request_sound_mono: "request_sound U xs g \<Longrightarrow> set xs \<subseteq> set ys \<Longrightarrow> request_sound U ys g"
  unfolding request_sound_def by (auto split: if_splits)

lemma uploads_sound_update:
  assumes "uploads_sound U db" "find_ingestion t key db = Some g"
    and "\<And>g. ingestion_key (f g) = ingestion_key g"
    and "request_sound U (db_sources db) g \<Longrightarrow> request_sound U (db_sources db') (f g)"
    and "set (db_sources db) \<subseteq> set (db_sources db')"
    and "db_ingestions db' = update_rows (\<lambda>g. ingestion_key g = (t, key)) f (db_ingestions db)"
  shows "uploads_sound U db'"
proof -
  from assms(2) have g: "g \<in> set (db_ingestions db)" "ingestion_key g = (t, key)"
    by (auto simp: find_ingestion_def dest: find_SomeD)
  have only: "x = g" if "x \<in> set (db_ingestions db)" "ingestion_key x = (t, key)" for x
    using assms(1) g that by (auto simp: uploads_sound_def distinct_map inj_on_def)
  have "distinct (map ingestion_key (db_ingestions db'))"
    using assms(1) by (simp add: assms(6) map_update_rows assms(3) uploads_sound_def)
  moreover have "request_sound U (db_sources db') x" if "x \<in> set (db_ingestions db')" for x
  proof -
    from that obtain y where y: "y \<in> set (db_ingestions db)" "x = (if ingestion_key y = (t, key) then f y else y)"
      by (auto simp: assms(6) update_rows_def)
    have "request_sound U (db_sources db) y" using assms(1) y(1) by (simp add: uploads_sound_def)
    then show ?thesis using y only assms(4) request_sound_mono [OF _ assms(5)] by (cases "ingestion_key y = (t, key)") auto
  qed
  ultimately show ?thesis by (simp add: uploads_sound_def)
qed

lemma sound_reserve:
  assumes "u \<in> U"
  shows "keeps (soundly U) (reserve_ingestion t key hash actor display invoice source)"
proof -
  have "keeps (soundly U) (insert_ingestion g)" if "ig_stored g = None" "ig_state g = ''RESERVED''" "ig_duplicate g = None" for g
    using that by (auto simp: keeps_def maintains_def insert_ingestion_def tx_simps uploads_sound_def request_sound_def split: if_splits)
  then show ?thesis unfolding reserve_ingestion_def by (intro inv_frame.keeps_intros) auto
qed

lemma find_ingestion_SomeD: "find_ingestion t key db = Some g \<Longrightarrow> g \<in> set (db_ingestions db) \<and> ingestion_key g = (t, key)"
  by (auto simp: find_ingestion_def dest: find_SomeD)

lemma soundD: "uploads_sound U db \<Longrightarrow> find_ingestion t key db = Some g \<Longrightarrow> request_sound U (db_sources db) g"
  by (auto simp: uploads_sound_def dest: find_ingestion_SomeD)

lemma sound_with:
  assumes "\<And>g db a db'. uploads_sound U db \<Longrightarrow> find_ingestion t key db = Some g \<Longrightarrow> ig_hash g = hash \<Longrightarrow>
    k g db = Inr (a, db') \<Longrightarrow> uploads_sound U db'"
  shows "keeps (soundly U) (with_ingestion t key hash k)"
  using assms by (fastforce simp: keeps_def maintains_def with_ingestion_def tx_simps split: option.splits)

lemma sound_record:
  assumes "u \<in> U" "ss_sha256 stored = sha256_hexdigest (up_body u)"
  shows "keeps (soundly U) (record_source_stored t key (request_hash u) stored)"
  unfolding record_source_stored_def
proof (rule sound_with)
  fix g db a db'
  assume a: "uploads_sound U db" "find_ingestion t key db = Some g" "ig_hash g = request_hash u"
    and r: "(if ig_state g = ''COMPLETED'' then tx_return () else update_ingestion t key
      (\<lambda>g. g\<lparr>ig_state := ''SOURCE_STORED_DB_PENDING'', ig_stored := Some stored\<rparr>)) db = Inr (a, db')"
  show "uploads_sound U db'"
  proof (cases "ig_state g = ''COMPLETED''")
    case True with a r show ?thesis by (simp add: tx_simps)
  next
    case False
    with r have db': "db' = db_ingestions_update (update_rows (\<lambda>g. ingestion_key g = (t, key))
        (\<lambda>g. g\<lparr>ig_state := ''SOURCE_STORED_DB_PENDING'', ig_stored := Some stored\<rparr>)) db"
      by (simp add: update_ingestion_def tx_simps)
    show ?thesis
      by (rule uploads_sound_update [OF a(1,2), where f = "\<lambda>g. g\<lparr>ig_state := ''SOURCE_STORED_DB_PENDING'', ig_stored := Some stored\<rparr>"])
        (use False a(3) assms in \<open>auto simp: db' ingestion_key_def request_sound_def\<close>)
  qed
qed

lemma sound_duplicate:
  assumes "u \<in> U" "sha = sha256_hexdigest (up_body u)"
  shows "keeps (soundly U) (complete_duplicate_ingestion t key (request_hash u) invoice source sha snapshot)"
  unfolding complete_duplicate_ingestion_def
proof (rule sound_with, goal_cases)
  case (1 g db a db')
  show ?case
  proof (cases "ig_state g = ''COMPLETED''")
    case True with 1 show ?thesis by (auto simp: tx_simps stored_snapshot_def split: option.splits)
  next
    case False
    let ?f = "\<lambda>g. g\<lparr>ig_state := ''COMPLETED'', ig_snapshot := Some snapshot, ig_duplicate := Some (invoice, source)\<rparr>"
    from False 1(4) have b: "bound_source t invoice source sha db"
      and db': "db' = db_ingestions_update (update_rows (\<lambda>g. ingestion_key g = (t, key)) ?f) db"
      by (auto simp: update_ingestion_def tx_simps)
    have "ig_tenant g = t" using find_ingestion_SomeD [OF 1(2)] by (simp add: ingestion_key_def)
    with b have "\<exists>s \<in> set (db_sources db). source_of (?f g) s \<and> so_sha256 s = sha"
      by (auto simp: bound_source_def source_of_def bound_ids_def)
    then show ?thesis
      by (intro uploads_sound_update [OF 1(1,2), where f = ?f])
        (use False 1(3) assms in \<open>auto simp: db' ingestion_key_def request_sound_def\<close>)
  qed
qed

lemma sound_finalize: "keeps (soundly U) (finalize_received_invoice t c now ids)"
  unfolding keeps_def maintains_def
proof (intro allI impI)
  fix db s db'
  assume a: "uploads_sound U db" and f: "finalize_received_invoice t c now ids db = Inr (s, db')"
  from finalized [OF f] obtain g where g: "find_ingestion t (fr_key c) db = Some g" "ig_hash g = fr_hash c"
    and eff: "if ig_state g = ''COMPLETED'' then db' = db
       else ig_stored g = Some (fr_stored c)
        \<and> db_sources db' = db_sources db @ [received_source t (ig_invoice g) (ig_source g) c now]
        \<and> db_ingestions db' = update_rows (\<lambda>x. ingestion_key x = (t, fr_key c))
          (\<lambda>x. x\<lparr>ig_state := ''COMPLETED'', ig_snapshot := Some s\<rparr>) (db_ingestions db)"
    by (auto split: if_splits)
  show "uploads_sound U db'"
  proof (cases "ig_state g = ''COMPLETED''")
    case True with eff a show ?thesis by simp
  next
    case False
    let ?f = "\<lambda>x. x\<lparr>ig_state := ''COMPLETED'', ig_snapshot := Some s\<rparr>"
    let ?s = "received_source t (ig_invoice g) (ig_source g) c now"
    have rs: "request_sound U (db_sources db) g" by (rule soundD [OF a g(1)])
    have "ig_tenant g = t" using find_ingestion_SomeD [OF g(1)] by (simp add: ingestion_key_def)
    then have "source_of (?f g) ?s" "so_sha256 ?s = ss_sha256 (fr_stored c)"
      using rs False by (auto simp: source_of_def bound_ids_def received_source_def request_sound_def)
    then have "request_sound U (db_sources db') (?f g)"
      using rs eff False by (auto simp: request_sound_def)
    then show ?thesis
      by (intro uploads_sound_update [OF a g(1), where f = ?f]) (use eff False in \<open>auto simp: ingestion_key_def\<close>)
  qed
qed

section \<open>What receiving keeps and ensures\<close>

text \<open>
  From a database that keeps the uploads and satisfies \<open>Q\<close>, a step leaves one that keeps them; if it returns, \<open>R\<close> holds.
\<close>

definition ensures_sound :: "upload set \<Rightarrow> (db \<Rightarrow> bool) \<Rightarrow> 'a step \<Rightarrow> ('a \<Rightarrow> db \<Rightarrow> bool) \<Rightarrow> bool" where
  "ensures_sound U Q m R = (\<forall>db r db'. uploads_sound U db \<longrightarrow> Q db \<longrightarrow> m db = (r, db') \<longrightarrow>
     uploads_sound U db' \<and> (\<forall>a. r = Inr a \<longrightarrow> R a db'))"

lemma kept_then:
  assumes "ensures_sound U Q m R" "\<And>a. ensures_sound U (R a) (k a) S"
  shows "ensures_sound U Q (and_then m k) S"
  unfolding ensures_sound_def
proof (intro allI impI)
  fix db r db'
  assume a: "uploads_sound U db" "Q db" and r: "and_then m k db = (r, db')"
  obtain x db1 where m: "m db = (x, db1)" by (cases "m db")
  with assms(1) a have s: "uploads_sound U db1" "\<forall>a. x = Inr a \<longrightarrow> R a db1" by (auto simp: ensures_sound_def)
  show "uploads_sound U db' \<and> (\<forall>a. r = Inr a \<longrightarrow> S a db')"
  proof (cases x)
    case (Inl e) with m r s show ?thesis by (auto simp: and_then_def)
  next
    case (Inr a)
    with m r have "k a db1 = (r, db')" by (simp add: and_then_def)
    with assms(2) [of a] s Inr show ?thesis by (auto simp: ensures_sound_def)
  qed
qed

lemma kept_giving: "(\<And>a db. r = Inr a \<Longrightarrow> Q db \<Longrightarrow> R a db) \<Longrightarrow> ensures_sound U Q (giving r) R"
  by (auto simp: ensures_sound_def giving_def)

lemma kept_raised: "ensures_sound U Q (giving (Inl e)) R"
  by (simp add: ensures_sound_def giving_def)

lemma kept_if:
  "(b \<Longrightarrow> ensures_sound U Q m R) \<Longrightarrow> (\<not> b \<Longrightarrow> ensures_sound U Q k R) \<Longrightarrow> ensures_sound U Q (if b then m else k) R"
  by simp

lemma kept_tx:
  assumes "\<And>db. uploads_sound U db \<Longrightarrow> uploads_sound U (wd_others w k db)"
    and "\<And>now ids. keeps (soundly U) (body now ids)"
    and "\<And>now ids db a db'. body now ids db = Inr (a, db') \<Longrightarrow> R a db'"
  shows "ensures_sound U Q (in_tx (transact w k body)) R"
  unfolding ensures_sound_def
proof (intro allI impI)
  fix db r db'
  assume s: "uploads_sound U db" and r: "in_tx (transact w k body) db = (r, db')"
  show "uploads_sound U db' \<and> (\<forall>a. r = Inr a \<longrightarrow> R a db')"
  proof (cases "transact w k body db")
    case (Pair x y)
    show ?thesis
    proof (cases x)
      case (Inl e)
      with Pair r have "y = db'" "r = Inl (upload_error e)" by (auto simp: in_tx_def)
      with Pair Inl assms(1) [OF s] show ?thesis by (auto dest: transact_Inl)
    next
      case (Inr a)
      with Pair r have e: "y = db'" "r = Inr a" by (auto simp: in_tx_def)
      with Pair Inr obtain now ids where b: "body now ids (wd_others w k db) = Inr (a, db')" by (auto dest: transact_Inr)
      from inv_frame.keepsD [OF assms(2) b] assms(1) [OF s] assms(3) [OF b] e show ?thesis by (simp add: maintains_def)
    qed
  qed
qed

lemma kept_seeing:
  "(\<And>db. uploads_sound U db \<Longrightarrow> uploads_sound U (wd_others w k db)) \<Longrightarrow> ensures_sound U Q (seeing w k f) (\<lambda>_ _. True)"
  by (auto simp: ensures_sound_def seeing_def)

lemma kept_projecting:
  assumes "\<And>k db. uploads_sound U db \<Longrightarrow> uploads_sound U (wd_others w k db)"
  shows "ensures_sound U Q (projecting jl num w k t i) (\<lambda>_ _. True)"
proof -
  have "uploads_sound U (seen w k n db)" if "uploads_sound U db" for n db
    using that assms by (induction n) auto
  then show ?thesis
    by (auto simp: ensures_sound_def projecting_def simp del: seen.simps split: sum.splits prod.splits)
qed

text \<open>The request of a key is completed, under the digest of the upload.\<close>

definition completed_with :: "string \<Rightarrow> string \<Rightarrow> upload \<Rightarrow> db \<Rightarrow> bool" where
  "completed_with t key u db =
     (\<exists>g. find_ingestion t key db = Some g \<and> ig_hash g = request_hash u \<and> ig_state g = ''COMPLETED'')"

lemma find_ingestion_updated:
  "(\<And>x. ingestion_key (f x) = ingestion_key x) \<Longrightarrow>
     find_ingestion t key (db_ingestions_update (update_rows q f) db) = map_option (\<lambda>x. if q x then f x else x) (find_ingestion t key db)"
  by (simp add: find_ingestion_def find_updated)

lemma reserved_completed:
  "reserve_ingestion t key (request_hash u) actor display i s db = Inr (r, db') \<Longrightarrow> ir_state r = ''COMPLETED'' \<Longrightarrow>
     completed_with t key u db'"
  by (auto simp: reserve_ingestion_def completed_with_def reservation_of_def tx_simps split: option.splits)

lemma duplicate_completed:
  assumes "complete_duplicate_ingestion t key (request_hash u) i s sha snapshot db = Inr (r, db')"
  shows "completed_with t key u db'"
proof -
  from assms obtain g where g: "find_ingestion t key db = Some g" "ig_hash g = request_hash u" "ingestion_key g = (t, key)"
    by (auto simp: complete_duplicate_ingestion_def with_ingestion_def tx_simps split: option.splits dest: find_ingestion_SomeD)
  with assms show ?thesis
    by (cases "ig_state g = ''COMPLETED''")
      (auto simp: complete_duplicate_ingestion_def with_ingestion_def update_ingestion_def tx_simps completed_with_def
        stored_snapshot_def ingestion_key_def find_ingestion_updated split: option.splits)
qed

lemma finalize_completed:
  assumes "finalize_received_invoice t c now ids db = Inr (s, db')" "fr_hash c = request_hash u"
  shows "completed_with t (fr_key c) u db'"
proof -
  from finalized [OF assms(1)] obtain g where g: "find_ingestion t (fr_key c) db = Some g" "ig_hash g = request_hash u"
    and eff: "if ig_state g = ''COMPLETED'' then db' = db
       else db_ingestions db' = update_rows (\<lambda>x. ingestion_key x = (t, fr_key c))
          (\<lambda>x. x\<lparr>ig_state := ''COMPLETED'', ig_snapshot := Some s\<rparr>) (db_ingestions db)"
    using assms(2) by (auto split: if_splits)
  then show ?thesis using find_ingestion_SomeD [OF g(1)]
    by (cases "ig_state g = ''COMPLETED''") (auto simp: completed_with_def find_ingestion_def find_updated ingestion_key_def)
qed

lemma kept_last: "ensures_sound U Q m (\<lambda>_. R) \<Longrightarrow> ensures_sound U Q (and_then m (\<lambda>a. giving (Inr (f a)))) (\<lambda>_. R)"
  by (rule kept_then) (auto intro: kept_giving)

lemma kept_duplicate:
  assumes "\<And>k db. uploads_sound U db \<Longrightarrow> uploads_sound U (wd_others w k db)" "rq_upload rq \<in> U"
    and "pe_sha256 (rq_envelope rq) = sha256_hexdigest (up_body (rq_upload rq))"
  shows "ensures_sound U Q (receive_duplicate jl num w t rq i s) (\<lambda>_. completed_with t (rq_key rq) (rq_upload rq))"
proof -
  have "ensures_sound U P (in_tx (transact w 6 (\<lambda>now ids. complete_duplicate_ingestion t (rq_key rq)
      (request_hash (rq_upload rq)) i s (pe_sha256 (rq_envelope rq)) x)))
      (\<lambda>_. completed_with t (rq_key rq) (rq_upload rq))" for P x
    by (intro kept_tx assms(1) sound_duplicate [OF assms(2,3)]) (auto intro: duplicate_completed)
  from kept_last [OF this] show ?thesis unfolding receive_duplicate_def
    by (intro kept_then [OF kept_projecting [OF assms(1)]] kept_if kept_raised)
qed

lemma kept_preserving:
  assumes "\<And>k db. uploads_sound U db \<Longrightarrow> uploads_sound U (wd_others w k db)" "rq_upload rq \<in> U"
  shows "ensures_sound U Q (preserving sv w t rq source) (\<lambda>_ _. True)"
proof (cases "source_store sv")
  case None then show ?thesis by (simp add: preserving_def kept_raised)
next
  case (Some bucket)
  show ?thesis
  proof (cases "preserve (sv_store sv) bucket (sv_prefix sv) source (up_body (rq_upload rq))")
    case (Inl e) with Some show ?thesis by (simp add: preserving_def kept_raised)
  next
    case (Inr stored)
    then have "ss_sha256 stored = sha256_hexdigest (up_body (rq_upload rq))"
      by (auto simp: records_body_def dest: preserved_records)
    then have "ensures_sound U Q (in_tx (transact w 2 (\<lambda>now ids.
        record_source_stored t (rq_key rq) (request_hash (rq_upload rq)) stored))) (\<lambda>_ _. True)"
      by (intro kept_tx assms(1) sound_record [OF assms(2)]) auto
    from kept_last [OF this] Some Inr show ?thesis by (simp add: preserving_def)
  qed
qed

lemma kept_new:
  assumes "\<And>k db. uploads_sound U db \<Longrightarrow> uploads_sound U (wd_others w k db)" "rq_upload rq \<in> U"
  shows "ensures_sound U Q (receive_new sv carriers w t rq r) (\<lambda>_. completed_with t (rq_key rq) (rq_upload rq))"
proof -
  have "ensures_sound U P (in_tx (transact w 4 (finalize_received_invoice t (receipt_of rq carrier stored))))
      (\<lambda>_. completed_with t (rq_key rq) (rq_upload rq))" for P carrier stored
    using finalize_completed [where c = "receipt_of rq carrier stored"]
    by (intro kept_tx assms(1) sound_finalize) (auto simp: receipt_of_def)
  note finalizing = kept_last [OF this]
  have carrier: "ensures_sound U P (load_demo_carrier_id carriers t) (\<lambda>_ _. True)" for P
    unfolding load_demo_carrier_id_def by (rule kept_giving) simp
  have stored: "ensures_sound U Q (case ir_stored r of Some stored \<Rightarrow> giving (Inr stored)
      | None \<Rightarrow> preserving sv w t rq (ir_source r)) (\<lambda>_ _. True)"
    by (cases "ir_stored r") (simp_all add: kept_giving kept_preserving [OF assms])
  show ?thesis unfolding receive_new_def
    by (rule kept_then [OF stored], rule kept_then [OF carrier], rule finalizing)
qed

lemma kept_receive:
  assumes "\<And>k db. uploads_sound U db \<Longrightarrow> uploads_sound U (wd_others w k db)" "rq_upload rq \<in> U"
    and "pe_sha256 (rq_envelope rq) = sha256_hexdigest (up_body (rq_upload rq))" "tenant_id sv = Some t"
  shows "ensures_sound U Q (receive_invoice jl num sv carriers w rq) (\<lambda>_. completed_with t (rq_key rq) (rq_upload rq))"
proof -
  have r: "ensures_sound U P (reserving w t rq) (\<lambda>r db. ir_state r = ''COMPLETED'' \<longrightarrow>
      completed_with t (rq_key rq) (rq_upload rq) db)" for P
    unfolding reserving_def
    by (intro kept_tx assms(1) sound_reserve [OF assms(2)]) (auto intro: reserved_completed)
  note known = kept_then [OF kept_seeing [OF assms(1)]]
  show ?thesis
  proof (cases "up_source (rq_upload rq) \<in> set allowed_import_sources")
    case False then show ?thesis by (simp add: receive_invoice_def assms(4) kept_raised)
  next
    case True
    have d: "ensures_sound U P (case x of Some (i, s) \<Rightarrow> receive_duplicate jl num w t rq i s
        | None \<Rightarrow> receive_new sv carriers w t rq r) (\<lambda>_. completed_with t (rq_key rq) (rq_upload rq))" for P x r
      by (auto split: option.split intro: kept_duplicate [OF assms(1-3)] kept_new [OF assms(1,2)])
    show ?thesis
      unfolding receive_invoice_def assms(4) option.case
    proof (intro kept_if kept_raised kept_then [OF r] known d)
      fix r :: ingestion_reservation
      assume c: "ir_state r = ''COMPLETED''"
      show "ensures_sound U (\<lambda>db. ir_state r = ''COMPLETED'' \<longrightarrow> completed_with t (rq_key rq) (rq_upload rq) db)
        (giving (case ir_snapshot r of None \<Rightarrow> Inl (Unavailable ''INGESTION_SNAPSHOT_UNAVAILABLE'') | Some s \<Rightarrow> Inr (s, True)))
        (\<lambda>_. completed_with t (rq_key rq) (rq_upload rq))"
        by (rule kept_giving) (simp add: c)
    qed
  qed
qed

lemma checked_envelope:
  "checked_upload reading body filename = Inr e \<Longrightarrow> pe_sha256 e = sha256_hexdigest body \<and> length body \<le> maximum_pdf_bytes"
  by (auto simp: checked_upload_def validate_pdf_envelope_def split: sum.splits if_splits)

lemma request_eq_or_collision:
  assumes "request_hash u = request_hash v" "plain_upload u" "plain_upload v"
  shows "v = u \<or> v \<noteq> u \<and> sha_collision (request_bytes u) (request_bytes v)"
  using assms request_bytes_inj [OF _ assms(2,3)] by (auto simp: request_hash_def sha_collision_def)

text \<open>What a completed request under the digest of an upload is bound to.\<close>

lemma completed_source:
  assumes "uploads_sound U db" "completed_with t key u db" "\<forall>v \<in> U. plain_upload v" "plain_upload u"
  shows "\<exists>g src. find_ingestion t key db = Some g \<and> ig_state g = ''COMPLETED'' \<and> src \<in> set (db_sources db)
    \<and> source_of g src \<and> (so_sha256 src = sha256_hexdigest (up_body u)
        \<or> (\<exists>v \<in> U. v \<noteq> u \<and> sha_collision (request_bytes u) (request_bytes v)))"
proof -
  from assms(2) obtain g where g: "find_ingestion t key db = Some g" "ig_hash g = request_hash u" "ig_state g = ''COMPLETED''"
    by (auto simp: completed_with_def)
  with soundD [OF assms(1) g(1)] obtain v src where v: "v \<in> U" "ig_hash g = request_hash v"
    and src: "src \<in> set (db_sources db)" "source_of g src" "so_sha256 src = sha256_hexdigest (up_body v)"
    by (auto simp: request_sound_def)
  from g v assms(3,4) have "v = u \<or> v \<noteq> u \<and> sha_collision (request_bytes u) (request_bytes v)"
    by (intro request_eq_or_collision) auto
  with g src v(1) show ?thesis by auto
qed

lemma exact_digest:
  "get_exact store (stored_of src) = Inr body \<Longrightarrow> so_sha256 src = sha256_hexdigest b \<Longrightarrow> body = b \<or> sha_collision body b"
  by (auto simp: get_exact_def stored_of_def split: option.splits if_splits dest!: sha256_eq_or_collision)

text \<open>
  C40: an upload is kept exactly as it was sent. Whatever the other processes commit in between, and
  whether the answer is a new invoice, a replay or a link to the invoice that has the same bytes: if
  \<open>POST /api/demo/invoices\<close> answers with an invoice, the idempotency key is completed and bound to a
  source such that any later exact read of it, from any store, gives the bytes of the file sent, or
  two different byte strings with the same SHA-256 are exhibited, among the read and the sent or among the
  requests that were made. On every outcome, errors included, the records of the uploads stay sound.
\<close>

theorem upload_kept_exactly:
  assumes "create_demo_invoice jl num sv carriers w reading file filename scenario import_source key actor display db = (answer, db')"
    and "uploads_sound U db" "\<And>k db. uploads_sound U db \<Longrightarrow> uploads_sound U (wd_others w k db)"
    and "u = \<lparr>up_body = take (maximum_pdf_bytes + 1) file, up_scenario = scenario, up_source = import_source\<rparr>"
    and "u \<in> U" "\<forall>v \<in> U. plain_upload v"
  shows "uploads_sound U db' \<and> (\<forall>n s. answer = Answered n s \<longrightarrow>
    (\<exists>t g src. tenant_id sv = Some t \<and> find_ingestion t (py_strip (the key)) db' = Some g \<and> ig_state g = ''COMPLETED''
      \<and> src \<in> set (db_sources db') \<and> source_of g src
      \<and> (\<forall>store body. get_exact store (stored_of src) = Inr body \<longrightarrow>
           body = file \<or> sha_collision body file
           \<or> (\<exists>v \<in> U. v \<noteq> u \<and> sha_collision (request_bytes u) (request_bytes v)))))"
proof (cases "\<exists>e rq r. checked_upload (reading (up_body u)) (up_body u) filename = Inr e
    \<and> rq = \<lparr>rq_key = py_strip (the key), rq_upload = u, rq_envelope = e, rq_actor = actor, rq_actor_display = display\<rparr>
    \<and> receive_invoice jl num sv carriers w rq db = (r, db')
    \<and> answer = (case r of Inl x \<Rightarrow> refusal x | Inr (s, replay) \<Rightarrow> Answered (if replay then 200 else 201) s)")
  case False
  with assms(1,4) have "db' = db" "\<And>n s. answer \<noteq> Answered n s"
    by (auto simp: create_demo_invoice_def Let_def split: if_splits sum.splits prod.splits)
  with assms(2) show ?thesis by blast
next
  case True
  then obtain e rq r where e: "checked_upload (reading (up_body u)) (up_body u) filename = Inr e"
    and rq: "rq = \<lparr>rq_key = py_strip (the key), rq_upload = u, rq_envelope = e, rq_actor = actor, rq_actor_display = display\<rparr>"
    and r: "receive_invoice jl num sv carriers w rq db = (r, db')"
    and a: "answer = (case r of Inl x \<Rightarrow> refusal x | Inr (s, replay) \<Rightarrow> Answered (if replay then 200 else 201) s)" by blast
  from checked_envelope [OF e] have whole: "up_body u = file" by (simp add: assms(4) min_def split: if_splits)
  show ?thesis
  proof (cases "tenant_id sv")
    case None
    with r have "db' = db" "\<exists>x. r = Inl x" by (auto simp: receive_invoice_def giving_def)
    with assms(2) a show ?thesis by (auto simp: refusal_def Let_def split: upload_error.splits)
  next
    case (Some t)
    from kept_receive [where rq = rq and sv = sv, OF assms(3) _ _ Some] checked_envelope [OF e] assms(5) rq
    have "ensures_sound U (\<lambda>_. True) (receive_invoice jl num sv carriers w rq) (\<lambda>_. completed_with t (py_strip (the key)) u)"
      by simp
    with r assms(2) have s: "uploads_sound U db'" and c: "\<And>x. r = Inr x \<Longrightarrow> completed_with t (py_strip (the key)) u db'"
      unfolding ensures_sound_def by blast+
    have "\<exists>x. r = Inr x" if "answer = Answered n s" for n s
      using that a by (cases r) (auto simp: refusal_def Let_def split: upload_error.splits)
    with c completed_source [OF s _ assms(6)] assms(5,6) exact_digest whole s Some show ?thesis by metis
  qed
qed

section \<open>A first upload\<close>

definition sample_file :: string where
  "sample_file = ''%PDF-1.7''"

definition sample_bucket :: object_store where
  "sample_bucket =
     \<lparr>os_put = (\<lambda>k body c d. Some (Some ''v1'')),
      os_head = (\<lambda>k v. Some \<lparr>oh_version = Some v, oh_length = 8, oh_digest = Some (sha256_hexdigest sample_file),
        oh_checksum = None\<rparr>),
      os_get = (\<lambda>b k v. Some sample_file)\<rparr>"

definition sample_service :: intake_service where
  "sample_service = \<lparr>sv_tenant = ''t'', sv_bucket = ''b'', sv_prefix = ''p'', sv_store = sample_bucket\<rparr>"

definition sample_reading :: "string \<Rightarrow> pdf_reading" where
  "sample_reading body = \<lparr>pr_open = Inr 1, pr_page = (\<lambda>k. Inr 7)\<rparr>"

definition sample_upload :: upload where
  "sample_upload =
     \<lparr>up_body = take (maximum_pdf_bytes + 1) sample_file, up_scenario = ''locked-inv-1048'', up_source = ''operator_import''\<rparr>"

definition sample_limits :: json_limits where
  "sample_limits = \<lparr>jl_float = (\<lambda>s. JNull), jl_wide = (\<lambda>n. [])\<rparr>"

abbreviation first_upload :: "db \<Rightarrow> json answer \<times> db" where
  "first_upload \<equiv> create_demo_invoice sample_limits (\<lambda>x. JNull) sample_service (\<lambda>t. Some ''c'') alone sample_reading
     sample_file (Some ''a.pdf'') ''locked-inv-1048'' ''operator_import'' (Some ''k'') None ''a''"

lemma sample_body: "up_body sample_upload = sample_file"
  by (simp add: sample_upload_def sample_file_def maximum_pdf_bytes_def)

lemma sample_envelope:
  "checked_upload (sample_reading sample_file) sample_file (Some ''a.pdf'') = Inr (PdfEnvelope ''a.pdf'' 8 (sha256_hexdigest sample_file))"
proof -
  have "normalize_display_filename (Some ''a.pdf'') = ''a.pdf''" by code_simp
  moreover have "starts_with ''%PDF-'' sample_file" "length sample_file = 8" "sample_file \<noteq> []"
    by (simp_all add: sample_file_def starts_with_def)
  ultimately show ?thesis
    by (simp add: checked_upload_def validate_pdf_envelope_def sample_reading_def maximum_pdf_bytes_def
        validate_supported_pdf_def max_pdf_pages_def max_pdf_parse_us_def)
qed

lemma sample_names:
  "tenant_id sample_service = Some ''t''" "source_store sample_service = Some ''b''" "py_strip ''k'' = ''k''"
  "py_strip ''v1'' = ''v1''"
proof -
  have "py_strip ''t'' = ''t''" "py_strip ''b'' = ''b''" by code_simp+
  then show "tenant_id sample_service = Some ''t''" "source_store sample_service = Some ''b''"
    by (simp_all add: tenant_id_def source_store_def sample_service_def)
  show "py_strip ''k'' = ''k''" "py_strip ''v1'' = ''v1''" by code_simp+
qed

definition sample_preserved :: stored_source where
  "sample_preserved =
     \<lparr>ss_bucket = ''b'', ss_key = source_key_of ''p'' (work_id 1), ss_version = ''v1'', ss_sha256 = sha256_hexdigest sample_file,
      ss_bytes = 8\<rparr>"

lemma sample_preserve:
  "preserve (sv_store sample_service) ''b'' (sv_prefix sample_service) (work_id 1) sample_file = Inr sample_preserved"
proof -
  have "length sample_file = 8" by (simp add: sample_file_def)
  then show ?thesis
    by (simp add: preserve_def sample_service_def sample_bucket_def sample_preserved_def Let_def sample_names)
qed

definition sample_request :: request where
  "sample_request =
     \<lparr>rq_key = ''k'', rq_upload = sample_upload, rq_envelope = PdfEnvelope ''a.pdf'' 8 (sha256_hexdigest sample_file),
      rq_actor = None, rq_actor_display = ''a''\<rparr>"

lemma sample_request_sel:
  "rq_key sample_request = ''k''" "rq_upload sample_request = sample_upload" "rq_actor sample_request = None"
  "rq_envelope sample_request = PdfEnvelope ''a.pdf'' 8 (sha256_hexdigest sample_file)" "rq_actor_display sample_request = ''a''"
  by (simp_all add: sample_request_def)

definition requested :: "string \<Rightarrow> stored_source option \<Rightarrow> db" where
  "requested state stored = empty_db\<lparr>db_ingestions :=
     [\<lparr>ig_tenant = ''t'', ig_key = ''k'', ig_hash = request_hash sample_upload, ig_state = state, ig_initiated = None,
       ig_actor = ''a'', ig_invoice = work_id 0, ig_source = work_id 1, ig_stored = stored, ig_snapshot = None,
       ig_duplicate = None\<rparr>]\<rparr>"

lemma sample_reserving:
  "reserving alone ''t'' sample_request empty_db =
     (Inr \<lparr>ir_invoice = work_id 0, ir_source = work_id 1, ir_state = ''RESERVED'', ir_snapshot = None, ir_new = True,
        ir_stored = None\<rparr>, requested ''RESERVED'' None)"
  by (simp add: reserving_def in_tx_def transact_alone reserve_ingestion_def insert_ingestion_def sample_request_sel
      tx_run insert_row_def find_ingestion_def ingestion_key_def requested_def reservation_of_def)

lemma sample_finalized:
  "\<exists>s db'. finalize_received_invoice ''t'' (receipt_of sample_request ''c'' sample_preserved) 0 work_id
     (requested ''SOURCE_STORED_DB_PENDING'' (Some sample_preserved)) = Inr (s, db')"
  by (simp add: finalize_received_invoice_def with_ingestion_def find_ingestion_def requested_def receipt_of_def sample_request_sel
      ingestion_key_def tx_run insert_received_def insert_event_def insert_row_def update_ingestion_def)

lemma sample_received:
  "\<exists>s db'. receive_invoice sample_limits (\<lambda>x. JNull) sample_service (\<lambda>t. Some ''c'') alone sample_request empty_db =
     (Inr (s, False), db')"
proof -
  have r: "record_source_stored ''t'' ''k'' (request_hash sample_upload) sample_preserved (requested ''RESERVED'' None) =
      Inr ((), requested ''SOURCE_STORED_DB_PENDING'' (Some sample_preserved))"
    by (simp add: record_source_stored_def with_ingestion_def find_ingestion_def requested_def ingestion_key_def tx_run
        update_ingestion_def update_rows_def)
  have i: "db_invoices (requested x y) = []" for x y by (simp add: requested_def)
  have s: "up_source (rq_upload sample_request) \<in> set allowed_import_sources"
    by (simp add: sample_request_def sample_upload_def allowed_import_sources_def)
  have p: "preserving sample_service alone ''t'' sample_request (work_id 1) (requested ''RESERVED'' None) =
      (Inr sample_preserved, requested ''SOURCE_STORED_DB_PENDING'' (Some sample_preserved))"
    using sample_preserve by (simp add: preserving_def sample_names sample_request_sel sample_body and_then_def in_tx_def
        transact_alone r giving_def)
  from sample_finalized obtain s db' where f: "finalize_received_invoice ''t'' (receipt_of sample_request ''c'' sample_preserved)
      0 work_id (requested ''SOURCE_STORED_DB_PENDING'' (Some sample_preserved)) = Inr (s, db')" by blast
  show ?thesis
    using p f s
    by (simp add: receive_invoice_def sample_names and_then_def sample_reserving seeing_def find_invoice_by_sha_def
        i receive_new_def load_demo_carrier_id_def giving_def in_tx_def transact_alone sample_request_sel)
qed

theorem upload_kept_exactly_witness:
  "\<exists>s db' src. first_upload empty_db = (Answered 201 s, db') \<and> uploads_sound {sample_upload} db' \<and> src \<in> set (db_sources db')
     \<and> (\<forall>store body. get_exact store (stored_of src) = Inr body \<longrightarrow> body = sample_file \<or> sha_collision body sample_file)"
proof -
  from sample_received obtain s db' where
    r: "receive_invoice sample_limits (\<lambda>x. JNull) sample_service (\<lambda>t. Some ''c'') alone sample_request empty_db = (Inr (s, False), db')"
    by blast
  have plain: "plain_upload sample_upload"
    by (rule allowed_plain) (simp_all add: sample_upload_def allowed_scenarios_def allowed_import_sources_def)
  have rq: "\<lparr>rq_key = ''k'', rq_upload = \<lparr>up_body = sample_file, up_scenario = ''locked-inv-1048'', up_source = ''operator_import''\<rparr>,
      rq_envelope = PdfEnvelope ''a.pdf'' 8 (sha256_hexdigest sample_file), rq_actor = None, rq_actor_display = ''a''\<rparr> = sample_request"
    using sample_body by (simp add: sample_request_def sample_upload_def)
  have "up_body sample_upload = take (maximum_pdf_bytes + 1) sample_file" by (simp add: sample_upload_def)
  then have b: "take (maximum_pdf_bytes + 1) sample_file = sample_file" by (simp add: sample_body)
  have f: "first_upload empty_db = (Answered 201 s, db')"
    unfolding create_demo_invoice_def Let_def b sample_envelope
    by (simp add: sample_names allowed_scenarios_def allowed_import_sources_def rq r truthy_def)
  have e: "uploads_sound {sample_upload} empty_db" by (simp add: uploads_sound_def)
  note k = upload_kept_exactly [OF f e _ sample_upload_def, simplified, OF plain]
  from k have "uploads_sound {sample_upload} db'" by blast
  moreover from k obtain src where "src \<in> set (db_sources db')"
    "\<forall>store body. get_exact store (stored_of src) = Inr body \<longrightarrow> body = sample_file \<or> sha_collision body sample_file" by blast
  ultimately show ?thesis using f by blast
qed

text \<open>The version an answer is tagged with is the one that a retry with this tag expects.\<close>

lemma digit_groups_digits: "s \<noteq> [] \<Longrightarrow> \<forall>c \<in> set s. is_digit c \<Longrightarrow> digit_groups s"
proof (induction s rule: digit_groups.induct)
  case (3 c d ds)
  have "\<not> is_digit (CHR ''_'')" by (simp add: is_digit_def code_def)
  with 3 show ?case by (cases "d = CHR ''_''") auto
qed auto

lemma digit_facts: "is_digit c \<Longrightarrow> \<not> is_space c \<and> c \<noteq> CHR ''-'' \<and> c \<noteq> CHR ''+'' \<and> c \<noteq> CHR ''_''"
  by (auto simp: is_digit_def is_space_def code_def)

lemma dropWhile_none: "\<forall>c \<in> set s. \<not> p c \<Longrightarrow> dropWhile p s = s"
  by (cases s) auto

lemma read_version: "py_int_of_string (show_nat n) = Some (int n)"
proof -
  have d: "\<And>c. c \<in> set (show_nat n) \<Longrightarrow> is_digit c" by (rule show_nat_digits)
  obtain c cs where s: "show_nat n = c # cs" by (cases "show_nat n") auto
  have "py_strip (show_nat n) = show_nat n"
    using d digit_facts by (simp add: py_strip_def lstrip_by_def rstrip_by_def dropWhile_none)
  moreover have "filter (\<lambda>c. c \<noteq> CHR ''_'') (show_nat n) = show_nat n"
    using d digit_facts by (auto simp: filter_id_conv)
  moreover have "digit_groups (show_nat n)" using d by (intro digit_groups_digits) auto
  moreover have "c \<noteq> CHR ''-'' \<and> c \<noteq> CHR ''+''" using d [of c] digit_facts s by auto
  ultimately show ?thesis using s read_show_nat [of n] by (simp add: py_int_of_string_def Let_def)
qed

lemma etag_names_version: "parse_invoice_etag invoice (Some (invoice_etag invoice v)) = Inr (int v)"
  by (simp add: parse_invoice_etag_def invoice_etag_def truthy_def starts_with_def Let_def butlast_append show_int_def read_version)

end
