(* ===== verification/Spec2Isabelle.thy ===== *)
theory Spec2Isabelle
  imports Prelude PyText Sha256 Json PyTime PyNum Digest Gate Judgment ApplicableRule
    Reconstruction SealManifest Correspondence Intake IntakeClaims Clerk Db Tx Lease IntakeTasks
    IntakeTaskFacts AuthoritySeal Sending Workers ReconstructionTasks RuleTasks JudgmentTasks AccessEvidence
    IntakeReceipts EventFeed Pipeline Shapes VersionFacts Handoff
    MemoryRead WorkerLoops EndToEnd
    VectorRetrieval JsonParse Projection SourceStore Upload
begin

text \<open>
  Tally audits ocean-carrier demurrage and detention invoices. A PDF invoice is uploaded; a worker
  extracts its claims with a language model and validates them; the shipment is reconstructed from
  recorded events; an applicable tariff rule is chosen; each charged day is judged; a recommendation
  is frozen, approved by a human and sealed; a letter is drafted from the seal and sent when six
  fresh gates verify. The models only propose: every decision is made by deterministic code under
  \<open>src/core/\<close>, every change of state by a transaction under \<open>src/platform/\<close>. These theories
  model that code.

  \<^bold>\<open>Python and its library.\<close>
  \<^item> \<open>Prelude\<close>, \<open>PyText\<close>, \<open>PyTime\<close>, \<open>PyNum\<close>: lists, strings (\<open>str.strip\<close>, \<open>str.upper\<close>, grouped
    and padded printing), dates and datetimes with offsets (\<open>fromisoformat\<close>, \<open>isoformat\<close>), decimals.
  \<^item> \<open>Json\<close>, \<open>Sha256\<close>, \<open>Digest\<close>: canonical JSON with its injectivity on canonical values, SHA-256
    on 32-bit words, and the locale \<open>digest_commitment\<close>: a digest commits to what it hashes, or two
    different byte strings with the same SHA-256 are exhibited. No theorem assumes that there are
    no collisions.
  \<^item> \<open>Gate\<close>: the locale \<open>fail_closed_gate\<close> of an ordered list of checks, shared by the candidate
    validators and the send gates.

  \<^bold>\<open>Decisions\<close> (\<open>src/core/\<close>).
  \<^item> \<open>Intake\<close> (\<open>intake.py\<close>): states and transitions, PDF envelope, fingerprint, public events.
  \<^item> \<open>IntakeClaims\<close> (\<open>intake_claims.py\<close>): anchoring, normalisation and cross checks of claims.
  \<^item> \<open>Reconstruction\<close> (\<open>reconstruction.py\<close>): event validation, the chargeable window, the per-day
    adjudication. \<open>ApplicableRule\<close> (\<open>applicable_rule.py\<close>): nine validators, the choice.
  \<^item> \<open>Judgment\<close> (\<open>judgment.py\<close>): day judgments and the recommendation. \<open>SealManifest\<close>
    (\<open>seal_manifest.py\<close>). \<open>Correspondence\<close> (\<open>correspondence.py\<close>): locked fields, prose check, gates.
  \<^item> \<open>Clerk\<close> (\<open>fields.py\<close>, \<open>extraction.py\<close>, \<open>clerk_steps.py\<close>, \<open>verdict.py\<close>): the quote gate and the
    deterministic checks of the invoice form.
  \<^item> \<open>VectorRetrieval\<close> (\<open>vector_retrieval.py\<close>): the filters of a clause, the ranking, the index by scope,
    which is proved equal to its brute-force reference.

  \<^bold>\<open>Transactions\<close> (\<open>src/platform/\<close>, \<open>src/external/\<close>).
  \<^item> \<open>Db\<close>: the tables as lists of records, one list per table, with the columns the transactions use;
    \<open>run_with_retry\<close> of \<open>db.py\<close> over an explicit list of restarts; the invoice counter, event log
    and outbox. \<open>Tx\<close>: transactions as functions from a database to an error or a result and a new
    database, their combinators, and the locale \<open>tx_frame\<close> of what a transaction keeps, interpreted
    for tenant isolation, for the append-only history and for dense event numbers.
  \<^item> \<open>Lease\<close>: the locale \<open>fenced_lease\<close>, histories of claiming and settling leases.
  \<^item> \<open>IntakeTasks\<close>, \<open>IntakeTaskFacts\<close> (\<open>intake_tasks.py\<close>): claim, complete, fail, retry.
  \<^item> \<open>AuthoritySeal\<close> (\<open>authority_seal_repository.py\<close>): approve and seal.
  \<^item> \<open>Sending\<close> (\<open>correspondence_repository.py\<close>, \<open>send_gates.py\<close>, \<open>controlled_mail.py\<close>): drafting and
    sending. The provider is a state beside the database, which a rollback does not undo.

  \<^item> \<open>Workers\<close>: what the repositories below share: the next task, the attempt, the lease of a task, its
    release and completion. \<open>ReconstructionTasks\<close> (\<open>reconstruction_repository.py\<close>), \<open>RuleTasks\<close>
    (\<open>applicable_rule_repository.py\<close>), \<open>JudgmentTasks\<close> (\<open>judgment_repository.py\<close>), \<open>AccessEvidence\<close>
    (\<open>access_evidence_repository.py\<close>), \<open>IntakeReceipts\<close> (\<open>intake_repository.py\<close>): every transaction of
    each file, with the frame it keeps.
  \<^item> \<open>EventFeed\<close> (\<open>intake_events.py\<close>): the projection of the log, its pages, the relay of the outbox, the
    rounds of the stream.
  \<^item> \<open>MemoryRead\<close> (\<open>reconstruction_mcp.py\<close>): the query of the reconstruction memory and the decoding of
    its rows. \<open>WorkerLoops\<close> (the five \<open>*_worker.py\<close>): one iteration of each worker as a process, a
    sequence of transactions with arbitrary commits of others in between. The locale \<open>settling_worker\<close>, of
    workers whose every way out settles the lease, is interpreted for all five.

  \<^bold>\<open>The public API\<close> (\<open>src/platform/intake_api.py\<close>, \<open>reconstruction_api.py\<close>).
  \<^item> \<open>JsonParse\<close>: \<open>json.loads\<close>, with fuel of twice the length of the text and two, proved enough, and the
    round trip with what \<open>Json\<close> prints.
  \<^item> \<open>Projection\<close>: the two projections the public reads. They depend on no private column and on no other
    tenant.
  \<^item> \<open>SourceStore\<close> (\<open>invoice_source_store.py\<close>): preserving an upload in a versioned bucket and reading it back.
  \<^item> \<open>Upload\<close>: the routes of the intake, the checks of a PDF, \<open>receive_invoice\<close> as a sequence of transactions
    with those of others in between. An upload is kept exactly as it was sent.

  \<^bold>\<open>Across the components.\<close>
  \<^item> \<open>Pipeline\<close>: every transaction of every repository as one step relation. Its histories keep
    tenants apart, the log and the versions append-only and the events numbered and presentable;
    the locale \<open>fenced_lease\<close> is interpreted for all workers at once.
  \<^item> \<open>Shapes\<close>: which columns of a task, an attempt and an invoice go together, in every history.
  \<^item> \<open>VersionFacts\<close>: what one completion leaves: one recommendation for the same inputs, a rule only
    where one was verified, evidence bound only where it was verified, one invoice for one upload.
  \<^item> \<open>Handoff\<close>: the claims that intake validates are what the reconstruction reads.
  \<^item> \<open>EndToEnd\<close>: whole iterations of the workers. No iteration returns with its lease running; a rate
    comes only from a clause that governs the charge; days come only from validated rows.

  \<^bold>\<open>How the model reads the code.\<close> A transaction runs alone (the database is serialisable): what
  concurrency leaves is the order of committed transactions (\<open>pipeline_step\<close>, \<open>lease_run\<close>, \<open>authority_run\<close>)
  and restarts, given as a list of any length and content; \<open>run_with_retry\<close> stops after the
  source's number of retries, so no fuel is used anywhere. An exception or a violated unique index
  is an \<open>Inl\<close> value and discards the changes. \<open>FOR UPDATE SKIP LOCKED\<close> is a predicate of the
  rows that are locked by others. A fresh \<open>uuid4\<close> is the next value of a stream \<open>ids\<close>, the clock the
  argument \<open>now\<close> in microseconds; both are arbitrary. Columns with a constant value and response
  snapshots that nothing reads back are left out of the records.

  \<^bold>\<open>Parameters\<close> (code that is not in the repository): the zone database \<open>tz\<close>, the date parser of
  dateutil, the language models (the proposed fields, the writer of prose), the pages of a PDF, the embedding and the
  search of clauses and the distance of two embeddings, the answers of the CockroachDB MCP server and of a
  query over the driver, the object store, the table of carriers, the reading of floating-point numbers and of
  characters beyond Latin-1 in JSON.

  \<^bold>\<open>Not modelled.\<close> Foreign keys and primary keys on generated identifiers, except where a unique
  index decides a behaviour; binary floating point (coordinates are rationals, and two decimals of a
  quotient by 100 are printed exactly, which agrees below \<open>2 ^ 53\<close>); the routes of the other HTTP APIs, the
  demo restore, and the clients of AWS and of the CockroachDB MCP server, which wire the modelled
  functions to the network; the capture jobs; migrations and scripts.
\<close>

end
